(* ===== verification/GoPrelude.thy ===== *)
theory GoPrelude
  imports Main "HOL-Library.Word" "HOL-Library.Signed_Division"
begin

text \<open>
  Shared vocabulary of the development: machine integers and byte strings, the big-endian
  encodings of Go's \<open>encoding/binary\<close>, the number formatting and parsing of \<open>fmt\<close> and
  \<open>strconv\<close>, bounds-checked slices, and the generic lemmas on lists, maps and words that
  the component theories rely on. The collection \<open>be_simps\<close> gathers the rewrite rules for
  byte encodings, \<open>str_simps\<close> those for number parsing and printing.
\<close>

unbundle bit_operations_syntax

named_theorems be_simps
named_theorems str_simps

type_synonym byte = "8 word"
type_synonym bytes = "byte list"
type_synonym u16 = "16 word"
type_synonym u32 = "32 word"
type_synonym u64 = "64 word"

section \<open>Big-endian encodings\<close>

text \<open>
  \<open>nat_be n v\<close> is the \<open>n\<close>-byte big-endian image of \<open>v\<close>, \<open>be_nat\<close> reads such an image
  back. The fixed-width functions of \<open>binary.BigEndian\<close> are instances.
\<close>

fun nat_be :: "nat \<Rightarrow> nat \<Rightarrow> bytes" where
  "nat_be 0 v = []"
| "nat_be (Suc n) v = nat_be n (v div 256) @ [of_nat v]"

definition be_nat :: "bytes \<Rightarrow> nat" where
  "be_nat bs = foldl (\<lambda>a b. a * 256 + unat b) 0 bs"

definition put_u16 :: "u16 \<Rightarrow> bytes" where
  "put_u16 v = nat_be 2 (unat v)"

definition put_u32 :: "u32 \<Rightarrow> bytes" where
  "put_u32 v = nat_be 4 (unat v)"

definition put_u64 :: "u64 \<Rightarrow> bytes" where
  "put_u64 v = nat_be 8 (unat v)"

definition get_u16 :: "bytes \<Rightarrow> u16" where
  "get_u16 bs = of_nat (be_nat bs)"

definition get_u32 :: "bytes \<Rightarrow> u32" where
  "get_u32 bs = of_nat (be_nat bs)"

definition get_u64 :: "bytes \<Rightarrow> u64" where
  "get_u64 bs = of_nat (be_nat bs)"

lemma unat_bound: "unat (w :: 'a::len word) < 2 ^ LENGTH('a)"
  by (rule unsigned_less)

lemma unat_of_nat_u32: "k < 2 ^ 32 \<Longrightarrow> unat (of_nat k :: u32) = k"
  by (simp add: unat_of_nat)

lemma unat_of_nat_u64: "k < 2 ^ 64 \<Longrightarrow> unat (of_nat k :: u64) = k"
  by (simp add: unat_of_nat)

lemma length_nat_be [simp, be_simps]: "length (nat_be n v) = n"
  by (induction n arbitrary: v) auto

lemma be_nat_Nil [simp]: "be_nat [] = 0"
  by (simp add: be_nat_def)

lemma be_nat_snoc [simp]: "be_nat (bs @ [b]) = be_nat bs * 256 + unat b"
  by (simp add: be_nat_def)

lemma unat_byte_of_nat: "unat (of_nat v :: byte) = v mod 256"
  by (simp add: unat_of_nat)

lemma be_nat_nat_be: "be_nat (nat_be n v) = v mod 256 ^ n"
proof (induction n arbitrary: v)
  case 0
  then show ?case by simp
next
  case (Suc n)
  have "v mod 256 ^ Suc n = 256 * (v div 256 mod 256 ^ n) + v mod 256"
    by (simp add: mod_mult2_eq)
  with Suc show ?case by (simp add: unat_byte_of_nat)
qed

lemma be_nat_bound: "be_nat bs < 256 ^ length bs"
proof (induction bs rule: rev_induct)
  case Nil
  then show ?case by simp
next
  case (snoc b bs)
  have "unat b < 256" using unat_bound [of b] by simp
  with snoc show ?case by simp
qed

lemma nat_be_be_nat: "nat_be (length bs) (be_nat bs) = bs"
proof (induction bs rule: rev_induct)
  case Nil
  then show ?case by simp
next
  case (snoc b bs)
  have b: "unat b < 256" using unat_bound [of b] by simp
  have d: "(be_nat bs * 256 + unat b) div 256 = be_nat bs" using b by simp
  have "of_nat (be_nat bs * 256 + unat b) = b"
    using b by (simp add: word_unat_eq_iff unat_byte_of_nat del: of_nat_add of_nat_mult)
  then show ?case using snoc d by simp
qed

lemma get_put_u16 [simp, be_simps]: "get_u16 (put_u16 v) = v"
proof -
  have "unat v < 256 ^ 2" using unat_bound [of v] by simp
  then show ?thesis by (simp add: get_u16_def put_u16_def be_nat_nat_be)
qed

lemma get_put_u32 [simp, be_simps]: "get_u32 (put_u32 v) = v"
proof -
  have "unat v < 256 ^ 4" using unat_bound [of v] by simp
  then show ?thesis by (simp add: get_u32_def put_u32_def be_nat_nat_be)
qed

lemma get_put_u64 [simp, be_simps]: "get_u64 (put_u64 v) = v"
proof -
  have "unat v < 256 ^ 8" using unat_bound [of v] by simp
  then show ?thesis by (simp add: get_u64_def put_u64_def be_nat_nat_be)
qed

lemma unat_get_u16: "length bs = 2 \<Longrightarrow> unat (get_u16 bs) = be_nat bs"
  using be_nat_bound [of bs] by (simp add: get_u16_def unat_of_nat)

lemma unat_get_u32: "length bs = 4 \<Longrightarrow> unat (get_u32 bs) = be_nat bs"
  using be_nat_bound [of bs] by (simp add: get_u32_def unat_of_nat)

lemma unat_get_u64: "length bs = 8 \<Longrightarrow> unat (get_u64 bs) = be_nat bs"
  using be_nat_bound [of bs] by (simp add: get_u64_def unat_of_nat)

lemma put_get_u16: "length bs = 2 \<Longrightarrow> put_u16 (get_u16 bs) = bs"
  using nat_be_be_nat [of bs] by (simp add: put_u16_def unat_get_u16)

lemma put_get_u32: "length bs = 4 \<Longrightarrow> put_u32 (get_u32 bs) = bs"
  using nat_be_be_nat [of bs] by (simp add: put_u32_def unat_get_u32)

lemma put_get_u64: "length bs = 8 \<Longrightarrow> put_u64 (get_u64 bs) = bs"
  using nat_be_be_nat [of bs] by (simp add: put_u64_def unat_get_u64)

lemma length_put [simp, be_simps]:
  "length (put_u16 a) = 2" "length (put_u32 b) = 4" "length (put_u64 c) = 8"
  by (simp_all add: put_u16_def put_u32_def put_u64_def)

text \<open>Go's \<open>int\<close> and \<open>int64\<close> wrap around at 64 bits.\<close>

definition wrap64 :: "int \<Rightarrow> int" where
  "wrap64 x = (x + 2 ^ 63) mod 2 ^ 64 - 2 ^ 63"

lemma wrap64_id [simp]: "- (2 ^ 63) \<le> x \<Longrightarrow> x < 2 ^ 63 \<Longrightarrow> wrap64 x = x"
  by (simp add: wrap64_def)

lemma wrap64_range: "- (2 ^ 63) \<le> wrap64 x" "wrap64 x < 2 ^ 63"
  by (simp_all add: wrap64_def)

section \<open>Slices\<close>

text \<open>
  \<open>s[lo:hi]\<close> of a Go slice whose capacity equals its length: a run-time panic (here
  \<^term>\<open>None\<close>) unless \<open>lo \<le> hi \<le> len s\<close>.
\<close>

definition slice :: "'a list \<Rightarrow> nat \<Rightarrow> nat \<Rightarrow> 'a list option" where
  "slice xs lo hi = (if lo \<le> hi \<and> hi \<le> length xs then Some (take (hi - lo) (drop lo xs)) else None)"

text \<open>
  \<open>copy(dst[off:off+n], src)\<close>: panics when the target slice is out of range, otherwise
  overwrites \<open>min n (len src)\<close> bytes and keeps the rest of \<open>dst\<close>.
\<close>

definition copy_at :: "'a list \<Rightarrow> nat \<Rightarrow> nat \<Rightarrow> 'a list \<Rightarrow> 'a list option" where
  "copy_at dst off n src =
     (if off + n \<le> length dst
      then Some (take off dst @ take n src @ drop (off + min n (length src)) dst)
      else None)"

definition set_at :: "'a list \<Rightarrow> nat \<Rightarrow> 'a \<Rightarrow> 'a list option" where
  "set_at dst off b = (if off < length dst then Some (dst[off := b]) else None)"

lemma length_copy_at: "copy_at dst off n src = Some dst' \<Longrightarrow> length dst' = length dst"
  by (auto simp: copy_at_def split: if_splits)

lemma length_set_at: "set_at dst off b = Some dst' \<Longrightarrow> length dst' = length dst"
  by (auto simp: set_at_def split: if_splits)

text \<open>
  A buffer that is filled from left to right: its first part holds what was written, the
  rest is still zero. The next two rules turn the offset arithmetic of the code into
  concatenation.
\<close>

lemma copy_at_append:
  assumes "length pre = off" "length src = n" "n \<le> k"
  shows "copy_at (pre @ replicate k z) off n src = Some ((pre @ src) @ replicate (k - n) z)"
  using assms by (simp add: copy_at_def)

lemma set_at_append:
  assumes "length pre = off" "0 < k"
  shows "set_at (pre @ replicate k z) off b = Some ((pre @ [b]) @ replicate (k - 1) z)"
  using assms by (cases k) (simp_all add: set_at_def list_update_append)

section \<open>Results that may fail\<close>

text \<open>
  A Go function that returns \<open>(T, error)\<close> returns a sum here, \<^term>\<open>Inl\<close> the error.
  \<open>ebind\<close> is the \<open>if err != nil { return err }\<close> idiom, \<open>require\<close> the guard that
  returns an error when its condition fails.
\<close>

definition ebind :: "'e + 'a \<Rightarrow> ('a \<Rightarrow> 'e + 'b) \<Rightarrow> 'e + 'b" where
  "ebind r f = (case r of Inl e \<Rightarrow> Inl e | Inr x \<Rightarrow> f x)"

definition require :: "bool \<Rightarrow> 'e \<Rightarrow> 'e + unit" where
  "require c e = (if c then Inr () else Inl e)"

definition from_option :: "'e \<Rightarrow> 'a option \<Rightarrow> 'e + 'a" where
  "from_option e r = (case r of None \<Rightarrow> Inl e | Some x \<Rightarrow> Inr x)"

lemma ebind_simps [simp]: "ebind (Inl e) f = Inl e" "ebind (Inr x) f = f x"
  by (simp_all add: ebind_def)

lemma require_simps [simp]: "require True e = Inr ()" "require False e = Inl e"
  by (simp_all add: require_def)

lemma from_option_simps [simp]: "from_option e None = Inl e" "from_option e (Some x) = Inr x"
  by (simp_all add: from_option_def)

lemma ebind_eq_Inr: "ebind r f = Inr y \<longleftrightarrow> (\<exists>x. r = Inr x \<and> f x = Inr y)"
  by (cases r) auto

lemma ebind_eq_Inl: "ebind r f = Inl e \<longleftrightarrow> r = Inl e \<or> (\<exists>x. r = Inr x \<and> f x = Inl e)"
  by (cases r) auto

lemma require_eq [simp]: "require c e = Inr u \<longleftrightarrow> c" "require c e = Inl e' \<longleftrightarrow> \<not> c \<and> e' = e"
  by (auto simp: require_def)

lemma from_option_eq [simp]:
  "from_option e r = Inr x \<longleftrightarrow> r = Some x" "from_option e r = Inl e' \<longleftrightarrow> r = None \<and> e' = e"
  by (auto simp: from_option_def split: option.splits)

section \<open>Printing and parsing of unsigned numbers\<close>

text \<open>\<open>digits b n\<close>: the base-\<open>b\<close> digits of \<open>n\<close>, most significant first.\<close>

fun digits :: "nat \<Rightarrow> nat \<Rightarrow> nat list" where
  "digits b n = (if b < 2 \<or> n < b then [n] else digits b (n div b) @ [n mod b])"

declare digits.simps [simp del]

definition digit_char :: "nat \<Rightarrow> char" where
  "digit_char d = (if d < 10 then char_of (48 + d) else char_of (87 + d))"

text \<open>The digit value of a character as \<open>strconv\<close> reads it (upper case accepted).\<close>

definition char_digit :: "char \<Rightarrow> nat option" where
  "char_digit c =
     (let n = (of_char c :: nat) in
      if 48 \<le> n \<and> n \<le> 57 then Some (n - 48)
      else if 97 \<le> n \<and> n \<le> 122 then Some (n - 87)
      else if 65 \<le> n \<and> n \<le> 90 then Some (n - 55)
      else None)"

definition format_uint :: "nat \<Rightarrow> nat \<Rightarrow> string" where
  "format_uint b n = map digit_char (digits b n)"

text \<open>The \<open>%0wx\<close> and \<open>%0wd\<close> verbs: zero padding up to width \<open>w\<close>.\<close>

definition pad_zero :: "nat \<Rightarrow> string \<Rightarrow> string" where
  "pad_zero w s = replicate (w - length s) (CHR ''0'') @ s"

fun parse_digits :: "nat \<Rightarrow> nat \<Rightarrow> string \<Rightarrow> nat option" where
  "parse_digits b acc [] = Some acc"
| "parse_digits b acc (c # cs) =
     (case char_digit c of
        None \<Rightarrow> None
      | Some d \<Rightarrow> if d < b then parse_digits b (acc * b + d) cs else None)"

text \<open>
  \<open>strconv.ParseUint(s, base, bits)\<close> for an explicit base: an error on the empty string,
  on a character that is not a digit of the base, and on a value that needs more bits.
\<close>

definition parse_uint :: "string \<Rightarrow> nat \<Rightarrow> nat \<Rightarrow> nat option" where
  "parse_uint s b bits =
     (if s = [] then None
      else case parse_digits b 0 s of
             None \<Rightarrow> None
           | Some n \<Rightarrow> if n < 2 ^ bits then Some n else None)"

lemma digits_nonempty [simp]: "digits b n \<noteq> []"
  by (subst digits.simps) simp

lemma digits_less: "2 \<le> b \<Longrightarrow> d \<in> set (digits b n) \<Longrightarrow> d < b"
proof (induction b n rule: digits.induct)
  case (1 b n)
  show ?case
  proof (cases "n < b")
    case True
    with 1 show ?thesis by (simp add: digits.simps [of b n])
  next
    case False
    with 1 show ?thesis by (auto simp: digits.simps [of b n])
  qed
qed

lemma foldl_digits: "2 \<le> b \<Longrightarrow> foldl (\<lambda>a d. a * b + d) 0 (digits b n) = n"
proof (induction b n rule: digits.induct)
  case (1 b n)
  show ?case
  proof (cases "n < b")
    case True
    then show ?thesis by (simp add: digits.simps [of b n])
  next
    case False
    with 1 have "foldl (\<lambda>a d. a * b + d) 0 (digits b (n div b)) = n div b" by simp
    with False "1.prems" show ?thesis
      by (simp add: digits.simps [of b n] mult.commute)
  qed
qed

lemma length_digits_le:
  assumes "2 \<le> b" and "n < b ^ k" and "0 < k"
  shows "length (digits b n) \<le> k"
  using assms
proof (induction b n arbitrary: k rule: digits.induct)
  case (1 b n)
  show ?case
  proof (cases "n < b")
    case True
    with 1 show ?thesis by (simp add: digits.simps [of b n])
  next
    case False
    with 1 obtain j where k: "k = Suc j" "0 < j"
      by (cases k) (fastforce simp: gr0_conv_Suc)+
    have "n div b < b ^ j" using "1.prems" k by (simp add: less_mult_imp_div_less mult.commute)
    with 1 False k have "length (digits b (n div b)) \<le> j" by simp
    with False k "1.prems" show ?thesis by (simp add: digits.simps [of b n])
  qed
qed

lemma char_digit_digit_char [simp, str_simps]: "d < 36 \<Longrightarrow> char_digit (digit_char d) = Some d"
  by (auto simp: char_digit_def digit_char_def Let_def)

lemma parse_digits_map:
  assumes "b \<le> 36" "\<forall>d \<in> set ds. d < b"
  shows "parse_digits b acc (map digit_char ds @ s) =
         parse_digits b (foldl (\<lambda>a d. a * b + d) acc ds) s"
  using assms by (induction ds arbitrary: acc) auto

lemma parse_digits_zeros [str_simps]:
  "0 < b \<Longrightarrow> parse_digits b 0 (replicate k (CHR ''0'') @ s) = parse_digits b 0 s"
  by (induction k) (simp_all add: char_digit_def)

lemma parse_digits_format [str_simps]:
  assumes "2 \<le> b" "b \<le> 36"
  shows "parse_digits b 0 (format_uint b n) = Some n"
  using parse_digits_map [of b "digits b n" 0 "[]"] assms digits_less [of b _ n]
  by (simp add: format_uint_def foldl_digits)

lemma parse_uint_format [str_simps]:
  assumes "2 \<le> b" "b \<le> 36" "n < 2 ^ bits"
  shows "parse_uint (format_uint b n) b bits = Some n"
  using assms by (simp add: parse_uint_def parse_digits_format) (simp add: format_uint_def)

lemma parse_uint_pad_zero [str_simps]:
  assumes "2 \<le> b" "b \<le> 36" "n < 2 ^ bits"
  shows "parse_uint (pad_zero w (format_uint b n)) b bits = Some n"
  using assms
  by (simp add: parse_uint_def pad_zero_def parse_digits_zeros parse_digits_format)
     (simp add: format_uint_def)

lemma parse_uint_bound: "parse_uint s b bits = Some n \<Longrightarrow> n < 2 ^ bits"
  by (auto simp: parse_uint_def split: if_splits option.splits)

lemma format_uint_nonempty [simp]: "format_uint b n \<noteq> []"
  by (simp add: format_uint_def)

lemma length_pad_zero:
  assumes "2 \<le> b" "n < b ^ w" "0 < w"
  shows "length (pad_zero w (format_uint b n)) = w"
  using length_digits_le [OF assms] by (simp add: pad_zero_def format_uint_def)

lemma format_uint_digit:
  assumes "2 \<le> b" "b \<le> 36" "c \<in> set (format_uint b n)"
  shows "char_digit c \<noteq> None"
  using assms digits_less [of b _ n] by (fastforce simp: format_uint_def)

lemma char_digit_zero [simp]: "char_digit (CHR ''0'') = Some 0"
  by (simp add: char_digit_def)

section \<open>Strings\<close>

text \<open>
  The functions of package \<open>strings\<close> the program uses. Go strings are byte strings, so
  positions count bytes, as the length of an Isabelle \<open>string\<close> does.
\<close>

definition is_space :: "char \<Rightarrow> bool" where
  "is_space c \<longleftrightarrow> (of_char c :: nat) \<in> {9, 10, 11, 12, 13, 32}"

definition TrimSpace :: "string \<Rightarrow> string" where
  "TrimSpace s = rev (dropWhile is_space (rev (dropWhile is_space s)))"

fun str_index :: "char \<Rightarrow> string \<Rightarrow> nat option" where
  "str_index c [] = None"
| "str_index c (x # xs) = (if x = c then Some 0 else map_option Suc (str_index c xs))"

fun str_last_index :: "char \<Rightarrow> string \<Rightarrow> nat option" where
  "str_last_index c [] = None"
| "str_last_index c (x # xs) =
     (case str_last_index c xs of
        Some i \<Rightarrow> Some (Suc i)
      | None \<Rightarrow> if x = c then Some 0 else None)"

fun str_split :: "char \<Rightarrow> string \<Rightarrow> string list" where
  "str_split c [] = [[]]"
| "str_split c (x # xs) =
     (if x = c then [] # str_split c xs
      else case str_split c xs of
             [] \<Rightarrow> [[x]]
           | p # ps \<Rightarrow> (x # p) # ps)"

lemma str_index_append [simp, str_simps]:
  "c \<notin> set xs \<Longrightarrow> str_index c (xs @ c # ys) = Some (length xs)"
  by (induction xs) auto

lemma str_index_None [simp, str_simps]: "str_index c xs = None \<longleftrightarrow> c \<notin> set xs"
  by (induction xs) auto

lemma str_last_index_None [simp, str_simps]: "str_last_index c xs = None \<longleftrightarrow> c \<notin> set xs"
  by (induction xs) (auto split: option.splits)

lemma str_last_index_append [simp, str_simps]:
  "c \<notin> set ys \<Longrightarrow> str_last_index c (xs @ c # ys) = Some (length xs)"
  by (induction xs) (auto split: option.splits)

lemma str_last_indexD:
  "str_last_index c xs = Some i \<Longrightarrow> i < length xs \<and> xs ! i = c \<and> c \<notin> set (drop (Suc i) xs)"
  by (induction xs arbitrary: i) (fastforce split: option.splits if_splits)+

lemma str_split_none [simp, str_simps]: "c \<notin> set xs \<Longrightarrow> str_split c xs = [xs]"
  by (induction xs) auto

lemma str_split_append [simp, str_simps]:
  "c \<notin> set xs \<Longrightarrow> str_split c (xs @ c # ys) = xs # str_split c ys"
  by (induction xs) auto

lemma parse_digits_bad: "c \<in> set s \<Longrightarrow> char_digit c = None \<Longrightarrow> parse_digits b acc s = None"
  by (induction s arbitrary: acc) (auto split: option.splits)

lemma parse_uint_bad [str_simps]:
  "c \<in> set s \<Longrightarrow> char_digit c = None \<Longrightarrow> parse_uint s b bits = None"
  by (auto simp: parse_uint_def parse_digits_bad)

lemma char_digit_separators [simp, str_simps]:
  "char_digit (CHR '','') = None" "char_digit (CHR '':'') = None" "char_digit (CHR ''.'') = None"
  by (simp_all add: char_digit_def)

lemma format_uint_no_separator [simp, str_simps]:
  "2 \<le> b \<Longrightarrow> b \<le> 36 \<Longrightarrow> CHR '','' \<notin> set (format_uint b n)"
  "2 \<le> b \<Longrightarrow> b \<le> 36 \<Longrightarrow> CHR '':'' \<notin> set (format_uint b n)"
  "2 \<le> b \<Longrightarrow> b \<le> 36 \<Longrightarrow> CHR ''.'' \<notin> set (format_uint b n)"
  using format_uint_digit [of b _ n] by fastforce+

section \<open>Strings as bytes\<close>

definition to_bytes :: "string \<Rightarrow> bytes" where "to_bytes s = map (\<lambda>c. of_nat (of_char c)) s"

definition of_bytes :: "bytes \<Rightarrow> string" where "of_bytes bs = map (\<lambda>b. char_of (unat b)) bs"

lemma of_to_bytes [simp]: "of_bytes (to_bytes s) = s"
proof -
  have "char_of (unat (of_nat (of_char c) :: byte)) = c" for c
    using nat_of_char_less_256 [of c] by (simp add: unat_byte_of_nat)
  then show ?thesis by (simp add: of_bytes_def to_bytes_def comp_def)
qed

lemma length_to_bytes [simp]: "length (to_bytes s) = length s"
  by (simp add: to_bytes_def)

end
