(* ===== verification/CoreTypes.thy ===== *)
theory CoreTypes
  imports GoPrelude
begin

text \<open>
  The core types of \<open>goblob/core/types/types.go\<close>: volume and needle identifiers, encoded
  offsets, file identifiers and their textual form, the one-byte replica placement, the
  two-byte time-to-live, and server addresses. The lemmas are the round trips of the three
  encodings, on which every on-disk and on-wire format of the system rests.
\<close>

type_synonym VolumeId = u32
type_synonym NeedleId = u64
type_synonym Cookie = u32
type_synonym Offset = u32
type_synonym Size = u32
type_synonym NeedleVersion = byte
type_synonym DiskType = string

definition NeedleAlignmentSize :: nat where
  "NeedleAlignmentSize = 8"

definition TombstoneFileSize :: Size where
  "TombstoneFileSize = 0"

definition NeedleIndexSize :: nat where
  "NeedleIndexSize = 16"

definition NeedleVersionV1 :: NeedleVersion where "NeedleVersionV1 = 1"

definition NeedleVersionV3 :: NeedleVersion where "NeedleVersionV3 = 3"

definition CurrentNeedleVersion :: NeedleVersion where "CurrentNeedleVersion = NeedleVersionV3"

definition GRPCPortOffset :: nat where
  "GRPCPortOffset = 10000"

text \<open>Parse errors, one per \<open>fmt.Errorf\<close> of the file.\<close>

datatype types_error =
    ErrNoComma | ErrHexTooShort | ErrVolumeId | ErrCookie | ErrNeedleId
  | ErrTTLTooShort | ErrTTLCount | ErrTTLUnit | ErrAddressFormat

section \<open>Offsets\<close>

definition ToActualOffset :: "Offset \<Rightarrow> int" where
  "ToActualOffset off = uint off * int NeedleAlignmentSize"

definition ToEncoded :: "int \<Rightarrow> Offset" where
  "ToEncoded actualOffset = word_of_int (actualOffset sdiv int NeedleAlignmentSize)"

record NeedleValue =
  nv_Key :: NeedleId
  nv_Offset :: Offset
  nv_Size :: Size

definition NeedleValue_IsDeleted :: "NeedleValue \<Rightarrow> bool" where
  "NeedleValue_IsDeleted nv \<longleftrightarrow> nv_Size nv = TombstoneFileSize"

section \<open>File identifiers\<close>

record FileId =
  fid_VolumeId :: VolumeId
  fid_NeedleId :: NeedleId
  fid_Cookie :: Cookie

definition FileId_String :: "FileId \<Rightarrow> string" where
  "FileId_String f =
     format_uint 10 (unat (fid_VolumeId f)) @ '','' @
     pad_zero 16 (format_uint 16 (unat (fid_NeedleId f))) @
     pad_zero 8 (format_uint 16 (unat (fid_Cookie f)))"

definition ParseFileId :: "string \<Rightarrow> types_error + FileId" where
  "ParseFileId s =
     (case str_index (CHR '','') s of
        None \<Rightarrow> Inl ErrNoComma
      | Some commaIdx \<Rightarrow>
          (let volumeIdStr = take commaIdx s; rest = drop (commaIdx + 1) s in
           if length rest < 9 then Inl ErrHexTooShort
           else case parse_uint volumeIdStr 10 32 of
             None \<Rightarrow> Inl ErrVolumeId
           | Some volumeId \<Rightarrow>
               (let cookieStr = drop (length rest - 8) rest in
                case parse_uint cookieStr 16 32 of
                  None \<Rightarrow> Inl ErrCookie
                | Some cookie \<Rightarrow>
                    (let needleIdStr = take (length rest - 8) rest in
                     case parse_uint needleIdStr 16 64 of
                       None \<Rightarrow> Inl ErrNeedleId
                     | Some needleId \<Rightarrow>
                         Inr \<lparr>fid_VolumeId = of_nat volumeId, fid_NeedleId = of_nat needleId,
                              fid_Cookie = of_nat cookie\<rparr>))))"

section \<open>Replica placement\<close>

record ReplicaPlacement =
  DifferentDataCenterCount :: byte
  DifferentRackCount :: byte
  SameRackCount :: byte

definition ReplicaPlacement_Byte :: "ReplicaPlacement \<Rightarrow> byte" where
  "ReplicaPlacement_Byte rp =
     push_bit 5 (DifferentDataCenterCount rp AND 0x07) OR
     push_bit 2 (DifferentRackCount rp AND 0x07) OR
     (SameRackCount rp AND 0x03)"

definition ParseReplicaPlacement :: "byte \<Rightarrow> ReplicaPlacement" where
  "ParseReplicaPlacement b =
     \<lparr>DifferentDataCenterCount = drop_bit 5 b AND 0x07,
      DifferentRackCount = drop_bit 2 b AND 0x07,
      SameRackCount = b AND 0x03\<rparr>"

definition TotalCopies :: "ReplicaPlacement \<Rightarrow> nat" where
  "TotalCopies rp =
     1 + unat (DifferentDataCenterCount rp) + unat (DifferentRackCount rp) + unat (SameRackCount rp)"

definition ReplicaPlacement_String :: "ReplicaPlacement \<Rightarrow> string" where
  "ReplicaPlacement_String rp =
     format_uint 10 (unat (DifferentDataCenterCount rp)) @
     format_uint 10 (unat (DifferentRackCount rp)) @
     format_uint 10 (unat (SameRackCount rp))"

definition placement_digit :: "string \<Rightarrow> nat \<Rightarrow> byte" where
  "placement_digit s i =
     (if i < length s \<and> 48 \<le> (of_char (s ! i) :: nat) \<and> (of_char (s ! i) :: nat) \<le> 57
      then of_nat (of_char (s ! i) - 48) else 0)"

definition ParseReplicaPlacementString :: "string \<Rightarrow> ReplicaPlacement" where
  "ParseReplicaPlacementString s =
     (if length s < 3
      then \<lparr>DifferentDataCenterCount = 0, DifferentRackCount = 0, SameRackCount = 0\<rparr>
      else \<lparr>DifferentDataCenterCount = placement_digit s 0,
            DifferentRackCount = placement_digit s 1,
            SameRackCount = placement_digit s 2\<rparr>)"

section \<open>Time to live\<close>

record TTL =
  ttl_Count :: byte
  ttl_Unit :: byte

definition TTL_zero :: TTL where
  "TTL_zero = \<lparr>ttl_Count = 0, ttl_Unit = 0\<rparr>"

definition char_byte :: "char \<Rightarrow> byte" where
  "char_byte c = of_nat (of_char c)"

definition ttl_units :: "byte list" where
  "ttl_units = map char_byte ''mhdwMy''"

definition IsNeverExpire :: "TTL \<Rightarrow> bool" where
  "IsNeverExpire t \<longleftrightarrow> ttl_Count t = 0"

definition TTL_Bytes :: "TTL \<Rightarrow> bytes" where
  "TTL_Bytes t = [ttl_Count t, ttl_Unit t]"

definition ParseTTL :: "string \<Rightarrow> types_error + TTL" where
  "ParseTTL s =
     (if s = [] then Inr TTL_zero
      else if length s < 2 then Inl ErrTTLTooShort
      else case parse_uint (butlast s) 10 8 of
             None \<Rightarrow> Inl ErrTTLCount
           | Some count \<Rightarrow>
               (if char_byte (last s) \<in> set ttl_units
                then Inr \<lparr>ttl_Count = of_nat count, ttl_Unit = char_byte (last s)\<rparr>
                else Inl ErrTTLUnit))"

text \<open>The \<open>%c\<close> verb prints the UTF-8 encoding of the code point: two bytes from 128 on.\<close>

definition rune_string :: "byte \<Rightarrow> string" where
  "rune_string b =
     (if unat b < 128 then [char_of (unat b)]
      else [char_of (192 + unat b div 64), char_of (128 + unat b mod 64)])"

definition TTL_String :: "TTL \<Rightarrow> string" where
  "TTL_String t =
     (if ttl_Count t = 0 then ''''
      else format_uint 10 (unat (ttl_Count t)) @ rune_string (ttl_Unit t))"

section \<open>Server addresses\<close>

definition splitHostPort :: "string \<Rightarrow> types_error + (string \<times> string)" where
  "splitHostPort s =
     (let parts = str_split (CHR '':'') s in
      if length parts \<noteq> 2 then Inl ErrAddressFormat else Inr (parts ! 0, parts ! 1))"

definition ToGrpcAddress :: "string \<Rightarrow> string" where
  "ToGrpcAddress s =
     (let derive =
            (case splitHostPort s of
               Inl _ \<Rightarrow> s
             | Inr (host, portStr) \<Rightarrow>
                 (case parse_uint portStr 10 32 of
                    None \<Rightarrow> s
                  | Some port \<Rightarrow> host @ '':'' @ format_uint 10 (port + GRPCPortOffset)))
      in case str_last_index (CHR ''.'') s of
           None \<Rightarrow> derive
         | Some idx \<Rightarrow>
             (case parse_uint (drop (idx + 1) s) 10 32 of
                Some _ \<Rightarrow> s
              | None \<Rightarrow> derive))"

definition ToHttpAddress :: "string \<Rightarrow> string" where
  "ToHttpAddress s =
     (case str_last_index (CHR ''.'') s of
        None \<Rightarrow> s
      | Some idx \<Rightarrow>
          (case parse_uint (drop (idx + 1) s) 10 32 of
             Some _ \<Rightarrow> take idx s
           | None \<Rightarrow> s))"

definition Host :: "string \<Rightarrow> string" where
  "Host s = (case splitHostPort s of Inl _ \<Rightarrow> s | Inr (host, _) \<Rightarrow> host)"

section \<open>Properties\<close>

lemma ToActualOffset_nonneg [simp]: "0 \<le> ToActualOffset off"
  by (simp add: ToActualOffset_def)

lemma ToActualOffset_bound: "ToActualOffset off < 2 ^ 35"
proof -
  have "uint off < 2 ^ 32" using uint_lt2p [of off] by simp
  then show ?thesis by (simp add: ToActualOffset_def NeedleAlignmentSize_def)
qed

lemma ToEncoded_of_nat: "ToEncoded (int (8 * k)) = of_nat k"
  by (cases "k = 0") (simp_all add: ToEncoded_def NeedleAlignmentSize_def signed_divide_int_def)

lemma ToActual_ToEncoded:
  assumes "8 dvd x" "x < 2 ^ 35"
  shows "ToActualOffset (ToEncoded (int x)) = int x"
proof -
  obtain k where k: "x = 8 * k" using assms(1) by auto
  then have "k < 2 ^ 32" using assms(2) by simp
  then show ?thesis
    by (simp add: k ToEncoded_of_nat ToActualOffset_def NeedleAlignmentSize_def uint_nat unat_of_nat
        flip: of_nat_mult)
qed

text \<open>A file identifier survives printing and parsing: for every volume id, needle id
  and cookie, \<open>ParseFileId\<close> reads back exactly the identifier \<open>String\<close> printed.\<close>

theorem ParseFileId_String: "ParseFileId (FileId_String f) = Inr f"
proof -
  let ?v = "format_uint 10 (unat (fid_VolumeId f))"
  let ?n = "pad_zero 16 (format_uint 16 (unat (fid_NeedleId f)))"
  let ?c = "pad_zero 8 (format_uint 16 (unat (fid_Cookie f)))"
  have bounds: "unat (fid_VolumeId f) < 2 ^ 32" "unat (fid_NeedleId f) < 2 ^ 64"
    "unat (fid_Cookie f) < 2 ^ 32"
    using unat_bound [of "fid_VolumeId f"] unat_bound [of "fid_NeedleId f"]
      unat_bound [of "fid_Cookie f"] by simp_all
  then have len: "length ?n = 16" "length ?c = 8"
    by (auto intro!: length_pad_zero)
  have parsed: "parse_uint ?v 10 32 = Some (unat (fid_VolumeId f))"
    "parse_uint ?n 16 64 = Some (unat (fid_NeedleId f))"
    "parse_uint ?c 16 32 = Some (unat (fid_Cookie f))"
    using bounds by (simp_all add: parse_uint_format parse_uint_pad_zero)
  show ?thesis
    using parsed len by (simp add: ParseFileId_def FileId_String_def Let_def)
qed

text \<open>
  The textual form is not unique: the needle id may be written with fewer digits. What
  every accepted string has is a comma, a decimal volume id in front of it and at least
  nine hexadecimal digits behind it.
\<close>

lemma ParseFileId_ok_length:
  assumes "ParseFileId s = Inr f"
  shows "\<exists>i. str_index (CHR '','') s = Some i \<and> i + 10 \<le> length s"
  using assms
  by (auto simp: ParseFileId_def Let_def split: option.splits if_splits)

lemma byte_masks: "(b :: byte) AND 7 = take_bit 3 b" "(b :: byte) AND 3 = take_bit 2 b"
  by (simp_all add: take_bit_eq_mask mask_eq_exp_minus_1)

text \<open>The one-byte replica placement is a lossless code: every byte decodes to a placement that
  encodes to the same byte, and a placement decodes to itself up to the field widths (three,
  three and two bits) of the layout.\<close>

lemma ReplicaPlacement_Byte_Parse [simp]: "ReplicaPlacement_Byte (ParseReplicaPlacement b) = b"
proof (rule bit_word_eqI)
  fix n assume "n < LENGTH(8)"
  then have "n < 2 \<or> (\<exists>m < 3. n = m + 2) \<or> (\<exists>m < 3. n = m + 5)"
    by simp presburger
  then show "bit (ReplicaPlacement_Byte (ParseReplicaPlacement b)) n = bit b n"
    by (auto simp: ReplicaPlacement_Byte_def ParseReplicaPlacement_def byte_masks bit_simps
        add.commute)
qed

lemma ParseReplicaPlacement_Byte:
  "ParseReplicaPlacement (ReplicaPlacement_Byte rp) =
     \<lparr>DifferentDataCenterCount = take_bit 3 (DifferentDataCenterCount rp),
      DifferentRackCount = take_bit 3 (DifferentRackCount rp),
      SameRackCount = take_bit 2 (SameRackCount rp)\<rparr>"
  by (auto simp: ReplicaPlacement_Byte_def ParseReplicaPlacement_def byte_masks bit_simps
        intro!: bit_word_eqI)

lemma digits_single [simp]: "n < 10 \<Longrightarrow> digits 10 n = [n]"
  by (subst digits.simps) simp

lemma of_char_digit_char: "d < 10 \<Longrightarrow> of_char (digit_char d) = (48 + d :: nat)"
  by (simp add: digit_char_def)

text \<open>The three-digit form of a placement whose counts are single digits survives printing
  and parsing.\<close>

theorem ReplicaPlacement_String_roundtrip:
  assumes "unat (DifferentDataCenterCount rp) < 10" "unat (DifferentRackCount rp) < 10"
    "unat (SameRackCount rp) < 10"
  shows "ParseReplicaPlacementString (ReplicaPlacement_String rp) = rp"
  using assms
  by (simp add: ParseReplicaPlacementString_def ReplicaPlacement_String_def placement_digit_def
        format_uint_def of_char_digit_char)

theorem ReplicaPlacement_String_roundtrip_witness:
  "ParseReplicaPlacementString (ReplicaPlacement_String
     \<lparr>DifferentDataCenterCount = 0, DifferentRackCount = 2, SameRackCount = 1\<rparr>) =
     \<lparr>DifferentDataCenterCount = 0, DifferentRackCount = 2, SameRackCount = 1\<rparr>"
  by (rule ReplicaPlacement_String_roundtrip) simp_all

text \<open>
  A placement parsed from text is not limited to the field widths of the byte: the digit 9
  is accepted, and the byte written to the superblock keeps only its low bits.
\<close>

lemma ParseReplicaPlacementString_wide:
  "SameRackCount (ParseReplicaPlacementString ''009'') = 9 \<and>
   SameRackCount (ParseReplicaPlacement (ReplicaPlacement_Byte (ParseReplicaPlacementString ''009''))) = 1"
  by (simp add: ParseReplicaPlacementString_def placement_digit_def ParseReplicaPlacement_def
        ReplicaPlacement_Byte_def)

lemma ttl_units_ascii: "b \<in> set ttl_units \<Longrightarrow> rune_string b = [char_of (unat b)] \<and> char_byte (char_of (unat b)) = b"
  by (auto simp: ttl_units_def rune_string_def char_byte_def)

text \<open>A time-to-live with a known unit survives printing and parsing; a zero count, which
  means that the needle never expires, prints as the empty string and parses to the zero
  value.\<close>

theorem ParseTTL_String:
  assumes "ttl_Unit t \<in> set ttl_units"
  shows "ParseTTL (TTL_String t) = Inr (if IsNeverExpire t then TTL_zero else t)"
proof (cases "ttl_Count t = 0")
  case True
  then show ?thesis by (simp add: ParseTTL_def TTL_String_def IsNeverExpire_def)
next
  case False
  have "unat (ttl_Count t) < 2 ^ 8" using unat_bound [of "ttl_Count t"] by simp
  moreover have "0 < length (format_uint 10 (unat (ttl_Count t)))" by simp
  ultimately show ?thesis
    using False ttl_units_ascii [OF assms] assms
    by (simp add: ParseTTL_def TTL_String_def IsNeverExpire_def parse_uint_format butlast_append
          Suc_le_eq del: length_greater_0_conv)
qed

theorem ParseTTL_String_witness:
  "ParseTTL (TTL_String \<lparr>ttl_Count = 3, ttl_Unit = char_byte (CHR ''d'')\<rparr>) =
     Inr \<lparr>ttl_Count = 3, ttl_Unit = char_byte (CHR ''d'')\<rparr>"
  using ParseTTL_String [of "\<lparr>ttl_Count = 3, ttl_Unit = char_byte (CHR ''d'')\<rparr>"]
  by (simp add: ttl_units_def IsNeverExpire_def)

lemma splitHostPort_join:
  assumes "CHR '':'' \<notin> set h" "CHR '':'' \<notin> set p"
  shows "splitHostPort (h @ '':'' @ p) = Inr (h, p)"
  using assms by (simp add: splitHostPort_def Let_def)

lemma port_has_no_dot_suffix:
  assumes "str_last_index (CHR ''.'') (h @ '':'' @ format_uint 10 p) = Some idx"
  shows "parse_uint (drop (idx + 1) (h @ '':'' @ format_uint 10 p)) 10 32 = None"
proof -
  let ?s = "h @ '':'' @ format_uint 10 p"
  have idx: "idx < length ?s" "?s ! idx = CHR ''.''" using str_last_indexD [OF assms] by auto
  have "idx < length h"
  proof (rule ccontr)
    assume "\<not> idx < length h"
    then have "?s ! idx = ('':'' @ format_uint 10 p) ! (idx - length h)"
      by (simp add: nth_append)
    moreover have "idx - length h < length ('':'' @ format_uint 10 p)"
      using \<open>\<not> idx < length h\<close> idx(1) by simp
    ultimately have "?s ! idx \<in> set ('':'' @ format_uint 10 p)"
      by (metis nth_mem)
    then show False using idx(2) by (auto dest: format_uint_digit [rotated 2])
  qed
  then have "CHR '':'' \<in> set (drop (idx + 1) ?s)" by simp
  then show ?thesis by (rule parse_uint_bad) simp
qed

text \<open>The gRPC address of a plain \<open>host:port\<close> address is the same host with the port moved
  up by 10000, whatever dots the host name or the IPv4 address contains; and an address
  with an explicit gRPC port is kept by \<open>ToGrpcAddress\<close> and stripped by \<open>ToHttpAddress\<close>.\<close>

theorem server_address_conversions:
  assumes "CHR '':'' \<notin> set h" "p < 2 ^ 32" "g < 2 ^ 32"
  shows "ToGrpcAddress (h @ '':'' @ format_uint 10 p) = h @ '':'' @ format_uint 10 (p + 10000) \<and>
         ToGrpcAddress (h @ '':'' @ format_uint 10 p @ ''.'' @ format_uint 10 g) =
           h @ '':'' @ format_uint 10 p @ ''.'' @ format_uint 10 g \<and>
         ToHttpAddress (h @ '':'' @ format_uint 10 p @ ''.'' @ format_uint 10 g) =
           h @ '':'' @ format_uint 10 p"
proof (intro conjI)
  have "splitHostPort (h @ '':'' @ format_uint 10 p) = Inr (h, format_uint 10 p)"
    using assms(1) by (intro splitHostPort_join) simp_all
  then show "ToGrpcAddress (h @ '':'' @ format_uint 10 p) = h @ '':'' @ format_uint 10 (p + 10000)"
    using port_has_no_dot_suffix [of h p] assms(2)
    by (auto simp: ToGrpcAddress_def Let_def GRPCPortOffset_def parse_uint_format split: option.splits)
  let ?s = "h @ '':'' @ format_uint 10 p @ ''.'' @ format_uint 10 g"
  have li: "str_last_index (CHR ''.'') ?s = Some (length (h @ '':'' @ format_uint 10 p))"
    using str_last_index_append [of "CHR ''.''" "format_uint 10 g" "h @ '':'' @ format_uint 10 p"] by simp
  have "parse_uint (drop (Suc (length (h @ '':'' @ format_uint 10 p))) ?s) 10 32 = Some g"
    using assms(3) by (simp add: parse_uint_format)
  with li show "ToGrpcAddress ?s = ?s" and "ToHttpAddress ?s = h @ '':'' @ format_uint 10 p"
    by (simp_all add: ToGrpcAddress_def ToHttpAddress_def Let_def)
qed

theorem server_address_conversions_witness:
  "ToGrpcAddress (''127.0.0.1'' @ '':'' @ format_uint 10 9333) = ''127.0.0.1'' @ '':'' @ format_uint 10 19333"
  using server_address_conversions [of "''127.0.0.1''" 9333 0] by simp

end
