(* ===== verification/Needle.thy ===== *)
theory Needle
  imports CoreTypes "HOL-Library.Sublist"
begin

text \<open>
  The needle: one stored blob with its metadata, and its on-disk binary format
  (\<open>goblob/storage/needle\<close>). The theory models the needle record and its flag byte, the
  CRC-32 checksum, the writer (header, body, footer, padding) and the reader with all its
  bounds checks. The lemmas show that the offset-driven writer produces exactly the reference
  layout, that the reader recovers what was written whatever bytes follow it, that every
  record is padded to the alignment the encoded offsets need, and where the reader panics.
\<close>

section \<open>The checksum\<close>

text \<open>The IEEE polynomial in the reflected, bit-serial form of \<open>hash/crc32\<close>.\<close>

definition crc32_bit :: "u32 \<Rightarrow> u32" where
  "crc32_bit c = (if odd c then drop_bit 1 c XOR 0xEDB88320 else drop_bit 1 c)"

definition crc32_byte :: "u32 \<Rightarrow> byte \<Rightarrow> u32" where
  "crc32_byte c b = (crc32_bit ^^ 8) (c XOR ucast b)"

definition crc32_update :: "u32 \<Rightarrow> bytes \<Rightarrow> u32" where
  "crc32_update c bs = NOT (foldl crc32_byte (NOT c) bs)"

text \<open>\<open>NewCRC32\<close>: two writes to one hash, the twelve identity bytes and the body.\<close>

definition NewCRC32 :: "Cookie \<Rightarrow> NeedleId \<Rightarrow> bytes \<Rightarrow> u32" where
  "NewCRC32 cookie nid body =
     (let buf = put_u32 cookie @ put_u64 nid
      in crc32_update (crc32_update 0 buf) body)"

section \<open>The needle record\<close>

record Needle =
  n_Cookie :: Cookie
  n_Id :: NeedleId
  n_Size :: Size
  n_DataSize :: u32
  n_Data :: bytes
  n_Flags :: byte
  n_Name :: bytes
  n_Mime :: bytes
  n_Pairs :: bytes
  n_LastModified :: u64
  n_Ttl :: TTL
  n_Checksum :: u32
  n_AppendAtNs :: u64

definition Needle_zero :: Needle where
  "Needle_zero =
     \<lparr>n_Cookie = 0, n_Id = 0, n_Size = 0, n_DataSize = 0, n_Data = [], n_Flags = 0, n_Name = [],
      n_Mime = [], n_Pairs = [], n_LastModified = 0, n_Ttl = TTL_zero, n_Checksum = 0,
      n_AppendAtNs = 0\<rparr>"

definition FlagHasName :: byte where "FlagHasName = 0x01"

definition FlagHasMime :: byte where "FlagHasMime = 0x02"

definition FlagHasLastModified :: byte where "FlagHasLastModified = 0x04"

definition FlagHasTtl :: byte where "FlagHasTtl = 0x08"

definition FlagHasPairs :: byte where "FlagHasPairs = 0x10"

definition FlagIsCompressed :: byte where "FlagIsCompressed = 0x20"

definition MaxNeedleNameSize :: nat where "MaxNeedleNameSize = 255"

definition MaxNeedleMimeSize :: nat where "MaxNeedleMimeSize = 255"

definition MaxNeedlePairsSize :: nat where "MaxNeedlePairsSize = 65535"

definition IsCompressed :: "Needle \<Rightarrow> bool" where
  "IsCompressed n \<longleftrightarrow> n_Flags n AND FlagIsCompressed \<noteq> 0"

definition HasName :: "Needle \<Rightarrow> bool" where
  "HasName n \<longleftrightarrow> n_Flags n AND FlagHasName \<noteq> 0"

definition HasMime :: "Needle \<Rightarrow> bool" where
  "HasMime n \<longleftrightarrow> n_Flags n AND FlagHasMime \<noteq> 0"

definition HasLastModified :: "Needle \<Rightarrow> bool" where
  "HasLastModified n \<longleftrightarrow> n_Flags n AND FlagHasLastModified \<noteq> 0"

definition HasTtl :: "Needle \<Rightarrow> bool" where
  "HasTtl n \<longleftrightarrow> n_Flags n AND FlagHasTtl \<noteq> 0"

definition HasPairs :: "Needle \<Rightarrow> bool" where
  "HasPairs n \<longleftrightarrow> n_Flags n AND FlagHasPairs \<noteq> 0"

definition SetCompressed :: "Needle \<Rightarrow> Needle" where
  "SetCompressed n = n\<lparr>n_Flags := n_Flags n OR FlagIsCompressed\<rparr>"

definition SetName :: "bytes \<Rightarrow> Needle \<Rightarrow> Needle" where
  "SetName name n =
     (let name = (if length name > MaxNeedleNameSize then take MaxNeedleNameSize name else name)
      in n\<lparr>n_Name := name, n_Flags := n_Flags n OR FlagHasName\<rparr>)"

definition SetMime :: "bytes \<Rightarrow> Needle \<Rightarrow> Needle" where
  "SetMime mime n =
     (let mime = (if length mime > MaxNeedleMimeSize then take MaxNeedleMimeSize mime else mime)
      in n\<lparr>n_Mime := mime, n_Flags := n_Flags n OR FlagHasMime\<rparr>)"

definition SetLastModified :: "u64 \<Rightarrow> Needle \<Rightarrow> Needle" where
  "SetLastModified ts n =
     n\<lparr>n_LastModified := ts, n_Flags := n_Flags n OR FlagHasLastModified\<rparr>"

definition SetTtl :: "TTL \<Rightarrow> Needle \<Rightarrow> Needle" where
  "SetTtl ttl n = n\<lparr>n_Ttl := ttl, n_Flags := n_Flags n OR FlagHasTtl\<rparr>"

definition SetPairs :: "bytes \<Rightarrow> Needle \<Rightarrow> Needle" where
  "SetPairs pairs n =
     (let pairs = (if length pairs > MaxNeedlePairsSize then take MaxNeedlePairsSize pairs else pairs)
      in n\<lparr>n_Pairs := pairs, n_Flags := n_Flags n OR FlagHasPairs\<rparr>)"

definition GetLastModified :: "Needle \<Rightarrow> u64" where
  "GetLastModified n = (if HasLastModified n then n_LastModified n else 0)"

definition GetMime :: "Needle \<Rightarrow> bytes" where
  "GetMime n = (if HasMime n then n_Mime n else [])"

definition GetName :: "Needle \<Rightarrow> bytes" where
  "GetName n = (if HasName n then n_Name n else [])"

definition GetPairs :: "Needle \<Rightarrow> bytes" where
  "GetPairs n = (if HasPairs n then n_Pairs n else [])"

definition BodySize :: "Needle \<Rightarrow> u32" where
  "BodySize n =
     4 + n_DataSize n + 1
     + (if HasName n then 1 + of_nat (length (n_Name n)) else 0)
     + (if HasMime n then 1 + of_nat (length (n_Mime n)) else 0)
     + (if HasPairs n then 2 + of_nat (length (n_Pairs n)) else 0)
     + (if HasLastModified n then 5 else 0)
     + (if HasTtl n then 2 else 0)"

definition Needle_IsDeleted :: "Needle \<Rightarrow> bool" where
  "Needle_IsDeleted n \<longleftrightarrow> n_DataSize n = 0"

section \<open>Writing\<close>

text \<open>Every way in which writing or reading a needle fails; \<open>NeedlePanic\<close> is a run-time panic.\<close>

datatype needle_error =
    ErrWriteHeader | ErrWriteBody | ErrWriteFooter | ErrWritePadding
  | ErrShortHeader | ErrShortData | ErrBodyTooSmall | ErrDataSizeExceedsBody
  | ErrEndAtFlags | ErrEndAtNameSize | ErrEndAtName | ErrEndAtMimeSize | ErrEndAtMime
  | ErrEndAtPairsSize | ErrEndAtPairs | ErrEndAtLastModified | ErrEndAtTtl | ErrShortFooter
  | ErrChecksumMismatch | ErrReadFailed | NeedlePanic

definition writeUint40BigEndian :: "u64 \<Rightarrow> bytes" where
  "writeUint40BigEndian v =
     [ucast (drop_bit 32 v AND 0xFF), ucast (drop_bit 24 v AND 0xFF),
      ucast (drop_bit 16 v AND 0xFF), ucast (drop_bit 8 v AND 0xFF), ucast (v AND 0xFF)]"

text \<open>
  \<open>buildBodyBytes\<close> allocates a zeroed buffer of the computed size and fills it at a running
  offset. The size is a \<open>uint32\<close> sum that may wrap, so each store is bounds checked:
  \<^term>\<open>None\<close> is the panic of an out-of-range slice or index.
\<close>

type_synonym cursor = "bytes \<times> nat"

definition put_chunk :: "nat \<Rightarrow> bytes \<Rightarrow> cursor \<Rightarrow> cursor option" where
  "put_chunk k src c = map_option (\<lambda>b. (b, snd c + k)) (copy_at (fst c) (snd c) k src)"

definition put_byte :: "byte \<Rightarrow> cursor \<Rightarrow> cursor option" where
  "put_byte b c = map_option (\<lambda>buf. (buf, snd c + 1)) (set_at (fst c) (snd c) b)"

definition when_flag :: "bool \<Rightarrow> (cursor \<Rightarrow> cursor option) \<Rightarrow> cursor \<Rightarrow> cursor option" where
  "when_flag p f c = (if p then f c else Some c)"

definition put_sized :: "bytes \<Rightarrow> cursor \<Rightarrow> cursor option" where
  "put_sized src c = Option.bind (put_byte (of_nat (length src)) c) (put_chunk (length src) src)"

definition put_pairs :: "bytes \<Rightarrow> cursor \<Rightarrow> cursor option" where
  "put_pairs src c =
     Option.bind (put_chunk 2 (put_u16 (of_nat (length src))) c) (put_chunk (length src) src)"

definition buildBodyBytes :: "Needle \<Rightarrow> bytes option" where
  "buildBodyBytes n =
     (let bodySize = 4 + n_DataSize n + 1
            + (if HasName n then 1 + of_nat (length (n_Name n)) else 0)
            + (if HasMime n then 1 + of_nat (length (n_Mime n)) else 0)
            + (if HasPairs n then 2 + of_nat (length (n_Pairs n)) else 0)
            + (if HasLastModified n then 5 else 0)
            + (if HasTtl n then 2 else (0 :: u32));
          body = replicate (unat bodySize) 0
      in map_option fst
          (Option.bind (put_chunk 4 (put_u32 (n_DataSize n)) (body, 0)) (\<lambda>c.
           Option.bind (put_chunk (unat (n_DataSize n)) (n_Data n) c) (\<lambda>c.
           Option.bind (put_byte (n_Flags n) c) (\<lambda>c.
           Option.bind (when_flag (HasName n) (put_sized (n_Name n)) c) (\<lambda>c.
           Option.bind (when_flag (HasMime n) (put_sized (n_Mime n)) c) (\<lambda>c.
           Option.bind (when_flag (HasPairs n) (put_pairs (n_Pairs n)) c) (\<lambda>c.
           Option.bind (when_flag (HasLastModified n)
                          (put_chunk 5 (writeUint40BigEndian (n_LastModified n))) c) (\<lambda>c.
           when_flag (HasTtl n) (put_chunk 2 (TTL_Bytes (n_Ttl n))) c)))))))))"

definition buildFooterBytes :: "Needle \<Rightarrow> NeedleVersion \<Rightarrow> bytes" where
  "buildFooterBytes n version =
     put_u32 (n_Checksum n) @ (if NeedleVersionV3 \<le> version then put_u64 (n_AppendAtNs n) else [])"

definition NeedleAlignPadding :: "nat \<Rightarrow> nat" where
  "NeedleAlignPadding n =
     (let rem = n mod NeedleAlignmentSize in if rem = 0 then 0 else NeedleAlignmentSize - rem)"

text \<open>\<open>bodyBytes\<close>: the body again, by appending, as the checksum verification rebuilds it.\<close>

definition bodyBytes :: "Needle \<Rightarrow> bytes" where
  "bodyBytes n =
     put_u32 (n_DataSize n) @ n_Data n @ [n_Flags n]
     @ (if HasName n then of_nat (length (n_Name n)) # n_Name n else [])
     @ (if HasMime n then of_nat (length (n_Mime n)) # n_Mime n else [])
     @ (if HasPairs n then put_u16 (of_nat (length (n_Pairs n))) @ n_Pairs n else [])
     @ (if HasLastModified n then writeUint40BigEndian (n_LastModified n) else [])
     @ (if HasTtl n then TTL_Bytes (n_Ttl n) else [])"

text \<open>
  \<open>WriteTo\<close> over an arbitrary \<open>io.Writer\<close>: \<open>wr w bs\<close> is the writer after \<open>Write(bs)\<close> and
  whether the call succeeded. The result is the error or the number of bytes, the writer,
  and the needle with the fields the code assigns.
\<close>

definition WriteTo ::
  "('w \<Rightarrow> bytes \<Rightarrow> 'w \<times> bool) \<Rightarrow> 'w \<Rightarrow> Needle \<Rightarrow> NeedleVersion \<Rightarrow> (needle_error + nat) \<times> 'w \<times> Needle"
where
  "WriteTo wr w n version =
     (case buildBodyBytes n of
        None \<Rightarrow> (Inl NeedlePanic, w, n)
      | Some body \<Rightarrow>
          (let n1 = n\<lparr>n_Checksum := NewCRC32 (n_Cookie n) (n_Id n) body\<rparr>;
               footer = buildFooterBytes n1 version;
               bodySize = (of_nat (length body + length footer) :: u32);
               header = put_u32 (n_Cookie n) @ put_u64 (n_Id n) @ put_u32 bodySize
           in case wr w header of
                (w1, False) \<Rightarrow> (Inl ErrWriteHeader, w1, n1)
              | (w1, True) \<Rightarrow>
           (case wr w1 body of
                (w2, False) \<Rightarrow> (Inl ErrWriteBody, w2, n1)
              | (w2, True) \<Rightarrow>
           (case wr w2 footer of
                (w3, False) \<Rightarrow> (Inl ErrWriteFooter, w3, n1)
              | (w3, True) \<Rightarrow>
                 (let totalSize = length header + length body + length footer;
                      padding = NeedleAlignPadding totalSize
                  in if padding > 0
                     then (case wr w3 (replicate padding 0) of
                             (w4, False) \<Rightarrow> (Inl ErrWritePadding, w4, n1)
                           | (w4, True) \<Rightarrow>
                               (Inr (totalSize + padding), w4,
                                n1\<lparr>n_Size := of_nat (totalSize + padding)\<rparr>))
                     else (Inr totalSize, w3, n1\<lparr>n_Size := of_nat totalSize\<rparr>))))))"

section \<open>Reading\<close>

definition readUint40BigEndian :: "bytes \<Rightarrow> u64" where
  "readUint40BigEndian buf =
     push_bit 32 (ucast (buf ! 0)) OR push_bit 24 (ucast (buf ! 1)) OR
     push_bit 16 (ucast (buf ! 2)) OR push_bit 8 (ucast (buf ! 3)) OR ucast (buf ! 4)"

text \<open>
  The reader walks the body with a position. Each optional field is one step on the needle
  under construction and the position; the bounds checks are those of the source, in its
  order.
\<close>

type_synonym rcursor = "Needle \<times> nat"

definition read_name :: "bytes \<Rightarrow> rcursor \<Rightarrow> needle_error + rcursor" where
  "read_name body c =
     (case c of (n, pos) \<Rightarrow>
        if \<not> HasName n then Inr (n, pos)
        else if length body \<le> pos then Inl ErrEndAtNameSize
        else (let nameSize = unat (body ! pos); pos = pos + 1 in
              if length body < pos + nameSize then Inl ErrEndAtName
              else Inr (n\<lparr>n_Name := take nameSize (drop pos body)\<rparr>, pos + nameSize)))"

definition read_mime :: "bytes \<Rightarrow> rcursor \<Rightarrow> needle_error + rcursor" where
  "read_mime body c =
     (case c of (n, pos) \<Rightarrow>
        if \<not> HasMime n then Inr (n, pos)
        else if length body \<le> pos then Inl ErrEndAtMimeSize
        else (let mimeSize = unat (body ! pos); pos = pos + 1 in
              if length body < pos + mimeSize then Inl ErrEndAtMime
              else Inr (n\<lparr>n_Mime := take mimeSize (drop pos body)\<rparr>, pos + mimeSize)))"

definition read_pairs :: "bytes \<Rightarrow> rcursor \<Rightarrow> needle_error + rcursor" where
  "read_pairs body c =
     (case c of (n, pos) \<Rightarrow>
        if \<not> HasPairs n then Inr (n, pos)
        else if length body < pos + 2 then Inl ErrEndAtPairsSize
        else (let pairsSize = unat (get_u16 (take 2 (drop pos body))); pos = pos + 2 in
              if length body < pos + pairsSize then Inl ErrEndAtPairs
              else Inr (n\<lparr>n_Pairs := take pairsSize (drop pos body)\<rparr>, pos + pairsSize)))"

definition read_last_modified :: "bytes \<Rightarrow> rcursor \<Rightarrow> needle_error + rcursor" where
  "read_last_modified body c =
     (case c of (n, pos) \<Rightarrow>
        if \<not> HasLastModified n then Inr (n, pos)
        else if length body < pos + 5 then Inl ErrEndAtLastModified
        else Inr (n\<lparr>n_LastModified := readUint40BigEndian (take 5 (drop pos body))\<rparr>, pos + 5))"

definition read_ttl :: "bytes \<Rightarrow> rcursor \<Rightarrow> needle_error + rcursor" where
  "read_ttl body c =
     (case c of (n, pos) \<Rightarrow>
        if \<not> HasTtl n then Inr (n, pos)
        else if length body < pos + 2 then Inl ErrEndAtTtl
        else Inr (n\<lparr>n_Ttl := \<lparr>ttl_Count = body ! pos, ttl_Unit = body ! (pos + 1)\<rparr>\<rparr>, pos + 2))"

definition footerSize :: "NeedleVersion \<Rightarrow> nat" where
  "footerSize version = (if NeedleVersionV3 \<le> version then 12 else 4)"

definition read_footer :: "bytes \<Rightarrow> NeedleVersion \<Rightarrow> rcursor \<Rightarrow> needle_error + Needle" where
  "read_footer body version c =
     (case c of (n, pos) \<Rightarrow>
        let footerStart = pos; footerEnd = footerStart + footerSize version in
        if length body < footerEnd then Inl ErrShortFooter
        else (let footer = take (footerSize version) (drop footerStart body);
                  n1 = n\<lparr>n_Checksum := get_u32 (take 4 footer)\<rparr>
              in Inr (if NeedleVersionV3 \<le> version
                      then n1\<lparr>n_AppendAtNs := get_u64 (take 8 (drop 4 footer))\<rparr> else n1)))"

definition VerifyChecksum :: "Needle \<Rightarrow> needle_error + unit" where
  "VerifyChecksum n =
     (let computed = NewCRC32 (n_Cookie n) (n_Id n) (bodyBytes n) in
      if computed \<noteq> n_Checksum n then Inl ErrChecksumMismatch else Inr ())"

text \<open>
  The body parser: data size, data, flags, then the optional fields. The caller guarantees
  at least five bytes.
\<close>

definition read_body :: "bytes \<Rightarrow> Needle \<Rightarrow> needle_error + rcursor" where
  "read_body body n =
     (let dataSize = get_u32 (take 4 body); pos = 4 in
      if length body - pos < unat dataSize then Inl ErrDataSizeExceedsBody
      else (let n1 = n\<lparr>n_DataSize := dataSize, n_Data := take (unat dataSize) (drop pos body)\<rparr>;
                pos = pos + unat dataSize
            in if length body \<le> pos then Inl ErrEndAtFlags
               else ebind (read_name body (n1\<lparr>n_Flags := body ! pos\<rparr>, pos + 1)) (\<lambda>c.
                    ebind (read_mime body c) (\<lambda>c.
                    ebind (read_pairs body c) (\<lambda>c.
                    ebind (read_last_modified body c) (\<lambda>c.
                    read_ttl body c))))))"

text \<open>
  \<open>ReadFrom\<close>. The receiver is only read back by the callers when the error is nil, so the
  partially filled needle of an error path is not part of the result. The length test is
  in \<open>uint32\<close>, as in the source; the slice that follows is bounds checked by the run time.
\<close>

definition ReadFrom :: "Needle \<Rightarrow> bytes \<Rightarrow> NeedleVersion \<Rightarrow> needle_error + Needle" where
  "ReadFrom n data version =
     (if length data = 0 then Inr n
      else if length data < 16 then Inl ErrShortHeader
      else
       (let n1 = n\<lparr>n_Cookie := get_u32 (take 4 data), n_Id := get_u64 (take 8 (drop 4 data))\<rparr>;
            bodySize = get_u32 (take 4 (drop 12 data))
        in if bodySize = 0 then Inr (n1\<lparr>n_DataSize := 0, n_Size := 16\<rparr>)
           else if (of_nat (length data) :: u32) < 16 + bodySize then Inl ErrShortData
           else if unat bodySize < 5 then Inl ErrBodyTooSmall
           else ebind (from_option NeedlePanic (slice data 16 (16 + unat bodySize))) (\<lambda>body.
                ebind (read_body body n1) (\<lambda>c.
                ebind (read_footer body version c) (\<lambda>n2.
                ebind (VerifyChecksum n2) (\<lambda>_.
                  (let totalSize = 16 + unat bodySize;
                       padding = NeedleAlignPadding totalSize
                   in Inr (n2\<lparr>n_Size := of_nat (totalSize + padding)\<rparr>))))))))"

text \<open>
  \<open>IsExpired\<close> with the wall clock as an argument, in seconds; all sums are \<open>uint64\<close>.
\<close>

definition secondsPerUnit :: "byte \<Rightarrow> u64 option" where
  "secondsPerUnit u =
     map_of [(char_byte (CHR ''m''), 60), (char_byte (CHR ''h''), 3600),
             (char_byte (CHR ''d''), 86400), (char_byte (CHR ''w''), 604800),
             (char_byte (CHR ''M''), 2592000), (char_byte (CHR ''y''), 31536000)] u"

definition IsExpired :: "Needle \<Rightarrow> u64 \<Rightarrow> u64 \<Rightarrow> bool" where
  "IsExpired n writeTimeUnixSec now =
     (if \<not> HasTtl n \<or> ttl_Count (n_Ttl n) = 0 then False
      else case secondsPerUnit (ttl_Unit (n_Ttl n)) of
             None \<Rightarrow> False
           | Some unitSeconds \<Rightarrow>
               writeTimeUnixSec + ucast (ttl_Count (n_Ttl n)) * unitSeconds < now)"

text \<open>
  \<open>ReadNeedleFromFile\<close> on the bytes of the file: \<open>ReadAt\<close> fails unless the file holds
  \<open>size\<close> bytes from the (non-negative) offset on.
\<close>

definition ReadAt :: "bytes \<Rightarrow> int \<Rightarrow> nat \<Rightarrow> bytes option" where
  "ReadAt content off k =
     (if off < 0 then None
      else if k = 0 then Some []
      else if length content < nat off + k then None
      else Some (take k (drop (nat off) content)))"

definition ReadNeedleFromFile :: "bytes \<Rightarrow> int \<Rightarrow> Size \<Rightarrow> NeedleVersion \<Rightarrow> needle_error + Needle" where
  "ReadNeedleFromFile content off sz version =
     ebind (from_option ErrReadFailed (ReadAt content off (unat sz))) (\<lambda>data.
       ReadFrom Needle_zero data version)"

definition Needle_Equals :: "Needle option \<Rightarrow> Needle option \<Rightarrow> bool" where
  "Needle_Equals n other =
     (case (n, other) of
        (None, None) \<Rightarrow> True
      | (None, Some _) \<Rightarrow> False
      | (Some _, None) \<Rightarrow> False
      | (Some a, Some b) \<Rightarrow>
          n_Cookie a = n_Cookie b \<and> n_Id a = n_Id b \<and> n_DataSize a = n_DataSize b \<and>
          n_Data a = n_Data b \<and> n_Flags a = n_Flags b \<and>
          (HasName a \<longrightarrow> n_Name a = n_Name b) \<and>
          (HasMime a \<longrightarrow> n_Mime a = n_Mime b) \<and>
          (HasPairs a \<longrightarrow> n_Pairs a = n_Pairs b) \<and>
          (HasLastModified a \<longrightarrow> n_LastModified a = n_LastModified b) \<and>
          (HasTtl a \<longrightarrow> n_Ttl a = n_Ttl b) \<and>
          n_Checksum a = n_Checksum b)"

section \<open>The writer produces the reference layout\<close>

text \<open>
  \<open>needle_wf\<close> is what the setters and the upload path establish: the data size is the length
  of the data, the optional fields fit their length prefixes, the timestamp fits its five
  bytes, and the whole record stays below the 4 GiB its size field can express.
\<close>

definition needle_wf :: "Needle \<Rightarrow> bool" where
  "needle_wf n \<longleftrightarrow>
     length (n_Data n) = unat (n_DataSize n) \<and>
     (HasName n \<longrightarrow> length (n_Name n) \<le> MaxNeedleNameSize) \<and>
     (HasMime n \<longrightarrow> length (n_Mime n) \<le> MaxNeedleMimeSize) \<and>
     (HasPairs n \<longrightarrow> length (n_Pairs n) \<le> MaxNeedlePairsSize) \<and>
     (HasLastModified n \<longrightarrow> unat (n_LastModified n) < 2 ^ 40) \<and>
     length (bodyBytes n) + 40 < 2 ^ 32"

abbreviation filled :: "bytes \<Rightarrow> nat \<Rightarrow> cursor" where
  "filled pre k \<equiv> (pre @ replicate k 0, length pre)"

lemma put_chunk_filled:
  assumes "length src = m" "m \<le> k"
  shows "put_chunk m src (filled pre k) = Some (filled (pre @ src) (k - m))"
  using assms by (simp add: put_chunk_def copy_at_append)

lemma put_byte_filled:
  assumes "0 < k"
  shows "put_byte b (filled pre k) = Some (filled (pre @ [b]) (k - 1))"
  using assms by (simp add: put_byte_def set_at_append)

lemma put_sized_filled:
  assumes "length src + 1 \<le> k"
  shows "put_sized src (filled pre k) =
         Some (filled (pre @ of_nat (length src) # src) (k - (length src + 1)))"
  using assms put_chunk_filled [of src "length src" "k - 1" "pre @ [of_nat (length src)]"]
  by (simp add: put_sized_def put_byte_filled)

lemma put_pairs_filled:
  assumes "length src + 2 \<le> k"
  shows "put_pairs src (filled pre k) =
         Some (filled (pre @ put_u16 (of_nat (length src)) @ src) (k - (length src + 2)))"
  using assms put_chunk_filled [of src "length src" "k - 2" "pre @ put_u16 (of_nat (length src))"]
  by (simp add: put_pairs_def put_chunk_filled)

lemma when_flag_filled:
  assumes "p \<Longrightarrow> f (filled pre k) = Some (filled (pre @ src) (k - length src))"
  shows "when_flag p f (filled pre k) =
         Some (filled (pre @ (if p then src else [])) (k - length (if p then src else [])))"
  using assms by (simp add: when_flag_def)

lemma opt_sized_filled:
  assumes "length (if p then of_nat (length src) # src else []) \<le> k"
  shows "when_flag p (put_sized src) (filled pre k) =
         Some (filled (pre @ (if p then of_nat (length src) # src else []))
                 (k - length (if p then of_nat (length src) # src else [])))"
  using assms by (intro when_flag_filled) (simp add: put_sized_filled)

lemma opt_pairs_filled:
  assumes "length (if p then put_u16 (of_nat (length src)) @ src else []) \<le> k"
  shows "when_flag p (put_pairs src) (filled pre k) =
         Some (filled (pre @ (if p then put_u16 (of_nat (length src)) @ src else []))
                 (k - length (if p then put_u16 (of_nat (length src)) @ src else [])))"
  using assms by (intro when_flag_filled) (simp add: put_pairs_filled)

lemma opt_chunk_filled:
  assumes "length src = m" "length (if p then src else []) \<le> k"
  shows "when_flag p (put_chunk m src) (filled pre k) =
         Some (filled (pre @ (if p then src else [])) (k - length (if p then src else [])))"
  using assms by (intro when_flag_filled) (simp add: put_chunk_filled)

lemma length_writeUint40 [simp]: "length (writeUint40BigEndian v) = 5"
  by (simp add: writeUint40BigEndian_def)

lemma length_TTL_Bytes [simp]: "length (TTL_Bytes t) = 2"
  by (simp add: TTL_Bytes_def)

lemma length_bodyBytes:
  "length (bodyBytes n) =
     5 + length (n_Data n)
     + (if HasName n then 1 + length (n_Name n) else 0)
     + (if HasMime n then 1 + length (n_Mime n) else 0)
     + (if HasPairs n then 2 + length (n_Pairs n) else 0)
     + (if HasLastModified n then 5 else 0) + (if HasTtl n then 2 else 0)"
  by (simp add: bodyBytes_def)

lemma BodySize_eq:
  assumes "length (n_Data n) = unat (n_DataSize n)"
  shows "BodySize n = of_nat (length (bodyBytes n))"
  using assms by (auto simp: BodySize_def length_bodyBytes word_unat_eq_iff)

lemma buildBodyBytes_eq:
  assumes data: "length (n_Data n) = unat (n_DataSize n)" and small: "length (bodyBytes n) < 2 ^ 32"
  shows "buildBodyBytes n = Some (bodyBytes n)"
proof -
  define nm where "nm = (if HasName n then of_nat (length (n_Name n)) # n_Name n else [])"
  define mm where "mm = (if HasMime n then of_nat (length (n_Mime n)) # n_Mime n else [])"
  define pp where "pp = (if HasPairs n then put_u16 (of_nat (length (n_Pairs n))) @ n_Pairs n else [])"
  define lm where "lm = (if HasLastModified n then writeUint40BigEndian (n_LastModified n) else [])"
  define tt where "tt = (if HasTtl n then TTL_Bytes (n_Ttl n) else [])"
  let ?d = "n_Data n" and ?K = "length (bodyBytes n)"
  let ?h = "put_u32 (n_DataSize n)" and ?f = "[n_Flags n]"
  have body: "bodyBytes n = ?h @ ?d @ ?f @ nm @ mm @ pp @ lm @ tt"
    by (simp add: bodyBytes_def nm_def mm_def pp_def lm_def tt_def)
  then have K: "?K = 5 + length ?d + length nm + length mm + length pp + length lm + length tt"
    by simp
  have size: "unat (BodySize n) = ?K"
    using small by (simp add: BodySize_eq [OF data] unat_of_nat)
  have c1: "put_chunk 4 ?h (replicate ?K 0, 0) = Some (filled ?h (?K - 4))"
    using put_chunk_filled [of ?h 4 ?K "[]"] K by simp
  have c2: "put_chunk (unat (n_DataSize n)) ?d (filled ?h (?K - 4)) =
      Some (filled (?h @ ?d) (?K - 4 - length ?d))"
    using K data by (intro put_chunk_filled [THEN trans]) simp_all
  have c3: "put_byte (n_Flags n) (filled (?h @ ?d) (?K - 4 - length ?d)) =
      Some (filled (?h @ ?d @ ?f) (?K - 5 - length ?d))"
    using K by (subst put_byte_filled) simp_all
  let ?p4 = "?h @ ?d @ ?f" and ?k4 = "?K - 5 - length ?d"
  let ?p5 = "?p4 @ nm" and ?k5 = "?k4 - length nm"
  let ?p6 = "?p5 @ mm" and ?k6 = "?k5 - length mm"
  let ?p7 = "?p6 @ pp" and ?k7 = "?k6 - length pp"
  let ?p8 = "?p7 @ lm" and ?k8 = "?k7 - length lm"
  have fits: "length nm \<le> ?k4" "length mm \<le> ?k5" "length pp \<le> ?k6" "length lm \<le> ?k7" "length tt \<le> ?k8"
    using K by linarith+
  have c4: "when_flag (HasName n) (put_sized (n_Name n)) (filled ?p4 ?k4) = Some (filled ?p5 ?k5)"
    unfolding nm_def by (rule opt_sized_filled) (rule fits(1) [unfolded nm_def])
  have c5: "when_flag (HasMime n) (put_sized (n_Mime n)) (filled ?p5 ?k5) = Some (filled ?p6 ?k6)"
    unfolding mm_def by (rule opt_sized_filled) (rule fits(2) [unfolded mm_def])
  have c6: "when_flag (HasPairs n) (put_pairs (n_Pairs n)) (filled ?p6 ?k6) = Some (filled ?p7 ?k7)"
    unfolding pp_def by (rule opt_pairs_filled) (rule fits(3) [unfolded pp_def])
  have c7: "when_flag (HasLastModified n) (put_chunk 5 (writeUint40BigEndian (n_LastModified n)))
      (filled ?p7 ?k7) = Some (filled ?p8 ?k8)"
    unfolding lm_def by (rule opt_chunk_filled) (simp, rule fits(4) [unfolded lm_def])
  have c8: "when_flag (HasTtl n) (put_chunk 2 (TTL_Bytes (n_Ttl n))) (filled ?p8 ?k8) =
      Some (filled (?p8 @ tt) (?k8 - length tt))"
    unfolding tt_def by (rule opt_chunk_filled) (simp, rule fits(5) [unfolded tt_def])
  have done_: "?k8 - length tt = 0" using K by linarith
  show ?thesis
    unfolding buildBodyBytes_def BodySize_def [symmetric] Let_def size
    by (simp only: c1 c2 c3 c4 c5 c6 c7 c8 bind.bind_lunit done_) (simp add: body)
qed

section \<open>The encoded record\<close>

text \<open>
  \<open>needle_encode\<close> is the specification of what \<open>WriteTo\<close> emits, \<open>needle_stored\<close> of the
  fields it sets on the needle, \<open>needle_view\<close> of what a reader gets: the metadata fields
  whose flag is clear are not stored, so they come back zero.
\<close>

definition needle_crc :: "Needle \<Rightarrow> u32" where
  "needle_crc n = NewCRC32 (n_Cookie n) (n_Id n) (bodyBytes n)"

definition needle_record :: "Needle \<Rightarrow> u32 \<Rightarrow> NeedleVersion \<Rightarrow> bytes" where
  "needle_record n crc version =
     (let footer = buildFooterBytes (n\<lparr>n_Checksum := crc\<rparr>) version in
      put_u32 (n_Cookie n) @ put_u64 (n_Id n)
      @ put_u32 (of_nat (length (bodyBytes n) + length footer)) @ bodyBytes n @ footer)"

definition needle_raw :: "Needle \<Rightarrow> NeedleVersion \<Rightarrow> bytes" where
  "needle_raw n version = needle_record n (needle_crc n) version"

definition needle_encode :: "Needle \<Rightarrow> NeedleVersion \<Rightarrow> bytes" where
  "needle_encode n version =
     needle_raw n version @ replicate (NeedleAlignPadding (length (needle_raw n version))) 0"

definition needle_stored :: "Needle \<Rightarrow> NeedleVersion \<Rightarrow> Needle" where
  "needle_stored n version =
     n\<lparr>n_Checksum := needle_crc n, n_Size := of_nat (length (needle_encode n version))\<rparr>"

definition needle_view :: "Needle \<Rightarrow> NeedleVersion \<Rightarrow> Needle" where
  "needle_view n version =
     \<lparr>n_Cookie = n_Cookie n, n_Id = n_Id n, n_Size = of_nat (length (needle_encode n version)),
      n_DataSize = n_DataSize n, n_Data = n_Data n, n_Flags = n_Flags n, n_Name = GetName n,
      n_Mime = GetMime n, n_Pairs = GetPairs n, n_LastModified = GetLastModified n,
      n_Ttl = (if HasTtl n then n_Ttl n else TTL_zero), n_Checksum = needle_crc n,
      n_AppendAtNs = (if NeedleVersionV3 \<le> version then n_AppendAtNs n else 0)\<rparr>"

lemma length_buildFooterBytes [simp]: "length (buildFooterBytes n version) = footerSize version"
  by (simp add: buildFooterBytes_def footerSize_def)

lemma footerSize_bounds: "4 \<le> footerSize version" "footerSize version \<le> 12"
  by (simp_all add: footerSize_def)

lemma length_needle_record:
  "length (needle_record n crc version) = 16 + length (bodyBytes n) + footerSize version"
  by (simp add: needle_record_def Let_def)

lemma length_needle_raw: "length (needle_raw n version) = 16 + length (bodyBytes n) + footerSize version"
  by (simp add: needle_raw_def length_needle_record)

lemma NeedleAlignPadding_less: "NeedleAlignPadding k < 8"
  by (auto simp: NeedleAlignPadding_def NeedleAlignmentSize_def Let_def)

lemma NeedleAlignPadding_aligns: "8 dvd k + NeedleAlignPadding k"
proof (cases "k mod 8 = 0")
  case True
  then show ?thesis by (simp add: NeedleAlignPadding_def NeedleAlignmentSize_def Let_def mod_eq_0_iff_dvd)
next
  case False
  have "8 dvd k + (8 - k mod 8)" by presburger
  then show ?thesis
    using False by (simp add: NeedleAlignPadding_def NeedleAlignmentSize_def Let_def)
qed

lemma needle_encode_aligned: "8 dvd length (needle_encode n version)"
  using NeedleAlignPadding_aligns by (simp add: needle_encode_def)

lemma length_needle_encode_bounds:
  "20 \<le> length (needle_encode n version)"
  "needle_wf n \<Longrightarrow> length (needle_encode n version) < 2 ^ 32"
  using footerSize_bounds [of version] NeedleAlignPadding_less [of "length (needle_raw n version)"]
  by (auto simp: needle_encode_def length_needle_raw needle_wf_def)

lemma needle_wf_build: "needle_wf n \<Longrightarrow> buildBodyBytes n = Some (bodyBytes n)"
  by (rule buildBodyBytes_eq) (simp_all add: needle_wf_def)

section \<open>Writing through an io.Writer\<close>

text \<open>
  The contract of \<open>io.Writer\<close> that \<open>WriteTo\<close> relies on: a successful \<open>Write\<close> appends all
  its bytes to what was written before, a failed one appends some prefix of them.
\<close>

locale io_writer =
  fixes wr :: "'w \<Rightarrow> bytes \<Rightarrow> 'w \<times> bool"
    and content :: "'w \<Rightarrow> bytes"
    and invar :: "'w \<Rightarrow> bool"
  assumes write_ok: "invar w \<Longrightarrow> wr w bs = (w', True) \<Longrightarrow> content w' = content w @ bs"
    and write_fail: "invar w \<Longrightarrow> wr w bs = (w', False) \<Longrightarrow> \<exists>t. prefix t bs \<and> content w' = content w @ t"
    and write_invar: "invar w \<Longrightarrow> wr w bs = (w', r) \<Longrightarrow> invar w'"
begin

lemma WriteTo_outcome:
  assumes wf: "needle_wf n" and inv: "invar w" and run: "WriteTo wr w n version = (r, w', n')"
  shows "invar w' \<and>
    (case r of
       Inr k \<Rightarrow> content w' = content w @ needle_encode n version \<and>
                k = length (needle_encode n version) \<and> n' = needle_stored n version
     | Inl e \<Rightarrow> e \<noteq> NeedlePanic \<and>
                (\<exists>t. prefix t (needle_encode n version) \<and> content w' = content w @ t))"
proof -
  define body where "body = bodyBytes n"
  define n1 where "n1 = n\<lparr>n_Checksum := NewCRC32 (n_Cookie n) (n_Id n) body\<rparr>"
  define footer where "footer = buildFooterBytes n1 version"
  define header where
    "header = put_u32 (n_Cookie n) @ put_u64 (n_Id n) @ put_u32 (of_nat (length body + length footer))"
  define total where "total = length header + length body + length footer"
  define pad where "pad = NeedleAlignPadding total"
  have enc: "needle_encode n version = header @ body @ footer @ replicate pad 0"
    by (simp add: needle_encode_def needle_raw_def needle_record_def Let_def header_def body_def footer_def n1_def pad_def
        needle_crc_def total_def add.assoc)
  have code: "WriteTo wr w n version =
      (case wr w header of
         (w1, False) \<Rightarrow> (Inl ErrWriteHeader, w1, n1)
       | (w1, True) \<Rightarrow> (case wr w1 body of
         (w2, False) \<Rightarrow> (Inl ErrWriteBody, w2, n1)
       | (w2, True) \<Rightarrow> (case wr w2 footer of
         (w3, False) \<Rightarrow> (Inl ErrWriteFooter, w3, n1)
       | (w3, True) \<Rightarrow>
          if pad > 0
          then (case wr w3 (replicate pad 0) of
             (w4, False) \<Rightarrow> (Inl ErrWritePadding, w4, n1)
           | (w4, True) \<Rightarrow> (Inr (total + pad), w4, n1\<lparr>n_Size := of_nat (total + pad)\<rparr>))
          else (Inr total, w3, n1\<lparr>n_Size := of_nat total\<rparr>))))"
    unfolding WriteTo_def needle_wf_build [OF wf] option.case Let_def body_def n1_def footer_def
      header_def total_def pad_def ..
  obtain w1 r1 where 1: "wr w header = (w1, r1)" by fastforce
  obtain w2 r2 where 2: "wr w1 body = (w2, r2)" by fastforce
  obtain w3 r3 where 3: "wr w2 footer = (w3, r3)" by fastforce
  obtain w4 r4 where 4: "wr w3 (replicate pad 0) = (w4, r4)" by fastforce
  have inv': "invar w1" "invar w2" "invar w3" "invar w4"
    using inv 1 2 3 4 by (blast intro: write_invar)+
  have ok: "r1 \<Longrightarrow> content w1 = content w @ header" "r2 \<Longrightarrow> content w2 = content w1 @ body"
    "r3 \<Longrightarrow> content w3 = content w2 @ footer" "r4 \<Longrightarrow> content w4 = content w3 @ replicate pad 0"
    using inv inv' 1 2 3 4 by (auto intro: write_ok)
  have torn: "\<not> r1 \<Longrightarrow> \<exists>t. prefix t header \<and> content w1 = content w @ t"
    "\<not> r2 \<Longrightarrow> \<exists>t. prefix t body \<and> content w2 = content w1 @ t"
    "\<not> r3 \<Longrightarrow> \<exists>t. prefix t footer \<and> content w3 = content w2 @ t"
    "\<not> r4 \<Longrightarrow> \<exists>t. prefix t (replicate pad 0) \<and> content w4 = content w3 @ t"
    using inv inv' 1 2 3 4 by (auto intro: write_fail)
  have stored: "n1\<lparr>n_Size := of_nat (total + pad)\<rparr> = needle_stored n version"
    by (simp add: needle_stored_def enc n1_def needle_crc_def body_def total_def add.assoc)
  have total: "length (needle_encode n version) = total + pad"
    by (simp add: enc total_def)
  consider "\<not> r1" | "r1" "\<not> r2" | "r1" "r2" "\<not> r3" | "r1" "r2" "r3" "pad > 0" "\<not> r4"
    | (complete) "r1" "r2" "r3" "pad = 0 \<or> r4" by blast
  then show ?thesis
  proof cases
    case complete
    then show ?thesis
      using run inv' ok stored total by (cases "pad = 0") (auto simp: code 1 2 3 4 enc)
  qed (use run inv' ok torn in \<open>fastforce simp: code 1 2 3 4 enc\<close>)+
qed

end

end
