(* ===== verification/OsFile.thy ===== *)
theory OsFile
  imports Needle
begin

text \<open>
  The part of package \<open>os\<close> the storage engine uses: files as byte sequences under path names,
  open files with a write position, and the failures the engine has to survive.

  A write can fail at any byte: \<open>fs_room\<close> is the number of bytes the device still accepts. A
  write that does not fit stores the prefix that fits and reports an error, which covers a full
  disk and a crash at an arbitrary byte of a write. Opening a file that does not exist
  (without \<open>O_CREATE\<close>) and renaming a missing file are errors as well.
\<close>

record fsys =
  fs_files :: "string \<Rightarrow> bytes option"
  fs_room :: nat

record File =
  f_name :: string
  f_pos :: nat
  f_append :: bool

definition filepath_Join :: "string \<Rightarrow> string \<Rightarrow> string" where
  "filepath_Join dir base = dir @ ''/'' @ base"

definition fs_exists :: "fsys \<Rightarrow> string \<Rightarrow> bool" where
  "fs_exists s p \<longleftrightarrow> fs_files s p \<noteq> None"

text \<open>\<open>os.OpenFile\<close> with \<open>O_CREATE\<close> (and possibly \<open>O_APPEND\<close>), \<open>os.OpenFile\<close> without
  \<open>O_CREATE\<close>, and \<open>os.Create\<close>, which truncates.\<close>

definition open_create :: "fsys \<Rightarrow> string \<Rightarrow> bool \<Rightarrow> fsys \<times> File" where
  "open_create s p app =
     (if fs_exists s p then s else s\<lparr>fs_files := (fs_files s)(p \<mapsto> [])\<rparr>,
      \<lparr>f_name = p, f_pos = 0, f_append = app\<rparr>)"

definition open_existing :: "fsys \<Rightarrow> string \<Rightarrow> File option" where
  "open_existing s p = (if fs_exists s p then Some \<lparr>f_name = p, f_pos = 0, f_append = False\<rparr> else None)"

definition os_Create :: "fsys \<Rightarrow> string \<Rightarrow> fsys \<times> File" where
  "os_Create s p = (s\<lparr>fs_files := (fs_files s)(p \<mapsto> [])\<rparr>, \<lparr>f_name = p, f_pos = 0, f_append = False\<rparr>)"

definition os_Remove :: "fsys \<Rightarrow> string \<Rightarrow> fsys" where
  "os_Remove s p = s\<lparr>fs_files := (fs_files s)(p := None)\<rparr>"

definition os_Rename :: "fsys \<Rightarrow> string \<Rightarrow> string \<Rightarrow> fsys option" where
  "os_Rename s p q =
     (case fs_files s p of
        None \<Rightarrow> None
      | Some c \<Rightarrow> Some (s\<lparr>fs_files := (fs_files s)(p := None, q \<mapsto> c)\<rparr>))"

text \<open>Overwriting and extending a byte sequence at a position; a gap is filled with zeros.\<close>

definition splice :: "bytes \<Rightarrow> nat \<Rightarrow> bytes \<Rightarrow> bytes" where
  "splice c pos bs = take pos c @ replicate (pos - length c) 0 @ bs @ drop (pos + length bs) c"

definition write_pos :: "fsys \<Rightarrow> File \<Rightarrow> nat" where
  "write_pos s f = (if f_append f then (case fs_files s (f_name f) of None \<Rightarrow> 0 | Some c \<Rightarrow> length c)
                    else f_pos f)"

definition write_at :: "fsys \<Rightarrow> string \<Rightarrow> nat \<Rightarrow> bytes \<Rightarrow> fsys \<times> nat \<times> bool" where
  "write_at s p pos bs =
     (case fs_files s p of
        None \<Rightarrow> (s, 0, False)
      | Some c \<Rightarrow>
          (let k = min (length bs) (fs_room s) in
           (s\<lparr>fs_files := (fs_files s)(p \<mapsto> splice c pos (take k bs)), fs_room := fs_room s - k\<rparr>,
            k, k = length bs)))"

text \<open>\<open>File.Write\<close> at the write position, \<open>File.WriteAt\<close>, \<open>File.Seek\<close> to the end and to an
  absolute position.\<close>

type_synonym open_file = "fsys \<times> File"

definition file_write :: "open_file \<Rightarrow> bytes \<Rightarrow> open_file \<times> bool" where
  "file_write sf bs =
     (case sf of (s, f) \<Rightarrow>
        (case write_at s (f_name f) (write_pos s f) bs of
           (s', k, ok) \<Rightarrow> ((s', f\<lparr>f_pos := write_pos s f + k\<rparr>), ok)))"

definition file_write_at :: "fsys \<Rightarrow> File \<Rightarrow> bytes \<Rightarrow> nat \<Rightarrow> fsys \<times> bool" where
  "file_write_at s f bs off = (case write_at s (f_name f) off bs of (s', k, ok) \<Rightarrow> (s', ok))"

definition file_size :: "fsys \<Rightarrow> File \<Rightarrow> nat option" where
  "file_size s f = map_option length (fs_files s (f_name f))"

definition seek_end :: "fsys \<Rightarrow> File \<Rightarrow> (nat \<times> File) option" where
  "seek_end s f = map_option (\<lambda>k. (k, f\<lparr>f_pos := k\<rparr>)) (file_size s f)"

definition seek_set :: "File \<Rightarrow> nat \<Rightarrow> File" where
  "seek_set f k = f\<lparr>f_pos := k\<rparr>"

section \<open>Appending\<close>

text \<open>A file that is written at its end: the content, and the invariant that the next write
  extends it while every other file of the system stays as it is in \<open>F\<close>.\<close>

definition file_content :: "open_file \<Rightarrow> bytes" where
  "file_content sf = (case fs_files (fst sf) (f_name (snd sf)) of None \<Rightarrow> [] | Some c \<Rightarrow> c)"

definition at_end :: "(string \<Rightarrow> bytes option) \<Rightarrow> File \<Rightarrow> open_file \<Rightarrow> bool" where
  "at_end F f0 sf \<longleftrightarrow>
     f_name (snd sf) = f_name f0 \<and> f_append (snd sf) = f_append f0 \<and>
     fs_files (fst sf) (f_name f0) \<noteq> None \<and>
     (f_append f0 \<or> f_pos (snd sf) = length (file_content sf)) \<and>
     (\<forall>p. p \<noteq> f_name f0 \<longrightarrow> fs_files (fst sf) p = F p)"

lemma splice_end [simp]: "splice c (length c) bs = c @ bs"
  by (simp add: splice_def)

lemma file_write_at_end:
  assumes "at_end F f0 sf" "file_write sf bs = (sf', ok)"
  shows "at_end F f0 sf'"
    and "file_content sf' = file_content sf @ take (fs_room (fst sf)) bs"
    and "ok \<longleftrightarrow> length bs \<le> fs_room (fst sf)"
    and "fs_room (fst sf') = fs_room (fst sf) - length bs"
proof -
  obtain s f where sf: "sf = (s, f)" by (cases sf)
  obtain c where c: "fs_files s (f_name f0) = Some c" using assms(1) by (auto simp: at_end_def sf)
  then have pos: "write_pos s f = length c" and name: "f_name f = f_name f0"
    using assms(1) by (auto simp: at_end_def sf write_pos_def file_content_def)
  define k where "k = min (length bs) (fs_room s)"
  have out: "sf' = (s\<lparr>fs_files := (fs_files s)(f_name f0 \<mapsto> c @ take k bs), fs_room := fs_room s - k\<rparr>,
      f\<lparr>f_pos := length c + k\<rparr>)" and ok: "ok \<longleftrightarrow> k = length bs"
    using assms(2) c by (simp_all add: sf file_write_def write_at_def pos name k_def Let_def)
  have "length (take k bs) = k" by (simp add: k_def)
  then show "at_end F f0 sf'" using assms(1) by (simp add: at_end_def sf out file_content_def name)
  have "take k bs = take (fs_room s) bs" by (simp add: k_def min_def)
  then show "file_content sf' = file_content sf @ take (fs_room (fst sf)) bs"
    by (simp add: out sf file_content_def name c)
  show "ok \<longleftrightarrow> length bs \<le> fs_room (fst sf)" using ok by (auto simp: sf k_def)
  show "fs_room (fst sf') = fs_room (fst sf) - length bs" by (simp add: out sf k_def)
qed

text \<open>An open file at its end is an \<open>io.Writer\<close> in the sense \<open>WriteTo\<close> relies on.\<close>

interpretation osfile: io_writer file_write file_content "at_end F f0" for F f0
proof
  fix w bs w'
  assume inv: "at_end F f0 w"
  show "file_content w' = file_content w @ bs" if "file_write w bs = (w', True)"
    using file_write_at_end [OF inv that] by simp
  show "\<exists>t. prefix t bs \<and> file_content w' = file_content w @ t" if "file_write w bs = (w', False)"
    unfolding file_write_at_end(2) [OF inv that] by (blast intro: take_is_prefix)
  show "at_end F f0 w'" if "file_write w bs = (w', r)" for r
    using file_write_at_end(1) [OF inv that] .
qed

text \<open>A writer that tells how many bytes it still accepts: a record that fits is written.\<close>

locale io_writer_capacity = io_writer +
  fixes capacity :: "'a \<Rightarrow> nat"
  assumes write_fits: "invar w \<Longrightarrow> wr w bs = (w', ok) \<Longrightarrow> length bs \<le> capacity w \<Longrightarrow>
      ok \<and> capacity w' = capacity w - length bs"
begin

lemma WriteTo_fits:
  assumes wf: "needle_wf n" and inv: "invar w" and cap: "length (needle_encode n version) \<le> capacity w"
    and run: "WriteTo wr w n version = (r, w', n')"
  shows "r = Inr (length (needle_encode n version)) \<and>
         capacity w' = capacity w - length (needle_encode n version)"
proof -
  define n1 where "n1 = n\<lparr>n_Checksum := NewCRC32 (n_Cookie n) (n_Id n) (bodyBytes n)\<rparr>"
  define footer where "footer = buildFooterBytes n1 version"
  define header where
    "header = put_u32 (n_Cookie n) @ put_u64 (n_Id n) @ put_u32 (of_nat (length (bodyBytes n) + length footer))"
  define pad where "pad = NeedleAlignPadding (length header + length (bodyBytes n) + length footer)"
  have total: "length (needle_encode n version) = length header + length (bodyBytes n) + length footer + pad"
    by (simp add: needle_encode_def length_needle_raw header_def footer_def pad_def)
  obtain w1 r1 where 1: "wr w header = (w1, r1)" by fastforce
  obtain w2 r2 where 2: "wr w1 (bodyBytes n) = (w2, r2)" by fastforce
  obtain w3 r3 where 3: "wr w2 footer = (w3, r3)" by fastforce
  obtain w4 r4 where 4: "wr w3 (replicate pad 0) = (w4, r4)" by fastforce
  have inv': "invar w1" "invar w2" "invar w3" using inv 1 2 3 by (blast intro: write_invar)+
  have c1: "r1 \<and> capacity w1 = capacity w - length header" using write_fits [OF inv 1] cap total by simp
  have c2: "r2 \<and> capacity w2 = capacity w1 - length (bodyBytes n)" using write_fits [OF inv'(1) 2] cap total c1 by simp
  have c3: "r3 \<and> capacity w3 = capacity w2 - length footer" using write_fits [OF inv'(2) 3] cap total c1 c2 by simp
  have c4: "r4 \<and> capacity w4 = capacity w3 - pad" using write_fits [OF inv'(3) 4] cap total c1 c2 c3 by simp
  have r: "r1" "r2" "r3" "r4" using c1 c2 c3 c4 by simp_all
  show ?thesis
    using run c1 c2 c3 c4 total
    unfolding WriteTo_def needle_wf_build [OF wf] option.case Let_def n1_def [symmetric]
      footer_def [symmetric] header_def [symmetric] pad_def [symmetric]
    by (cases "pad = 0") (auto simp: 1 2 3 4 r)
qed

end

interpretation osfile_room: io_writer_capacity file_write file_content "at_end F f0" "\<lambda>w. fs_room (fst w)" for F f0
  by unfold_locales (use file_write_at_end(3,4) in auto)

lemma filepath_Join_inject [simp]:
  "filepath_Join d a = filepath_Join d b \<longleftrightarrow> a = b"
  by (simp add: filepath_Join_def)

end
