(* ===== verification/NeedleMap.thy ===== *)
theory NeedleMap
  imports OsFile
begin

text \<open>
  The superblock (src/goblob/storage/volume/superblock.go) and the needle index
  (src/goblob/storage/volume/needle_map.go): the in-memory map \<open>MemDb\<close> with its statistics and
  the append-only index file it is replayed from. The counters are 64-bit words; Go's map
  iteration order is an argument, a list of the keys.
\<close>

section \<open>The superblock\<close>

definition SuperBlockSize :: nat where "SuperBlockSize = 8"

record SuperBlock =
  sb_Version :: NeedleVersion
  sb_ReplicaPlacement :: ReplicaPlacement
  sb_Ttl :: TTL
  sb_CompactionRevision :: u16

definition SuperBlock_new :: "NeedleVersion \<Rightarrow> SuperBlock" where
  "SuperBlock_new version =
     \<lparr>sb_Version = version,
      sb_ReplicaPlacement =
        \<lparr>DifferentDataCenterCount = 0, DifferentRackCount = 0, SameRackCount = 0\<rparr>,
      sb_Ttl = TTL_zero, sb_CompactionRevision = 0\<rparr>"

definition SuperBlock_Bytes :: "SuperBlock \<Rightarrow> bytes" where
  "SuperBlock_Bytes sb =
     [sb_Version sb, ReplicaPlacement_Byte (sb_ReplicaPlacement sb)] @ TTL_Bytes (sb_Ttl sb)
     @ put_u16 (sb_CompactionRevision sb) @ put_u16 0"

datatype nm_error =
    ErrSuperBlockShort | ErrSuperBlockEOF | ErrSuperBlockRead | ErrSuperBlockWrite
  | ErrNeedleNotFound | ErrNeedleDeleted | ErrIndexWrite | ErrOpenData

definition ParseSuperBlock :: "bytes \<Rightarrow> nm_error + SuperBlock" where
  "ParseSuperBlock data =
     (if length data < SuperBlockSize then Inl ErrSuperBlockShort
      else Inr \<lparr>sb_Version = data ! 0, sb_ReplicaPlacement = ParseReplicaPlacement (data ! 1),
                sb_Ttl = \<lparr>ttl_Count = data ! 2, ttl_Unit = data ! 3\<rparr>,
                sb_CompactionRevision = get_u16 (take 2 (drop 4 data))\<rparr>)"

text \<open>\<open>ReadSuperBlock\<close> reads at the file position and advances it by what it could read.\<close>

definition ReadSuperBlock :: "fsys \<Rightarrow> File \<Rightarrow> (nm_error + SuperBlock) \<times> File" where
  "ReadSuperBlock s f =
     (case fs_files s (f_name f) of
        None \<Rightarrow> (Inl ErrSuperBlockRead, f)
      | Some c \<Rightarrow>
          (let buf = take SuperBlockSize (drop (f_pos f) c);
               f' = f\<lparr>f_pos := f_pos f + length buf\<rparr>
           in if buf = [] then (Inl ErrSuperBlockEOF, f')
              else if length buf < SuperBlockSize then (Inl ErrSuperBlockRead, f')
              else (ParseSuperBlock buf, f')))"

definition WriteSuperBlock :: "fsys \<Rightarrow> File \<Rightarrow> SuperBlock \<Rightarrow> fsys \<times> bool" where
  "WriteSuperBlock s f sb = file_write_at s f (SuperBlock_Bytes sb) 0"

definition IsCompatible :: "SuperBlock \<Rightarrow> bool" where
  "IsCompatible sb \<longleftrightarrow> NeedleVersionV1 \<le> sb_Version sb \<and> sb_Version sb \<le> CurrentNeedleVersion"

section \<open>The in-memory index\<close>

record needleValue =
  nvl_offset :: Offset
  nvl_size :: Size

definition needleValue_isDeleted :: "needleValue \<Rightarrow> bool" where
  "needleValue_isDeleted v \<longleftrightarrow> nvl_size v = TombstoneFileSize"

record MemDb =
  db_m :: "NeedleId \<Rightarrow> needleValue option"
  db_file :: "File option"
  contentSize :: u64
  deletedSize :: u64
  fileCount :: "64 word"
  deletedCount :: "64 word"

definition NewMemDb :: MemDb where
  "NewMemDb = \<lparr>db_m = (\<lambda>_. None), db_file = None, contentSize = 0, deletedSize = 0,
     fileCount = 0, deletedCount = 0\<rparr>"

definition MemDb_Get :: "MemDb \<Rightarrow> NeedleId \<Rightarrow> nm_error + (Offset \<times> Size)" where
  "MemDb_Get db key =
     (case db_m db key of
        None \<Rightarrow> Inl ErrNeedleNotFound
      | Some v \<Rightarrow> if needleValue_isDeleted v then Inl ErrNeedleDeleted
                  else Inr (nvl_offset v, nvl_size v))"

text \<open>The statistics of an entry that is replaced, and of the entry that replaces it.\<close>

definition stat_remove :: "needleValue option \<Rightarrow> MemDb \<Rightarrow> MemDb" where
  "stat_remove old db =
     (case old of
        None \<Rightarrow> db
      | Some v \<Rightarrow>
          if needleValue_isDeleted v
          then db\<lparr>deletedCount := deletedCount db - 1, deletedSize := deletedSize db - ucast (nvl_size v)\<rparr>
          else db\<lparr>fileCount := fileCount db - 1, contentSize := contentSize db - ucast (nvl_size v)\<rparr>)"

definition stat_add :: "Size \<Rightarrow> MemDb \<Rightarrow> MemDb" where
  "stat_add sz db =
     (if sz = TombstoneFileSize then db\<lparr>deletedCount := deletedCount db + 1\<rparr>
      else db\<lparr>fileCount := fileCount db + 1, contentSize := contentSize db + ucast sz\<rparr>)"

definition index_entry :: "NeedleId \<Rightarrow> Offset \<Rightarrow> Size \<Rightarrow> bytes" where
  "index_entry key off sz = put_u64 key @ put_u32 off @ put_u32 sz"

definition appendEntry ::
  "fsys \<Rightarrow> MemDb \<Rightarrow> NeedleId \<Rightarrow> Offset \<Rightarrow> Size \<Rightarrow> (nm_error + unit) \<times> fsys \<times> MemDb"
where
  "appendEntry s db key off sz =
     (case db_file db of
        None \<Rightarrow> (Inr (), s, db)
      | Some f \<Rightarrow>
          (case file_write (s, f) (index_entry key off sz) of
             ((s', f'), ok) \<Rightarrow>
               (if ok then Inr () else Inl ErrIndexWrite, s', db\<lparr>db_file := Some f'\<rparr>)))"

definition MemDb_Put ::
  "fsys \<Rightarrow> MemDb \<Rightarrow> NeedleId \<Rightarrow> Offset \<Rightarrow> Size \<Rightarrow> (nm_error + unit) \<times> fsys \<times> MemDb"
where
  "MemDb_Put s db key off sz =
     (let db1 = stat_add sz (stat_remove (db_m db key) db);
          db2 = db1\<lparr>db_m := (db_m db)(key \<mapsto> \<lparr>nvl_offset = off, nvl_size = sz\<rparr>)\<rparr>
      in appendEntry s db2 key off sz)"

definition MemDb_Delete :: "fsys \<Rightarrow> MemDb \<Rightarrow> NeedleId \<Rightarrow> (nm_error + unit) \<times> fsys \<times> MemDb" where
  "MemDb_Delete s db key =
     (case db_m db key of
        None \<Rightarrow> (Inl ErrNeedleNotFound, s, db)
      | Some old \<Rightarrow>
          if needleValue_isDeleted old then (Inr (), s, db)
          else
           (let db1 = db\<lparr>fileCount := fileCount db - 1, contentSize := contentSize db - ucast (nvl_size old),
                         deletedCount := deletedCount db + 1,
                         deletedSize := deletedSize db + ucast (nvl_size old),
                         db_m := (db_m db)(key \<mapsto> \<lparr>nvl_offset = nvl_offset old, nvl_size = TombstoneFileSize\<rparr>)\<rparr>
            in appendEntry s db1 key (nvl_offset old) TombstoneFileSize))"

definition MemDb_Close :: "MemDb \<Rightarrow> MemDb" where
  "MemDb_Close db = db\<lparr>db_file := None\<rparr>"

section \<open>Replaying the index file\<close>

definition load_entry :: "NeedleId \<Rightarrow> Offset \<Rightarrow> Size \<Rightarrow> MemDb \<Rightarrow> MemDb" where
  "load_entry key off sz db =
     (let db1 = stat_remove (db_m db key) db
      in stat_add sz (db1\<lparr>db_m := (db_m db1)(key \<mapsto> \<lparr>nvl_offset = off, nvl_size = sz\<rparr>)\<rparr>))"

function load_entries :: "bytes \<Rightarrow> MemDb \<Rightarrow> MemDb" where
  "load_entries bs db =
     (if length bs < NeedleIndexSize then db
      else let buf = take NeedleIndexSize bs in
           load_entries (drop NeedleIndexSize bs)
             (load_entry (get_u64 (take 8 buf)) (get_u32 (take 4 (drop 8 buf)))
                (get_u32 (take 4 (drop 12 buf))) db))"
  by auto
termination by (relation "measure (length \<circ> fst)") (auto simp: NeedleIndexSize_def)

declare load_entries.simps [simp del]

text \<open>\<open>Load\<close>: a missing file is an empty index; a torn last entry ends the replay.\<close>

definition MemDb_Load :: "fsys \<Rightarrow> MemDb \<Rightarrow> string \<Rightarrow> MemDb" where
  "MemDb_Load s db filename =
     (case fs_files s filename of None \<Rightarrow> db | Some c \<Rightarrow> load_entries c db)"

definition OpenIndexFile :: "fsys \<Rightarrow> MemDb \<Rightarrow> string \<Rightarrow> fsys \<times> MemDb" where
  "OpenIndexFile s db filename =
     (case open_create s filename True of (s', f) \<Rightarrow> (s', db\<lparr>db_file := Some f\<rparr>))"

definition LoadNeedleMap :: "fsys \<Rightarrow> string \<Rightarrow> fsys \<times> MemDb" where
  "LoadNeedleMap s filename = OpenIndexFile s (MemDb_Load s NewMemDb filename) filename"

text \<open>\<open>Iterate\<close> passes the entries to its callback; with the order of the keys given it is the
  list of the entries.\<close>

definition MemDb_Iterate :: "NeedleId list \<Rightarrow> MemDb \<Rightarrow> (NeedleId \<times> Offset \<times> Size) list" where
  "MemDb_Iterate order db =
     concat (map (\<lambda>k. case db_m db k of None \<Rightarrow> [] | Some v \<Rightarrow> [(k, nvl_offset v, nvl_size v)]) order)"

fun write_live :: "open_file \<Rightarrow> (NeedleId \<times> Offset \<times> Size) list \<Rightarrow> (nm_error + unit) \<times> open_file" where
  "write_live dst [] = (Inr (), dst)"
| "write_live dst ((k, off, sz) # es) =
     (if sz = TombstoneFileSize then write_live dst es
      else (case file_write dst (index_entry k off sz) of
              (dst', ok) \<Rightarrow> if ok then write_live dst' es else (Inl ErrIndexWrite, dst')))"

definition CompactIndex ::
  "NeedleId list \<Rightarrow> fsys \<Rightarrow> string \<Rightarrow> string \<Rightarrow> (nm_error + unit) \<times> fsys"
where
  "CompactIndex order s inputFile outputFile =
     (let src = MemDb_Load s NewMemDb inputFile in
      case write_live (os_Create s outputFile) (MemDb_Iterate order src) of
        (r, (s', _)) \<Rightarrow> (r, s'))"

section \<open>Rebuilding the index from the data file\<close>

text \<open>
  The scan of \<open>CreateVolumeIndex\<close>. The record size is computed from \<open>16 + bodySize\<close> in 32-bit
  arithmetic, as in the source, so a header can make the scan stand still; each round still
  appends an entry to the index file, and the scan ends at the latest when the device is full.
\<close>

definition scanned_size :: "u32 \<Rightarrow> nat" where
  "scanned_size bodySize =
     (let unpaddedSize = unat (16 + bodySize); rem = unpaddedSize mod 8
      in if rem \<noteq> 0 then unpaddedSize + (8 - rem) else unpaddedSize)"

lemma file_write_room:
  "file_write w bs = (w', True) \<Longrightarrow> length bs \<le> fs_room (fst w) \<and> fs_room (fst w') = fs_room (fst w) - length bs"
  by (auto simp: file_write_def write_at_def Let_def min_def split: prod.splits option.splits if_splits)

function scan_data :: "bytes \<Rightarrow> nat \<Rightarrow> open_file \<Rightarrow> (nm_error + unit) \<times> open_file" where
  "scan_data content off idx =
     (case ReadAt content (int off) 16 of
        None \<Rightarrow> (Inr (), idx)
      | Some header \<Rightarrow>
          (let needleId = get_u64 (take 8 (drop 4 header));
               totalSize = scanned_size (get_u32 (take 4 (drop 12 header)))
           in case file_write idx (index_entry needleId (ToEncoded (int off)) (of_nat totalSize)) of
                (idx', ok) \<Rightarrow>
                  if ok then scan_data content (off + totalSize) idx' else (Inl ErrIndexWrite, idx')))"
  by pat_completeness auto
termination
  by (relation "measure (\<lambda>(_, _, idx). fs_room (fst idx))")
    (auto dest!: file_write_room [OF sym] simp: index_entry_def)

declare scan_data.simps [simp del]

definition CreateVolumeIndex :: "fsys \<Rightarrow> string \<Rightarrow> string \<Rightarrow> (nm_error + unit) \<times> fsys" where
  "CreateVolumeIndex s dataFile indexFile =
     (case fs_files s dataFile of
        None \<Rightarrow> (Inl ErrOpenData, s)
      | Some content \<Rightarrow>
          (case scan_data content SuperBlockSize (os_Create s indexFile) of (r, (s', _)) \<Rightarrow> (r, s')))"

definition RebuildIndex :: "fsys \<Rightarrow> string \<Rightarrow> string \<Rightarrow> (nm_error + unit) \<times> fsys" where
  "RebuildIndex s dataFile indexFile = CreateVolumeIndex (os_Remove s indexFile) dataFile indexFile"

end
