(* ===== verification/NeedleMapProps.thy ===== *)
theory NeedleMapProps
  imports NeedleMap
begin

text \<open>
  Correctness of the superblock codec and of the needle index: the replay of the index file
  gives the map the process had in memory, torn appends are ignored, the statistics count the
  entries, and the interface \<open>NeedleMap\<close> that \<open>Volume\<close> uses, with its laws discharged for \<open>MemDb\<close>.
\<close>

section \<open>The superblock codec\<close>

definition placement_fits :: "ReplicaPlacement \<Rightarrow> bool" where
  "placement_fits rp \<longleftrightarrow> DifferentDataCenterCount rp < 8 \<and> DifferentRackCount rp < 8 \<and> SameRackCount rp < 4"

lemma take_bit_byte_id: "unat (w :: byte) < 2 ^ k \<Longrightarrow> take_bit k w = w"
  by (simp add: word_unat_eq_iff unsigned_take_bit_eq take_bit_nat_eq_self)

lemma placement_fits_codec: "placement_fits rp \<Longrightarrow> ParseReplicaPlacement (ReplicaPlacement_Byte rp) = rp"
  by (simp add: ParseReplicaPlacement_Byte placement_fits_def word_less_nat_alt take_bit_byte_id)

lemma length_SuperBlock_Bytes [simp]: "length (SuperBlock_Bytes sb) = 8"
  by (simp add: SuperBlock_Bytes_def TTL_Bytes_def)

lemma ParseSuperBlock_Bytes:
  "placement_fits (sb_ReplicaPlacement sb) \<Longrightarrow> ParseSuperBlock (SuperBlock_Bytes sb) = Inr sb"
  using placement_fits_codec
  by (simp add: ParseSuperBlock_def SuperBlockSize_def SuperBlock_Bytes_def TTL_Bytes_def)

lemma ReadSuperBlock_prefix:
  assumes "fs_files s (f_name f) = Some (SuperBlock_Bytes sb @ rest)" "f_pos f = 0"
    "placement_fits (sb_ReplicaPlacement sb)"
  shows "ReadSuperBlock s f = (Inr sb, f\<lparr>f_pos := 8\<rparr>)"
proof -
  have "SuperBlock_Bytes sb \<noteq> []" using length_SuperBlock_Bytes [of sb] by force
  then show ?thesis
    using assms by (simp add: ReadSuperBlock_def SuperBlockSize_def ParseSuperBlock_Bytes)
qed

lemma take_drop_6: "6 \<le> length xs \<Longrightarrow> \<exists>a b c d e f ys. xs = a # b # c # d # e # f # ys"
  by (cases xs; cases "tl xs"; cases "tl (tl xs)"; cases "tl (tl (tl xs))"; cases "tl (tl (tl (tl xs)))";
      cases "tl (tl (tl (tl (tl xs))))") auto

text \<open>The superblock codec. A superblock whose replica placement fits the digits of its byte is
  parsed back from its eight bytes, whatever follows them in the file; conversely the eight
  bytes of a parsed superblock are the ones it was parsed from, except for the two reserved
  bytes, which are written as zero.\<close>

theorem SuperBlock_roundtrip:
  "(placement_fits (sb_ReplicaPlacement sb) \<longrightarrow> ParseSuperBlock (SuperBlock_Bytes sb @ rest) = Inr sb) \<and>
   (ParseSuperBlock data = Inr sb' \<longrightarrow> SuperBlock_Bytes sb' = take 6 data @ [0, 0])"
proof (intro conjI impI)
  show "ParseSuperBlock (SuperBlock_Bytes sb @ rest) = Inr sb" if "placement_fits (sb_ReplicaPlacement sb)"
    using placement_fits_codec [OF that]
    by (simp add: ParseSuperBlock_def SuperBlockSize_def SuperBlock_Bytes_def TTL_Bytes_def)
next
  assume parsed: "ParseSuperBlock data = Inr sb'"
  then have "8 \<le> length data" by (simp add: ParseSuperBlock_def SuperBlockSize_def split: if_splits)
  then obtain a b c d e f rest' where data: "data = a # b # c # d # e # f # rest'"
    using take_drop_6 [of data] by auto
  have "put_u16 0 = [0, 0]" by (simp add: put_u16_def numeral_2_eq_2)
  then show "SuperBlock_Bytes sb' = take 6 data @ [0, 0]"
    using parsed \<open>8 \<le> length data\<close> put_get_u16 [of "[e, f]"]
    by (auto simp: ParseSuperBlock_def data SuperBlock_Bytes_def TTL_Bytes_def SuperBlockSize_def)
qed

definition sample_superblock :: SuperBlock where
  "sample_superblock = \<lparr>sb_Version = 3,
     sb_ReplicaPlacement = \<lparr>DifferentDataCenterCount = 1, DifferentRackCount = 0, SameRackCount = 2\<rparr>,
     sb_Ttl = TTL_zero, sb_CompactionRevision = 513\<rparr>"

theorem SuperBlock_roundtrip_witness:
  "placement_fits (sb_ReplicaPlacement sample_superblock) \<and>
   ParseSuperBlock (SuperBlock_Bytes sample_superblock @ [7]) = Inr sample_superblock \<and>
   SuperBlock_Bytes sample_superblock = take 6 (SuperBlock_Bytes sample_superblock @ [7]) @ [0, 0]"
proof -
  have "placement_fits (sb_ReplicaPlacement sample_superblock)"
    by (simp add: placement_fits_def sample_superblock_def)
  then show ?thesis
    using SuperBlock_roundtrip [of sample_superblock "[7]" "SuperBlock_Bytes sample_superblock @ [7]"
      sample_superblock] by blast
qed

section \<open>The statistics\<close>

text \<open>A sum over the entries of a map, and how it changes when one entry is replaced.\<close>

definition map_sum :: "('v \<Rightarrow> 'a) \<Rightarrow> ('k \<Rightarrow> 'v option) \<Rightarrow> 'a::ab_group_add" where
  "map_sum g m = (\<Sum>k\<in>dom m. g (the (m k)))"

lemma map_sum_upd:
  assumes "finite (dom m)"
  shows "map_sum g (m(k \<mapsto> v)) = map_sum g m - (case m k of None \<Rightarrow> 0 | Some u \<Rightarrow> g u) + g v"
proof -
  have "map_sum g (m(k \<mapsto> v)) = g v + (\<Sum>j\<in>dom m - {k}. g (the ((m(k \<mapsto> v)) j)))"
    using assms by (simp add: map_sum_def sum.insert_remove)
  also have "(\<Sum>j\<in>dom m - {k}. g (the ((m(k \<mapsto> v)) j))) = (\<Sum>j\<in>dom m - {k}. g (the (m j)))"
    by (rule sum.cong) auto
  also have "\<dots> = map_sum g m - (case m k of None \<Rightarrow> 0 | Some u \<Rightarrow> g u)"
    using assms by (auto simp: map_sum_def sum_diff1 split: option.splits)
  finally show ?thesis by (simp only: add.commute)
qed

definition live_one :: "needleValue \<Rightarrow> u64" where
  "live_one v = (if needleValue_isDeleted v then 0 else 1)"

definition dead_one :: "needleValue \<Rightarrow> u64" where
  "dead_one v = (if needleValue_isDeleted v then 1 else 0)"

definition size_of_value :: "needleValue \<Rightarrow> u64" where
  "size_of_value v = ucast (nvl_size v)"

definition nm_stats :: "MemDb \<Rightarrow> bool" where
  "nm_stats db \<longleftrightarrow> finite (dom (db_m db)) \<and> fileCount db = map_sum live_one (db_m db) \<and>
     deletedCount db = map_sum dead_one (db_m db) \<and> contentSize db = map_sum size_of_value (db_m db)"

lemmas stat_defs = stat_remove_def stat_add_def needleValue_isDeleted_def live_one_def dead_one_def
  size_of_value_def TombstoneFileSize_def

lemma db_m_stat [simp]: "db_m (stat_remove old db) = db_m db" "db_m (stat_add sz db) = db_m db"
  "db_file (stat_remove old db) = db_file db" "db_file (stat_add sz db) = db_file db"
  by (simp_all add: stat_remove_def stat_add_def split: option.splits)

lemma stat_upd [simp]:
  "stat_add sz (stat_remove old (db\<lparr>db_m := m\<rparr>)) = (stat_add sz (stat_remove old db))\<lparr>db_m := m\<rparr>"
  "stat_add sz (db\<lparr>db_m := m\<rparr>) = (stat_add sz db)\<lparr>db_m := m\<rparr>"
  by (simp_all add: stat_remove_def stat_add_def split: option.splits)

lemma nm_stats_NewMemDb [simp]: "nm_stats NewMemDb"
  by (simp add: nm_stats_def NewMemDb_def map_sum_def)

lemma nm_stats_put:
  assumes "nm_stats db"
  shows "nm_stats ((stat_add sz (stat_remove (db_m db k) db))\<lparr>db_m := (db_m db)(k \<mapsto> \<lparr>nvl_offset = off, nvl_size = sz\<rparr>)\<rparr>)"
  using assms by (cases "db_m db k") (auto simp: nm_stats_def map_sum_upd stat_defs)

lemma nm_stats_load_entry: "nm_stats db \<Longrightarrow> nm_stats (load_entry k off sz db)"
  using nm_stats_put [where db = db and sz = sz and k = k and off = off] by (simp add: load_entry_def Let_def)

lemma nm_stats_load: "nm_stats db \<Longrightarrow> nm_stats (load_entries bs db)"
proof (induction bs db rule: load_entries.induct)
  case (1 bs db)
  then show ?case by (subst load_entries.simps) (simp add: Let_def nm_stats_load_entry)
qed

lemma nm_stats_file [simp]: "nm_stats (db\<lparr>db_file := f\<rparr>) = nm_stats db"
  by (simp add: nm_stats_def)

lemma nm_stats_append: "nm_stats db \<Longrightarrow> appendEntry s db k off sz = (r, s', db') \<Longrightarrow> nm_stats db'"
  by (auto simp: appendEntry_def split: option.splits prod.splits)

lemma nm_stats_Put: "nm_stats db \<Longrightarrow> MemDb_Put s db k off sz = (r, s', db') \<Longrightarrow> nm_stats db'"
  by (auto simp: MemDb_Put_def Let_def dest: nm_stats_append nm_stats_put)

lemma nm_stats_Delete:
  assumes st: "nm_stats db" and run: "MemDb_Delete s db k = (r, s', db')"
  shows "nm_stats db'"
proof (cases "\<exists>old. db_m db k = Some old \<and> \<not> needleValue_isDeleted old")
  case True
  then obtain old where old: "db_m db k = Some old" "\<not> needleValue_isDeleted old" by blast
  let ?db = "db\<lparr>fileCount := fileCount db - 1, contentSize := contentSize db - ucast (nvl_size old),
    deletedCount := deletedCount db + 1, deletedSize := deletedSize db + ucast (nvl_size old),
    db_m := (db_m db)(k \<mapsto> \<lparr>nvl_offset = nvl_offset old, nvl_size = TombstoneFileSize\<rparr>)\<rparr>"
  have "nm_stats ?db" using st old by (simp add: nm_stats_def map_sum_upd stat_defs)
  then show ?thesis using run old by (simp add: MemDb_Delete_def Let_def) (rule nm_stats_append)
next
  case False
  then show ?thesis using st run by (auto simp: MemDb_Delete_def split: option.splits)
qed

section \<open>Replaying what was appended\<close>

lemma length_index_entry [simp]: "length (index_entry k off sz) = 16"
  by (simp add: index_entry_def)

lemma load_entries_short [simp]: "length bs < 16 \<Longrightarrow> load_entries bs db = db"
  by (subst load_entries.simps) (simp add: NeedleIndexSize_def)

lemma load_entries_entry [simp]:
  "load_entries (index_entry k off sz @ bs) db = load_entries bs (load_entry k off sz db)"
  by (subst load_entries.simps) (simp add: NeedleIndexSize_def index_entry_def)

lemma load_entries_append:
  "16 dvd length bs \<Longrightarrow> load_entries (bs @ cs) db = load_entries cs (load_entries bs db)"
proof (induction bs db rule: load_entries.induct)
  case (1 bs db)
  show ?case
  proof (cases "length bs < 16")
    case True
    with 1(2) have "bs = []" using dvd_imp_le by fastforce
    then show ?thesis by simp
  next
    case False
    let ?db = "load_entry (get_u64 (take 8 bs)) (get_u32 (take 4 (drop 8 bs))) (get_u32 (take 4 (drop 12 bs))) db"
    have "16 dvd length (drop 16 bs)" using 1(2) False by (simp add: dvd_minus_self)
    with 1(1) False have "load_entries (drop 16 bs @ cs) ?db = load_entries cs (load_entries (drop 16 bs) ?db)"
      by (simp add: NeedleIndexSize_def drop_take)
    then show ?thesis
      using False by (subst (1 3) load_entries.simps) (simp add: NeedleIndexSize_def drop_take Let_def)
  qed
qed

lemma load_entry_m [simp]:
  "db_m (load_entry k off sz db) = (db_m db)(k \<mapsto> \<lparr>nvl_offset = off, nvl_size = sz\<rparr>)"
  by (simp add: load_entry_def Let_def)

text \<open>\<open>idx_map c\<close> is the map that a restart reads from index file content \<open>c\<close>.\<close>

definition idx_map :: "bytes \<Rightarrow> NeedleId \<Rightarrow> needleValue option" where
  "idx_map c = db_m (load_entries c NewMemDb)"

lemma idx_map_append:
  "16 dvd length c \<Longrightarrow> idx_map (c @ index_entry k off sz) = (idx_map c)(k \<mapsto> \<lparr>nvl_offset = off, nvl_size = sz\<rparr>)"
  using load_entries_entry [of k off sz "[]"] by (simp add: idx_map_def load_entries_append)

lemma idx_map_torn: "16 dvd length c \<Longrightarrow> length t < 16 \<Longrightarrow> idx_map (c @ t) = idx_map c"
  by (simp add: idx_map_def load_entries_append)

definition idx_open :: "fsys \<Rightarrow> MemDb \<Rightarrow> string \<Rightarrow> bool" where
  "idx_open s db p \<longleftrightarrow> (\<exists>f. db_file db = Some f \<and> f_name f = p \<and> at_end (fs_files s) f (s, f))"

definition idx_synced :: "fsys \<Rightarrow> MemDb \<Rightarrow> string \<Rightarrow> bool" where
  "idx_synced s db p \<longleftrightarrow> idx_open s db p \<and>
     (\<exists>c. fs_files s p = Some c \<and> 16 dvd length c \<and> idx_map c = db_m db)"

lemma at_end_self: "at_end F f (s', f') \<Longrightarrow> at_end (fs_files s') f' (s', f')"
  by (auto simp: at_end_def)

lemma appendEntry_outcome:
  assumes op: "idx_open s db p" and c: "fs_files s p = Some c"
    and run: "appendEntry s db k off sz = (r, s', db')"
  shows "db_m db' = db_m db" "idx_open s' db' p" "\<And>q. q \<noteq> p \<Longrightarrow> fs_files s' q = fs_files s q"
    and "(r = Inr () \<and> fs_files s' p = Some (c @ index_entry k off sz)) \<or>
         (r = Inl ErrIndexWrite \<and> (\<exists>t. length t < 16 \<and> fs_files s' p = Some (c @ t)))"
proof -
  obtain f where f: "db_file db = Some f" "f_name f = p" and e: "at_end (fs_files s) f (s, f)"
    using op by (auto simp: idx_open_def)
  obtain f' ok where w: "file_write (s, f) (index_entry k off sz) = ((s', f'), ok)"
    and out: "r = (if ok then Inr () else Inl ErrIndexWrite)" "db' = db\<lparr>db_file := Some f'\<rparr>"
    using run f by (auto simp: appendEntry_def split: prod.splits)
  note w' = file_write_at_end [OF e w]
  show "db_m db' = db_m db" by (simp add: out)
  show "idx_open s' db' p" using at_end_self [OF w'(1)] w'(1) f by (simp add: idx_open_def out at_end_def)
  show "\<And>q. q \<noteq> p \<Longrightarrow> fs_files s' q = fs_files s q" using w'(1) f by (simp add: at_end_def)
  have "fs_files s' p = Some (c @ take (fs_room s) (index_entry k off sz))"
    using w'(1,2) f c by (auto simp: at_end_def file_content_def)
  then show "(r = Inr () \<and> fs_files s' p = Some (c @ index_entry k off sz)) \<or>
         (r = Inl ErrIndexWrite \<and> (\<exists>t. length t < 16 \<and> fs_files s' p = Some (c @ t)))"
    using w'(3) out(1) by (cases ok) (auto intro!: exI [of _ "take (fs_room s) (index_entry k off sz)"])
qed

text \<open>What one \<open>Put\<close> or \<open>Delete\<close> does to memory and disk, on success and on a torn append.\<close>

lemma MemDb_Put_outcome:
  assumes sync: "idx_synced s db p" and run: "MemDb_Put s db k off sz = (r, s', db')"
  shows "db_m db' = (db_m db)(k \<mapsto> \<lparr>nvl_offset = off, nvl_size = sz\<rparr>)"
    and "\<And>q. q \<noteq> p \<Longrightarrow> fs_files s' q = fs_files s q"
    and "r = Inr () \<Longrightarrow> idx_synced s' db' p"
    and "r \<noteq> Inr () \<Longrightarrow> idx_open s' db' p \<and> (\<exists>c. fs_files s' p = Some c \<and> idx_map c = db_m db)"
proof -
  let ?db = "(stat_add sz (stat_remove (db_m db k) db))\<lparr>db_m := (db_m db)(k \<mapsto> \<lparr>nvl_offset = off, nvl_size = sz\<rparr>)\<rparr>"
  obtain c where c: "fs_files s p = Some c" "16 dvd length c" "idx_map c = db_m db"
    using sync by (auto simp: idx_synced_def)
  have op: "idx_open s ?db p" using sync by (simp add: idx_synced_def idx_open_def)
  have "appendEntry s ?db k off sz = (r, s', db')" using run by (simp add: MemDb_Put_def Let_def)
  note out = appendEntry_outcome [OF op c(1) this]
  show "db_m db' = (db_m db)(k \<mapsto> \<lparr>nvl_offset = off, nvl_size = sz\<rparr>)" using out(1) by simp
  show "\<And>q. q \<noteq> p \<Longrightarrow> fs_files s' q = fs_files s q" by (rule out(3))
  show "r = Inr () \<Longrightarrow> idx_synced s' db' p"
    using out c by (auto simp: idx_synced_def idx_map_append)
  show "r \<noteq> Inr () \<Longrightarrow> idx_open s' db' p \<and> (\<exists>c. fs_files s' p = Some c \<and> idx_map c = db_m db)"
    using out c by (auto simp: idx_map_torn)
qed

lemma MemDb_Delete_outcome:
  assumes sync: "idx_synced s db p" and live: "db_m db k = Some v" "nvl_size v \<noteq> TombstoneFileSize"
    and run: "MemDb_Delete s db k = (r, s', db')"
  shows "db_m db' = (db_m db)(k \<mapsto> \<lparr>nvl_offset = nvl_offset v, nvl_size = TombstoneFileSize\<rparr>)"
    and "\<And>q. q \<noteq> p \<Longrightarrow> fs_files s' q = fs_files s q"
    and "r = Inr () \<Longrightarrow> idx_synced s' db' p"
    and "r \<noteq> Inr () \<Longrightarrow> idx_open s' db' p \<and> (\<exists>c. fs_files s' p = Some c \<and> idx_map c = db_m db)"
proof -
  let ?db = "db\<lparr>fileCount := fileCount db - 1, contentSize := contentSize db - ucast (nvl_size v),
    deletedCount := deletedCount db + 1, deletedSize := deletedSize db + ucast (nvl_size v),
    db_m := (db_m db)(k \<mapsto> \<lparr>nvl_offset = nvl_offset v, nvl_size = TombstoneFileSize\<rparr>)\<rparr>"
  obtain c where c: "fs_files s p = Some c" "16 dvd length c" "idx_map c = db_m db"
    using sync by (auto simp: idx_synced_def)
  have op: "idx_open s ?db p" using sync by (simp add: idx_synced_def idx_open_def)
  have "appendEntry s ?db k (nvl_offset v) TombstoneFileSize = (r, s', db')"
    using run live by (simp add: MemDb_Delete_def Let_def needleValue_isDeleted_def)
  note out = appendEntry_outcome [OF op c(1) this]
  show "db_m db' = (db_m db)(k \<mapsto> \<lparr>nvl_offset = nvl_offset v, nvl_size = TombstoneFileSize\<rparr>)"
    using out(1) by simp
  show "\<And>q. q \<noteq> p \<Longrightarrow> fs_files s' q = fs_files s q" by (rule out(3))
  show "r = Inr () \<Longrightarrow> idx_synced s' db' p"
    using out c by (auto simp: idx_synced_def idx_map_append)
  show "r \<noteq> Inr () \<Longrightarrow> idx_open s' db' p \<and> (\<exists>c. fs_files s' p = Some c \<and> idx_map c = db_m db)"
    using out c by (auto simp: idx_map_torn)
qed

section \<open>The NeedleMap interface\<close>

text \<open>The calls \<open>Volume\<close> makes on its \<open>NeedleMap\<close>, run one after the other until the first index
  write fails, and their specification on a map from ids to what \<open>Get\<close> answers.\<close>

datatype nm_op = OpPut NeedleId Offset Size | OpDelete NeedleId

type_synonym nm_answer = "nm_error + (Offset \<times> Size)"

fun nm_spec :: "nm_op \<Rightarrow> (NeedleId \<Rightarrow> nm_answer) \<Rightarrow> NeedleId \<Rightarrow> nm_answer" where
  "nm_spec (OpPut k off sz) g =
     g(k := if sz = TombstoneFileSize then Inl ErrNeedleDeleted else Inr (off, sz))"
| "nm_spec (OpDelete k) g =
     (if g k = Inl ErrNeedleNotFound then g else g(k := Inl ErrNeedleDeleted))"

fun nm_apply ::
  "('s \<Rightarrow> NeedleId \<Rightarrow> Offset \<Rightarrow> Size \<Rightarrow> (nm_error + unit) \<times> 's) \<Rightarrow>
   ('s \<Rightarrow> NeedleId \<Rightarrow> (nm_error + unit) \<times> 's) \<Rightarrow> nm_op \<Rightarrow> 's \<Rightarrow> (nm_error + unit) \<times> 's"
where
  "nm_apply put del (OpPut k off sz) s = put s k off sz"
| "nm_apply put del (OpDelete k) s = del s k"

fun nm_run where
  "nm_run put del [] s = (Inr (), s)"
| "nm_run put del (op # ops) s =
     (case nm_apply put del op s of
        (r, s') \<Rightarrow> if r = Inl ErrIndexWrite then (r, s') else nm_run put del ops s')"

locale NeedleMap_contract =
  fixes put :: "'s \<Rightarrow> NeedleId \<Rightarrow> Offset \<Rightarrow> Size \<Rightarrow> (nm_error + unit) \<times> 's"
    and get :: "'s \<Rightarrow> NeedleId \<Rightarrow> nm_answer"
    and del :: "'s \<Rightarrow> NeedleId \<Rightarrow> (nm_error + unit) \<times> 's"
    and invar :: "'s \<Rightarrow> bool"
  assumes get_put: "invar s \<Longrightarrow> put s k off sz = (r, s') \<Longrightarrow> get s' = nm_spec (OpPut k off sz) (get s)"
    and get_del: "invar s \<Longrightarrow> del s k = (r, s') \<Longrightarrow> get s' = nm_spec (OpDelete k) (get s)"
    and put_invar: "invar s \<Longrightarrow> put s k off sz = (Inr (), s') \<Longrightarrow> invar s'"
    and put_result: "invar s \<Longrightarrow> put s k off sz = (r, s') \<Longrightarrow> r = Inr () \<or> r = Inl ErrIndexWrite"
    and del_invar: "invar s \<Longrightarrow> del s k = (r, s') \<Longrightarrow> r \<noteq> Inl ErrIndexWrite \<Longrightarrow> invar s'"
begin

lemma apply_spec: "invar s \<Longrightarrow> nm_apply put del op s = (r, s') \<Longrightarrow> get s' = nm_spec op (get s)"
  by (cases op) (simp_all add: get_put get_del)

lemma apply_invar: "invar s \<Longrightarrow> nm_apply put del op s = (r, s') \<Longrightarrow> r \<noteq> Inl ErrIndexWrite \<Longrightarrow> invar s'"
  by (cases op) (auto dest: put_result intro: put_invar del_invar)

lemma run_spec:
  "invar s \<Longrightarrow> nm_run put del ops s = (Inr (), s') \<Longrightarrow> invar s' \<and> get s' = fold nm_spec ops (get s)"
proof (induction ops arbitrary: s)
  case (Cons op ops)
  obtain r t where t: "nm_apply put del op s = (r, t)" by fastforce
  then have "r \<noteq> Inl ErrIndexWrite" "nm_run put del ops t = (Inr (), s')"
    using Cons.prems(2) by (auto split: if_splits)
  then show ?case
    using Cons.IH [of t] apply_invar [OF Cons.prems(1) t] apply_spec [OF Cons.prems(1) t] by simp
qed simp

end

definition memdb_put where "memdb_put sd k off sz = (case sd of (s, db) \<Rightarrow> MemDb_Put s db k off sz)"
definition memdb_del where "memdb_del sd k = (case sd of (s, db) \<Rightarrow> MemDb_Delete s db k)"
definition memdb_get where "memdb_get sd k = (case sd of (s :: fsys, db) \<Rightarrow> MemDb_Get db k)"

definition memdb_invar :: "string \<Rightarrow> fsys \<times> MemDb \<Rightarrow> bool" where
  "memdb_invar p sd = (case sd of (s, db) \<Rightarrow> idx_synced s db p \<and> nm_stats db)"

lemma MemDb_Get_upd:
  "db_m db' = (db_m db)(k \<mapsto> v) \<Longrightarrow>
   MemDb_Get db' = (MemDb_Get db)(k := if needleValue_isDeleted v then Inl ErrNeedleDeleted
                                        else Inr (nvl_offset v, nvl_size v))"
  by (auto simp: MemDb_Get_def fun_eq_iff)

interpretation memdb: NeedleMap_contract memdb_put memdb_get memdb_del "memdb_invar p" for p
proof
  fix s k off sz r s'
  assume inv: "memdb_invar p s" and run: "memdb_put s k off sz = (r, s')"
  obtain fs db fs' db' where eqs: "s = (fs, db)" "s' = (fs', db')" by (cases s, cases s')
  have run': "MemDb_Put fs db k off sz = (r, fs', db')" using run by (simp add: eqs memdb_put_def)
  have sync: "idx_synced fs db p" and st: "nm_stats db" using inv by (simp_all add: memdb_invar_def eqs)
  note out = MemDb_Put_outcome [OF sync run']
  show "memdb_get s' = nm_spec (OpPut k off sz) (memdb_get s)"
    using MemDb_Get_upd [OF out(1)] by (simp add: memdb_get_def fun_eq_iff eqs needleValue_isDeleted_def)
  show "r = Inr () \<or> r = Inl ErrIndexWrite"
    using run' by (auto simp: MemDb_Put_def Let_def appendEntry_def split: option.splits prod.splits if_splits)
next
  fix s k off sz s'
  assume "memdb_invar p s" "memdb_put s k off sz = (Inr (), s')"
  then show "memdb_invar p s'"
    by (cases s; cases s') (auto simp: memdb_invar_def memdb_put_def dest: MemDb_Put_outcome(3) nm_stats_Put)
next
  fix s k r s'
  assume inv: "memdb_invar p s" and run: "memdb_del s k = (r, s')"
  obtain fs db fs' db' where eqs: "s = (fs, db)" "s' = (fs', db')" by (cases s, cases s')
  have run': "MemDb_Delete fs db k = (r, fs', db')" using run by (simp add: eqs memdb_del_def)
  have sync: "idx_synced fs db p" and st: "nm_stats db" using inv by (simp_all add: memdb_invar_def eqs)
  have "memdb_get s' = nm_spec (OpDelete k) (memdb_get s) \<and> (r \<noteq> Inl ErrIndexWrite \<longrightarrow> idx_synced fs' db' p)"
  proof (cases "\<exists>v. db_m db k = Some v \<and> nvl_size v \<noteq> TombstoneFileSize")
    case True
    then obtain v where v: "db_m db k = Some v" "nvl_size v \<noteq> TombstoneFileSize" by blast
    note out = MemDb_Delete_outcome [OF sync v run']
    have "r = Inr () \<or> r = Inl ErrIndexWrite"
      using run' v by (auto simp: MemDb_Delete_def Let_def appendEntry_def split: option.splits prod.splits if_splits)
    then show ?thesis
      using out(3) MemDb_Get_upd [OF out(1)] v
      by (auto simp: memdb_get_def eqs needleValue_isDeleted_def MemDb_Get_def fun_eq_iff)
  next
    case False
    then show ?thesis
      using run' sync by (cases "db_m db k")
        (auto simp: memdb_get_def eqs needleValue_isDeleted_def MemDb_Get_def fun_eq_iff MemDb_Delete_def)
  qed
  then show "memdb_get s' = nm_spec (OpDelete k) (memdb_get s)"
    and "r \<noteq> Inl ErrIndexWrite \<Longrightarrow> memdb_invar p s'"
    using nm_stats_Delete [OF st run'] by (simp_all add: memdb_invar_def eqs)
qed

text \<open>Two indexes with the same entries have the same statistics, up to \<open>deletedSize\<close>.\<close>

lemma nm_stats_unique:
  "nm_stats a \<Longrightarrow> nm_stats b \<Longrightarrow> db_m a = db_m b \<Longrightarrow>
   fileCount a = fileCount b \<and> deletedCount a = deletedCount b \<and> contentSize a = contentSize b"
  by (simp add: nm_stats_def)

lemma LoadNeedleMap_synced:
  assumes "idx_synced s db p" "LoadNeedleMap s p = (s', db')"
  shows "db_m db' = db_m db" "nm_stats db'" "idx_synced s' db' p" "s' = s"
  using assms by (auto simp: LoadNeedleMap_def OpenIndexFile_def open_create_def idx_synced_def idx_open_def
      MemDb_Load_def idx_map_def nm_stats_load fs_exists_def at_end_def)


definition sample_index_fs :: fsys where
  "sample_index_fs = \<lparr>fs_files = (\<lambda>_. None)(''7.idx'' \<mapsto> []), fs_room = 64\<rparr>"

definition sample_index :: MemDb where
  "sample_index = snd (LoadNeedleMap sample_index_fs ''7.idx'')"

definition sample_index_ops :: "nm_op list" where
  "sample_index_ops = [OpPut 1 1 24, OpPut 2 4 32, OpDelete 1]"

lemma sample_index_invar: "memdb_invar ''7.idx'' (sample_index_fs, sample_index)"
  by (simp add: memdb_invar_def sample_index_def LoadNeedleMap_def OpenIndexFile_def open_create_def
      MemDb_Load_def sample_index_fs_def fs_exists_def idx_synced_def idx_open_def idx_map_def at_end_def)

lemma sample_index_run: "fst (nm_run memdb_put memdb_del sample_index_ops (sample_index_fs, sample_index)) = Inr ()"
  by (simp add: sample_index_ops_def memdb_put_def memdb_del_def sample_index_def LoadNeedleMap_def
      OpenIndexFile_def open_create_def MemDb_Load_def sample_index_fs_def fs_exists_def MemDb_Put_def
      NewMemDb_def stat_defs appendEntry_def file_write_def write_at_def write_pos_def MemDb_Delete_def
      Let_def)


section \<open>Compacting the index\<close>

definition entry_bytes :: "NeedleId \<times> Offset \<times> Size \<Rightarrow> bytes" where
  "entry_bytes e = (case e of (k, off, sz) \<Rightarrow> index_entry k off sz)"

definition entry_upd :: "NeedleId \<times> Offset \<times> Size \<Rightarrow> (NeedleId \<Rightarrow> needleValue option) \<Rightarrow> NeedleId \<Rightarrow> needleValue option"
where "entry_upd e m = (case e of (k, off, sz) \<Rightarrow> m(k \<mapsto> \<lparr>nvl_offset = off, nvl_size = sz\<rparr>))"

definition live_only :: "(NeedleId \<Rightarrow> needleValue option) \<Rightarrow> NeedleId \<Rightarrow> needleValue option" where
  "live_only m k = (case m k of Some v \<Rightarrow> if needleValue_isDeleted v then None else Some v | None \<Rightarrow> None)"

lemma length_entries: "length (concat (map entry_bytes es)) = 16 * length es"
  by (induction es) (auto simp: entry_bytes_def)

lemma load_entries_concat:
  "db_m (load_entries (concat (map entry_bytes es)) db) = fold entry_upd es (db_m db)"
  by (induction es arbitrary: db) (auto simp: entry_bytes_def entry_upd_def)

lemma idx_map_concat: "idx_map (concat (map entry_bytes es)) = fold entry_upd es (\<lambda>_. None)"
  by (simp add: idx_map_def load_entries_concat NewMemDb_def)

lemma fold_entry_upd:
  "distinct (map fst es) \<Longrightarrow>
   fold entry_upd es m k =
     (case map_of es k of None \<Rightarrow> m k | Some (off, sz) \<Rightarrow> Some \<lparr>nvl_offset = off, nvl_size = sz\<rparr>)"
proof (induction es arbitrary: m)
  case (Cons e es)
  then show ?case
    by (cases e) (auto simp: entry_upd_def split: option.splits dest: map_of_SomeD intro: rev_image_eqI)
qed simp

lemma write_live_outcome:
  assumes "at_end F f0 dst" "write_live dst es = (Inr (), dst')"
  shows "at_end F f0 dst' \<and>
    file_content dst' = file_content dst @ concat (map entry_bytes (filter (\<lambda>(k, off, sz). sz \<noteq> TombstoneFileSize) es))"
  using assms
proof (induction es arbitrary: dst)
  case (Cons e es)
  obtain k off sz where e: "e = (k, off, sz)" by (cases e)
  show ?case
  proof (cases "sz = TombstoneFileSize")
    case False
    obtain d where w: "file_write dst (index_entry k off sz) = (d, True)"
      and run: "write_live d es = (Inr (), dst')"
      using Cons.prems(2) False by (auto simp: e split: prod.splits if_splits)
    show ?thesis
      using Cons.IH [OF file_write_at_end(1) [OF Cons.prems(1) w] run] osfile.write_ok [OF Cons.prems(1) w]
      by (simp add: e False entry_bytes_def)
  qed (use Cons in \<open>auto simp: e\<close>)
qed simp

text \<open>The entries \<open>Iterate\<close> passes on, and the live ones among them, as a map.\<close>

lemma MemDb_Iterate_simps [simp]:
  "MemDb_Iterate [] db = []"
  "db_m db k = None \<Longrightarrow> MemDb_Iterate (k # ks) db = MemDb_Iterate ks db"
  "db_m db k = Some v \<Longrightarrow> MemDb_Iterate (k # ks) db = (k, nvl_offset v, nvl_size v) # MemDb_Iterate ks db"
  by (simp_all add: MemDb_Iterate_def)

lemma MemDb_Iterate_keys: "fst ` set (MemDb_Iterate ks db) \<subseteq> set ks"
  by (auto simp: MemDb_Iterate_def split: option.splits)

lemma distinct_Iterate: "distinct ks \<Longrightarrow> distinct (map fst (MemDb_Iterate ks db))"
proof (induction ks)
  case (Cons k ks)
  then show ?case using MemDb_Iterate_keys [of ks db] by (cases "db_m db k") auto
qed simp

lemma map_of_Iterate_step:
  "map_of (filter (\<lambda>(k, off, sz). sz \<noteq> TombstoneFileSize) (MemDb_Iterate ks db)) k =
   (if k \<in> set ks then map_option (\<lambda>v. (nvl_offset v, nvl_size v)) (live_only (db_m db) k) else None)"
proof (induction ks)
  case (Cons j ks)
  then show ?case
    by (cases "db_m db j") (auto simp: live_only_def needleValue_isDeleted_def)
qed simp

lemma map_of_Iterate:
  assumes "dom (db_m db) \<subseteq> set order"
  shows "map_of (filter (\<lambda>(k, off, sz). sz \<noteq> TombstoneFileSize) (MemDb_Iterate order db)) k =
         map_option (\<lambda>v. (nvl_offset v, nvl_size v)) (live_only (db_m db) k)"
proof -
  have "k \<notin> set order \<Longrightarrow> db_m db k = None" using assms by blast
  then show ?thesis by (simp add: map_of_Iterate_step live_only_def)
qed

lemma distinct_map_fst_filter: "distinct (map fst es) \<Longrightarrow> distinct (map fst (filter P es))"
  by (induction es) auto

lemma idx_map_live_entries:
  assumes "distinct order" "dom (db_m db) \<subseteq> set order"
  shows "idx_map (concat (map entry_bytes (filter (\<lambda>(k, off, sz). sz \<noteq> TombstoneFileSize) (MemDb_Iterate order db)))) =
         live_only (db_m db)"
proof
  fix k
  show "idx_map (concat (map entry_bytes (filter (\<lambda>(k, off, sz). sz \<noteq> TombstoneFileSize) (MemDb_Iterate order db)))) k =
        live_only (db_m db) k"
    unfolding idx_map_concat fold_entry_upd [OF distinct_map_fst_filter [OF distinct_Iterate [OF assms(1)]]]
      map_of_Iterate [OF assms(2)]
    by (simp split: option.splits)
qed

text \<open>Compacting an index keeps the live entries. Whatever order the map is iterated in, when
  \<open>CompactIndex\<close> succeeds the output file loads to exactly the entries of the input file that
  are not tombstones, and no other file than the output changes.\<close>

theorem CompactIndex_live:
  assumes input: "fs_files s inp = Some c" and "distinct order" "dom (idx_map c) \<subseteq> set order"
    and run: "CompactIndex order s inp out = (Inr (), s')"
  shows "db_m (MemDb_Load s' NewMemDb out) = live_only (idx_map c) \<and> (\<forall>q. q \<noteq> out \<longrightarrow> fs_files s' q = fs_files s q)"
proof -
  let ?db = "load_entries c NewMemDb"
  obtain f' where w: "write_live (os_Create s out) (MemDb_Iterate order ?db) = (Inr (), (s', f'))"
    using run input by (auto simp: CompactIndex_def MemDb_Load_def split: prod.splits)
  have "at_end (fs_files s) \<lparr>f_name = out, f_pos = 0, f_append = False\<rparr> (os_Create s out)"
    by (simp add: at_end_def os_Create_def file_content_def)
  note o = write_live_outcome [OF this w]
  have "file_content (os_Create s out) = []" by (simp add: os_Create_def file_content_def)
  then have "fs_files s' out = Some (concat (map entry_bytes
      (filter (\<lambda>(k, off, sz). sz \<noteq> TombstoneFileSize) (MemDb_Iterate order ?db))))"
    using o by (auto simp: at_end_def file_content_def)
  moreover have "dom (db_m ?db) \<subseteq> set order" using assms(3) by (simp add: idx_map_def)
  ultimately show ?thesis
    using idx_map_live_entries [of order ?db] assms(2) o
    by (simp add: MemDb_Load_def idx_map_def at_end_def)
qed

definition sample_compact_fs :: fsys where
  "sample_compact_fs =
     \<lparr>fs_files = (\<lambda>_. None)(''a'' \<mapsto> index_entry 5 1 24 @ index_entry 6 4 32 @ index_entry 5 1 0), fs_room = 100\<rparr>"

theorem CompactIndex_live_witness:
  "\<exists>s'. CompactIndex [6, 5] sample_compact_fs ''a'' ''b'' = (Inr (), s') \<and>
     db_m (MemDb_Load s' NewMemDb ''b'') 5 = None \<and>
     db_m (MemDb_Load s' NewMemDb ''b'') 6 = Some \<lparr>nvl_offset = 4, nvl_size = 32\<rparr>"
proof -
  let ?c = "index_entry 5 1 24 @ index_entry 6 4 32 @ index_entry 5 1 0"
  have m: "idx_map ?c = (\<lambda>_. None)(5 \<mapsto> \<lparr>nvl_offset = 1, nvl_size = 0\<rparr>, 6 \<mapsto> \<lparr>nvl_offset = 4, nvl_size = 32\<rparr>)"
    using load_entries_entry [of 5 1 0 "[]"] by (auto simp: idx_map_def NewMemDb_def fun_eq_iff)
  have "fst (CompactIndex [6, 5] sample_compact_fs ''a'' ''b'') = Inr ()"
    using m by (simp add: CompactIndex_def sample_compact_fs_def MemDb_Load_def MemDb_Iterate_def idx_map_def
        os_Create_def file_write_def write_at_def write_pos_def TombstoneFileSize_def Let_def)
  then obtain s' where run: "CompactIndex [6, 5] sample_compact_fs ''a'' ''b'' = (Inr (), s')"
    by (metis prod.collapse)
  have "db_m (MemDb_Load s' NewMemDb ''b'') = live_only (idx_map ?c)"
    using CompactIndex_live [OF _ _ _ run, of ?c] m by (simp add: sample_compact_fs_def)
  then show ?thesis
    using run by (simp add: m live_only_def needleValue_isDeleted_def TombstoneFileSize_def)
qed

section \<open>Limits of the index format\<close>

lemma load_entry_deletedSize: "deletedSize (load_entry k off sz db) = deletedSize db"
  by (simp add: load_entry_def Let_def stat_defs split: option.splits)

lemma load_entries_deletedSize: "deletedSize (load_entries bs db) = deletedSize db"
proof (induction bs db rule: load_entries.induct)
  case (1 bs db)
  then show ?case
    by (subst load_entries.simps) (simp add: Let_def load_entry_deletedSize)
qed

text \<open>A restart forgets how many bytes are garbage: the tombstones in the index file carry size zero.\<close>

lemma LoadNeedleMap_deletedSize: "deletedSize (snd (LoadNeedleMap s p)) = 0"
  by (simp add: LoadNeedleMap_def OpenIndexFile_def open_create_def MemDb_Load_def load_entries_deletedSize
      NewMemDb_def split: option.splits)

text \<open>A torn entry that is not the last one shifts every later entry: needle 2, appended after a
  torn entry of five bytes, is not found by the replay.\<close>

lemma nat_be_numeral: "nat_be (numeral k) v = nat_be (pred_numeral k) (v div 256) @ [of_nat v]"
  by (simp only: numeral_eq_Suc [of k] nat_be.simps)

lemma torn_entry_hides_later: "idx_map (take 5 (index_entry 1 1 24) @ index_entry 2 4 32) 2 = None"
proof -
  let ?bs = "take 5 (index_entry 1 1 24) @ index_entry 2 4 32"
  have bytes: "?bs = [0, 0, 0, 0, 0, 0, 0, 0, 0, 0, 0, 0, 2, 0, 0, 0, 4, 0, 0, 0, 32]"
    by (simp add: index_entry_def put_u64_def put_u32_def nat_be_numeral)
  have "load_entries ?bs NewMemDb = load_entry 0 0 (get_u32 [2, 0, 0, 0]) NewMemDb"
    unfolding bytes by (subst load_entries.simps)
      (simp add: NeedleIndexSize_def get_u64_def get_u32_def be_nat_def Let_def)
  then show ?thesis by (simp add: idx_map_def NewMemDb_def)
qed

end
