(* ===== verification/NeedleCodec.thy ===== *)
theory NeedleCodec
  imports Needle
begin

text \<open>
  The reader of \<open>goblob/storage/needle/needle_read.go\<close> against the writer: a record written by
  \<open>WriteTo\<close> is read back field by field, a changed record is rejected by the checksum, and
  the reader panics only when the 32-bit length test wraps around.
\<close>

section \<open>The optional fields, one at a time\<close>

lemma unat_byte_of_length: "k \<le> 255 \<Longrightarrow> unat (of_nat k :: byte) = k"
  by (simp add: unat_of_nat)

lemma HasFlag_cong:
  assumes "n_Flags m = n_Flags n"
  shows "HasName m = HasName n" "HasMime m = HasMime n" "HasPairs m = HasPairs n"
    "HasLastModified m = HasLastModified n" "HasTtl m = HasTtl n"
  using assms by (simp_all add: HasName_def HasMime_def HasPairs_def HasLastModified_def HasTtl_def)

lemma read_name_step:
  assumes "n_Flags m = n_Flags n" "HasName n \<Longrightarrow> length (n_Name n) \<le> 255" "n_Name m = []"
    and seg: "seg = (if HasName n then of_nat (length (n_Name n)) # n_Name n else [])"
  shows "read_name (pre @ seg @ suf) (m, length pre) = Inr (m\<lparr>n_Name := GetName n\<rparr>, length (pre @ seg))"
  using assms(2,3) HasFlag_cong(1) [OF assms(1)] unfolding seg
  by (cases "HasName n") (simp_all add: read_name_def nth_append unat_byte_of_length GetName_def Let_def)

lemma read_mime_step:
  assumes "n_Flags m = n_Flags n" "HasMime n \<Longrightarrow> length (n_Mime n) \<le> 255" "n_Mime m = []"
    and seg: "seg = (if HasMime n then of_nat (length (n_Mime n)) # n_Mime n else [])"
  shows "read_mime (pre @ seg @ suf) (m, length pre) = Inr (m\<lparr>n_Mime := GetMime n\<rparr>, length (pre @ seg))"
  using assms(2,3) HasFlag_cong(2) [OF assms(1)] unfolding seg
  by (cases "HasMime n") (simp_all add: read_mime_def nth_append unat_byte_of_length GetMime_def Let_def)

lemma read_pairs_step:
  assumes "n_Flags m = n_Flags n" "HasPairs n \<Longrightarrow> length (n_Pairs n) \<le> 65535" "n_Pairs m = []"
    and seg: "seg = (if HasPairs n then put_u16 (of_nat (length (n_Pairs n))) @ n_Pairs n else [])"
  shows "read_pairs (pre @ seg @ suf) (m, length pre) = Inr (m\<lparr>n_Pairs := GetPairs n\<rparr>, length (pre @ seg))"
  using assms(2,3) HasFlag_cong(3) [OF assms(1)] unfolding seg
  by (cases "HasPairs n") (simp_all add: read_pairs_def unat_of_nat GetPairs_def Let_def)

lemma and_FF: "(w :: u64) AND 0xFF = take_bit 8 w"
  by (simp add: take_bit_eq_mask mask_eq_exp_minus_1)

lemma no_bit_above:
  assumes "unat (v :: u64) < 2 ^ k" "k \<le> j"
  shows "\<not> bit v j"
proof -
  have "take_bit k (unat v) = unat v" using assms(1) by (simp add: take_bit_nat_eq_self_iff)
  then have "take_bit k v = v" by (metis unsigned_take_bit_eq unsigned_word_eqI)
  then show ?thesis using assms(2) by (metis bit_take_bit_iff not_le)
qed

lemma uint40_roundtrip:
  assumes "unat v < 2 ^ 40"
  shows "readUint40BigEndian (writeUint40BigEndian v) = v"
proof (rule bit_word_eqI)
  fix i assume i: "i < LENGTH(64)"
  have high: "\<not> bit v j" if "40 \<le> j" for j using no_bit_above [OF assms that] .
  have "i < 8 \<or> (\<exists>m < 8. i = m + 8) \<or> (\<exists>m < 8. i = m + 16) \<or> (\<exists>m < 8. i = m + 24) \<or>
        (\<exists>m < 8. i = m + 32) \<or> 40 \<le> i" by presburger
  then show "bit (readUint40BigEndian (writeUint40BigEndian v)) i = bit v i"
    using high i
    by (elim disjE exE conjE)
       (simp_all add: readUint40BigEndian_def writeUint40BigEndian_def and_FF bit_simps add.commute)
qed

lemma read_last_modified_step:
  assumes "n_Flags m = n_Flags n" "HasLastModified n \<Longrightarrow> unat (n_LastModified n) < 2 ^ 40"
    "n_LastModified m = 0"
    and seg: "seg = (if HasLastModified n then writeUint40BigEndian (n_LastModified n) else [])"
  shows "read_last_modified (pre @ seg @ suf) (m, length pre) =
         Inr (m\<lparr>n_LastModified := GetLastModified n\<rparr>, length (pre @ seg))"
  using assms(2,3) HasFlag_cong(4) [OF assms(1)] unfolding seg
  by (cases "HasLastModified n") (simp_all add: read_last_modified_def uint40_roundtrip GetLastModified_def)

lemma read_ttl_step:
  assumes "n_Flags m = n_Flags n" "n_Ttl m = TTL_zero"
    and seg: "seg = (if HasTtl n then TTL_Bytes (n_Ttl n) else [])"
  shows "read_ttl (pre @ seg @ suf) (m, length pre) =
         Inr (m\<lparr>n_Ttl := (if HasTtl n then n_Ttl n else TTL_zero)\<rparr>, length (pre @ seg))"
  using assms(2) HasFlag_cong(5) [OF assms(1)] unfolding seg
  by (cases "HasTtl n") (simp_all add: read_ttl_def TTL_Bytes_def nth_append)

section \<open>The whole body\<close>

lemma read_body_bodyBytes:
  assumes wf: "needle_wf n"
    and m: "n_Name m = []" "n_Mime m = []" "n_Pairs m = []" "n_LastModified m = 0" "n_Ttl m = TTL_zero"
  shows "read_body (bodyBytes n @ suf) m =
    Inr (m\<lparr>n_DataSize := n_DataSize n, n_Data := n_Data n, n_Flags := n_Flags n, n_Name := GetName n,
           n_Mime := GetMime n, n_Pairs := GetPairs n, n_LastModified := GetLastModified n,
           n_Ttl := (if HasTtl n then n_Ttl n else TTL_zero)\<rparr>, length (bodyBytes n))"
proof -
  define nm where "nm = (if HasName n then of_nat (length (n_Name n)) # n_Name n else [])"
  define mm where "mm = (if HasMime n then of_nat (length (n_Mime n)) # n_Mime n else [])"
  define pp where "pp = (if HasPairs n then put_u16 (of_nat (length (n_Pairs n))) @ n_Pairs n else [])"
  define lm where "lm = (if HasLastModified n then writeUint40BigEndian (n_LastModified n) else [])"
  define tt where "tt = (if HasTtl n then TTL_Bytes (n_Ttl n) else [])"
  define p1 where "p1 = put_u32 (n_DataSize n) @ n_Data n @ [n_Flags n]"
  define m1 where "m1 = m\<lparr>n_DataSize := n_DataSize n, n_Data := n_Data n, n_Flags := n_Flags n\<rparr>"
  let ?m2 = "m1\<lparr>n_Name := GetName n\<rparr>"
  let ?m3 = "?m2\<lparr>n_Mime := GetMime n\<rparr>"
  let ?m4 = "?m3\<lparr>n_Pairs := GetPairs n\<rparr>"
  let ?m5 = "?m4\<lparr>n_LastModified := GetLastModified n\<rparr>"
  let ?B = "p1 @ nm @ mm @ pp @ lm @ tt @ suf"
  have fl: "n_Flags m1 = n_Flags n" by (simp add: m1_def)
  have body: "bodyBytes n @ suf = ?B" and whole: "bodyBytes n = p1 @ nm @ mm @ pp @ lm @ tt"
    by (simp_all add: bodyBytes_def p1_def nm_def mm_def pp_def lm_def tt_def)
  have len: "length (n_Data n) = unat (n_DataSize n)" using wf by (simp add: needle_wf_def)
  have s0: "read_body ?B m = ebind (read_name ?B (m1, length p1)) (\<lambda>c. ebind (read_mime ?B c) (\<lambda>c.
       ebind (read_pairs ?B c) (\<lambda>c. ebind (read_last_modified ?B c) (\<lambda>c. read_ttl ?B c))))"
    using len by (simp add: read_body_def Let_def nth_append p1_def m1_def)
  have s1: "read_name ?B (m1, length p1) = Inr (?m2, length (p1 @ nm))"
    by (rule read_name_step [OF fl _ _ nm_def])
       (use wf m in \<open>simp_all add: needle_wf_def MaxNeedleNameSize_def m1_def\<close>)
  have s2: "read_mime ?B (?m2, length (p1 @ nm)) = Inr (?m3, length (p1 @ nm @ mm))"
    using read_mime_step [of ?m2 n mm "p1 @ nm" "pp @ lm @ tt @ suf"] wf m fl
    by (simp add: needle_wf_def MaxNeedleMimeSize_def m1_def mm_def [symmetric])
  have s3: "read_pairs ?B (?m3, length (p1 @ nm @ mm)) = Inr (?m4, length (p1 @ nm @ mm @ pp))"
    using read_pairs_step [of ?m3 n pp "p1 @ nm @ mm" "lm @ tt @ suf"] wf m fl
    by (simp add: needle_wf_def MaxNeedlePairsSize_def m1_def pp_def [symmetric])
  have s4: "read_last_modified ?B (?m4, length (p1 @ nm @ mm @ pp)) =
      Inr (?m5, length (p1 @ nm @ mm @ pp @ lm))"
    using read_last_modified_step [of ?m4 n lm "p1 @ nm @ mm @ pp" "tt @ suf"] wf m fl
    by (simp add: needle_wf_def m1_def lm_def [symmetric])
  have s5: "read_ttl ?B (?m5, length (p1 @ nm @ mm @ pp @ lm)) =
      Inr (?m5\<lparr>n_Ttl := (if HasTtl n then n_Ttl n else TTL_zero)\<rparr>, length (p1 @ nm @ mm @ pp @ lm @ tt))"
    using read_ttl_step [of ?m5 n tt "p1 @ nm @ mm @ pp @ lm" suf] m fl
    by (simp add: m1_def tt_def [symmetric])
  show ?thesis
    unfolding body s0 s1 s2 s3 s4 s5 ebind_simps by (simp add: m1_def whole)
qed

lemma read_footer_step:
  assumes "pos = length pre"
  shows "read_footer (pre @ buildFooterBytes k version) version (m, pos) =
         Inr (m\<lparr>n_Checksum := n_Checksum k,
                n_AppendAtNs := (if NeedleVersionV3 \<le> version then n_AppendAtNs k else n_AppendAtNs m)\<rparr>)"
  using assms by (simp add: read_footer_def buildFooterBytes_def footerSize_def Let_def)

text \<open>Rebuilding the body of the needle that was read gives the bytes that were written.\<close>

lemma bodyBytes_view: "bodyBytes (needle_view n version) = bodyBytes n"
proof -
  have "n_Flags (needle_view n version) = n_Flags n" by (simp add: needle_view_def)
  note f = HasFlag_cong [OF this]
  show ?thesis
    unfolding bodyBytes_def f
    by (simp add: needle_view_def GetName_def GetMime_def GetPairs_def GetLastModified_def)
qed

lemma bodyBytes_cong:
  assumes "n_DataSize m = n_DataSize n" "n_Data m = n_Data n" "n_Flags m = n_Flags n"
    "n_Name m = n_Name n" "n_Mime m = n_Mime n" "n_Pairs m = n_Pairs n"
    "n_LastModified m = n_LastModified n" "n_Ttl m = n_Ttl n"
  shows "bodyBytes m = bodyBytes n"
  unfolding bodyBytes_def HasFlag_cong [OF assms(3)] using assms by simp

lemma ReadFrom_record:
  assumes wf: "needle_wf n" and len: "length (needle_record n crc version @ rest) < 2 ^ 32"
  shows "ReadFrom Needle_zero (needle_record n crc version @ rest) version =
    (if crc = needle_crc n then Inr (needle_view n version) else Inl ErrChecksumMismatch)"
proof -
  let ?k = "n\<lparr>n_Checksum := crc\<rparr>"
  define footer where "footer = buildFooterBytes ?k version"
  define L where "L = length (bodyBytes n) + length footer"
  let ?data = "put_u32 (n_Cookie n) @ put_u64 (n_Id n) @ put_u32 (of_nat L) @ (bodyBytes n @ footer) @ rest"
  let ?m = "Needle_zero\<lparr>n_Cookie := n_Cookie n, n_Id := n_Id n\<rparr>"
  have data: "needle_record n crc version @ rest = ?data"
    by (simp add: needle_record_def Let_def footer_def L_def)
  have foot: "length footer = footerSize version" by (simp add: footer_def)
  have L: "9 \<le> L" "16 + L < 2 ^ 32"
    using wf footerSize_bounds [of version] by (simp_all add: L_def foot needle_wf_def length_bodyBytes)
  have uL: "unat (of_nat L :: u32) = L" using L by (simp add: unat_of_nat)
  have nz: "(of_nat L :: u32) \<noteq> 0" using uL L by (metis not_numeral_le_zero unat_0)
  have dlen: "length ?data = 16 + L + length rest" by (simp add: L_def)
  have "unat (16 + of_nat L :: u32) = 16 + L" using L by (simp add: unat_word_ariths uL)
  moreover have "unat (of_nat (length ?data) :: u32) = length ?data"
    using len unfolding data by (rule unat_of_nat_u32)
  ultimately have enough: "\<not> (of_nat (length ?data) :: u32) < 16 + of_nat L"
    using dlen by (simp only: word_less_nat_alt)
  have "slice ?data 16 (16 + L) = Some (bodyBytes n @ footer)"
    by (simp add: slice_def L_def)
  then have run: "ReadFrom Needle_zero ?data version =
      ebind (read_body (bodyBytes n @ footer) ?m) (\<lambda>c. ebind (read_footer (bodyBytes n @ footer) version c)
       (\<lambda>n2. ebind (VerifyChecksum n2) (\<lambda>_.
          Inr (n2\<lparr>n_Size := of_nat (16 + L + NeedleAlignPadding (16 + L))\<rparr>))))"
    using L uL nz dlen enough unfolding ReadFrom_def by (simp add: Let_def)
  define v where "v = (needle_view n version)\<lparr>n_Size := 0, n_Checksum := crc\<rparr>"
  have readb: "ebind (read_body (bodyBytes n @ footer) ?m) (read_footer (bodyBytes n @ footer) version) = Inr v"
    using read_body_bodyBytes [OF wf, of ?m footer] read_footer_step [of "length (bodyBytes n)" "bodyBytes n" ?k version]
    by (simp add: Needle_zero_def footer_def v_def needle_view_def)
  have "bodyBytes v = bodyBytes n"
    using bodyBytes_view [of n version] bodyBytes_cong [of v "needle_view n version"] by (simp add: v_def)
  then have verify: "VerifyChecksum v = (if crc = needle_crc n then Inr () else Inl ErrChecksumMismatch)"
    by (auto simp: VerifyChecksum_def v_def needle_view_def needle_crc_def Let_def)
  have "16 + L + NeedleAlignPadding (16 + L) = length (needle_encode n version)"
    by (simp add: needle_encode_def length_needle_raw L_def foot add.assoc)
  then have "ReadFrom Needle_zero ?data version = ebind (VerifyChecksum v) (\<lambda>_.
      Inr (v\<lparr>n_Size := of_nat (length (needle_encode n version))\<rparr>))"
    using readb unfolding run by (cases "read_body (bodyBytes n @ footer) ?m") simp_all
  then show ?thesis
    unfolding data verify by (simp add: v_def needle_view_def)
qed

lemma ReadFrom_encode:
  assumes "needle_wf n" "length (needle_encode n version @ rest) < 2 ^ 32"
  shows "ReadFrom Needle_zero (needle_encode n version @ rest) version = Inr (needle_view n version)"
  using assms ReadFrom_record [of n "needle_crc n" version
      "replicate (NeedleAlignPadding (length (needle_raw n version))) 0 @ rest"]
  by (simp add: needle_encode_def needle_raw_def)

section \<open>The checksum detects a changed byte\<close>

lemma word_xor_right_cancel: "(a :: 'a::len word) XOR x = b XOR x \<longleftrightarrow> a = b"
proof
  assume "a XOR x = b XOR x"
  then have "(a XOR x) XOR x = (b XOR x) XOR x" by simp
  then show "a = b" by (simp add: xor.assoc)
qed simp

lemma word_xor_left_cancel: "x XOR (a :: 'a::len word) = x XOR b \<longleftrightarrow> a = b"
  using word_xor_right_cancel [of a x b] by (simp add: xor.commute)

lemma ucast_byte_inj: "(ucast (a :: byte) :: u32) = ucast b \<longleftrightarrow> a = b"
proof -
  have "unat (ucast c :: u32) = unat c" for c :: byte
    using unat_bound [of c] by (simp add: unsigned_ucast_eq take_bit_nat_eq_self)
  then show ?thesis by (metis word_unat_eq_iff)
qed

lemma inj_crc32_bit: "inj crc32_bit"
proof (rule injI)
  fix a b :: u32 assume eq: "crc32_bit a = crc32_bit b"
  have top: "bit (crc32_bit c) 31 = odd c" for c
    using bit_imp_le_length [of c 32] by (auto simp: crc32_bit_def bit_simps)
  have par: "odd a = odd b" using top [of a] top [of b] eq by simp
  have "drop_bit 1 a = drop_bit 1 b"
    using eq par by (auto simp: crc32_bit_def word_xor_right_cancel split: if_splits)
  then have "bit a (Suc i) = bit b (Suc i)" for i
    by (metis bit_drop_bit_eq plus_1_eq_Suc comp_apply)
  moreover have "bit a 0 = bit b 0" using par by (simp add: bit_0)
  ultimately show "a = b" by (metis bit_eqI not0_implies_Suc)
qed

lemma inj_crc32_bit_pow: "inj (crc32_bit ^^ k)"
  by (rule inj_fn [OF inj_crc32_bit])

lemma crc32_byte_eq:
  "crc32_byte c a = crc32_byte d b \<longleftrightarrow> c XOR ucast a = d XOR ucast b"
  by (simp add: crc32_byte_def inj_eq [OF inj_crc32_bit_pow])

lemma crc32_byte_inj_left: "crc32_byte c b = crc32_byte d b \<Longrightarrow> c = d"
  by (simp add: crc32_byte_eq word_xor_right_cancel)

lemma crc32_byte_inj_right: "crc32_byte c a = crc32_byte c b \<Longrightarrow> a = b"
  by (simp add: crc32_byte_eq word_xor_left_cancel ucast_byte_inj)

lemma foldl_crc32_inj: "foldl crc32_byte c bs = foldl crc32_byte d bs \<Longrightarrow> c = d"
  by (induction bs arbitrary: c d) (auto dest: crc32_byte_inj_left)

lemma crc32_update_one_byte:
  assumes "crc32_update c (p @ a # s) = crc32_update c (p @ b # s)"
  shows "a = b"
proof -
  let ?c = "foldl crc32_byte (NOT c) p"
  have "NOT (foldl crc32_byte (crc32_byte ?c a) s) = NOT (foldl crc32_byte (crc32_byte ?c b) s)"
    using assms by (simp add: crc32_update_def)
  then have "foldl crc32_byte (crc32_byte ?c a) s = foldl crc32_byte (crc32_byte ?c b) s"
    by (metis bit.double_compl)
  then show ?thesis by (blast dest: foldl_crc32_inj crc32_byte_inj_right)
qed

end
