(* ===== verification/NeedleProps.thy ===== *)
theory NeedleProps
  imports NeedleCodec
begin

text \<open>
  The properties of the needle format (src/goblob/storage/needle) that rest on the codec lemmas:
  the file round trip, the equivalence of the two body encoders, and the detection of a
  corrupted data byte.
\<close>

text \<open>The body is the data behind its size, and a part the data does not enter; overwriting one
  data byte of a record gives the record of the overwritten needle.\<close>

lemma bodyBytes_data:
  obtains suf where "\<And>d. bodyBytes (n\<lparr>n_Data := d\<rparr>) = put_u32 (n_DataSize n) @ d @ suf"
    and "bodyBytes n = put_u32 (n_DataSize n) @ n_Data n @ suf"
proof -
  obtain suf where suf: "\<And>d. bodyBytes (n\<lparr>n_Data := d\<rparr>) = put_u32 (n_DataSize n) @ d @ suf"
    unfolding bodyBytes_def
    by (simp add: HasName_def HasMime_def HasPairs_def HasLastModified_def HasTtl_def cong: if_cong)
  from suf [of "n_Data n"] have "bodyBytes n = put_u32 (n_DataSize n) @ n_Data n @ suf" by simp
  with suf that show ?thesis by blast
qed

lemma list_update_middle:
  "length xs \<le> k \<Longrightarrow> k < length xs + length ys \<Longrightarrow>
   (xs @ ys @ zs)[k := b] = xs @ ys[k - length xs := b] @ zs"
  by (auto simp: list_update_append)

lemma needle_record_update:
  assumes "i < length (n_Data n)"
  shows "(needle_record n crc version @ rest)[20 + i := b] =
         needle_record (n\<lparr>n_Data := (n_Data n)[i := b]\<rparr>) crc version @ rest"
proof -
  obtain suf where suf: "\<And>d. bodyBytes (n\<lparr>n_Data := d\<rparr>) = put_u32 (n_DataSize n) @ d @ suf"
    and old: "bodyBytes n = put_u32 (n_DataSize n) @ n_Data n @ suf" using bodyBytes_data [of n] by metis
  define foot where "foot = buildFooterBytes (n\<lparr>n_Checksum := crc\<rparr>) version"
  have foot': "buildFooterBytes (n\<lparr>n_Data := d, n_Checksum := crc\<rparr>) version = foot" for d
    by (simp add: foot_def buildFooterBytes_def)
  define hd where "hd = put_u32 (n_Cookie n) @ put_u64 (n_Id n) @
    put_u32 (of_nat (length (bodyBytes n)) + of_nat (length foot)) @ put_u32 (n_DataSize n)"
  have "length hd = 20" by (simp add: hd_def)
  then have "(hd @ n_Data n @ suf @ foot @ rest)[20 + i := b] = hd @ (n_Data n)[i := b] @ suf @ foot @ rest"
    using list_update_middle [of hd "20 + i" "n_Data n" "suf @ foot @ rest"] assms by simp
  then show ?thesis
    by (simp add: needle_record_def Let_def foot' foot_def [symmetric] suf hd_def old)
qed

lemma ReadNeedleFromFile_encode:
  assumes wf: "needle_wf n"
  shows "ReadNeedleFromFile (pre @ needle_encode n version @ suf) (int (length pre))
           (of_nat (length (needle_encode n version))) version = Inr (needle_view n version)"
proof -
  have small: "length (needle_encode n version) < 2 ^ 32" "length (needle_encode n version) \<noteq> 0"
    using length_needle_encode_bounds [of n version] wf by auto
  then have "unat (of_nat (length (needle_encode n version)) :: u32) = length (needle_encode n version)"
    by (simp add: unat_of_nat)
  then have "ReadAt (pre @ needle_encode n version @ suf) (int (length pre))
      (unat (of_nat (length (needle_encode n version)) :: u32)) = Some (needle_encode n version)"
    by (simp add: ReadAt_def)
  then show ?thesis
    using ReadFrom_encode [OF wf, of version "[]"] small by (simp add: ReadNeedleFromFile_def)
qed

text \<open>C27: what the writer put into a file the reader gets back. A well-formed needle that was
  encoded at any position of a file is read from that position, with the size the writer
  returned, as the needle itself: cookie, id, data, flags, every metadata field whose flag is
  set, and (from version 3 on) the append time.\<close>

theorem needle_file_roundtrip:
  assumes wf: "needle_wf n"
  shows "ReadNeedleFromFile (pre @ needle_encode n version @ suf) (int (length pre))
           (of_nat (length (needle_encode n version))) version = Inr (needle_view n version)"
  using wf by (rule ReadNeedleFromFile_encode)

definition sample_needle :: Needle where
  "sample_needle = SetName [104, 105] (Needle_zero\<lparr>n_Cookie := 0xd6, n_Id := 7, n_DataSize := 3,
     n_Data := [1, 2, 3], n_AppendAtNs := 42\<rparr>)"

lemma sample_needle_wf: "needle_wf sample_needle"
  by (simp add: sample_needle_def SetName_def Needle_zero_def needle_wf_def length_bodyBytes
        HasName_def HasMime_def HasPairs_def HasLastModified_def HasTtl_def FlagHasName_def
        FlagHasMime_def FlagHasPairs_def FlagHasLastModified_def FlagHasTtl_def
        MaxNeedleNameSize_def)

theorem needle_file_roundtrip_witness:
  "needle_wf sample_needle \<and>
   ReadNeedleFromFile ([9] @ needle_encode sample_needle 3 @ [8]) (int (length [9 :: byte]))
     (of_nat (length (needle_encode sample_needle 3))) 3 = Inr (needle_view sample_needle 3)"
  using needle_file_roundtrip [OF sample_needle_wf] sample_needle_wf by blast

text \<open>The offset-driven writer emits the reference layout. Whenever the data size field is the
  length of the data and the body fits 32 bits, the buffer that \<open>buildBodyBytes\<close> fills at its
  running offset is exactly the concatenation that \<open>bodyBytes\<close> rebuilds for the checksum, no
  store is out of bounds, and \<open>BodySize\<close> is its length.\<close>

theorem buildBodyBytes_reference:
  assumes "length (n_Data n) = unat (n_DataSize n)" "length (bodyBytes n) < 2 ^ 32"
  shows "buildBodyBytes n = Some (bodyBytes n) \<and> unat (BodySize n) = length (bodyBytes n)"
  using buildBodyBytes_eq [OF assms] BodySize_eq [OF assms(1)] assms(2)
  by (simp add: unat_of_nat)

theorem buildBodyBytes_reference_witness:
  "buildBodyBytes sample_needle = Some (bodyBytes sample_needle) \<and>
   unat (BodySize sample_needle) = length (bodyBytes sample_needle)"
proof (rule buildBodyBytes_reference)
  show "length (n_Data sample_needle) = unat (n_DataSize sample_needle)"
    "length (bodyBytes sample_needle) < 2 ^ 32"
    using sample_needle_wf by (simp_all add: needle_wf_def)
qed

text \<open>C28: a changed data byte never goes unnoticed. If one byte of the stored data of a record is
  overwritten with a different value, reading the record fails with a checksum mismatch.\<close>

theorem needle_corruption_detected:
  assumes wf: "needle_wf n" and i: "i < length (n_Data n)" and b: "b \<noteq> n_Data n ! i"
  shows "ReadFrom Needle_zero ((needle_encode n version)[20 + i := b]) version = Inl ErrChecksumMismatch"
proof -
  let ?n = "n\<lparr>n_Data := (n_Data n)[i := b]\<rparr>"
  let ?pad = "replicate (NeedleAlignPadding (length (needle_raw n version))) 0"
  obtain suf where suf: "\<And>d. bodyBytes (n\<lparr>n_Data := d\<rparr>) = put_u32 (n_DataSize n) @ d @ suf"
    and old: "bodyBytes n = put_u32 (n_DataSize n) @ n_Data n @ suf" using bodyBytes_data [of n] by metis
  have len: "length (bodyBytes ?n) = length (bodyBytes n)" by (simp add: suf old)
  have flags: "HasName ?n = HasName n" "HasMime ?n = HasMime n" "HasPairs ?n = HasPairs n"
    "HasLastModified ?n = HasLastModified n" "HasTtl ?n = HasTtl n" by (rule HasFlag_cong, simp)+
  have wf': "needle_wf ?n" using wf len unfolding needle_wf_def flags by simp
  have "length (needle_record ?n (needle_crc n) version @ ?pad) = length (needle_encode n version)"
    by (simp only: needle_encode_def length_needle_raw length_needle_record length_append
        length_replicate len)
  then have "length (needle_record ?n (needle_crc n) version @ ?pad) < 2 ^ 32"
    using length_needle_encode_bounds(2) [OF wf, of version] by (simp only:)
  then have "ReadFrom Needle_zero (needle_record ?n (needle_crc n) version @ ?pad) version =
      (if needle_crc n = needle_crc ?n then Inr (needle_view ?n version) else Inl ErrChecksumMismatch)"
    by (rule ReadFrom_record [OF wf'])
  moreover have "needle_crc n \<noteq> needle_crc ?n"
  proof
    assume eq: "needle_crc n = needle_crc ?n"
    define xs ys where "xs = put_u32 (n_DataSize n) @ take i (n_Data n)"
      and "ys = drop (Suc i) (n_Data n) @ suf"
    have "n_Data n @ suf = (take i (n_Data n) @ n_Data n ! i # drop (Suc i) (n_Data n)) @ suf"
      by (simp only: id_take_nth_drop [OF i, symmetric])
    then have "bodyBytes n = xs @ n_Data n ! i # ys"
      by (simp add: old xs_def ys_def)
    moreover have "bodyBytes ?n = xs @ b # ys"
      by (simp add: suf xs_def ys_def upd_conv_take_nth_drop [OF i])
    ultimately have "NewCRC32 (n_Cookie n) (n_Id n) (xs @ n_Data n ! i # ys) =
        NewCRC32 (n_Cookie n) (n_Id n) (xs @ b # ys)"
      using eq by (simp add: needle_crc_def)
    then have "n_Data n ! i = b" unfolding NewCRC32_def Let_def by (rule crc32_update_one_byte)
    with b show False by simp
  qed
  moreover have "(needle_encode n version)[20 + i := b] = needle_record ?n (needle_crc n) version @ ?pad"
    unfolding needle_encode_def needle_raw_def by (rule needle_record_update [OF i])
  ultimately show ?thesis by (simp only: if_False)
qed

lemmas read_step_defs = read_name_def read_mime_def read_pairs_def read_last_modified_def read_ttl_def

lemma read_steps_no_panic:
  "read_name body c \<noteq> Inl NeedlePanic" "read_mime body c \<noteq> Inl NeedlePanic"
  "read_pairs body c \<noteq> Inl NeedlePanic" "read_last_modified body c \<noteq> Inl NeedlePanic"
  "read_ttl body c \<noteq> Inl NeedlePanic"
  by (auto simp: read_step_defs Let_def split: prod.splits if_splits)

lemma read_body_no_panic: "read_body body n \<noteq> Inl NeedlePanic"
  by (auto simp: read_body_def Let_def ebind_eq_Inl read_steps_no_panic)

lemma read_footer_no_panic: "read_footer body version c \<noteq> Inl NeedlePanic"
  by (auto simp: read_footer_def Let_def split: prod.splits)

lemma VerifyChecksum_no_panic: "VerifyChecksum n \<noteq> Inl NeedlePanic"
  by (simp add: VerifyChecksum_def Let_def)

text \<open>C40: when the reader can panic. On a buffer shorter than 4 GiB, \<open>ReadFrom\<close> runs into a slice
  bounds panic exactly if the buffer holds a header whose body size is so large that the
  32-bit sum \<open>16 + bodySize\<close> wraps around; every other malformed input is an error value.\<close>

theorem ReadFrom_panic_iff:
  assumes small: "length data < 2 ^ 32"
  shows "ReadFrom n data version = Inl NeedlePanic \<longleftrightarrow>
         16 \<le> length data \<and> 2 ^ 32 \<le> 16 + unat (get_u32 (take 4 (drop 12 data)))"
proof -
  define bs where "bs = get_u32 (take 4 (drop 12 data))"
  have wrap: "unat (16 + bs) = (16 + unat bs) mod 2 ^ 32" by (simp add: unat_word_ariths)
  have lt: "unat bs < 2 ^ 32" using unat_bound [of bs] by simp
  have len: "unat (of_nat (length data) :: u32) = length data" using small by (simp add: unat_of_nat)
  have guard: "(of_nat (length data) :: u32) < 16 + bs \<longleftrightarrow> length data < (16 + unat bs) mod 2 ^ 32"
    by (simp only: word_less_nat_alt wrap len)
  have big: "2 ^ 32 \<le> 16 + unat bs \<Longrightarrow> (16 + unat bs) mod 2 ^ 32 < 16"
    using lt by (simp add: mod_if) arith
  have neq: "bs \<noteq> 0 \<longleftrightarrow> unat bs \<noteq> 0" by (simp add: unat_eq_0)
  have rest: "ebind (read_body body m) (\<lambda>c. ebind (read_footer body version c) (\<lambda>n2.
      ebind (VerifyChecksum n2) (\<lambda>_. Inr (f n2)))) \<noteq> Inl NeedlePanic" for body m and f :: "Needle \<Rightarrow> Needle"
    by (auto simp: ebind_eq_Inl read_body_no_panic read_footer_no_panic VerifyChecksum_no_panic)
  show ?thesis
  proof (cases "2 ^ 32 \<le> 16 + unat bs")
    case True
    then have "slice data 16 (16 + unat bs) = None" "bs \<noteq> 0" "\<not> unat bs < 5"
      using small neq by (auto simp: slice_def)
    moreover have "16 \<le> length data \<Longrightarrow> \<not> (of_nat (length data) :: u32) < 16 + bs"
      using big [OF True] guard by simp
    ultimately show ?thesis using True
      by (auto simp: ReadFrom_def Let_def bs_def [symmetric])
  next
    case False
    then have "(of_nat (length data) :: u32) < 16 + bs \<longleftrightarrow> length data < 16 + unat bs"
      using guard by simp
    then show ?thesis using False rest
      by (simp add: ReadFrom_def Let_def bs_def [symmetric] slice_def)
  qed
qed

definition wrapping_header :: bytes where
  "wrapping_header = replicate 12 0 @ [0xff, 0xff, 0xff, 0xf0]"

theorem ReadFrom_panic_iff_witness:
  "length wrapping_header < 2 ^ 32 \<and> ReadFrom Needle_zero wrapping_header 3 = Inl NeedlePanic"
proof -
  have "length wrapping_header < 2 ^ 32" "16 \<le> length wrapping_header"
    by (simp_all add: wrapping_header_def)
  moreover have "get_u32 (take 4 (drop 12 wrapping_header)) = 0xfffffff0"
    by (simp add: wrapping_header_def get_u32_def be_nat_def)
  ultimately show ?thesis by (simp add: ReadFrom_panic_iff)
qed

theorem needle_corruption_detected_witness:
  "needle_wf sample_needle \<and>
   ReadFrom Needle_zero ((needle_encode sample_needle 3)[20 + 1 := 9]) 3 = Inl ErrChecksumMismatch"
proof -
  have data: "n_Data sample_needle = [1, 2, 3]" by (simp add: sample_needle_def SetName_def)
  have "ReadFrom Needle_zero ((needle_encode sample_needle 3)[20 + 1 := 9]) 3 = Inl ErrChecksumMismatch"
    by (rule needle_corruption_detected [OF sample_needle_wf]) (simp_all add: data)
  with sample_needle_wf show ?thesis by blast
qed

end
