(* ===== verification/Volume.thy ===== *)
theory Volume
  imports Complex_Main NeedleMapProps NeedleProps
begin

text \<open>
  One volume: a data file and its index (src/goblob/storage/volume/volume.go), and its compaction
  (src/goblob/storage/volume/compact.go). The state of a call is the file system and the volume
  object. A nil dereference is the error value \<open>VolPanic\<close>. The clock and the order in which Go
  iterates the index map are arguments; the garbage ratio, a \<open>float64\<close> quotient in the code, is
  the exact rational.
\<close>

record Volume =
  v_id :: VolumeId
  v_dir :: string
  v_collection :: string
  v_dataFile :: "File option"
  v_nm :: "MemDb option"
  v_SuperBlock :: SuperBlock
  v_ReadOnly :: bool
  v_noWriteOrDelete :: bool

datatype volume_error =
    VolReadOnly | VolFrozen | VolSeek | VolPadding | VolWriteNeedle needle_error
  | VolReadNeedle needle_error | VolIndex nm_error | VolCookieMismatch
  | VolSuperBlockWrite | VolSuperBlockRead nm_error
  | VolBelowThreshold | VolRenameData | VolRenameIndex | VolReopen | VolPanic

definition DataFileName :: "string \<Rightarrow> VolumeId \<Rightarrow> string" where
  "DataFileName dir vid = filepath_Join dir (format_uint 10 (unat vid) @ ''.dat'')"

definition IndexFileName :: "string \<Rightarrow> VolumeId \<Rightarrow> string" where
  "IndexFileName dir vid = filepath_Join dir (format_uint 10 (unat vid) @ ''.idx'')"

definition NewVolume ::
  "fsys \<Rightarrow> string \<Rightarrow> string \<Rightarrow> VolumeId \<Rightarrow> NeedleVersion \<Rightarrow> (volume_error + Volume) \<times> fsys"
where
  "NewVolume s dir collection vid version =
     (let datPath = DataFileName dir vid;
          idxPath = IndexFileName dir vid;
          isNew = (\<not> fs_exists s datPath);
          (s1, dataFile) = open_create s datPath False;
          (sb, dataFile, s2) =
            (if isNew
             then (case WriteSuperBlock s1 dataFile (SuperBlock_new version) of
                     (s2, ok) \<Rightarrow> (if ok then Inr (SuperBlock_new version) else Inl VolSuperBlockWrite, dataFile, s2))
             else (case ReadSuperBlock s1 dataFile of
                     (Inl e, f) \<Rightarrow> (Inl (VolSuperBlockRead e), f, s1)
                   | (Inr sb, f) \<Rightarrow> (Inr sb, f, s1)))
      in case sb of
           Inl e \<Rightarrow> (Inl e, s2)
         | Inr sb \<Rightarrow>
             (case OpenIndexFile s2 (MemDb_Load s2 NewMemDb idxPath) idxPath of
                (s3, db) \<Rightarrow>
                  (Inr \<lparr>v_id = vid, v_dir = dir, v_collection = collection, v_dataFile = Some dataFile,
                        v_nm = Some db, v_SuperBlock = sb, v_ReadOnly = False, v_noWriteOrDelete = False\<rparr>,
                   s3)))"

definition Volume_Close :: "Volume \<Rightarrow> Volume" where
  "Volume_Close v = v\<lparr>v_nm := None, v_dataFile := None\<rparr>"

definition Volume_Destroy :: "fsys \<Rightarrow> Volume \<Rightarrow> fsys \<times> Volume" where
  "Volume_Destroy s v =
     (os_Remove (os_Remove s (DataFileName (v_dir v) (v_id v))) (IndexFileName (v_dir v) (v_id v)),
      Volume_Close v)"

text \<open>A panic inside the needle codec is a panic of the caller; every other error is wrapped.\<close>

definition wrap_needle :: "(needle_error \<Rightarrow> volume_error) \<Rightarrow> needle_error \<Rightarrow> volume_error" where
  "wrap_needle con e = (if e = NeedlePanic then VolPanic else con e)"

text \<open>
  \<open>writeNeedleUnlocked\<close>: seek to the end, pad to the alignment, append the record.
  \<open>WriteNeedle\<close> repeats these lines before it updates the index.
\<close>

definition writeNeedleUnlocked ::
  "fsys \<Rightarrow> Volume \<Rightarrow> Needle \<Rightarrow> (volume_error + (Offset \<times> nat)) \<times> fsys \<times> Volume \<times> Needle"
where
  "writeNeedleUnlocked s v n =
     (case Option.bind (v_dataFile v) (seek_end s) of
        None \<Rightarrow> (Inl VolSeek, s, v, n)
      | Some (currentOffset, f) \<Rightarrow>
          (let pad = NeedleAlignPadding currentOffset;
               ((s1, f1), ok) = (if pad = 0 then ((s, f), True) else file_write (s, f) (replicate pad 0));
               off = ToEncoded (int (currentOffset + pad))
           in if \<not> ok then (Inl VolPadding, s1, v\<lparr>v_dataFile := Some f1\<rparr>, n)
              else case WriteTo file_write (s1, f1) n (sb_Version (v_SuperBlock v)) of
                     (Inl e, (s2, f2), n2) \<Rightarrow>
                       (Inl (wrap_needle VolWriteNeedle e), s2, v\<lparr>v_dataFile := Some f2\<rparr>, n2)
                   | (Inr written, (s2, f2), n2) \<Rightarrow>
                       (Inr (off, written), s2, v\<lparr>v_dataFile := Some f2\<rparr>, n2)))"

definition WriteNeedle ::
  "fsys \<Rightarrow> Volume \<Rightarrow> Needle \<Rightarrow> (volume_error + (Offset \<times> u32)) \<times> fsys \<times> Volume \<times> Needle"
where
  "WriteNeedle s v n =
     (if v_ReadOnly v then (Inl VolReadOnly, s, v, n)
      else if v_noWriteOrDelete v then (Inl VolFrozen, s, v, n)
      else case writeNeedleUnlocked s v n of
             (Inl e, s1, v1, n1) \<Rightarrow> (Inl e, s1, v1, n1)
           | (Inr (off, written), s1, v1, n1) \<Rightarrow>
               (case v_nm v1 of
                  None \<Rightarrow> (Inl VolPanic, s1, v1, n1)
                | Some db \<Rightarrow>
                    (case MemDb_Put s1 db (n_Id n1) off (of_nat written) of
                       (Inl e, s2, db') \<Rightarrow> (Inl (VolIndex e), s2, v1\<lparr>v_nm := Some db'\<rparr>, n1)
                     | (Inr _, s2, db') \<Rightarrow> (Inr (off, of_nat written), s2, v1\<lparr>v_nm := Some db'\<rparr>, n1))))"

definition read_at_location :: "fsys \<Rightarrow> Volume \<Rightarrow> Offset \<Rightarrow> Size \<Rightarrow> NeedleVersion \<Rightarrow> needle_error + Needle" where
  "read_at_location s v off sz version =
     (case Option.bind (v_dataFile v) (\<lambda>f. fs_files s (f_name f)) of
        None \<Rightarrow> Inl ErrReadFailed
      | Some c \<Rightarrow> ReadNeedleFromFile c (ToActualOffset off) sz version)"

definition GetNeedle :: "fsys \<Rightarrow> Volume \<Rightarrow> NeedleId \<Rightarrow> volume_error + Needle" where
  "GetNeedle s v nid =
     (case v_nm v of
        None \<Rightarrow> Inl VolPanic
      | Some db \<Rightarrow>
          (case MemDb_Get db nid of
             Inl e \<Rightarrow> Inl (VolIndex e)
           | Inr (off, sz) \<Rightarrow>
               (case read_at_location s v off sz (sb_Version (v_SuperBlock v)) of
                  Inl e \<Rightarrow> Inl (wrap_needle VolReadNeedle e)
                | Inr n \<Rightarrow> Inr n)))"

definition ReadNeedleByFileId :: "fsys \<Rightarrow> Volume \<Rightarrow> FileId \<Rightarrow> volume_error + Needle" where
  "ReadNeedleByFileId s v fid =
     ebind (GetNeedle s v (fid_NeedleId fid)) (\<lambda>n.
       if n_Cookie n \<noteq> fid_Cookie fid then Inl VolCookieMismatch else Inr n)"

definition tombstone :: "NeedleId \<Rightarrow> Needle" where
  "tombstone nid = Needle_zero\<lparr>n_Id := nid, n_DataSize := 0\<rparr>"

definition DeleteNeedle :: "fsys \<Rightarrow> Volume \<Rightarrow> NeedleId \<Rightarrow> (volume_error + unit) \<times> fsys \<times> Volume" where
  "DeleteNeedle s v nid =
     (if v_ReadOnly v then (Inl VolReadOnly, s, v)
      else if v_noWriteOrDelete v then (Inl VolFrozen, s, v)
      else case v_nm v of
             None \<Rightarrow> (Inl VolPanic, s, v)
           | Some db \<Rightarrow>
               (case MemDb_Get db nid of
                  Inl e \<Rightarrow> (Inl (VolIndex e), s, v)
                | Inr _ \<Rightarrow>
                    (case writeNeedleUnlocked s v (tombstone nid) of
                       (Inl e, s1, v1, _) \<Rightarrow> (Inl e, s1, v1)
                     | (Inr _, s1, v1, _) \<Rightarrow>
                         (case MemDb_Delete s1 db nid of
                            (Inl e, s2, db') \<Rightarrow> (Inl (VolIndex e), s2, v1\<lparr>v_nm := Some db'\<rparr>)
                          | (Inr _, s2, db') \<Rightarrow> (Inr (), s2, v1\<lparr>v_nm := Some db'\<rparr>)))))"

definition GarbageLevel :: "MemDb \<Rightarrow> rat" where
  "GarbageLevel db =
     (let total = contentSize db + deletedSize db in
      if total = 0 then 0 else of_nat (unat (deletedSize db)) / of_nat (unat total))"

definition NeedCompact :: "MemDb \<Rightarrow> rat \<Rightarrow> bool" where
  "NeedCompact db threshold \<longleftrightarrow> threshold \<le> GarbageLevel db"

definition UsedSize :: "fsys \<Rightarrow> Volume \<Rightarrow> nat" where
  "UsedSize s v = (case Option.bind (v_dataFile v) (file_size s) of None \<Rightarrow> 0 | Some k \<Rightarrow> k)"

definition IsEmpty :: "fsys \<Rightarrow> Volume \<Rightarrow> bool" where
  "IsEmpty s v \<longleftrightarrow> UsedSize s v \<le> SuperBlockSize"

definition SnapshotLiveNeedleEntries :: "NeedleId list \<Rightarrow> Volume \<Rightarrow> (NeedleId \<times> Offset \<times> Size) list" where
  "SnapshotLiveNeedleEntries order v =
     (case v_nm v of
        None \<Rightarrow> []
      | Some db \<Rightarrow>
          sort_key (\<lambda>(_, off, _). ToActualOffset off)
            (filter (\<lambda>(_, _, sz). sz \<noteq> TombstoneFileSize) (MemDb_Iterate order db)))"

end
