(* ===== verification/VolumeProps.thy ===== *)
theory VolumeProps
  imports Volume
begin

text \<open>
  Correctness of a volume as a store of needles. The abstract state is a map from needle ids to
  needles; \<open>readable\<close> says that the volume object answers like that map, \<open>durable\<close> that the
  files alone determine it, so that a restart recovers it. Writes and deletes keep both, at
  whatever byte they fail.
\<close>

section \<open>The abstraction\<close>

text \<open>A region of the data file that holds the encoding of a needle.\<close>

definition holds :: "bytes \<Rightarrow> NeedleVersion \<Rightarrow> needleValue \<Rightarrow> Needle \<Rightarrow> bool" where
  "holds c version e n \<longleftrightarrow> needle_wf n \<and>
     (\<exists>pre suf. c = pre @ needle_encode n version @ suf \<and> int (length pre) = ToActualOffset (nvl_offset e) \<and>
        nvl_size e = of_nat (length (needle_encode n version)))"

definition index_ok ::
  "bytes \<Rightarrow> NeedleVersion \<Rightarrow> (NeedleId \<Rightarrow> needleValue option) \<Rightarrow> (NeedleId \<Rightarrow> Needle option) \<Rightarrow> bool"
where
  "index_ok c version m A \<longleftrightarrow>
     (\<forall>k. case m k of
            None \<Rightarrow> A k = None
          | Some e \<Rightarrow> if needleValue_isDeleted e then A k = None
                      else (\<exists>n. A k = Some n \<and> n_Id n = k \<and> holds c version e n))"

definition vol_files :: "fsys \<Rightarrow> Volume \<Rightarrow> bytes \<Rightarrow> bool" where
  "vol_files s v c \<longleftrightarrow>
     (\<exists>f. v_dataFile v = Some f \<and> f_name f = DataFileName (v_dir v) (v_id v) \<and> \<not> f_append f) \<and>
     fs_files s (DataFileName (v_dir v) (v_id v)) = Some c \<and>
     placement_fits (sb_ReplicaPlacement (v_SuperBlock v)) \<and>
     (\<exists>rest. c = SuperBlock_Bytes (v_SuperBlock v) @ rest)"

definition readable :: "fsys \<Rightarrow> Volume \<Rightarrow> (NeedleId \<Rightarrow> Needle option) \<Rightarrow> bool" where
  "readable s v A \<longleftrightarrow>
     (\<exists>c db. vol_files s v c \<and> v_nm v = Some db \<and> index_ok c (sb_Version (v_SuperBlock v)) (db_m db) A)"

definition durable :: "fsys \<Rightarrow> Volume \<Rightarrow> (NeedleId \<Rightarrow> Needle option) \<Rightarrow> bool" where
  "durable s v A \<longleftrightarrow>
     (\<exists>c i. vol_files s v c \<and> fs_files s (IndexFileName (v_dir v) (v_id v)) = Some i \<and>
        index_ok c (sb_Version (v_SuperBlock v)) (idx_map i) A)"

definition vol_ok :: "fsys \<Rightarrow> Volume \<Rightarrow> (NeedleId \<Rightarrow> Needle option) \<Rightarrow> bool" where
  "vol_ok s v A \<longleftrightarrow> readable s v A \<and>
     (\<exists>db. v_nm v = Some db \<and> idx_synced s db (IndexFileName (v_dir v) (v_id v)) \<and> nm_stats db)"

lemma names_differ [simp]:
  "DataFileName d i \<noteq> IndexFileName d i" "IndexFileName d i \<noteq> DataFileName d i"
  by (simp_all add: DataFileName_def IndexFileName_def)

lemma vol_ok_durable: "vol_ok s v A \<Longrightarrow> durable s v A"
  by (auto simp: vol_ok_def readable_def durable_def idx_synced_def)

lemma holds_append: "holds c version e n \<Longrightarrow> holds (c @ t) version e n"
  unfolding holds_def by (metis append.assoc)

text \<open>One entry of the index against one needle of the abstract map.\<close>

definition entry_ok :: "bytes \<Rightarrow> NeedleVersion \<Rightarrow> NeedleId \<Rightarrow> needleValue option \<Rightarrow> Needle option \<Rightarrow> bool" where
  "entry_ok c version k e a \<longleftrightarrow>
     (case e of
        None \<Rightarrow> a = None
      | Some e \<Rightarrow> if needleValue_isDeleted e then a = None
                  else (\<exists>n. a = Some n \<and> n_Id n = k \<and> holds c version e n))"

lemma entry_ok_simps [simp]:
  "entry_ok c version k None a \<longleftrightarrow> a = None"
  "needleValue_isDeleted e \<Longrightarrow> entry_ok c version k (Some e) a \<longleftrightarrow> a = None"
  by (simp_all add: entry_ok_def)

lemma entry_ok_live:
  "\<not> needleValue_isDeleted e \<Longrightarrow>
   entry_ok c version k (Some e) a \<longleftrightarrow> (\<exists>n. a = Some n \<and> n_Id n = k \<and> holds c version e n)"
  by (simp add: entry_ok_def)

lemma index_ok_iff: "index_ok c version m A \<longleftrightarrow> (\<forall>k. entry_ok c version k (m k) (A k))"
  by (simp add: index_ok_def entry_ok_def)

lemma index_okD: "index_ok c version m A \<Longrightarrow> entry_ok c version k (m k) (A k)"
  by (simp add: index_ok_iff)

lemma entry_ok_append: "entry_ok c version k e a \<Longrightarrow> entry_ok (c @ t) version k e a"
  by (auto simp: entry_ok_def intro: holds_append split: option.splits if_splits)

lemma index_ok_append: "index_ok c version m A \<Longrightarrow> index_ok (c @ t) version m A"
  by (simp add: index_ok_iff entry_ok_append)

lemma holds_read: "holds c version e n \<Longrightarrow>
   ReadNeedleFromFile c (ToActualOffset (nvl_offset e)) (nvl_size e) version = Inr (needle_view n version)"
proof -
  assume h: "holds c version e n"
  then obtain pre suf where c: "c = pre @ needle_encode n version @ suf" and wf: "needle_wf n"
    and off: "ToActualOffset (nvl_offset e) = int (length pre)"
    and sz: "nvl_size e = of_nat (length (needle_encode n version))" by (auto simp: holds_def)
  show ?thesis unfolding off sz c by (rule ReadNeedleFromFile_encode [OF wf])
qed

lemma holds_not_deleted: "holds c version e n \<Longrightarrow> \<not> needleValue_isDeleted e"
proof
  assume h: "holds c version e n" and "needleValue_isDeleted e"
  then have "unat (of_nat (length (needle_encode n version)) :: u32) = 0" and wf: "needle_wf n"
    by (auto simp: holds_def needleValue_isDeleted_def TombstoneFileSize_def)
  then show False
    using length_needle_encode_bounds [of n version] by (simp add: unat_of_nat_u32)
qed

text \<open>The volume answers like the abstract map.\<close>

lemma GetNeedle_readable:
  assumes "readable s v A"
  shows "GetNeedle s v k =
    (case A k of
       Some n \<Rightarrow> Inr (needle_view n (sb_Version (v_SuperBlock v)))
     | None \<Rightarrow> (case v_nm v of None \<Rightarrow> Inl VolPanic
                | Some db \<Rightarrow> if db_m db k = None then Inl (VolIndex ErrNeedleNotFound)
                             else Inl (VolIndex ErrNeedleDeleted)))"
proof -
  obtain c db where c: "vol_files s v c" and db: "v_nm v = Some db"
    and ok: "index_ok c (sb_Version (v_SuperBlock v)) (db_m db) A" using assms by (auto simp: readable_def)
  have dat: "Option.bind (v_dataFile v) (\<lambda>f. fs_files s (f_name f)) = Some c"
    using c by (auto simp: vol_files_def)
  have entry: "entry_ok c (sb_Version (v_SuperBlock v)) k (db_m db k) (A k)" by (rule index_okD [OF ok])
  show ?thesis
  proof (cases "db_m db k")
    case None
    then show ?thesis using entry db by (simp add: GetNeedle_def MemDb_Get_def)
  next
    case (Some e)
    show ?thesis
    proof (cases "needleValue_isDeleted e")
      case True
      then show ?thesis using entry db Some by (simp add: GetNeedle_def MemDb_Get_def)
    next
      case False
      then obtain n where n: "A k = Some n" "holds c (sb_Version (v_SuperBlock v)) e n"
        using entry Some by (auto simp: entry_ok_live)
      show ?thesis
        using holds_read [OF n(2)] n(1) False db Some
        by (simp add: GetNeedle_def MemDb_Get_def read_at_location_def dat)
    qed
  qed
qed

section \<open>Appending a record\<close>

lemma at_end_files:
  assumes "at_end F f (s', f')" "f_name f = p"
  shows "fs_files s' p = Some (file_content (s', f'))" "q \<noteq> p \<Longrightarrow> fs_files s' q = F q"
    "f_name f' = p" "f_append f' = f_append f"
  using assms by (auto simp: at_end_def file_content_def)

text \<open>The padding write and the record write, from a file positioned at its end.\<close>

lemma padded_write_outcome:
  assumes inv: "at_end F f0 w" and wf: "needle_wf n"
    and pad: "(if k = 0 then (w, True) else file_write w (replicate k 0)) = (w1, ok)"
  shows "at_end F f0 w1" "\<exists>t. file_content w1 = file_content w @ t"
    and "ok \<Longrightarrow> file_content w1 = file_content w @ replicate k 0"
    and "WriteTo file_write w1 n version = (r, w2, n2) \<Longrightarrow> at_end F f0 w2 \<and>
      (case r of
         Inr m \<Rightarrow> file_content w2 = file_content w1 @ needle_encode n version \<and>
                  m = length (needle_encode n version) \<and> n2 = needle_stored n version
       | Inl e \<Rightarrow> e \<noteq> NeedlePanic \<and> (\<exists>t. file_content w2 = file_content w1 @ t))"
proof -
  show inv1: "at_end F f0 w1"
    using inv pad by (cases "k = 0") (auto dest: file_write_at_end(1))
  show "\<exists>t. file_content w1 = file_content w @ t"
    using inv pad by (cases "k = 0") (auto dest: file_write_at_end(2))
  show "ok \<Longrightarrow> file_content w1 = file_content w @ replicate k 0"
    using inv pad by (cases "k = 0") (auto dest: osfile.write_ok)
  show "at_end F f0 w2 \<and>
      (case r of
         Inr m \<Rightarrow> file_content w2 = file_content w1 @ needle_encode n version \<and>
                  m = length (needle_encode n version) \<and> n2 = needle_stored n version
       | Inl e \<Rightarrow> e \<noteq> NeedlePanic \<and> (\<exists>t. file_content w2 = file_content w1 @ t))"
    if "WriteTo file_write w1 n version = (r, w2, n2)"
    using osfile.WriteTo_outcome [OF wf inv1 that] by (auto split: sum.splits)
qed

lemma writeNeedleUnlocked_outcome:
  assumes vf: "vol_files s v c" and wf: "needle_wf n"
    and run: "writeNeedleUnlocked s v n = (r, s', v', n')"
  obtains t f where "vol_files s' v' (c @ t)" "v' = v\<lparr>v_dataFile := Some f\<rparr>"
    "\<And>q. q \<noteq> DataFileName (v_dir v) (v_id v) \<Longrightarrow> fs_files s' q = fs_files s q"
    "case r of
       Inl e \<Rightarrow> e \<noteq> VolPanic
     | Inr (off, written) \<Rightarrow>
         t = replicate (NeedleAlignPadding (length c)) 0 @ needle_encode n (sb_Version (v_SuperBlock v)) \<and>
         off = ToEncoded (int (length c + NeedleAlignPadding (length c))) \<and>
         written = length (needle_encode n (sb_Version (v_SuperBlock v))) \<and>
         n' = needle_stored n (sb_Version (v_SuperBlock v))"
proof -
  let ?p = "DataFileName (v_dir v) (v_id v)" and ?k = "NeedleAlignPadding (length c)"
    and ?ver = "sb_Version (v_SuperBlock v)"
  obtain f where f: "v_dataFile v = Some f" "f_name f = ?p" "\<not> f_append f" and c: "fs_files s ?p = Some c"
    using vf by (auto simp: vol_files_def)
  define f1 where "f1 = f\<lparr>f_pos := length c\<rparr>"
  have seek: "Option.bind (v_dataFile v) (seek_end s) = Some (length c, f1)"
    using f c by (simp add: seek_end_def file_size_def f1_def)
  have inv: "at_end (fs_files s) f (s, f1)" and cont: "file_content (s, f1) = c"
    using f c by (simp_all add: at_end_def f1_def file_content_def)
  obtain s1 g1 ok where pad: "(if ?k = 0 then ((s, f1), True) else file_write (s, f1) (replicate ?k 0)) = ((s1, g1), ok)"
    by (metis prod.collapse)
  obtain r2 s2 g2 n2 where wr: "WriteTo file_write (s1, g1) n ?ver = (r2, (s2, g2), n2)" by (metis prod.collapse)
  note o = padded_write_outcome [OF inv wf pad] and o2 = padded_write_outcome(4) [OF inv wf pad wr]
  have files: "vol_files t' (v\<lparr>v_dataFile := Some g\<rparr>) (c @ t)"
    "\<And>q. q \<noteq> ?p \<Longrightarrow> fs_files t' q = fs_files s q"
    if "at_end (fs_files s) f (t', g)" "file_content (t', g) = c @ t" for t' g t
    using at_end_files [OF that(1) f(2)] that(2) vf f(3) by (auto simp: vol_files_def)
  have code: "(r, s', v', n') =
     (if \<not> ok then (Inl VolPadding, s1, v\<lparr>v_dataFile := Some g1\<rparr>, n)
      else case r2 of
             Inl e \<Rightarrow> (Inl (wrap_needle VolWriteNeedle e), s2, v\<lparr>v_dataFile := Some g2\<rparr>, n2)
           | Inr written \<Rightarrow> (Inr (ToEncoded (int (length c + ?k)), written), s2, v\<lparr>v_dataFile := Some g2\<rparr>, n2))"
    using run unfolding writeNeedleUnlocked_def seek option.case prod.case Let_def pad wr
    by (simp split: sum.splits)
  show ?thesis
  proof (cases ok)
    case False
    obtain t where t: "file_content (s1, g1) = c @ t" using o(2) cont by auto
    show ?thesis using that files [OF o(1) t] code False by simp
  next
    case True
    show ?thesis
    proof (cases r2)
      case (Inl e)
      with o2 o(3) True cont obtain t where t: "file_content (s2, g2) = c @ t" "e \<noteq> NeedlePanic" by auto
      show ?thesis
        using that files [OF conjunct1 [OF o2] t(1)] code True Inl t(2) by (simp add: wrap_needle_def)
    next
      case (Inr m)
      then have t: "file_content (s2, g2) = c @ replicate ?k 0 @ needle_encode n ?ver"
        using o2 o(3) True cont by simp
      show ?thesis using that files [OF conjunct1 [OF o2] t] code True Inr o2 by simp
    qed
  qed
qed

text \<open>A new record extends the abstract map when its location is entered into the index, and so
  does a tombstone shrink it.\<close>

lemma holds_new:
  assumes "needle_wf n" "length c \<le> 2 ^ 35 - 8"
  shows "holds (c @ replicate (NeedleAlignPadding (length c)) 0 @ needle_encode n version) version
    \<lparr>nvl_offset = ToEncoded (int (length c + NeedleAlignPadding (length c))),
     nvl_size = of_nat (length (needle_encode n version))\<rparr> n"
proof -
  obtain m where m: "length c + NeedleAlignPadding (length c) = 8 * m"
    using NeedleAlignPadding_aligns [of "length c"] by (auto elim: dvdE)
  have "NeedleAlignPadding (length c) < 8" by (rule NeedleAlignPadding_less)
  then have "m < 2 ^ 32" using m assms(2) by simp
  then have "ToActualOffset (ToEncoded (int (8 * m))) = int (8 * m)"
    using ToActual_ToEncoded [of "8 * m"] by simp
  then show ?thesis
    using assms(1) m unfolding holds_def
    by (intro conjI exI [of _ "c @ replicate (NeedleAlignPadding (length c)) 0"] exI [of _ "[]"]) simp_all
qed

lemma index_ok_put:
  assumes "index_ok c version m A" "holds c version e n"
  shows "index_ok c version (m(n_Id n \<mapsto> e)) (A(n_Id n \<mapsto> n))"
  using assms holds_not_deleted [OF assms(2)] by (simp add: index_ok_iff entry_ok_live)

lemma index_ok_delete:
  assumes "index_ok c version m A" "needleValue_isDeleted e"
  shows "index_ok c version (m(k \<mapsto> e)) (A(k := None))"
  using assms by (simp add: index_ok_iff)

lemma vol_files_nm [simp]: "vol_files s (v\<lparr>v_nm := x\<rparr>) c = vol_files s v c"
  by (simp add: vol_files_def)

lemma vol_files_frame:
  "vol_files s v c \<Longrightarrow> fs_files s' (DataFileName (v_dir v) (v_id v)) = fs_files s (DataFileName (v_dir v) (v_id v)) \<Longrightarrow>
   vol_files s' v c"
  by (simp add: vol_files_def)

lemma idx_synced_frame:
  "idx_synced s db p \<Longrightarrow> (\<And>q. q \<noteq> d \<Longrightarrow> fs_files s' q = fs_files s q) \<Longrightarrow> p \<noteq> d \<Longrightarrow> idx_synced s' db p"
  by (auto simp: idx_synced_def idx_open_def at_end_def file_content_def)

lemma WriteNeedle_outcome:
  assumes ok: "vol_ok s v A" and wf: "needle_wf n" and fits: "UsedSize s v \<le> 2 ^ 35 - 8"
    and run: "WriteNeedle s v n = (r, s', v', n')"
  shows "case r of
     Inr (off, sz) \<Rightarrow> vol_ok s' v' (A(n_Id n \<mapsto> n)) \<and> n' = needle_stored n (sb_Version (v_SuperBlock v)) \<and>
                      sz = of_nat (length (needle_encode n (sb_Version (v_SuperBlock v))))
   | Inl e \<Rightarrow> e \<noteq> VolPanic \<and> durable s' v' A \<and> (readable s' v' A \<or> readable s' v' (A(n_Id n \<mapsto> n)))"
proof (cases "v_ReadOnly v \<or> v_noWriteOrDelete v")
  case True
  then show ?thesis
    using run ok vol_ok_durable [OF ok] by (auto simp: WriteNeedle_def vol_ok_def split: if_splits)
next
  case False
  let ?dat = "DataFileName (v_dir v) (v_id v)" and ?idx = "IndexFileName (v_dir v) (v_id v)"
    and ?ver = "sb_Version (v_SuperBlock v)"
  obtain c db where vf: "vol_files s v c" and db: "v_nm v = Some db" and ix: "index_ok c ?ver (db_m db) A"
    and sync: "idx_synced s db ?idx" and st: "nm_stats db"
    using ok by (auto simp: vol_ok_def readable_def)
  have len: "length c \<le> 2 ^ 35 - 8" using fits vf by (auto simp: UsedSize_def vol_files_def file_size_def)
  obtain r1 s1 v1 n1 where w: "writeNeedleUnlocked s v n = (r1, s1, v1, n1)" by (metis prod.collapse)
  obtain t f where vf1: "vol_files s1 v1 (c @ t)" and v1: "v1 = v\<lparr>v_dataFile := Some f\<rparr>"
    and frame: "\<And>q. q \<noteq> ?dat \<Longrightarrow> fs_files s1 q = fs_files s q"
    and out: "case r1 of Inl e \<Rightarrow> e \<noteq> VolPanic
     | Inr (off, written) \<Rightarrow>
         t = replicate (NeedleAlignPadding (length c)) 0 @ needle_encode n ?ver \<and>
         off = ToEncoded (int (length c + NeedleAlignPadding (length c))) \<and>
         written = length (needle_encode n ?ver) \<and> n1 = needle_stored n ?ver"
    using writeNeedleUnlocked_outcome [OF vf wf w] by blast
  have sync1: "idx_synced s1 db ?idx" using idx_synced_frame [OF sync frame] by simp
  have ix1: "index_ok (c @ t) ?ver (db_m db) A" by (rule index_ok_append [OF ix])
  show ?thesis
  proof (cases r1)
    case (Inl e)
    then have res: "r = Inl e" "s' = s1" "v' = v1" using run False w by (auto simp: WriteNeedle_def)
    have "durable s1 v1 A" "readable s1 v1 A"
      using vf1 ix1 sync1 db by (auto simp: durable_def readable_def idx_synced_def v1)
    then show ?thesis using res out Inl by simp
  next
    case (Inr ow)
    then obtain off written where ow: "r1 = Inr (off, written)" by (cases ow) auto
    let ?e = "\<lparr>nvl_offset = off, nvl_size = of_nat written\<rparr>"
    have new: "holds (c @ t) ?ver ?e n" and n1: "n1 = needle_stored n ?ver"
      using out ow holds_new [OF wf len, of ?ver] by simp_all
    have nid: "n_Id n1 = n_Id n" by (simp add: n1 needle_stored_def)
    obtain r2 s2 db2 where p: "MemDb_Put s1 db (n_Id n) off (of_nat written) = (r2, s2, db2)" by (metis prod.collapse)
    note po = MemDb_Put_outcome [OF sync1 p]
    have res: "r = (case r2 of Inl e \<Rightarrow> Inl (VolIndex e) | Inr _ \<Rightarrow> Inr (off, of_nat written))" "s' = s2"
      "v' = v1\<lparr>v_nm := Some db2\<rparr>" "n' = n1"
      using run False w ow p db v1 nid by (auto simp: WriteNeedle_def split: sum.splits)
    have vf2: "vol_files s2 v' (c @ t)"
      unfolding res(3) vol_files_nm by (rule vol_files_frame [OF vf1]) (use po(2) v1 in simp)
    have rd: "readable s2 v' (A(n_Id n \<mapsto> n))"
      using vf2 index_ok_put [OF ix1 new] po(1) by (auto simp: readable_def res(3) v1)
    show ?thesis
    proof (cases r2)
      case (Inl e)
      then have "durable s2 v' A" using po(4) vf2 ix1 by (auto simp: durable_def res(3) v1)
      then show ?thesis using rd Inl res by simp
    next
      case (Inr u)
      then have "vol_ok s2 v' (A(n_Id n \<mapsto> n))"
        using rd po(3) nm_stats_Put [OF st p] by (simp add: vol_ok_def res(3) v1)
      then show ?thesis using Inr res n1 out ow by simp
    qed
  qed
qed

section \<open>Deleting\<close>

lemma tombstone_wf: "needle_wf (tombstone k)"
  by (simp add: tombstone_def Needle_zero_def needle_wf_def length_bodyBytes HasName_def HasMime_def
      HasPairs_def HasLastModified_def HasTtl_def)

lemma DeleteNeedle_outcome:
  assumes ok: "vol_ok s v A" and run: "DeleteNeedle s v k = (r, s', v')"
  shows "case r of
     Inr _ \<Rightarrow> A k \<noteq> None \<and> vol_ok s' v' (A(k := None))
   | Inl e \<Rightarrow> e \<noteq> VolPanic \<and> durable s' v' A \<and> (readable s' v' A \<or> readable s' v' (A(k := None)))"
proof -
  let ?dat = "DataFileName (v_dir v) (v_id v)" and ?idx = "IndexFileName (v_dir v) (v_id v)"
    and ?ver = "sb_Version (v_SuperBlock v)"
  obtain c db where vf: "vol_files s v c" and db: "v_nm v = Some db" and ix: "index_ok c ?ver (db_m db) A"
    and sync: "idx_synced s db ?idx" and st: "nm_stats db"
    using ok by (auto simp: vol_ok_def readable_def)
  show ?thesis
  proof (cases "v_ReadOnly v \<or> v_noWriteOrDelete v \<or> isl (MemDb_Get db k)")
    case True
    then show ?thesis
      using run ok vol_ok_durable [OF ok] db
      by (auto simp: DeleteNeedle_def vol_ok_def isl_def split: if_splits)
  next
    case False
    then obtain loc where get: "MemDb_Get db k = Inr loc" by (cases "MemDb_Get db k") auto
    then obtain e where e: "db_m db k = Some e" "nvl_size e \<noteq> TombstoneFileSize"
      by (auto simp: MemDb_Get_def needleValue_isDeleted_def split: option.splits if_splits)
    have live: "A k \<noteq> None" using index_okD [OF ix, of k] e by (auto simp: entry_ok_live needleValue_isDeleted_def)
    obtain r1 s1 v1 n1 where w: "writeNeedleUnlocked s v (tombstone k) = (r1, s1, v1, n1)" by (metis prod.collapse)
    obtain t f where vf1: "vol_files s1 v1 (c @ t)" and v1: "v1 = v\<lparr>v_dataFile := Some f\<rparr>"
      and frame: "\<And>q. q \<noteq> ?dat \<Longrightarrow> fs_files s1 q = fs_files s q" and out: "r1 \<noteq> Inl VolPanic"
    proof (rule writeNeedleUnlocked_outcome [OF vf tombstone_wf w], goal_cases)
      case (1 t f)
      have "r1 \<noteq> Inl VolPanic" using 1(5) by (auto split: sum.splits)
      with 1 show ?case by blast
    qed
    have sync1: "idx_synced s1 db ?idx" using idx_synced_frame [OF sync frame] by simp
    have ix1: "index_ok (c @ t) ?ver (db_m db) A" by (rule index_ok_append [OF ix])
    show ?thesis
    proof (cases r1)
      case (Inl er)
      then have res: "r = Inl er" "s' = s1" "v' = v1" using run False w db get by (auto simp: DeleteNeedle_def)
      have "durable s1 v1 A" "readable s1 v1 A"
        using vf1 ix1 sync1 db by (auto simp: durable_def readable_def idx_synced_def v1)
      then show ?thesis using res out Inl by simp
    next
      case (Inr ow)
      obtain r2 s2 db2 where p: "MemDb_Delete s1 db k = (r2, s2, db2)" by (metis prod.collapse)
      note po = MemDb_Delete_outcome [OF sync1 e p]
      have res: "r = (case r2 of Inl e \<Rightarrow> Inl (VolIndex e) | Inr _ \<Rightarrow> Inr ())" "s' = s2"
        "v' = v1\<lparr>v_nm := Some db2\<rparr>"
        using run False w Inr p db get by (auto simp: DeleteNeedle_def split: sum.splits)
      have vf2: "vol_files s2 v' (c @ t)"
        unfolding res(3) vol_files_nm by (rule vol_files_frame [OF vf1]) (use po(2) v1 in simp)
      have "index_ok (c @ t) ?ver (db_m db2) (A(k := None))"
        unfolding po(1) by (rule index_ok_delete [OF ix1]) (simp add: needleValue_isDeleted_def)
      then have rd: "readable s2 v' (A(k := None))" using vf2 by (auto simp: readable_def res(3) v1)
      show ?thesis
      proof (cases r2)
        case (Inl er)
        then have "durable s2 v' A" using po(4) vf2 ix1 by (auto simp: durable_def res(3) v1)
        then show ?thesis using rd Inl res by simp
      next
        case (Inr u)
        then have "vol_ok s2 v' (A(k := None))"
          using rd po(3) nm_stats_Delete [OF st p] by (simp add: vol_ok_def res(3) v1)
        then show ?thesis using Inr res live by simp
      qed
    qed
  qed
qed

section \<open>Opening\<close>

lemma NewVolume_durable:
  assumes d: "durable s v A"
  obtains v' where "NewVolume s (v_dir v) coll (v_id v) ver = (Inr v', s)" "readable s v' A"
    "v_dir v' = v_dir v" "v_id v' = v_id v" "v_SuperBlock v' = v_SuperBlock v"
    "v_nm v' = Some (snd (LoadNeedleMap s (IndexFileName (v_dir v) (v_id v))))"
proof -
  let ?dat = "DataFileName (v_dir v) (v_id v)" and ?idx = "IndexFileName (v_dir v) (v_id v)"
  obtain c i where vf: "vol_files s v c" and i: "fs_files s ?idx = Some i"
    and ix: "index_ok c (sb_Version (v_SuperBlock v)) (idx_map i) A" using d by (auto simp: durable_def)
  obtain rest where c: "fs_files s ?dat = Some (SuperBlock_Bytes (v_SuperBlock v) @ rest)"
    and fits: "placement_fits (sb_ReplicaPlacement (v_SuperBlock v))" using vf by (auto simp: vol_files_def)
  let ?f = "\<lparr>f_name = ?dat, f_pos = 0, f_append = False\<rparr>"
  let ?db = "(load_entries i NewMemDb)\<lparr>db_file := Some \<lparr>f_name = ?idx, f_pos = 0, f_append = True\<rparr>\<rparr>"
  let ?v = "\<lparr>v_id = v_id v, v_dir = v_dir v, v_collection = coll, v_dataFile = Some (?f\<lparr>f_pos := 8\<rparr>),
    v_nm = Some ?db, v_SuperBlock = v_SuperBlock v, v_ReadOnly = False, v_noWriteOrDelete = False\<rparr>"
  have rsb: "ReadSuperBlock s ?f = (Inr (v_SuperBlock v), ?f\<lparr>f_pos := 8\<rparr>)"
    by (rule ReadSuperBlock_prefix) (use c fits in simp_all)
  have new: "NewVolume s (v_dir v) coll (v_id v) ver = (Inr ?v, s)"
    using c i rsb by (simp add: NewVolume_def Let_def open_create_def fs_exists_def OpenIndexFile_def MemDb_Load_def)
  have db: "?db = snd (LoadNeedleMap s ?idx)"
    using i by (simp add: LoadNeedleMap_def OpenIndexFile_def open_create_def fs_exists_def MemDb_Load_def)
  have "readable s ?v A"
    using vf ix by (auto simp: readable_def vol_files_def idx_map_def)
  then show ?thesis using that new db by simp
qed

lemma NewVolume_vol_ok:
  assumes ok: "vol_ok s v A"
  obtains v' where "NewVolume s (v_dir v) coll (v_id v) ver = (Inr v', s)" "vol_ok s v' A"
    "v_SuperBlock v' = v_SuperBlock v"
proof -
  let ?idx = "IndexFileName (v_dir v) (v_id v)"
  obtain v' where v': "NewVolume s (v_dir v) coll (v_id v) ver = (Inr v', s)" "readable s v' A"
    "v_dir v' = v_dir v" "v_id v' = v_id v" "v_SuperBlock v' = v_SuperBlock v"
    "v_nm v' = Some (snd (LoadNeedleMap s ?idx))"
    using NewVolume_durable [OF vol_ok_durable [OF ok]] by blast
  obtain db where sync: "idx_synced s db ?idx" using ok by (auto simp: vol_ok_def)
  obtain s' db' where l: "LoadNeedleMap s ?idx = (s', db')" by fastforce
  show ?thesis using that v' LoadNeedleMap_synced [OF sync l] l by (simp add: vol_ok_def)
qed

section \<open>Operations that fit the device succeed\<close>

lemma writeNeedleUnlocked_fits:
  assumes vf: "vol_files s v c" and wf: "needle_wf n"
    and room: "NeedleAlignPadding (length c) + length (needle_encode n (sb_Version (v_SuperBlock v))) \<le> fs_room s"
    and run: "writeNeedleUnlocked s v n = (r, s', v', n')"
  shows "\<exists>ow. r = Inr ow" "fs_room s' = fs_room s - NeedleAlignPadding (length c) - length (needle_encode n (sb_Version (v_SuperBlock v)))"
proof -
  let ?p = "DataFileName (v_dir v) (v_id v)" and ?k = "NeedleAlignPadding (length c)"
    and ?ver = "sb_Version (v_SuperBlock v)"
  obtain f where f: "v_dataFile v = Some f" "f_name f = ?p" "\<not> f_append f" and c: "fs_files s ?p = Some c"
    using vf by (auto simp: vol_files_def)
  define f1 where "f1 = f\<lparr>f_pos := length c\<rparr>"
  have seek: "Option.bind (v_dataFile v) (seek_end s) = Some (length c, f1)"
    using f c by (simp add: seek_end_def file_size_def f1_def)
  have inv: "at_end (fs_files s) f (s, f1)"
    using f c by (simp add: at_end_def f1_def file_content_def)
  obtain s1 g1 ok where pad: "(if ?k = 0 then ((s, f1), True) else file_write (s, f1) (replicate ?k 0)) = ((s1, g1), ok)"
    by (metis prod.collapse)
  have inv1: "at_end (fs_files s) f (s1, g1)" using padded_write_outcome(1) [OF inv wf pad] .
  have ok: "ok \<and> fs_room s1 = fs_room s - ?k"
    using pad room osfile_room.write_fits [OF inv, of "replicate ?k 0"] by (cases "?k = 0") auto
  obtain r2 s2 g2 n2 where wr: "WriteTo file_write (s1, g1) n ?ver = (r2, (s2, g2), n2)" by (metis prod.collapse)
  have r2: "r2 = Inr (length (needle_encode n ?ver)) \<and> fs_room s2 = fs_room s1 - length (needle_encode n ?ver)"
    using osfile_room.WriteTo_fits [OF wf inv1 _ wr] room ok by simp
  show "\<exists>ow. r = Inr ow" "fs_room s' = fs_room s - ?k - length (needle_encode n ?ver)"
    using run ok r2 unfolding writeNeedleUnlocked_def seek option.case prod.case Let_def pad wr by auto
qed

lemma appendEntry_fits:
  assumes "idx_open s db p" "16 \<le> fs_room s"
  shows "fst (appendEntry s db k off sz) = Inr ()"
proof -
  obtain f where f: "db_file db = Some f" and e: "at_end (fs_files s) f (s, f)"
    using assms(1) by (auto simp: idx_open_def)
  obtain w' ok where w: "file_write (s, f) (index_entry k off sz) = (w', ok)" by fastforce
  show ?thesis using file_write_at_end(3) [OF e w] assms(2) f w by (simp add: appendEntry_def split: prod.splits)
qed

text \<open>The space one write needs at most: padding, the record, and one index entry.\<close>

definition write_space :: "Needle \<Rightarrow> NeedleVersion \<Rightarrow> nat" where
  "write_space n version = 7 + length (needle_encode n version) + 16"

lemma WriteNeedle_fits:
  assumes ok: "vol_ok s v A" and wf: "needle_wf n" and open_: "\<not> v_ReadOnly v" "\<not> v_noWriteOrDelete v"
    and room: "write_space n (sb_Version (v_SuperBlock v)) \<le> fs_room s"
  shows "\<exists>off sz. fst (WriteNeedle s v n) = Inr (off, sz)"
proof -
  let ?idx = "IndexFileName (v_dir v) (v_id v)" and ?ver = "sb_Version (v_SuperBlock v)"
  obtain c db where vf: "vol_files s v c" and db: "v_nm v = Some db" and sync: "idx_synced s db ?idx"
    using ok by (auto simp: vol_ok_def readable_def)
  obtain r1 s1 v1 n1 where w: "writeNeedleUnlocked s v n = (r1, s1, v1, n1)" by (metis prod.collapse)
  have pad: "NeedleAlignPadding (length c) < 8" by (rule NeedleAlignPadding_less)
  then have sp: "NeedleAlignPadding (length c) + length (needle_encode n ?ver) \<le> fs_room s"
    using room by (simp add: write_space_def)
  note fit = writeNeedleUnlocked_fits [OF vf wf sp w]
  obtain t f where v1: "v1 = v\<lparr>v_dataFile := Some f\<rparr>"
    and frame: "\<And>q. q \<noteq> DataFileName (v_dir v) (v_id v) \<Longrightarrow> fs_files s1 q = fs_files s q"
    using writeNeedleUnlocked_outcome [OF vf wf w] by blast
  have sync1: "idx_synced s1 db ?idx" using idx_synced_frame [OF sync frame] by simp
  have "16 \<le> fs_room s1" using fit(2) pad room by (simp add: write_space_def)
  then have "fst (MemDb_Put s1 db k off z) = Inr ()" for k off z
    using sync1 by (auto simp: MemDb_Put_def Let_def idx_synced_def idx_open_def intro!: appendEntry_fits)
  then have put: "\<exists>s2 db2. MemDb_Put s1 db k off z = (Inr (), s2, db2)" for k off z by (metis prod.collapse)
  obtain off written where ow: "r1 = Inr (off, written)" using fit(1) by auto
  obtain s2 db2 where "MemDb_Put s1 db (n_Id n1) off (of_nat written) = (Inr (), s2, db2)" using put by blast
  then show ?thesis using ow w open_ db by (simp add: WriteNeedle_def v1)
qed

section \<open>A new volume\<close>

lemma NewVolume_fresh:
  assumes none: "fs_files s (DataFileName dir vid) = None" "fs_files s (IndexFileName dir vid) = None"
    and room: "8 \<le> fs_room s"
  obtains v s' where "NewVolume s dir coll vid version = (Inr v, s')" "vol_ok s' v (\<lambda>_. None)"
    "fs_room s' = fs_room s - 8" "\<not> v_ReadOnly v" "\<not> v_noWriteOrDelete v"
    "v_SuperBlock v = SuperBlock_new version" "v_dir v = dir" "v_id v = vid" "UsedSize s' v = 8"
    "map_option db_m (v_nm v) = Some (\<lambda>_. None)"
proof -
  let ?dat = "DataFileName dir vid" and ?idx = "IndexFileName dir vid" and ?sb = "SuperBlock_new version"
  define s1 where "s1 = s\<lparr>fs_files := (fs_files s)(?dat \<mapsto> SuperBlock_Bytes ?sb), fs_room := fs_room s - 8\<rparr>"
  define s2 where "s2 = s1\<lparr>fs_files := (fs_files s1)(?idx \<mapsto> [])\<rparr>"
  define db where "db = NewMemDb\<lparr>db_file := Some \<lparr>f_name = ?idx, f_pos = 0, f_append = True\<rparr>\<rparr>"
  define v where "v = \<lparr>v_id = vid, v_dir = dir, v_collection = coll,
    v_dataFile = Some \<lparr>f_name = ?dat, f_pos = 0, f_append = False\<rparr>, v_nm = Some db, v_SuperBlock = ?sb,
    v_ReadOnly = False, v_noWriteOrDelete = False\<rparr>"
  have new: "NewVolume s dir coll vid version = (Inr v, s2)"
    using none room by (simp add: NewVolume_def Let_def fs_exists_def open_create_def WriteSuperBlock_def
        file_write_at_def write_at_def splice_def OpenIndexFile_def MemDb_Load_def s1_def s2_def db_def v_def)
  have "placement_fits (sb_ReplicaPlacement ?sb)" by (simp add: placement_fits_def SuperBlock_new_def)
  then have "vol_ok s2 v (\<lambda>_. None)"
    by (auto simp: vol_ok_def readable_def vol_files_def index_ok_iff idx_synced_def idx_open_def at_end_def
        idx_map_def s1_def s2_def db_def v_def NewMemDb_def nm_stats_def map_sum_def)
  then show ?thesis
    using that new by (simp add: v_def s1_def s2_def UsedSize_def file_size_def db_def NewMemDb_def)
qed

section \<open>The properties of the volume\<close>

text \<open>What a client sees of a volume: the needles it can read.\<close>

definition volume_view :: "fsys \<Rightarrow> Volume \<Rightarrow> NeedleId \<Rightarrow> Needle option" where
  "volume_view s v k = (case GetNeedle s v k of Inr n \<Rightarrow> Some n | Inl _ \<Rightarrow> None)"

lemma volume_view_readable:
  "readable s v A \<Longrightarrow> volume_view s v = (\<lambda>k. map_option (\<lambda>n. needle_view n (sb_Version (v_SuperBlock v))) (A k))"
  by (auto simp: volume_view_def GetNeedle_readable fun_eq_iff readable_def split: option.splits)

lemma volume_view_upd:
  assumes "readable s v A" "readable s' v' (A(k := a))" "v_SuperBlock v' = v_SuperBlock v"
  shows "volume_view s' v' = (volume_view s v)(k := map_option (\<lambda>n. needle_view n (sb_Version (v_SuperBlock v))) a)"
  using assms by (auto simp: volume_view_readable fun_eq_iff)

text \<open>No operation changes the identity of the volume or its superblock.\<close>

lemma writeNeedleUnlocked_fixed:
  "writeNeedleUnlocked s v n = (r, s', v', n') \<Longrightarrow> \<exists>f. v' = v\<lparr>v_dataFile := f\<rparr>"
proof -
  assume run: "writeNeedleUnlocked s v n = (r, s', v', n')"
  have "\<exists>f. v = v\<lparr>v_dataFile := f\<rparr>" by (rule exI [of _ "v_dataFile v"]) simp
  moreover have "\<exists>f. v\<lparr>v_dataFile := g\<rparr> = v\<lparr>v_dataFile := f\<rparr>" for g by (rule exI, rule refl)
  ultimately show ?thesis
    using run by (auto simp: writeNeedleUnlocked_def Let_def split: option.splits prod.splits if_splits sum.splits)
qed

definition same_volume :: "Volume \<Rightarrow> Volume \<Rightarrow> bool" where
  "same_volume v v' \<longleftrightarrow> v_id v' = v_id v \<and> v_dir v' = v_dir v \<and> v_SuperBlock v' = v_SuperBlock v \<and>
     v_ReadOnly v' = v_ReadOnly v \<and> v_noWriteOrDelete v' = v_noWriteOrDelete v"

lemma WriteNeedle_same: "WriteNeedle s v n = (r, s', v', n') \<Longrightarrow> same_volume v v'"
  by (auto simp: WriteNeedle_def same_volume_def dest!: writeNeedleUnlocked_fixed
      split: if_splits prod.splits sum.splits option.splits)

text \<open>A successful write changes one entry of the index.\<close>

lemma appendEntry_m: "appendEntry s db k off sz = (r, s', db') \<Longrightarrow> db_m db' = db_m db"
  by (auto simp: appendEntry_def split: option.splits prod.splits)

lemma WriteNeedle_index:
  assumes "WriteNeedle s v n = (Inr x, s', v', n')" "map_option db_m (v_nm v) = Some m"
  shows "\<exists>j e. map_option db_m (v_nm v') = Some (m(j \<mapsto> e))"
  using assms
  by (fastforce simp: WriteNeedle_def MemDb_Put_def Let_def dest!: writeNeedleUnlocked_fixed appendEntry_m
      split: if_splits prod.splits sum.splits option.splits)

lemma DeleteNeedle_same: "DeleteNeedle s v k = (r, s', v') \<Longrightarrow> same_volume v v'"
  by (auto simp: DeleteNeedle_def same_volume_def dest!: writeNeedleUnlocked_fixed
      split: if_splits prod.splits sum.splits option.splits)

end
