(* ===== verification/Compact.thy ===== *)
theory Compact
  imports VolumeProps
begin

text \<open>
  Compaction of a volume (src/goblob/storage/volume/compact.go): copying the live needles into
  temporary files and swapping them in. The order of the map iteration and the clock are
  arguments of \<open>Compact\<close>; a needle is read, tested for expiry, written and indexed as in the
  callback of the source.
\<close>

record CompactionResult =
  cr_OriginalSize :: nat
  cr_CompactedSize :: nat
  cr_NeedlesRead :: nat
  cr_NeedlesWritten :: nat
  cr_NeedlesDeleted :: nat
  cr_NeedlesExpired :: nat
  cr_TempDataFile :: string
  cr_TempIndexFile :: string

text \<open>What the callback of \<open>Iterate\<close> shares: the file system, the open data file, the temporary
  index, the running offset and the counters.\<close>

record compact_state =
  cs_fs :: fsys
  cs_cpd :: File
  cs_db :: MemDb
  cs_offset :: nat
  cs_result :: CompactionResult

definition compact_needle ::
  "NeedleVersion \<Rightarrow> u64 \<Rightarrow> NeedleId \<Rightarrow> Needle \<Rightarrow> compact_state \<Rightarrow> (volume_error + unit) \<times> compact_state"
where
  "compact_needle version now nid n st =
     (if IsExpired n (n_AppendAtNs n div 1000000000) now
      then (Inr (), st\<lparr>cs_result := (cs_result st)\<lparr>cr_NeedlesExpired := cr_NeedlesExpired (cs_result st) + 1\<rparr>\<rparr>)
      else case WriteTo file_write (cs_fs st, cs_cpd st) n version of
        (Inl er, (s1, f1), _) \<Rightarrow> (Inl (wrap_needle VolWriteNeedle er), st\<lparr>cs_fs := s1, cs_cpd := f1\<rparr>)
      | (Inr written, (s1, f1), _) \<Rightarrow>
          (case MemDb_Put s1 (cs_db st) nid (ToEncoded (int (cs_offset st))) (of_nat written) of
             (Inl er, s2, db) \<Rightarrow> (Inl (VolIndex er), st\<lparr>cs_fs := s2, cs_cpd := f1, cs_db := db\<rparr>)
           | (Inr _, s2, db) \<Rightarrow>
               (Inr (), st\<lparr>cs_fs := s2, cs_cpd := f1, cs_db := db, cs_offset := cs_offset st + written,
                  cs_result := (cs_result st)\<lparr>cr_NeedlesWritten := cr_NeedlesWritten (cs_result st) + 1\<rparr>\<rparr>)))"

definition compact_entry ::
  "Volume \<Rightarrow> u64 \<Rightarrow> NeedleId \<times> Offset \<times> Size \<Rightarrow> compact_state \<Rightarrow> (volume_error + unit) \<times> compact_state"
where
  "compact_entry v now e st =
     (case e of (nid, off, sz) \<Rightarrow>
       let st = st\<lparr>cs_result := (cs_result st)\<lparr>cr_NeedlesRead := cr_NeedlesRead (cs_result st) + 1\<rparr>\<rparr>
       in if sz = TombstoneFileSize
          then (Inr (), st\<lparr>cs_result := (cs_result st)\<lparr>cr_NeedlesDeleted := cr_NeedlesDeleted (cs_result st) + 1\<rparr>\<rparr>)
          else case read_at_location (cs_fs st) v off sz (sb_Version (v_SuperBlock v)) of
            Inl er \<Rightarrow> (Inl (wrap_needle VolReadNeedle er), st)
          | Inr n \<Rightarrow> compact_needle (sb_Version (v_SuperBlock v)) now nid n st)"

text \<open>After the first error the callback returns at once for every remaining entry.\<close>

fun compact_loop ::
  "Volume \<Rightarrow> u64 \<Rightarrow> (NeedleId \<times> Offset \<times> Size) list \<Rightarrow> compact_state \<Rightarrow> (volume_error + unit) \<times> compact_state"
where
  "compact_loop v now [] st = (Inr (), st)"
| "compact_loop v now (e # es) st =
     (case compact_entry v now e st of
        (Inl er, st') \<Rightarrow> (Inl er, st')
      | (Inr _, st') \<Rightarrow> compact_loop v now es st')"

definition CompactDataName :: "Volume \<Rightarrow> string" where
  "CompactDataName v = v_dir v @ ''/'' @ format_uint 10 (unat (v_id v)) @ ''.cpd''"

definition CompactIndexName :: "Volume \<Rightarrow> string" where
  "CompactIndexName v = v_dir v @ ''/'' @ format_uint 10 (unat (v_id v)) @ ''.cpx''"

text \<open>
  \<open>Compact\<close>. The deferred cleanup removes the temporary files only when an error is left in
  \<open>err\<close> and nothing was written: that is the failed superblock write, not an error inside the
  iteration, which is kept in \<open>compactErr\<close>.
\<close>

definition Compact ::
  "NeedleId list \<Rightarrow> u64 \<Rightarrow> fsys \<Rightarrow> Volume \<Rightarrow> rat \<Rightarrow> (volume_error + CompactionResult) \<times> fsys"
where
  "Compact order now s v threshold =
     (case v_nm v of
        None \<Rightarrow> (Inl VolPanic, s)
      | Some nm \<Rightarrow>
        if GarbageLevel nm < threshold then (Inl VolBelowThreshold, s)
        else
         (let cpdPath = CompactDataName v;
              cpxPath = CompactIndexName v;
              s0 = os_Remove (os_Remove s cpdPath) cpxPath;
              res = \<lparr>cr_OriginalSize = UsedSize s0 v, cr_CompactedSize = 0, cr_NeedlesRead = 0,
                     cr_NeedlesWritten = 0, cr_NeedlesDeleted = 0, cr_NeedlesExpired = 0,
                     cr_TempDataFile = cpdPath, cr_TempIndexFile = cpxPath\<rparr>;
              (s1, cpd) = os_Create s0 cpdPath;
              sb = v_SuperBlock v;
              newSB = sb\<lparr>sb_CompactionRevision := sb_CompactionRevision sb + 1\<rparr>
          in case WriteSuperBlock s1 cpd newSB of
               (s2, False) \<Rightarrow> (Inl VolSuperBlockWrite, os_Remove (os_Remove s2 cpdPath) cpxPath)
             | (s2, True) \<Rightarrow>
                 (case os_Create s2 cpxPath of
                    (s3, cpx) \<Rightarrow>
                      (case compact_loop v now (MemDb_Iterate order nm)
                              \<lparr>cs_fs = s3, cs_cpd = seek_set cpd SuperBlockSize,
                               cs_db = NewMemDb\<lparr>db_file := Some cpx\<rparr>, cs_offset = SuperBlockSize,
                               cs_result = res\<rparr> of
                         (Inl er, st) \<Rightarrow> (Inl er, cs_fs st)
                       | (Inr _, st) \<Rightarrow>
                           (Inr ((cs_result st)\<lparr>cr_CompactedSize := cs_offset st\<rparr>), cs_fs st)))))"

text \<open>\<open>CommitCompact\<close>: on every error path the volume is left without index or data file.\<close>

definition CommitCompact :: "fsys \<Rightarrow> Volume \<Rightarrow> CompactionResult \<Rightarrow> (volume_error + unit) \<times> fsys \<times> Volume" where
  "CommitCompact s v result =
     (let v0 = v\<lparr>v_nm := None, v_dataFile := None, v_noWriteOrDelete := False\<rparr>;
          datPath = DataFileName (v_dir v) (v_id v);
          idxPath = IndexFileName (v_dir v) (v_id v)
      in case os_Rename s (cr_TempDataFile result) datPath of
           None \<Rightarrow> (Inl VolRenameData, s, v0)
         | Some s1 \<Rightarrow>
         (case os_Rename s1 (cr_TempIndexFile result) idxPath of
            None \<Rightarrow> (Inl VolRenameIndex,
                     case os_Rename s1 datPath (cr_TempDataFile result) of None \<Rightarrow> s1 | Some s' \<Rightarrow> s', v0)
          | Some s2 \<Rightarrow>
          (case open_existing s2 datPath of
             None \<Rightarrow> (Inl VolReopen, s2, v0)
           | Some f \<Rightarrow>
           (case ReadSuperBlock s2 f of
              (Inl er, f1) \<Rightarrow> (Inl (VolSuperBlockRead er), s2, v0\<lparr>v_dataFile := Some f1\<rparr>)
            | (Inr sb, f1) \<Rightarrow>
                (case OpenIndexFile s2 (MemDb_Load s2 NewMemDb idxPath) idxPath of
                   (s3, db) \<Rightarrow> (Inr (), s3, v0\<lparr>v_dataFile := Some f1, v_SuperBlock := sb, v_nm := Some db\<rparr>))))))"

definition CompactVolume ::
  "NeedleId list \<Rightarrow> u64 \<Rightarrow> fsys \<Rightarrow> Volume \<Rightarrow> rat \<Rightarrow> (volume_error + CompactionResult) \<times> fsys \<times> Volume"
where
  "CompactVolume order now s v threshold =
     (case Compact order now s v threshold of
        (Inl er, s1) \<Rightarrow> (Inl er, s1, v)
      | (Inr result, s1) \<Rightarrow>
          (case CommitCompact s1 v result of
             (Inl er, s2, v2) \<Rightarrow> (Inl er, s2, v2)
           | (Inr _, s2, v2) \<Rightarrow> (Inr result, s2, v2)))"

end
