(* ===== verification/VolumeTraces.thy ===== *)
theory VolumeTraces
  imports VolumeProps
begin

text \<open>
  The properties of a volume as a client sees it: atomic writes and deletes, writes that succeed
  when they fit, the refinement of a map by whole sequences of operations, and the cookie check.
\<close>

text \<open>C2: a write is atomic across a crash. Take a volume in a consistent state and write a needle; the
  device may stop accepting bytes anywhere in the padding, the record or the index entry.
  Reopening the files afterwards always succeeds, and the reopened volume shows the old needles
  when the write reported an error, and the old needles with the new one when it succeeded.\<close>

theorem WriteNeedle_crash_atomic:
  assumes ok: "vol_ok s v A" and wf: "needle_wf n" and fits: "UsedSize s v \<le> 2 ^ 35 - 8"
    and run: "WriteNeedle s v n = (r, s', v', n')"
  shows "\<exists>v''. NewVolume s' (v_dir v) coll (v_id v) version = (Inr v'', s') \<and>
     volume_view s' v'' =
       (if isl r then volume_view s v
        else (volume_view s v)(n_Id n \<mapsto> needle_view n (sb_Version (v_SuperBlock v))))"
proof -
  have rd: "readable s v A" using ok by (simp add: vol_ok_def)
  have same: "v_dir v' = v_dir v" "v_id v' = v_id v" "v_SuperBlock v' = v_SuperBlock v"
    using WriteNeedle_same [OF run] by (simp_all add: same_volume_def)
  have d: "durable s' v' (if isl r then A else A(n_Id n \<mapsto> n))"
    using WriteNeedle_outcome [OF ok wf fits run] by (cases r) (auto dest: vol_ok_durable)
  obtain v'' where v'': "NewVolume s' (v_dir v') coll (v_id v') version = (Inr v'', s')"
    "readable s' v'' (if isl r then A else A(n_Id n \<mapsto> n))" "v_SuperBlock v'' = v_SuperBlock v'"
    using NewVolume_durable [OF d] by blast
  have "volume_view s' v'' = (if isl r then volume_view s v
      else (volume_view s v)(n_Id n \<mapsto> needle_view n (sb_Version (v_SuperBlock v))))"
  proof (cases "isl r")
    case True
    then show ?thesis using v'' same volume_view_readable [OF rd] by (simp add: volume_view_readable)
  next
    case False
    then show ?thesis using v'' same volume_view_upd [OF rd, of s' v'' "n_Id n" "Some n"] by simp
  qed
  with v''(1) same show ?thesis by auto
qed

text \<open>C7: a delete is atomic across a crash: reopening the files after \<open>DeleteNeedle\<close> shows the old
  needles when it reported an error, and the old needles without the deleted one when it
  succeeded, whatever byte of the tombstone or of the index entry the device stopped at.\<close>

theorem DeleteNeedle_crash_atomic:
  assumes ok: "vol_ok s v A" and run: "DeleteNeedle s v k = (r, s', v')"
  shows "\<exists>v''. NewVolume s' (v_dir v) coll (v_id v) version = (Inr v'', s') \<and>
     volume_view s' v'' = (if isl r then volume_view s v else (volume_view s v)(k := None))"
proof -
  have rd: "readable s v A" using ok by (simp add: vol_ok_def)
  have same: "v_dir v' = v_dir v" "v_id v' = v_id v" "v_SuperBlock v' = v_SuperBlock v"
    using DeleteNeedle_same [OF run] by (simp_all add: same_volume_def)
  have d: "durable s' v' (if isl r then A else A(k := None))"
    using DeleteNeedle_outcome [OF ok run] by (cases r) (auto dest: vol_ok_durable)
  obtain v'' where v'': "NewVolume s' (v_dir v') coll (v_id v') version = (Inr v'', s')"
    "readable s' v'' (if isl r then A else A(k := None))" "v_SuperBlock v'' = v_SuperBlock v'"
    using NewVolume_durable [OF d] by blast
  have "volume_view s' v'' = (if isl r then volume_view s v else (volume_view s v)(k := None))"
  proof (cases "isl r")
    case True
    then show ?thesis using v'' same volume_view_readable [OF rd] by (simp add: volume_view_readable)
  next
    case False
    then show ?thesis using v'' same volume_view_upd [OF rd, of s' v'' k None] by simp
  qed
  with v''(1) same show ?thesis by auto
qed

text \<open>C34: a write that fits succeeds. A writable volume in a consistent state accepts every well-formed
  needle for which the device has room for the padding, the record and the index entry, and
  then reads it back: no guard of the write path rejects it.\<close>

theorem WriteNeedle_succeeds:
  assumes ok: "vol_ok s v A" and wf: "needle_wf n" and fits: "UsedSize s v \<le> 2 ^ 35 - 8"
    and open_: "\<not> v_ReadOnly v" "\<not> v_noWriteOrDelete v"
    and room: "write_space n (sb_Version (v_SuperBlock v)) \<le> fs_room s"
  shows "\<exists>off sz s' v' n'. WriteNeedle s v n = (Inr (off, sz), s', v', n') \<and>
     GetNeedle s' v' (n_Id n) = Inr (needle_view n (sb_Version (v_SuperBlock v)))"
proof -
  obtain r s' v' n' where run: "WriteNeedle s v n = (r, s', v', n')" by (metis prod.collapse)
  then obtain off sz where r: "r = Inr (off, sz)" using WriteNeedle_fits [OF ok wf open_ room] by auto
  have "vol_ok s' v' (A(n_Id n \<mapsto> n))" using WriteNeedle_outcome [OF ok wf fits run] r by simp
  then have rd: "readable s' v' (A(n_Id n \<mapsto> n))" by (simp add: vol_ok_def)
  have "v_SuperBlock v' = v_SuperBlock v" using WriteNeedle_same [OF run] by (simp add: same_volume_def)
  then show ?thesis using run r GetNeedle_readable [OF rd, of "n_Id n"] by auto
qed

section \<open>A concrete volume\<close>

definition sample_fs :: fsys where
  "sample_fs = \<lparr>fs_files = (\<lambda>_. None), fs_room = 1000\<rparr>"

lemma sample_write_space: "write_space sample_needle 3 \<le> 900"
proof -
  have "length (bodyBytes sample_needle) = 11"
    by (simp add: sample_needle_def SetName_def Needle_zero_def length_bodyBytes HasName_def HasMime_def
        HasPairs_def HasLastModified_def HasTtl_def FlagHasName_def FlagHasMime_def FlagHasPairs_def
        FlagHasLastModified_def FlagHasTtl_def MaxNeedleNameSize_def)
  then show ?thesis
    using NeedleAlignPadding_less [of "length (needle_raw sample_needle 3)"] footerSize_bounds [of 3]
    by (simp add: write_space_def needle_encode_def length_needle_raw)
qed

lemma sample_volume:
  obtains v s where "NewVolume sample_fs ''d'' [] 7 3 = (Inr v, s)" "vol_ok s v (\<lambda>_. None)"
    "\<not> v_ReadOnly v" "\<not> v_noWriteOrDelete v" "v_dir v = ''d''" "v_id v = 7"
    "sb_Version (v_SuperBlock v) = 3" "UsedSize s v \<le> 2 ^ 35 - 8"
    "write_space sample_needle (sb_Version (v_SuperBlock v)) \<le> fs_room s"
    "map_option db_m (v_nm v) = Some (\<lambda>_. None)"
proof -
  obtain v s where v: "NewVolume sample_fs ''d'' [] 7 3 = (Inr v, s)" "vol_ok s v (\<lambda>_. None)"
    "fs_room s = fs_room sample_fs - 8" "\<not> v_ReadOnly v" "\<not> v_noWriteOrDelete v"
    "v_SuperBlock v = SuperBlock_new 3" "v_dir v = ''d''" "v_id v = 7" "UsedSize s v = 8"
    "map_option db_m (v_nm v) = Some (\<lambda>_. None)"
    by (rule NewVolume_fresh [of sample_fs "''d''" 7 "[]" 3]) (simp_all add: sample_fs_def)
  have "sb_Version (v_SuperBlock v) = 3" using v(6) by (simp add: SuperBlock_new_def)
  moreover have "write_space sample_needle 3 \<le> fs_room s"
    using v(3) sample_write_space by (simp add: sample_fs_def)
  ultimately show ?thesis using that v by simp
qed

theorem WriteNeedle_succeeds_witness:
  "\<exists>v s off sz s' v' n'. NewVolume sample_fs ''d'' [] 7 3 = (Inr v, s) \<and>
     WriteNeedle s v sample_needle = (Inr (off, sz), s', v', n') \<and>
     GetNeedle s' v' (n_Id sample_needle) = Inr (needle_view sample_needle 3)"
proof -
  obtain v s where v: "NewVolume sample_fs ''d'' [] 7 3 = (Inr v, s)" "vol_ok s v (\<lambda>_. None)"
    "\<not> v_ReadOnly v" "\<not> v_noWriteOrDelete v" and ver: "sb_Version (v_SuperBlock v) = 3"
    and sp: "UsedSize s v \<le> 2 ^ 35 - 8" "write_space sample_needle (sb_Version (v_SuperBlock v)) \<le> fs_room s"
    using sample_volume by blast
  from WriteNeedle_succeeds [OF v(2) sample_needle_wf sp(1) v(3,4) sp(2)] v(1) show ?thesis
    unfolding ver by blast
qed

lemma sample_written:
  obtains v s s' v' n' x where "vol_ok s v (\<lambda>_. None)" "UsedSize s v \<le> 2 ^ 35 - 8"
    "WriteNeedle s v sample_needle = (Inr x, s', v', n')" "vol_ok s' v' ((\<lambda>_. None)(7 \<mapsto> sample_needle))"
    "v_dir v = ''d''" "v_id v = 7" "v_dir v' = ''d''" "v_id v' = 7" "sb_Version (v_SuperBlock v) = 3"
    "sb_Version (v_SuperBlock v') = 3" "\<exists>j e. map_option db_m (v_nm v') = Some ((\<lambda>_. None)(j \<mapsto> e))"
proof -
  obtain v s where v: "vol_ok s v (\<lambda>_. None)" "\<not> v_ReadOnly v" "\<not> v_noWriteOrDelete v" "v_dir v = ''d''"
    "v_id v = 7" and ver: "sb_Version (v_SuperBlock v) = 3"
    and sp: "UsedSize s v \<le> 2 ^ 35 - 8" "write_space sample_needle (sb_Version (v_SuperBlock v)) \<le> fs_room s"
    and m: "map_option db_m (v_nm v) = Some (\<lambda>_. None)"
    using sample_volume by metis
  obtain r s' v' n' where run: "WriteNeedle s v sample_needle = (r, s', v', n')" by (metis prod.collapse)
  obtain x where r: "r = Inr x" using WriteNeedle_fits [OF v(1) sample_needle_wf v(2,3) sp(2)] run by auto
  have nid: "n_Id sample_needle = 7" by (simp add: sample_needle_def SetName_def)
  have "vol_ok s' v' ((\<lambda>_. None)(7 \<mapsto> sample_needle))"
    using WriteNeedle_outcome [OF v(1) sample_needle_wf sp(1) run] r nid by (cases x) simp
  then show ?thesis
    using that v sp(1) run r ver WriteNeedle_same [OF run] WriteNeedle_index [OF run [unfolded r] m]
    by (auto simp: same_volume_def)
qed

theorem WriteNeedle_crash_atomic_witness:
  "\<exists>s v x s' v' n' v''. vol_ok s v (\<lambda>_. None) \<and> WriteNeedle s v sample_needle = (Inr x, s', v', n') \<and>
     NewVolume s' ''d'' [] 7 3 = (Inr v'', s') \<and> volume_view s' v'' 7 = Some (needle_view sample_needle 3)"
proof (rule sample_written)
  fix v s s' v' n' x
  assume v: "vol_ok s v (\<lambda>_. None)" "UsedSize s v \<le> 2 ^ 35 - 8"
    and run: "WriteNeedle s v sample_needle = (Inr x, s', v', n')"
    and d: "v_dir v = ''d''" "v_id v = 7" "sb_Version (v_SuperBlock v) = 3"
  have nid: "n_Id sample_needle = 7" by (simp add: sample_needle_def SetName_def)
  have "\<exists>v''. NewVolume s' ''d'' [] 7 3 = (Inr v'', s') \<and>
      volume_view s' v'' = (volume_view s v)(7 \<mapsto> needle_view sample_needle 3)"
    using WriteNeedle_crash_atomic [OF v(1) sample_needle_wf v(2) run, of "[]" 3]
    by (simp only: d nid sum.disc if_False)
  then obtain v'' where new: "NewVolume s' ''d'' [] 7 3 = (Inr v'', s')"
    and view: "volume_view s' v'' = (volume_view s v)(7 \<mapsto> needle_view sample_needle 3)" by blast
  have "volume_view s' v'' 7 = Some (needle_view sample_needle 3)" by (simp add: view)
  with v(1) run new show ?thesis by blast
qed

theorem DeleteNeedle_crash_atomic_witness:
  "\<exists>s v r s' v' v''. vol_ok s v ((\<lambda>_. None)(7 \<mapsto> sample_needle)) \<and> DeleteNeedle s v 7 = (r, s', v') \<and>
     NewVolume s' ''d'' [] 7 3 = (Inr v'', s') \<and>
     (volume_view s' v'' 7 = None \<or> volume_view s' v'' = volume_view s v)"
proof -
  obtain v s where v: "vol_ok s v ((\<lambda>_. None)(7 \<mapsto> sample_needle))" "v_dir v = ''d''" "v_id v = 7"
    using sample_written by blast
  obtain r s' v' where run: "DeleteNeedle s v 7 = (r, s', v')" by (metis prod.collapse)
  from DeleteNeedle_crash_atomic [OF v(1) run, of "[]" 3] v run show ?thesis
    unfolding v(2,3) by (cases "isl r") fastforce+
qed

section \<open>Sequences of operations\<close>

text \<open>
  The life of a volume as a step relation: successful writes and deletes, failed ones that were
  rejected before the index was touched are covered by the crash theorems, and the process may
  be restarted between any two operations.
\<close>

datatype vol_op = VWrite Needle | VDelete NeedleId | VReopen

inductive vol_step :: "fsys \<times> Volume \<Rightarrow> vol_op \<Rightarrow> fsys \<times> Volume \<Rightarrow> bool" where
  vwrite: "needle_wf n \<Longrightarrow> UsedSize s v \<le> 2 ^ 35 - 8 \<Longrightarrow> WriteNeedle s v n = (Inr x, s', v', n') \<Longrightarrow>
    vol_step (s, v) (VWrite n) (s', v')"
| vdelete: "DeleteNeedle s v k = (Inr (), s', v') \<Longrightarrow> vol_step (s, v) (VDelete k) (s', v')"
| vreopen: "NewVolume s (v_dir v) (v_collection v) (v_id v) version = (Inr v', s') \<Longrightarrow>
    vol_step (s, v) VReopen (s', v')"

inductive_cases vol_step_writeE: "vol_step (s, v) (VWrite n) (s', v')"
inductive_cases vol_step_deleteE: "vol_step (s, v) (VDelete k) (s', v')"
inductive_cases vol_step_reopenE: "vol_step (s, v) VReopen (s', v')"

inductive vol_trace :: "fsys \<times> Volume \<Rightarrow> vol_op list \<Rightarrow> fsys \<times> Volume \<Rightarrow> bool" where
  nil: "vol_trace sv [] sv"
| snoc: "vol_trace sv ops sv1 \<Longrightarrow> vol_step sv1 op sv2 \<Longrightarrow> vol_trace sv (ops @ [op]) sv2"

fun vol_spec :: "vol_op \<Rightarrow> (NeedleId \<Rightarrow> Needle option) \<Rightarrow> NeedleId \<Rightarrow> Needle option" where
  "vol_spec (VWrite n) A = A(n_Id n \<mapsto> n)"
| "vol_spec (VDelete k) A = A(k := None)"
| "vol_spec VReopen A = A"

lemma vol_step_ok:
  assumes step: "vol_step (s, v) op (s', v')" and ok: "vol_ok s v A"
  shows "vol_ok s' v' (vol_spec op A) \<and> v_SuperBlock v' = v_SuperBlock v"
proof (cases op)
  case (VWrite n)
  with step obtain x n' where run: "WriteNeedle s v n = (Inr x, s', v', n')" "needle_wf n" "UsedSize s v \<le> 2 ^ 35 - 8"
    by (auto elim: vol_step_writeE)
  show ?thesis
    using WriteNeedle_outcome [OF ok run(2,3,1)] WriteNeedle_same [OF run(1)] VWrite
    by (cases x) (simp add: same_volume_def)
next
  case (VDelete k)
  with step have run: "DeleteNeedle s v k = (Inr (), s', v')" by (auto elim: vol_step_deleteE)
  show ?thesis
    using DeleteNeedle_outcome [OF ok run] DeleteNeedle_same [OF run] VDelete by (simp add: same_volume_def)
next
  case VReopen
  with step obtain version where run: "NewVolume s (v_dir v) (v_collection v) (v_id v) version = (Inr v', s')"
    by (auto elim: vol_step_reopenE)
  obtain w where "NewVolume s (v_dir v) (v_collection v) (v_id v) version = (Inr w, s)" "vol_ok s w A"
    "v_SuperBlock w = v_SuperBlock v" using NewVolume_vol_ok [OF ok] by metis
  then show ?thesis using run VReopen by simp
qed

lemma vol_trace_ok:
  "vol_trace sv ops sv' \<Longrightarrow> vol_ok (fst sv) (snd sv) A \<Longrightarrow>
   vol_ok (fst sv') (snd sv') (fold vol_spec ops A) \<and> v_SuperBlock (snd sv') = v_SuperBlock (snd sv)"
proof (induction rule: vol_trace.induct)
  case (snoc sv ops sv1 op sv2)
  then show ?case using vol_step_ok [of "fst sv1" "snd sv1" op "fst sv2" "snd sv2" "fold vol_spec ops A"] by simp
qed simp

text \<open>C1: a volume refines a map from ids to needles. From a consistent state, after any sequence of
  successful writes and deletes with restarts in between, the needles a client can read are
  exactly those of the map obtained by applying the same operations to it; cookies, data and
  metadata included.\<close>

theorem Volume_refines_map:
  assumes "vol_ok s v A" "vol_trace (s, v) ops (s', v')"
  shows "volume_view s' v' = (\<lambda>k. map_option (\<lambda>n. needle_view n (sb_Version (v_SuperBlock v))) (fold vol_spec ops A k))"
proof -
  have "vol_ok s' v' (fold vol_spec ops A)" "v_SuperBlock v' = v_SuperBlock v"
    using vol_trace_ok [OF assms(2), of A] assms(1) by simp_all
  then show ?thesis using volume_view_readable [of s' v'] by (simp add: vol_ok_def)
qed

theorem Volume_refines_map_witness:
  "\<exists>s v s' v'. vol_ok s v (\<lambda>_. None) \<and> vol_trace (s, v) [VWrite sample_needle] (s', v') \<and>
     volume_view s' v' 7 = Some (needle_view sample_needle 3)"
proof (rule sample_written)
  fix v s s' v' n' x
  assume v: "vol_ok s v (\<lambda>_. None)" "UsedSize s v \<le> 2 ^ 35 - 8"
    and run: "WriteNeedle s v sample_needle = (Inr x, s', v', n')" and ver: "sb_Version (v_SuperBlock v) = 3"
  have "vol_step (s, v) (VWrite sample_needle) (s', v')"
    by (rule vol_step.vwrite [OF sample_needle_wf v(2) run])
  then have tr: "vol_trace (s, v) [VWrite sample_needle] (s', v')"
    using vol_trace.snoc [OF vol_trace.nil] by fastforce
  have "n_Id sample_needle = 7" by (simp add: sample_needle_def SetName_def)
  then have "volume_view s' v' 7 = Some (needle_view sample_needle 3)"
    using Volume_refines_map [OF v(1) tr] ver by simp
  with v(1) tr show ?thesis by blast
qed

text \<open>C39: the cookie guards a needle. On a consistent volume \<open>ReadNeedleByFileId\<close> returns a needle
  exactly when that needle is stored under the id and was written with the cookie of the file
  id; a stored needle with another cookie is a cookie mismatch, never data.\<close>

theorem ReadNeedleByFileId_cookie:
  assumes "vol_ok s v A"
  shows "(\<forall>m. ReadNeedleByFileId s v fid = Inr m \<longleftrightarrow>
            (\<exists>n. A (fid_NeedleId fid) = Some n \<and> n_Cookie n = fid_Cookie fid \<and>
                 m = needle_view n (sb_Version (v_SuperBlock v)))) \<and>
         (ReadNeedleByFileId s v fid = Inl VolCookieMismatch \<longleftrightarrow>
            (\<exists>n. A (fid_NeedleId fid) = Some n \<and> n_Cookie n \<noteq> fid_Cookie fid))"
proof -
  have rd: "readable s v A" using assms by (simp add: vol_ok_def)
  then obtain db where db: "v_nm v = Some db" by (auto simp: readable_def)
  have cookie: "n_Cookie (needle_view n w) = n_Cookie n" for n w by (simp add: needle_view_def)
  show ?thesis
  proof (cases "A (fid_NeedleId fid)")
    case None
    then show ?thesis
      by (simp add: ReadNeedleByFileId_def GetNeedle_readable [OF rd] db)
  next
    case (Some n)
    then show ?thesis
      by (auto simp: ReadNeedleByFileId_def GetNeedle_readable [OF rd] cookie)
  qed
qed

theorem ReadNeedleByFileId_cookie_witness:
  "\<exists>s v. vol_ok s v ((\<lambda>_. None)(7 \<mapsto> sample_needle)) \<and>
     ReadNeedleByFileId s v \<lparr>fid_VolumeId = 7, fid_NeedleId = 7, fid_Cookie = 1\<rparr> = Inl VolCookieMismatch"
proof (rule sample_written)
  fix v s s' v' n' x
  assume v: "vol_ok s' v' ((\<lambda>_. None)(7 \<mapsto> sample_needle))"
  have "n_Cookie sample_needle \<noteq> 1" by (simp add: sample_needle_def SetName_def)
  then have "ReadNeedleByFileId s' v' \<lparr>fid_VolumeId = 7, fid_NeedleId = 7, fid_Cookie = 1\<rparr> = Inl VolCookieMismatch"
    using ReadNeedleByFileId_cookie [OF v, of "\<lparr>fid_VolumeId = 7, fid_NeedleId = 7, fid_Cookie = 1\<rparr>"] by simp
  with v show ?thesis by blast
qed

text \<open>A restart forgets the garbage: the ratio that triggers a compaction is zero after reopening,
  however much was deleted before.\<close>

lemma GarbageLevel_after_restart: "GarbageLevel (snd (LoadNeedleMap s p)) = 0"
  by (simp add: GarbageLevel_def LoadNeedleMap_deletedSize Let_def)

end
