(* ===== verification/CompactProps.thy ===== *)
theory CompactProps
  imports Compact VolumeTraces
begin

text \<open>
  Compaction keeps every live needle that has not expired: the loop over the index copies each
  record byte by byte, and the swap makes the copies the new volume.
\<close>

section \<open>A read needle encodes to the bytes it was read from\<close>

lemma HasFlags_view [simp]:
  "HasName (needle_view n w) = HasName n" "HasMime (needle_view n w) = HasMime n"
  "HasPairs (needle_view n w) = HasPairs n" "HasLastModified (needle_view n w) = HasLastModified n"
  "HasTtl (needle_view n w) = HasTtl n"
  by (simp_all add: needle_view_def HasName_def HasMime_def HasPairs_def HasLastModified_def HasTtl_def)

lemma needle_view_fields [simp]:
  "n_Id (needle_view n w) = n_Id n" "n_Cookie (needle_view n w) = n_Cookie n"
  "n_Data (needle_view n w) = n_Data n" "n_DataSize (needle_view n w) = n_DataSize n"
  by (simp_all add: needle_view_def)

lemma needle_encode_view: "needle_encode (needle_view n w) w = needle_encode n w"
proof -
  have b: "bodyBytes (needle_view n w) = bodyBytes n" by (rule bodyBytes_view)
  have crc: "needle_crc (needle_view n w) = needle_crc n" by (simp add: needle_crc_def b)
  have foot: "buildFooterBytes ((needle_view n w)\<lparr>n_Checksum := x\<rparr>) w = buildFooterBytes (n\<lparr>n_Checksum := x\<rparr>) w" for x
    by (simp add: buildFooterBytes_def needle_view_def)
  have raw: "needle_raw (needle_view n w) w = needle_raw n w"
    by (simp add: needle_raw_def needle_record_def crc foot b)
  show ?thesis by (simp add: needle_encode_def raw)
qed

lemma needle_wf_view: "needle_wf n \<Longrightarrow> needle_wf (needle_view n w)"
  by (simp add: needle_wf_def bodyBytes_view)
    (simp add: needle_view_def GetName_def GetMime_def GetPairs_def GetLastModified_def)

section \<open>The loop\<close>

definition compact_expired :: "u64 \<Rightarrow> NeedleVersion \<Rightarrow> Needle \<Rightarrow> bool" where
  "compact_expired now w n \<longleftrightarrow>
     IsExpired (needle_view n w) (n_AppendAtNs (needle_view n w) div 1000000000) now"

definition survivors :: "u64 \<Rightarrow> NeedleVersion \<Rightarrow> (NeedleId \<Rightarrow> Needle option) \<Rightarrow> NeedleId \<Rightarrow> Needle option" where
  "survivors now w A k =
     (case A k of None \<Rightarrow> None | Some n \<Rightarrow> if compact_expired now w n then None else Some n)"

text \<open>The temporary files during the loop: the copied records, and an index in step with them.\<close>

definition cinv ::
  "(string \<Rightarrow> bytes option) \<Rightarrow> Volume \<Rightarrow> SuperBlock \<Rightarrow> compact_state \<Rightarrow> (NeedleId \<Rightarrow> Needle option) \<Rightarrow> bool"
where
  "cinv F v sb st B \<longleftrightarrow>
     (\<exists>rest. fs_files (cs_fs st) (CompactDataName v) = Some (SuperBlock_Bytes sb @ rest) \<and>
        8 dvd length rest \<and> cs_offset st = 8 + length rest \<and>
        index_ok (SuperBlock_Bytes sb @ rest) (sb_Version (v_SuperBlock v)) (db_m (cs_db st)) B) \<and>
     f_name (cs_cpd st) = CompactDataName v \<and> \<not> f_append (cs_cpd st) \<and> f_pos (cs_cpd st) = cs_offset st \<and>
     idx_synced (cs_fs st) (cs_db st) (CompactIndexName v) \<and> nm_stats (cs_db st) \<and>
     (\<forall>p. p \<noteq> CompactDataName v \<longrightarrow> p \<noteq> CompactIndexName v \<longrightarrow> fs_files (cs_fs st) p = F p)"

lemma compact_names [simp]:
  "CompactDataName v \<noteq> CompactIndexName v" "CompactIndexName v \<noteq> CompactDataName v"
  "DataFileName (v_dir v) (v_id v) \<noteq> CompactDataName v" "DataFileName (v_dir v) (v_id v) \<noteq> CompactIndexName v"
  "IndexFileName (v_dir v) (v_id v) \<noteq> CompactDataName v" "IndexFileName (v_dir v) (v_id v) \<noteq> CompactIndexName v"
  "CompactDataName v \<noteq> DataFileName (v_dir v) (v_id v)" "CompactIndexName v \<noteq> DataFileName (v_dir v) (v_id v)"
  "CompactDataName v \<noteq> IndexFileName (v_dir v) (v_id v)" "CompactIndexName v \<noteq> IndexFileName (v_dir v) (v_id v)"
  by (simp_all add: CompactDataName_def CompactIndexName_def DataFileName_def IndexFileName_def filepath_Join_def)

lemma cinv_result [simp]: "cinv F v sb (st\<lparr>cs_result := r\<rparr>) B = cinv F v sb st B"
  by (simp add: cinv_def)

text \<open>Writing one needle and entering it into the temporary index.\<close>

lemma compact_copy:
  assumes inv: "cinv F v sb st B" and wf: "needle_wf n" and m: "m = needle_view n (sb_Version (v_SuperBlock v))"
    and wr: "WriteTo file_write (cs_fs st, cs_cpd st) m (sb_Version (v_SuperBlock v)) = (Inr written, (s1, f1), m')"
    and put: "MemDb_Put s1 (cs_db st) (n_Id n) (ToEncoded (int (cs_offset st))) (of_nat written) = (Inr (), s2, db)"
    and fits: "cs_offset st + written \<le> 2 ^ 35"
  shows "cinv F v sb (st\<lparr>cs_fs := s2, cs_cpd := f1, cs_db := db, cs_offset := cs_offset st + written\<rparr>) (B(n_Id n \<mapsto> n))"
proof -
  let ?cpd = "CompactDataName v" and ?cpx = "CompactIndexName v" and ?w = "sb_Version (v_SuperBlock v)"
  obtain rest where c: "fs_files (cs_fs st) ?cpd = Some (SuperBlock_Bytes sb @ rest)" and al: "8 dvd length rest"
    and off: "cs_offset st = 8 + length rest"
    and ix: "index_ok (SuperBlock_Bytes sb @ rest) ?w (db_m (cs_db st)) B"
    and f: "f_name (cs_cpd st) = ?cpd" "\<not> f_append (cs_cpd st)" "f_pos (cs_cpd st) = cs_offset st"
    and sync: "idx_synced (cs_fs st) (cs_db st) ?cpx" and st: "nm_stats (cs_db st)"
    and F: "\<And>p. p \<noteq> ?cpd \<Longrightarrow> p \<noteq> ?cpx \<Longrightarrow> fs_files (cs_fs st) p = F p" using inv by (auto simp: cinv_def)
  define enc where "enc = needle_encode n ?w"
  have wfm: "needle_wf m" and em: "needle_encode m ?w = enc"
    by (simp_all add: m needle_wf_view wf needle_encode_view enc_def)
  have e: "at_end (fs_files (cs_fs st)) (cs_cpd st) (cs_fs st, cs_cpd st)"
    using c f off by (simp add: at_end_def file_content_def)
  have out: "at_end (fs_files (cs_fs st)) (cs_cpd st) (s1, f1)" "written = length enc"
    "file_content (s1, f1) = (SuperBlock_Bytes sb @ rest) @ enc"
    using osfile.WriteTo_outcome [OF wfm e wr] c f by (simp_all add: em file_content_def)
  note fl = at_end_files [OF out(1) f(1)]
  have c1: "fs_files s1 ?cpd = Some (SuperBlock_Bytes sb @ rest @ enc)" using fl(1) out(3) by simp
  have sync1: "idx_synced s1 (cs_db st) ?cpx" using idx_synced_frame [OF sync fl(2)] by simp
  note po = MemDb_Put_outcome [OF sync1 put]
  let ?e = "\<lparr>nvl_offset = ToEncoded (int (cs_offset st)), nvl_size = of_nat written\<rparr>"
  have "20 \<le> length enc" using length_needle_encode_bounds(1) [of n ?w] by (simp add: enc_def)
  then have "cs_offset st < 2 ^ 35" "8 dvd cs_offset st" using fits out(2) off al by auto
  then have "ToActualOffset (ToEncoded (int (cs_offset st))) = int (cs_offset st)" by (simp add: ToActual_ToEncoded)
  then have new: "holds (SuperBlock_Bytes sb @ rest @ enc) ?w ?e n"
    unfolding holds_def using wf off out(2)
    by (intro conjI exI [of _ "SuperBlock_Bytes sb @ rest"] exI [of _ "[]"]) (simp_all add: enc_def)
  have "index_ok (SuperBlock_Bytes sb @ rest @ enc) ?w (db_m (cs_db st)) B"
    using index_ok_append [OF ix, of enc] by simp
  then have ix': "index_ok (SuperBlock_Bytes sb @ rest @ enc) ?w (db_m db) (B(n_Id n \<mapsto> n))"
    unfolding po(1) by (rule index_ok_put) (rule new)
  have "8 dvd length (rest @ enc)" using al needle_encode_aligned [of n ?w] by (simp add: enc_def)
  moreover have "f_pos f1 = length (SuperBlock_Bytes sb @ rest @ enc)"
    using out f by (auto simp: at_end_def)
  ultimately show ?thesis
    using c1 ix' po(2,3) nm_stats_Put [OF st put] fl F off out(2) f(2)
    by (auto simp: cinv_def intro!: exI [of _ "rest @ enc"])
qed

lemma compact_needle_step:
  assumes inv: "cinv F v sb st B" and n: "needle_wf n" "n_Id n = k" "A k = Some n" and B: "B k = None"
    and run: "compact_needle w now k (needle_view n w) st = (Inr (), st')" and w: "w = sb_Version (v_SuperBlock v)"
    and fits: "cs_offset st' \<le> 2 ^ 35"
  shows "cinv F v sb st' (B(k := survivors now w A k)) \<and> cs_offset st \<le> cs_offset st'"
proof (cases "compact_expired now w n")
  case True
  then have "survivors now w A k = None" "B(k := None) = B" using n B by (auto simp: survivors_def)
  then show ?thesis
    using True run inv by (auto simp: compact_needle_def compact_expired_def)
next
  case False
  then have sv: "survivors now w A k = Some n" using n by (simp add: survivors_def)
  let ?m = "needle_view n w"
  have ne: "\<not> IsExpired ?m (n_AppendAtNs ?m div 1000000000) now" using False by (simp add: compact_expired_def)
  obtain r s1 f1 m' where wr: "WriteTo file_write (cs_fs st, cs_cpd st) ?m w = (r, (s1, f1), m')"
    by (metis prod.collapse)
  obtain written where r: "r = Inr written"
    using run ne wr by (cases r) (auto simp: compact_needle_def)
  obtain r2 s2 db where put: "MemDb_Put s1 (cs_db st) k (ToEncoded (int (cs_offset st))) (of_nat written) = (r2, s2, db)"
    by (metis prod.collapse)
  have r2: "r2 = Inr ()" and st': "st' = st\<lparr>cs_fs := s2, cs_cpd := f1, cs_db := db, cs_offset := cs_offset st + written,
      cs_result := (cs_result st)\<lparr>cr_NeedlesWritten := cr_NeedlesWritten (cs_result st) + 1\<rparr>\<rparr>"
    using run ne wr r put by (auto simp: compact_needle_def split: sum.splits)
  have "cinv F v sb (st\<lparr>cs_fs := s2, cs_cpd := f1, cs_db := db, cs_offset := cs_offset st + written\<rparr>) (B(n_Id n \<mapsto> n))"
    by (rule compact_copy [OF inv n(1)]) (use wr put r r2 w n(2) fits st' in auto)
  then show ?thesis by (simp add: st' sv n(2))
qed

lemma compact_entry_step:
  assumes inv: "cinv F v sb st B" and vf: "vol_files s v c" and F: "F (DataFileName (v_dir v) (v_id v)) = Some c"
    and en: "entry_ok c (sb_Version (v_SuperBlock v)) k (Some e) (A k)" and B: "B k = None"
    and run: "compact_entry v now (k, nvl_offset e, nvl_size e) st = (Inr (), st')"
    and fits: "cs_offset st' \<le> 2 ^ 35"
  shows "cinv F v sb st' (B(k := survivors now (sb_Version (v_SuperBlock v)) A k)) \<and> cs_offset st \<le> cs_offset st'"
proof (cases "needleValue_isDeleted e")
  case True
  then have "survivors now (sb_Version (v_SuperBlock v)) A k = None" "B(k := None) = B"
    using en B by (auto simp: survivors_def)
  then show ?thesis
    using True run inv by (auto simp: compact_entry_def needleValue_isDeleted_def)
next
  case False
  let ?w = "sb_Version (v_SuperBlock v)"
  obtain n where n: "A k = Some n" "n_Id n = k" and h: "holds c ?w e n"
    using en False by (auto simp: entry_ok_live)
  have dat: "Option.bind (v_dataFile v) (\<lambda>f. fs_files (cs_fs st) (f_name f)) = Some c"
    using vf inv F by (auto simp: vol_files_def cinv_def)
  define st1 where "st1 = st\<lparr>cs_result := (cs_result st)\<lparr>cr_NeedlesRead := cr_NeedlesRead (cs_result st) + 1\<rparr>\<rparr>"
  have inv1: "cinv F v sb st1 B" using inv by (simp add: st1_def)
  have "read_at_location (cs_fs st1) v (nvl_offset e) (nvl_size e) ?w = Inr (needle_view n ?w)"
    using holds_read [OF h] by (simp add: read_at_location_def st1_def dat)
  then have "compact_needle ?w now k (needle_view n ?w) st1 = (Inr (), st')"
    using run False unfolding compact_entry_def prod.case st1_def [symmetric] Let_def
    by (simp add: needleValue_isDeleted_def)
  then have "cinv F v sb st' (B(k := survivors now ?w A k)) \<and> cs_offset st1 \<le> cs_offset st'"
    using compact_needle_step [where A = A and B = B and k = k and n = n] inv1 n B fits h
    by (simp add: holds_def)
  then show ?thesis by (simp add: st1_def)
qed

lemma compact_offset_mono:
  "compact_entry v now e st = (r, st') \<Longrightarrow> cs_offset st \<le> cs_offset st'"
  "compact_loop v now es st = (r, st') \<Longrightarrow> cs_offset st \<le> cs_offset st'"
proof -
  have needle: "compact_needle w now k n st = (r, st') \<Longrightarrow> cs_offset st \<le> cs_offset st'" for w k n st r st'
    by (auto simp: compact_needle_def split: if_splits prod.splits sum.splits)
  have entry: "compact_entry v now e st = (r, st') \<Longrightarrow> cs_offset st \<le> cs_offset st'" for e st r st'
    by (auto simp: compact_entry_def Let_def dest: needle split: if_splits prod.splits sum.splits)
  then show "compact_entry v now e st = (r, st') \<Longrightarrow> cs_offset st \<le> cs_offset st'" .
  show "compact_loop v now es st = (r, st') \<Longrightarrow> cs_offset st \<le> cs_offset st'"
  proof (induction es arbitrary: st)
    case (Cons e es)
    obtain r1 st1 where 1: "compact_entry v now e st = (r1, st1)" by fastforce
    then show ?case using Cons entry [OF 1] by (cases r1) fastforce+
  qed simp
qed

lemma compact_loop_step:
  assumes vf: "vol_files s v c" and F: "F (DataFileName (v_dir v) (v_id v)) = Some c"
    and ix: "index_ok c (sb_Version (v_SuperBlock v)) (db_m nm) A"
  shows "cinv F v sb st B \<Longrightarrow> distinct ks \<Longrightarrow> (\<And>k. k \<in> set ks \<Longrightarrow> B k = None) \<Longrightarrow>
    compact_loop v now (MemDb_Iterate ks nm) st = (Inr (), st') \<Longrightarrow> cs_offset st' \<le> 2 ^ 35 \<Longrightarrow>
    cinv F v sb st' (\<lambda>k. if k \<in> set ks then survivors now (sb_Version (v_SuperBlock v)) A k else B k)"
proof (induction ks arbitrary: st B)
  case (Cons k ks)
  let ?S = "survivors now (sb_Version (v_SuperBlock v)) A"
  have en: "entry_ok c (sb_Version (v_SuperBlock v)) k (db_m nm k) (A k)" by (rule index_okD [OF ix])
  show ?case
  proof (cases "db_m nm k")
    case None
    then have "?S k = None" using en by (simp add: survivors_def)
    moreover have "cinv F v sb st' (\<lambda>k. if k \<in> set ks then ?S k else B k)"
      using Cons.IH [of st B] Cons.prems None by simp
    moreover have "(\<lambda>j. if j \<in> set (k # ks) then ?S j else B j) = (\<lambda>k. if k \<in> set ks then ?S k else B k)"
      using calculation(1) Cons.prems(3) [of k] by auto
    ultimately show ?thesis by simp
  next
    case (Some e)
    obtain r1 st1 where 1: "compact_entry v now (k, nvl_offset e, nvl_size e) st = (r1, st1)" by fastforce
    then have r1: "r1 = Inr ()" and rest: "compact_loop v now (MemDb_Iterate ks nm) st1 = (Inr (), st')"
      using Cons.prems(4) Some by (auto split: sum.splits)
    have "cs_offset st1 \<le> 2 ^ 35" using compact_offset_mono(2) [OF rest] Cons.prems(5) by simp
    then have "cinv F v sb st1 (B(k := ?S k))"
      using compact_entry_step [where A = A and B = B and k = k and e = e] Cons.prems(1,3) vf F en Some 1 r1 by simp
    then have "cinv F v sb st' (\<lambda>j. if j \<in> set ks then ?S j else (B(k := ?S k)) j)"
    proof (rule Cons.IH)
      show "distinct ks" "\<And>j. j \<in> set ks \<Longrightarrow> (B(k := ?S k)) j = None" using Cons.prems(2,3) by auto
    qed (use Cons.prems(5) rest in simp_all)
    moreover have "(\<lambda>j. if j \<in> set ks then ?S j else (B(k := ?S k)) j) = (\<lambda>j. if j \<in> set (k # ks) then ?S j else B j)"
      by auto
    ultimately show ?thesis by simp
  qed
qed simp

lemma compact_loop_names:
  "compact_loop v now es st = (r, st') \<Longrightarrow>
   cr_TempDataFile (cs_result st') = cr_TempDataFile (cs_result st) \<and>
   cr_TempIndexFile (cs_result st') = cr_TempIndexFile (cs_result st)"
proof (induction es arbitrary: st)
  case (Cons e es)
  obtain r1 st1 where 1: "compact_entry v now e st = (r1, st1)" by fastforce
  then have "cr_TempDataFile (cs_result st1) = cr_TempDataFile (cs_result st) \<and>
      cr_TempIndexFile (cs_result st1) = cr_TempIndexFile (cs_result st)"
    by (auto simp: compact_entry_def compact_needle_def Let_def split: if_splits prod.splits sum.splits)
  then show ?case using Cons 1 by (cases r1) auto
qed simp

section \<open>The whole compaction\<close>

definition bump_revision :: "SuperBlock \<Rightarrow> SuperBlock" where
  "bump_revision sb = sb\<lparr>sb_CompactionRevision := sb_CompactionRevision sb + 1\<rparr>"

lemma Compact_success:
  assumes ok: "vol_ok s v A" and nm: "v_nm v = Some nm" and order: "distinct order" "dom (db_m nm) \<subseteq> set order"
    and run: "Compact order now s v threshold = (Inr result, s')" and fits: "cr_CompactedSize result \<le> 2 ^ 35"
  obtains st where "cinv (fs_files s) v (bump_revision (v_SuperBlock v)) st (survivors now (sb_Version (v_SuperBlock v)) A)"
    "cs_fs st = s'" "cr_TempDataFile result = CompactDataName v" "cr_TempIndexFile result = CompactIndexName v"
    "cr_CompactedSize result = cs_offset st"
proof -
  let ?cpd = "CompactDataName v" and ?cpx = "CompactIndexName v" and ?w = "sb_Version (v_SuperBlock v)"
    and ?sb = "bump_revision (v_SuperBlock v)" and ?S = "survivors now (sb_Version (v_SuperBlock v)) A"
  obtain c where vf: "vol_files s v c" and ix: "index_ok c ?w (db_m nm) A"
    using ok nm by (auto simp: vol_ok_def readable_def)
  define s0 where "s0 = os_Remove (os_Remove s ?cpd) ?cpx"
  define f where "f = \<lparr>f_name = ?cpd, f_pos = 0, f_append = False\<rparr>"
  define res where "res = \<lparr>cr_OriginalSize = UsedSize s0 v, cr_CompactedSize = 0, cr_NeedlesRead = 0,
    cr_NeedlesWritten = 0, cr_NeedlesDeleted = 0, cr_NeedlesExpired = 0, cr_TempDataFile = ?cpd, cr_TempIndexFile = ?cpx\<rparr>"
  obtain s2 okw where w: "WriteSuperBlock (fst (os_Create s0 ?cpd)) f ?sb = (s2, okw)" by fastforce
  define st0 where "st0 = \<lparr>cs_fs = fst (os_Create s2 ?cpx), cs_cpd = seek_set f SuperBlockSize,
    cs_db = NewMemDb\<lparr>db_file := Some \<lparr>f_name = ?cpx, f_pos = 0, f_append = False\<rparr>\<rparr>, cs_offset = SuperBlockSize, cs_result = res\<rparr>"
  obtain r st where loop: "compact_loop v now (MemDb_Iterate order nm) st0 = (r, st)" by fastforce
  have okw: "okw" and r: "r = Inr ()" and out: "result = (cs_result st)\<lparr>cr_CompactedSize := cs_offset st\<rparr>" "s' = cs_fs st"
    using run nm w loop unfolding Compact_def Let_def option.case os_Create_def s0_def [symmetric] res_def [symmetric]
      f_def [symmetric] prod.case bump_revision_def [symmetric]
    by (auto simp: os_Create_def st0_def f_def split: if_splits bool.splits sum.splits)
  have s2: "fs_files s2 = (fs_files s)(?cpx := None, ?cpd \<mapsto> SuperBlock_Bytes ?sb)"
    using w okw by (auto simp: WriteSuperBlock_def file_write_at_def write_at_def os_Create_def s0_def os_Remove_def
        splice_def f_def Let_def fun_eq_iff)
  have inv0: "cinv (fs_files s) v ?sb st0 (\<lambda>_. None)"
    by (auto simp: cinv_def st0_def os_Create_def s2 seek_set_def f_def SuperBlockSize_def index_ok_iff NewMemDb_def
        idx_synced_def idx_open_def at_end_def file_content_def idx_map_def nm_stats_def map_sum_def)
  have res: "cr_TempDataFile (cs_result st) = ?cpd" "cr_TempIndexFile (cs_result st) = ?cpx"
    using compact_loop_names [OF loop] by (simp_all add: st0_def res_def)
  have F: "fs_files s (DataFileName (v_dir v) (v_id v)) = Some c" using vf by (simp add: vol_files_def)
  have "cs_offset st \<le> 2 ^ 35" using fits out by simp
  then have "cinv (fs_files s) v ?sb st (\<lambda>k. if k \<in> set order then ?S k else None)"
    using compact_loop_step [OF vf F ix inv0 order(1) _ loop [unfolded r]] by simp
  moreover have "(\<lambda>k. if k \<in> set order then ?S k else None) = ?S"
  proof
    fix k
    have "k \<notin> set order \<Longrightarrow> A k = None" using index_okD [OF ix, of k] order(2) by (cases "db_m nm k") auto
    then show "(if k \<in> set order then ?S k else None) = ?S k" by (simp add: survivors_def)
  qed
  ultimately show ?thesis using that [of st] out res by simp
qed

lemma CommitCompact_success:
  assumes inv: "cinv F v sb st B" and fits: "placement_fits (sb_ReplicaPlacement sb)"
    and ver: "sb_Version sb = sb_Version (v_SuperBlock v)"
    and names: "cr_TempDataFile result = CompactDataName v" "cr_TempIndexFile result = CompactIndexName v"
  obtains s' v' where "CommitCompact (cs_fs st) v result = (Inr (), s', v')" "vol_ok s' v' B"
    "v_SuperBlock v' = sb" "v_id v' = v_id v" "v_dir v' = v_dir v"
proof -
  let ?dat = "DataFileName (v_dir v) (v_id v)" and ?idx = "IndexFileName (v_dir v) (v_id v)"
    and ?cpd = "CompactDataName v" and ?cpx = "CompactIndexName v" and ?s = "cs_fs st"
  obtain rest i where c: "fs_files ?s ?cpd = Some (SuperBlock_Bytes sb @ rest)"
    and ix: "index_ok (SuperBlock_Bytes sb @ rest) (sb_Version sb) (db_m (cs_db st)) B"
    and i: "fs_files ?s ?cpx = Some i" "16 dvd length i" "idx_map i = db_m (cs_db st)"
    using inv by (auto simp: cinv_def idx_synced_def ver)
  define s1 where "s1 = ?s\<lparr>fs_files := (fs_files ?s)(?cpd := None, ?dat \<mapsto> SuperBlock_Bytes sb @ rest)\<rparr>"
  define s2 where "s2 = s1\<lparr>fs_files := (fs_files s1)(?cpx := None, ?idx \<mapsto> i)\<rparr>"
  define db where "db = (load_entries i NewMemDb)\<lparr>db_file := Some \<lparr>f_name = ?idx, f_pos = 0, f_append = True\<rparr>\<rparr>"
  let ?f = "\<lparr>f_name = ?dat, f_pos = 0, f_append = False\<rparr>"
  define v' where "v' = v\<lparr>v_nm := Some db, v_dataFile := Some (?f\<lparr>f_pos := 8\<rparr>), v_noWriteOrDelete := False, v_SuperBlock := sb\<rparr>"
  have f2: "fs_files s2 ?dat = Some (SuperBlock_Bytes sb @ rest)" "fs_files s2 ?idx = Some i"
    by (simp_all add: s2_def s1_def)
  have "os_Rename ?s ?cpd ?dat = Some s1" "os_Rename s1 ?cpx ?idx = Some s2"
    using c i by (simp_all add: os_Rename_def s1_def s2_def)
  moreover have "open_existing s2 ?dat = Some ?f" by (simp add: open_existing_def fs_exists_def f2)
  moreover have "ReadSuperBlock s2 ?f = (Inr sb, ?f\<lparr>f_pos := 8\<rparr>)"
    by (rule ReadSuperBlock_prefix) (use f2 fits in simp_all)
  moreover have "OpenIndexFile s2 (MemDb_Load s2 NewMemDb ?idx) ?idx = (s2, db)"
    by (simp add: OpenIndexFile_def open_create_def fs_exists_def MemDb_Load_def f2 db_def)
  ultimately have run: "CommitCompact ?s v result = (Inr (), s2, v')"
    by (simp add: CommitCompact_def names v'_def)
  have "readable s2 v' B"
    using f2 fits ix i by (auto simp: readable_def vol_files_def v'_def db_def idx_map_def)
  moreover have "idx_synced s2 db ?idx" "nm_stats db"
    using f2 i by (auto simp: idx_synced_def idx_open_def at_end_def db_def idx_map_def nm_stats_load)
  ultimately have "vol_ok s2 v' B" by (simp add: vol_ok_def v'_def)
  then show ?thesis using that [OF run] by (simp add: v'_def)
qed

lemma vol_ok_placement: "vol_ok s v A \<Longrightarrow> placement_fits (sb_ReplicaPlacement (v_SuperBlock v))"
  by (auto simp: vol_ok_def readable_def vol_files_def)

text \<open>C4: compaction loses nothing. When \<open>Compact\<close> has built its temporary files, the swap succeeds,
  whatever order the index is iterated in, and the volume shows exactly the needles it showed
  before, without those whose time to live has passed; it is again a consistent volume, and its
  compaction revision went up by one.\<close>

theorem CompactVolume_preserves:
  assumes ok: "vol_ok s v A" and nm: "v_nm v = Some nm"
    and order: "distinct order" "dom (db_m nm) \<subseteq> set order"
    and run: "Compact order now s v threshold = (Inr result, s1)" and fits: "cr_CompactedSize result \<le> 2 ^ 35"
  shows "\<exists>s' v'. CompactVolume order now s v threshold = (Inr result, s', v') \<and>
     vol_ok s' v' (survivors now (sb_Version (v_SuperBlock v)) A) \<and>
     v_SuperBlock v' = bump_revision (v_SuperBlock v) \<and>
     volume_view s' v' = (\<lambda>k. case A k of
        None \<Rightarrow> None
      | Some n \<Rightarrow> if compact_expired now (sb_Version (v_SuperBlock v)) n then None else volume_view s v k)"
proof -
  let ?w = "sb_Version (v_SuperBlock v)" and ?sb = "bump_revision (v_SuperBlock v)"
  obtain st where st: "cinv (fs_files s) v ?sb st (survivors now ?w A)" "cs_fs st = s1"
    "cr_TempDataFile result = CompactDataName v" "cr_TempIndexFile result = CompactIndexName v"
    using Compact_success [OF ok nm order run fits] by blast
  have sb: "placement_fits (sb_ReplicaPlacement ?sb)" "sb_Version ?sb = ?w"
    using vol_ok_placement [OF ok] by (simp_all add: bump_revision_def)
  obtain s' v' where c: "CommitCompact s1 v result = (Inr (), s', v')" "vol_ok s' v' (survivors now ?w A)"
    "v_SuperBlock v' = ?sb"
    using CommitCompact_success [OF st(1) sb st(3,4)] st(2) by metis
  have "CompactVolume order now s v threshold = (Inr result, s', v')"
    using run c(1) by (simp add: CompactVolume_def)
  moreover have "volume_view s' v' = (\<lambda>k. case A k of
        None \<Rightarrow> None | Some n \<Rightarrow> if compact_expired now ?w n then None else volume_view s v k)"
    using volume_view_readable [of s' v' "survivors now ?w A"] volume_view_readable [of s v A] c ok sb(2)
    by (auto simp: vol_ok_def survivors_def fun_eq_iff split: option.splits)
  ultimately show ?thesis using c by blast
qed

section \<open>A compaction that runs\<close>

lemma vol_ok_room [simp]: "vol_ok (s\<lparr>fs_room := r\<rparr>) v A = vol_ok s v A"
  by (simp add: vol_ok_def readable_def vol_files_def idx_synced_def idx_open_def at_end_def file_content_def)

lemma compact_needle_fits:
  assumes inv: "cinv F v sb st B" and wf: "needle_wf n" and w: "w = sb_Version (v_SuperBlock v)"
    and room: "length (needle_encode n w) + 16 \<le> fs_room (cs_fs st)"
  shows "\<exists>st'. compact_needle w now k (needle_view n w) st = (Inr (), st') \<and>
    cs_offset st' \<le> cs_offset st + length (needle_encode n w)"
proof (cases "compact_expired now w n")
  case True
  then show ?thesis by (simp add: compact_needle_def compact_expired_def)
next
  case False
  let ?m = "needle_view n w"
  obtain rest where c: "fs_files (cs_fs st) (CompactDataName v) = Some (SuperBlock_Bytes sb @ rest)"
    "cs_offset st = 8 + length rest"
    and f: "f_name (cs_cpd st) = CompactDataName v" "\<not> f_append (cs_cpd st)" "f_pos (cs_cpd st) = cs_offset st"
    and sync: "idx_synced (cs_fs st) (cs_db st) (CompactIndexName v)" using inv by (auto simp: cinv_def)
  have e: "at_end (fs_files (cs_fs st)) (cs_cpd st) (cs_fs st, cs_cpd st)"
    using c f by (simp add: at_end_def file_content_def)
  obtain r s1 f1 m' where wr: "WriteTo file_write (cs_fs st, cs_cpd st) ?m w = (r, (s1, f1), m')"
    by (metis prod.collapse)
  have r: "r = Inr (length (needle_encode n w))" "fs_room s1 = fs_room (cs_fs st) - length (needle_encode n w)"
    using osfile_room.WriteTo_fits [OF needle_wf_view [OF wf] e _ wr] room by (simp_all add: needle_encode_view)
  have "at_end (fs_files (cs_fs st)) (cs_cpd st) (s1, f1)"
    using osfile.WriteTo_outcome [OF needle_wf_view [OF wf] e wr] by simp
  note fl = at_end_files [OF this f(1)]
  have sync1: "idx_synced s1 (cs_db st) (CompactIndexName v)" using idx_synced_frame [OF sync fl(2)] by simp
  have "fst (MemDb_Put s1 (cs_db st) k off z) = Inr ()" for off z
    using sync1 r(2) room
    by (auto simp: MemDb_Put_def Let_def idx_synced_def idx_open_def intro!: appendEntry_fits)
  then obtain s2 db where "MemDb_Put s1 (cs_db st) k (ToEncoded (int (cs_offset st)))
      (of_nat (length (needle_encode n w))) = (Inr (), s2, db)" by (metis prod.collapse)
  then show ?thesis using False wr r by (simp add: compact_needle_def compact_expired_def)
qed

lemma Compact_fits_one:
  assumes ok: "vol_ok s v A" and nm: "v_nm v = Some nm" "db_m nm = (\<lambda>_. None)(k \<mapsto> e)" and A: "A k = Some n"
    and thr: "threshold \<le> GarbageLevel nm" and room: "length (needle_encode n (sb_Version (v_SuperBlock v))) + 24 \<le> fs_room s"
  shows "\<exists>result s1. Compact [k] now s v threshold = (Inr result, s1) \<and>
    cr_CompactedSize result \<le> 8 + length (needle_encode n (sb_Version (v_SuperBlock v)))"
proof -
  let ?cpd = "CompactDataName v" and ?cpx = "CompactIndexName v" and ?w = "sb_Version (v_SuperBlock v)"
    and ?sb = "bump_revision (v_SuperBlock v)"
  obtain c where vf: "vol_files s v c" and ix: "index_ok c ?w (db_m nm) A"
    using ok nm by (auto simp: vol_ok_def readable_def)
  have h: "holds c ?w e n" "n_Id n = k" "\<not> needleValue_isDeleted e"
    using index_okD [OF ix, of k] A nm(2) holds_not_deleted by (auto simp: entry_ok_def split: if_splits)
  define s0 where "s0 = os_Remove (os_Remove s ?cpd) ?cpx"
  define s1 where "s1 = fst (WriteSuperBlock (fst (os_Create s0 ?cpd)) \<lparr>f_name = ?cpd, f_pos = 0, f_append = False\<rparr> ?sb)"
  define s2 where "s2 = fst (os_Create s1 ?cpx)"
  define res where "res = \<lparr>cr_OriginalSize = UsedSize (os_Remove (os_Remove s ?cpd) ?cpx) v, cr_CompactedSize = 0, cr_NeedlesRead = 0,
    cr_NeedlesWritten = 0, cr_NeedlesDeleted = 0, cr_NeedlesExpired = 0, cr_TempDataFile = ?cpd, cr_TempIndexFile = ?cpx\<rparr>"
  define st where "st = \<lparr>cs_fs = s2, cs_cpd = \<lparr>f_name = ?cpd, f_pos = 8, f_append = False\<rparr>,
    cs_db = NewMemDb\<lparr>db_file := Some \<lparr>f_name = ?cpx, f_pos = 0, f_append = False\<rparr>\<rparr>, cs_offset = 8, cs_result = res\<rparr>"
  have code: "Compact [k] now s v threshold =
      (case compact_loop v now [(k, nvl_offset e, nvl_size e)] st of
         (Inl er, st) \<Rightarrow> (Inl er, cs_fs st)
       | (Inr _, st) \<Rightarrow> (Inr ((cs_result st)\<lparr>cr_CompactedSize := cs_offset st\<rparr>), cs_fs st))"
  proof -
    have "WriteSuperBlock (fst (os_Create s0 ?cpd)) \<lparr>f_name = ?cpd, f_pos = 0, f_append = False\<rparr> ?sb = (s1, True)"
      using room by (simp add: s1_def WriteSuperBlock_def file_write_at_def write_at_def os_Create_def s0_def os_Remove_def)
    then show ?thesis
      using nm thr unfolding Compact_def Let_def option.case os_Create_def s0_def [symmetric] bump_revision_def [symmetric] prod.case
      by (simp add: s2_def os_Create_def st_def res_def s0_def [symmetric] seek_set_def SuperBlockSize_def)
  qed
  have fs2: "fs_files s2 = (fs_files s)(?cpd \<mapsto> SuperBlock_Bytes ?sb, ?cpx \<mapsto> [])" "fs_room s2 = fs_room s - 8"
    using room by (auto simp: s2_def s1_def s0_def WriteSuperBlock_def file_write_at_def write_at_def os_Create_def
        os_Remove_def splice_def Let_def fun_eq_iff)
  have inv: "cinv (fs_files s) v ?sb st (\<lambda>_. None)"
    by (auto simp: cinv_def st_def fs2 index_ok_iff NewMemDb_def idx_synced_def idx_open_def at_end_def
        file_content_def idx_map_def nm_stats_def map_sum_def)
  define st1 where "st1 = st\<lparr>cs_result := (cs_result st)\<lparr>cr_NeedlesRead := cr_NeedlesRead (cs_result st) + 1\<rparr>\<rparr>"
  have inv1: "cinv (fs_files s) v ?sb st1 (\<lambda>_. None)" using inv by (simp add: st1_def)
  have "Option.bind (v_dataFile v) (\<lambda>f. fs_files (cs_fs st1) (f_name f)) = Some c"
    using vf by (auto simp: vol_files_def st1_def st_def fs2)
  then have "read_at_location (cs_fs st1) v (nvl_offset e) (nvl_size e) ?w = Inr (needle_view n ?w)"
    using holds_read [OF h(1)] by (simp add: read_at_location_def)
  then have entry: "compact_entry v now (k, nvl_offset e, nvl_size e) st = compact_needle ?w now k (needle_view n ?w) st1"
    using h(3) unfolding compact_entry_def prod.case st1_def [symmetric] Let_def by (simp add: needleValue_isDeleted_def)
  have "needle_wf n" using h(1) by (simp add: holds_def)
  then obtain st' where "compact_needle ?w now k (needle_view n ?w) st1 = (Inr (), st')"
    "cs_offset st' \<le> 8 + length (needle_encode n ?w)"
    using compact_needle_fits [OF inv1 _ refl] room by (fastforce simp: st1_def st_def fs2)
  then show ?thesis using entry by (simp add: code)
qed

theorem CompactVolume_preserves_witness:
  "\<exists>s v nm k result s1 s' v'. vol_ok s v ((\<lambda>_. None)(7 \<mapsto> sample_needle)) \<and> v_nm v = Some nm \<and>
     Compact [k] 0 s v 0 = (Inr result, s1) \<and> CompactVolume [k] 0 s v 0 = (Inr result, s', v') \<and>
     volume_view s' v' 7 = Some (needle_view sample_needle 3)"
proof (rule sample_written)
  fix v0 s0 s v n' x
  assume ok: "vol_ok s v ((\<lambda>_. None)(7 \<mapsto> sample_needle))" and ver: "sb_Version (v_SuperBlock v) = 3"
    and m: "\<exists>j e. map_option db_m (v_nm v) = Some ((\<lambda>_. None)(j \<mapsto> e))"
  define t where "t = s\<lparr>fs_room := 1000\<rparr>"
  have ok': "vol_ok t v ((\<lambda>_. None)(7 \<mapsto> sample_needle))" using ok by (simp add: t_def)
  obtain nm j e where nm: "v_nm v = Some nm" "db_m nm = (\<lambda>_. None)(j \<mapsto> e)" using m by auto
  have "j = 7" using ok nm by (auto simp: vol_ok_def readable_def index_ok_iff split: if_splits dest!: spec [of _ 7])
  have "GarbageLevel nm \<ge> 0" by (simp add: GarbageLevel_def Let_def del: of_nat_unat)
  then obtain result s1 where run: "Compact [j] 0 t v 0 = (Inr result, s1)"
    and sz: "cr_CompactedSize result \<le> 8 + length (needle_encode sample_needle 3)"
    using Compact_fits_one [OF ok' nm _ , of sample_needle 0 0] \<open>j = 7\<close> sample_write_space
    by (auto simp: ver t_def write_space_def)
  have live: "\<not> compact_expired 0 3 sample_needle"
    by (simp add: compact_expired_def IsExpired_def) (simp add: sample_needle_def SetName_def Needle_zero_def HasTtl_def FlagHasTtl_def FlagHasName_def)
  have "cr_CompactedSize result \<le> 2 ^ 35" using sz sample_write_space by (simp add: write_space_def)
  then obtain s' v' where c: "CompactVolume [j] 0 t v 0 = (Inr result, s', v')"
    "volume_view s' v' 7 = (case ((\<lambda>_. None)(7 \<mapsto> sample_needle)) 7 of
        None \<Rightarrow> None | Some n \<Rightarrow> if compact_expired 0 3 n then None else volume_view t v 7)"
    using CompactVolume_preserves [OF ok' nm(1) _ _ run] nm(2) ver by auto
  have "volume_view t v 7 = Some (needle_view sample_needle 3)"
    using volume_view_readable [of t v "(\<lambda>_. None)(7 \<mapsto> sample_needle)"] ok' ver by (simp add: vol_ok_def)
  then have "volume_view s' v' 7 = Some (needle_view sample_needle 3)" using c(2) live by simp
  with ok' nm(1) run c(1) show ?thesis by blast
qed

section \<open>Writes between the two phases\<close>

lemma WriteNeedle_frame:
  assumes ok: "vol_ok s v A" and wf: "needle_wf n" and run: "WriteNeedle s v n = (Inr x, s', v', n')"
    and q: "q \<noteq> DataFileName (v_dir v) (v_id v)" "q \<noteq> IndexFileName (v_dir v) (v_id v)"
  shows "fs_files s' q = fs_files s q"
proof -
  let ?idx = "IndexFileName (v_dir v) (v_id v)"
  obtain c db where vf: "vol_files s v c" and db: "v_nm v = Some db" and sync: "idx_synced s db ?idx"
    using ok by (auto simp: vol_ok_def readable_def)
  obtain r1 s1 v1 n1 where w: "writeNeedleUnlocked s v n = (r1, s1, v1, n1)" by (metis prod.collapse)
  obtain t f where v1: "v1 = v\<lparr>v_dataFile := Some f\<rparr>"
    and frame: "\<And>q. q \<noteq> DataFileName (v_dir v) (v_id v) \<Longrightarrow> fs_files s1 q = fs_files s q"
    using writeNeedleUnlocked_outcome [OF vf wf w] by blast
  have sync1: "idx_synced s1 db ?idx" using idx_synced_frame [OF sync frame] by simp
  obtain off written where ow: "r1 = Inr (off, written)"
    using run w by (cases r1) (auto simp: WriteNeedle_def split: if_splits)
  obtain r2 s2 db2 where p: "MemDb_Put s1 db (n_Id n1) off (of_nat written) = (r2, s2, db2)" by (metis prod.collapse)
  have "s' = s2" using run w ow p db by (auto simp: WriteNeedle_def v1 split: if_splits sum.splits)
  then show ?thesis using MemDb_Put_outcome(2) [OF sync1 p q(2)] frame [OF q(1)] by simp
qed

lemma cinv_frame:
  assumes "cinv F v sb st B" "fs_files s2 (CompactDataName v) = fs_files (cs_fs st) (CompactDataName v)"
    "fs_files s2 (CompactIndexName v) = fs_files (cs_fs st) (CompactIndexName v)"
  shows "cinv (fs_files s2) v sb (st\<lparr>cs_fs := s2\<rparr>) B"
  using assms by (auto simp: cinv_def idx_synced_def idx_open_def at_end_def file_content_def)

text \<open>A write that is acknowledged between \<open>Compact\<close> and \<open>CommitCompact\<close> is gone after the swap: the
  temporary files were complete before it, and the swap replaces both files by them.\<close>

lemma write_during_compaction_lost:
  assumes ok: "vol_ok s v A" and nm: "v_nm v = Some nm" and order: "distinct order" "dom (db_m nm) \<subseteq> set order"
    and run: "Compact order now s v threshold = (Inr result, s1)" and fits: "cr_CompactedSize result \<le> 2 ^ 35"
    and wf: "needle_wf n" and new: "A (n_Id n) = None" and ok1: "vol_ok s1 v A"
    and wr: "WriteNeedle s1 v n = (Inr x, s2, v2, n2)"
  shows "\<exists>s3 v3. CommitCompact s2 v2 result = (Inr (), s3, v3) \<and> volume_view s3 v3 (n_Id n) = None"
proof -
  let ?w = "sb_Version (v_SuperBlock v)" and ?sb = "bump_revision (v_SuperBlock v)"
  obtain st where st: "cinv (fs_files s) v ?sb st (survivors now ?w A)" "cs_fs st = s1"
    "cr_TempDataFile result = CompactDataName v" "cr_TempIndexFile result = CompactIndexName v"
    using Compact_success [OF ok nm order run fits] by blast
  have same: "v_dir v2 = v_dir v" "v_id v2 = v_id v" "v_SuperBlock v2 = v_SuperBlock v"
    using WriteNeedle_same [OF wr] by (simp_all add: same_volume_def)
  have names: "CompactDataName v2 = CompactDataName v" "CompactIndexName v2 = CompactIndexName v"
    by (simp_all add: CompactDataName_def CompactIndexName_def same)
  have "cinv (fs_files s2) v ?sb (st\<lparr>cs_fs := s2\<rparr>) (survivors now ?w A)"
    by (rule cinv_frame [OF st(1)]) (simp_all add: WriteNeedle_frame [OF ok1 wf wr] st(2))
  then have c2: "cinv (fs_files s2) v2 ?sb (st\<lparr>cs_fs := s2\<rparr>) (survivors now ?w A)"
    by (simp add: cinv_def names same)
  have sb: "placement_fits (sb_ReplicaPlacement ?sb)" "sb_Version ?sb = sb_Version (v_SuperBlock v2)"
    using vol_ok_placement [OF ok] by (simp_all add: bump_revision_def same)
  obtain s3 v3 where c: "CommitCompact s2 v2 result = (Inr (), s3, v3)" "vol_ok s3 v3 (survivors now ?w A)"
    using CommitCompact_success [OF c2 sb] st(3,4) names by (metis compact_state.select_convs(1) compact_state.update_convs(1) compact_state.surjective)
  then show ?thesis
    using volume_view_readable [of s3 v3] new by (auto simp: vol_ok_def survivors_def)
qed

text \<open>If the temporary index is missing, the swap cannot be undone: the old data file was already
  replaced, so renaming the new one back leaves no data file at all.\<close>

lemma CommitCompact_rollback_loses_data:
  assumes "fs_files s (cr_TempDataFile result) \<noteq> None" "fs_files s (cr_TempIndexFile result) = None"
    "cr_TempDataFile result \<noteq> DataFileName (v_dir v) (v_id v)" "cr_TempIndexFile result \<noteq> DataFileName (v_dir v) (v_id v)"
  shows "\<exists>s' v'. CommitCompact s v result = (Inl VolRenameIndex, s', v') \<and>
    fs_files s' (DataFileName (v_dir v) (v_id v)) = None \<and> GetNeedle s' v' k = Inl VolPanic"
  using assms by (auto simp: CommitCompact_def Let_def os_Rename_def GetNeedle_def)

end
