(* ===== verification/IndexRebuild.thy ===== *)
theory IndexRebuild
  imports VolumeTraces
begin

text \<open>
  Rebuilding the index from the data file (\<open>CreateVolumeIndex\<close> and \<open>RebuildIndex\<close> of
  src/goblob/storage/volume/needle_map.go) on a data file that is a superblock followed by records.
\<close>

section \<open>Scanning a sequence of records\<close>

definition records :: "NeedleVersion \<Rightarrow> Needle list \<Rightarrow> bytes" where
  "records w ns = concat (map (\<lambda>n. needle_encode n w) ns)"

fun record_entries :: "NeedleVersion \<Rightarrow> nat \<Rightarrow> Needle list \<Rightarrow> (NeedleId \<times> Offset \<times> Size) list" where
  "record_entries w off [] = []"
| "record_entries w off (n # ns) =
     (n_Id n, ToEncoded (int off), of_nat (length (needle_encode n w)))
     # record_entries w (off + length (needle_encode n w)) ns"

lemma scanned_size_record:
  assumes wf: "needle_wf n"
  shows "scanned_size (of_nat (length (bodyBytes n) + footerSize w)) = length (needle_encode n w)"
proof -
  define L where "L = length (bodyBytes n) + footerSize w"
  have small: "16 + L + 8 < 2 ^ 32" using wf footerSize_bounds [of w] by (simp add: needle_wf_def L_def)
  have "unat (16 + of_nat L :: u32) = unat (of_nat (16 + L) :: u32)" by simp
  also have "\<dots> = 16 + L" by (rule unat_of_nat_u32) (use small in simp)
  finally have u: "unat (16 + of_nat L :: u32) = 16 + L" .
  have len: "length (needle_encode n w) = 16 + L + NeedleAlignPadding (16 + L)"
    by (simp add: needle_encode_def length_needle_raw L_def add.assoc)
  show ?thesis
    unfolding L_def [symmetric] scanned_size_def Let_def u len
    by (simp add: NeedleAlignPadding_def NeedleAlignmentSize_def Let_def)
qed

lemma needle_encode_header:
  "\<exists>t. needle_encode n w = put_u32 (n_Cookie n) @ put_u64 (n_Id n) @
     put_u32 (of_nat (length (bodyBytes n) + footerSize w)) @ t"
  by (simp add: needle_encode_def needle_raw_def needle_record_def Let_def)

lemma scan_data_end: "scan_data (pre @ records w []) (length pre) idx = (Inr (), idx)"
  by (subst scan_data.simps) (simp add: ReadAt_def records_def)

lemma scan_data_step:
  assumes wf: "needle_wf n"
  shows "scan_data (pre @ records w (n # ns)) (length pre) idx =
    (case file_write idx (index_entry (n_Id n) (ToEncoded (int (length pre))) (of_nat (length (needle_encode n w)))) of
       (d, okw) \<Rightarrow> if okw then scan_data ((pre @ needle_encode n w) @ records w ns) (length (pre @ needle_encode n w)) d
                    else (Inl ErrIndexWrite, d))"
proof -
  let ?enc = "needle_encode n w"
  obtain t where enc: "?enc = put_u32 (n_Cookie n) @ put_u64 (n_Id n) @
      put_u32 (of_nat (length (bodyBytes n) + footerSize w)) @ t" using needle_encode_header by blast
  have split: "pre @ records w (n # ns) = (pre @ ?enc) @ records w ns" by (simp add: records_def)
  define h where "h = take 16 ?enc"
  have h: "get_u64 (take 8 (drop 4 h)) = n_Id n"
    "get_u32 (take 4 (drop 12 h)) = of_nat (length (bodyBytes n) + footerSize w)"
    by (simp_all add: h_def enc)
  have "20 \<le> length ?enc" by (rule length_needle_encode_bounds(1))
  then have rd: "ReadAt ((pre @ ?enc) @ records w ns) (int (length pre)) 16 = Some h"
    by (simp add: ReadAt_def h_def)
  show ?thesis
    unfolding split
    by (subst scan_data.simps) (simp only: rd option.case Let_def h scanned_size_record [OF wf] length_append)
qed

lemma scan_data_records:
  assumes "at_end F f idx" "\<And>n. n \<in> set ns \<Longrightarrow> needle_wf n"
    and "scan_data (pre @ records w ns) (length pre) idx = (Inr (), idx')"
  shows "at_end F f idx' \<and>
    file_content idx' = file_content idx @ concat (map entry_bytes (record_entries w (length pre) ns))"
  using assms
proof (induction ns arbitrary: pre idx)
  case Nil
  then show ?case by (simp add: scan_data_end)
next
  case (Cons n ns)
  let ?enc = "needle_encode n w"
  obtain d okw where wr: "file_write idx (index_entry (n_Id n) (ToEncoded (int (length pre))) (of_nat (length ?enc))) = (d, okw)"
    by fastforce
  have run: "okw" "scan_data ((pre @ ?enc) @ records w ns) (length (pre @ ?enc)) d = (Inr (), idx')"
    using Cons.prems(2,3) wr scan_data_step [of n pre w ns idx] by (auto split: if_splits)
  have "at_end F f d" "file_content d = file_content idx @ index_entry (n_Id n) (ToEncoded (int (length pre))) (of_nat (length ?enc))"
    using file_write_at_end(1) [OF Cons.prems(1) wr] osfile.write_ok [OF Cons.prems(1)] wr run(1) by simp_all
  then show ?case
    using Cons.IH [of d "pre @ ?enc"] Cons.prems(2) run(2) by (simp add: entry_bytes_def)
qed

text \<open>The scan finishes when the device has room for one entry per record.\<close>

lemma scan_data_fits:
  assumes "at_end F f idx" "\<And>n. n \<in> set ns \<Longrightarrow> needle_wf n" "16 * length ns \<le> fs_room (fst idx)"
  shows "fst (scan_data (pre @ records w ns) (length pre) idx) = Inr ()"
  using assms
proof (induction ns arbitrary: pre idx)
  case Nil
  then show ?case by (simp add: scan_data_end)
next
  case (Cons n ns)
  let ?en = "index_entry (n_Id n) (ToEncoded (int (length pre))) (of_nat (length (needle_encode n w)))"
  obtain d okw where wr: "file_write idx ?en = (d, okw)" by fastforce
  note o = file_write_at_end [OF Cons.prems(1) wr]
  have "fst (scan_data ((pre @ needle_encode n w) @ records w ns) (length (pre @ needle_encode n w)) d) = Inr ()"
    by (rule Cons.IH [OF o(1)]) (use Cons.prems(2,3) o(4) in auto)
  then show ?case using Cons.prems(2,3) wr o(3) scan_data_step [of n pre w ns idx] by simp
qed

section \<open>The rebuilt index\<close>

definition last_records :: "Needle list \<Rightarrow> (NeedleId \<Rightarrow> Needle option) \<Rightarrow> NeedleId \<Rightarrow> Needle option" where
  "last_records ns A = fold (\<lambda>n A. A(n_Id n \<mapsto> n)) ns A"

lemma record_entries_ok:
  assumes "index_ok pre w m A" "8 dvd length pre" "length (pre @ records w ns) \<le> 2 ^ 35"
    "\<And>n. n \<in> set ns \<Longrightarrow> needle_wf n"
  shows "index_ok (pre @ records w ns) w (fold entry_upd (record_entries w (length pre) ns) m) (last_records ns A)"
  using assms
proof (induction ns arbitrary: pre m A)
  case (Cons n ns)
  let ?enc = "needle_encode n w" and ?e = "\<lparr>nvl_offset = ToEncoded (int (length pre)), nvl_size = of_nat (length (needle_encode n w))\<rparr>"
  have wf: "needle_wf n" using Cons.prems(4) by simp
  have "20 \<le> length ?enc" by (rule length_needle_encode_bounds(1))
  then have "length pre < 2 ^ 35" using Cons.prems(3) by (simp add: records_def)
  then have "ToActualOffset (ToEncoded (int (length pre))) = int (length pre)"
    using Cons.prems(2) by (simp add: ToActual_ToEncoded)
  then have "holds (pre @ ?enc) w ?e n"
    unfolding holds_def using wf by (intro conjI exI [of _ pre] exI [of _ "[]"]) simp_all
  then have ix: "index_ok (pre @ ?enc) w (m(n_Id n \<mapsto> ?e)) (A(n_Id n \<mapsto> n))"
    using index_ok_put [OF index_ok_append [OF Cons.prems(1)]] by blast
  have al: "8 dvd length (pre @ ?enc)" using Cons.prems(2) needle_encode_aligned [of n w] by simp
  have "index_ok ((pre @ ?enc) @ records w ns) w
      (fold entry_upd (record_entries w (length (pre @ ?enc)) ns) (m(n_Id n \<mapsto> ?e))) (last_records ns (A(n_Id n \<mapsto> n)))"
    by (rule Cons.IH [OF ix al]) (use Cons.prems(3,4) in \<open>auto simp: records_def\<close>)
  moreover have "pre @ records w (n # ns) = (pre @ ?enc) @ records w ns" by (simp add: records_def)
  ultimately show ?case
    by (simp add: entry_upd_def [of "(_, _, _)"] last_records_def)
qed (simp add: records_def last_records_def)

text \<open>C37: rebuilding an index. On a data file that is a superblock followed by well-formed records,
  below the 32 GiB an offset can address, a successful \<open>RebuildIndex\<close> writes an index file from
  which every id is found at its last record, and nothing else; the data file is not touched.\<close>

theorem RebuildIndex_last_records:
  assumes data: "fs_files s dat = Some (hdr @ records w ns)" "length hdr = SuperBlockSize"
    and wf: "\<And>n. n \<in> set ns \<Longrightarrow> needle_wf n" and size: "length (hdr @ records w ns) \<le> 2 ^ 35"
    and ne: "dat \<noteq> idx" and run: "RebuildIndex s dat idx = (Inr (), s')"
  shows "\<exists>i. fs_files s' idx = Some i \<and> 16 dvd length i \<and>
     index_ok (hdr @ records w ns) w (idx_map i) (last_records ns (\<lambda>_. None)) \<and>
     fs_files s' dat = fs_files s dat"
proof -
  define s0 where "s0 = os_Remove s idx"
  have dat0: "fs_files s0 dat = Some (hdr @ records w ns)" using data(1) ne by (simp add: s0_def os_Remove_def)
  obtain f' where scan: "scan_data (hdr @ records w ns) (length hdr) (os_Create s0 idx) = (Inr (), (s', f'))"
    using run dat0 data(2) by (auto simp: RebuildIndex_def CreateVolumeIndex_def s0_def [symmetric] split: prod.splits)
  have "at_end (fs_files s0) \<lparr>f_name = idx, f_pos = 0, f_append = False\<rparr> (os_Create s0 idx)"
    by (simp add: at_end_def os_Create_def file_content_def)
  note out = scan_data_records [OF this wf scan]
  let ?es = "record_entries w (length hdr) ns"
  have empty: "file_content (os_Create s0 idx) = []" by (simp add: os_Create_def file_content_def)
  have i: "fs_files s' idx = Some (concat (map entry_bytes ?es))"
    using out empty by (auto simp: at_end_def file_content_def)
  have "index_ok hdr w (\<lambda>_. None) (\<lambda>_. None)" by (simp add: index_ok_iff)
  then have "index_ok (hdr @ records w ns) w (fold entry_upd ?es (\<lambda>_. None)) (last_records ns (\<lambda>_. None))"
    by (rule record_entries_ok) (use data(2) size wf in \<open>simp_all add: SuperBlockSize_def\<close>)
  then show ?thesis
    using i out ne dat0 data(1) by (auto simp: idx_map_concat length_entries at_end_def)
qed

definition sample_rebuild_fs :: fsys where
  "sample_rebuild_fs = \<lparr>fs_files = (\<lambda>_. None)(''d'' \<mapsto> SuperBlock_Bytes (SuperBlock_new 3) @ records 3 [sample_needle]), fs_room = 100\<rparr>"

theorem RebuildIndex_last_records_witness:
  "\<exists>s' i. RebuildIndex sample_rebuild_fs ''d'' ''i'' = (Inr (), s') \<and> fs_files s' ''i'' = Some i \<and>
     index_ok (SuperBlock_Bytes (SuperBlock_new 3) @ records 3 [sample_needle]) 3 (idx_map i) ((\<lambda>_. None)(7 \<mapsto> sample_needle))"
proof -
  let ?hdr = "SuperBlock_Bytes (SuperBlock_new 3)"
  let ?idx = "os_Create (os_Remove sample_rebuild_fs ''i'') ''i''"
  have e: "at_end (fs_files sample_rebuild_fs) \<lparr>f_name = ''i'', f_pos = 0, f_append = False\<rparr> ?idx"
    by (simp add: at_end_def os_Create_def os_Remove_def file_content_def sample_rebuild_fs_def)
  have "fst (scan_data (?hdr @ records 3 [sample_needle]) (length ?hdr) ?idx) = Inr ()"
    by (rule scan_data_fits [OF e]) (simp_all add: sample_needle_wf os_Create_def os_Remove_def sample_rebuild_fs_def)
  then have "fst (RebuildIndex sample_rebuild_fs ''d'' ''i'') = Inr ()"
    by (auto simp: RebuildIndex_def CreateVolumeIndex_def os_Remove_def sample_rebuild_fs_def SuperBlockSize_def split: prod.splits)
  then obtain s' where run: "RebuildIndex sample_rebuild_fs ''d'' ''i'' = (Inr (), s')" by (metis prod.collapse)
  have size: "length (?hdr @ records 3 [sample_needle]) \<le> 2 ^ 35"
    using sample_write_space by (simp add: records_def write_space_def)
  have "n_Id sample_needle = 7" by (simp add: sample_needle_def SetName_def)
  then have "last_records [sample_needle] (\<lambda>_. None) = (\<lambda>_. None)(7 \<mapsto> sample_needle)" by (simp add: last_records_def)
  then show ?thesis
    using RebuildIndex_last_records [OF _ _ _ size _ run] run sample_needle_wf
    by (simp add: sample_rebuild_fs_def SuperBlockSize_def) blast
qed

text \<open>A deleted needle comes back after a rebuild: its tombstone record is indexed like any other
  record, so the id is found again, as an empty needle.\<close>

lemma rebuilt_tombstone_is_live:
  "last_records (ns @ [tombstone k]) A k = Some (tombstone k)"
  by (simp add: last_records_def tombstone_def)

text \<open>A header whose size wraps around to zero makes the scan stand still until the device is full.\<close>

lemma scanned_size_stuck: "scanned_size 0xFFFFFFF0 = 0"
  by (simp add: scanned_size_def)

end
