(* ===== verification/Sequencer.thy ===== *)
theory Sequencer
  imports OsFile
begin

text \<open>
  The allocators of needle ids (src/goblob/sequence): the file sequencer, which persists a ceiling
  by writing a temporary file and renaming it; the Raft sequencer, which replicates the highest
  id before it allocates; and the snowflake sequencer. Ids are 64-bit words. The calls of the
  clock are a list of readings, the consensus engine is an argument.
\<close>

section \<open>The persisted ceiling\<close>

definition string_bytes :: "string \<Rightarrow> bytes" where
  "string_bytes s = map (\<lambda>c. of_nat (of_char c)) s"

definition bytes_string :: "bytes \<Rightarrow> string" where
  "bytes_string bs = map (\<lambda>b. char_of (unat b)) bs"

definition loadMaxFileId :: "fsys \<Rightarrow> string \<Rightarrow> u64 option" where
  "loadMaxFileId s path =
     (case fs_files s path of
        None \<Rightarrow> Some 0
      | Some data \<Rightarrow>
          (let str = TrimSpace (bytes_string data) in
           if str = [] then Some 0 else map_option of_nat (parse_uint str 10 64)))"

definition saveMaxFileId :: "fsys \<Rightarrow> string \<Rightarrow> u64 \<Rightarrow> fsys \<times> bool" where
  "saveMaxFileId s path maxId =
     (let tmpPath = path @ ''.tmp'';
          data = string_bytes (format_uint 10 (unat maxId) @ [CHR 0x0A])
      in case file_write (os_Create s tmpPath) data of
           ((s1, _), False) \<Rightarrow> (s1, False)
         | ((s1, _), True) \<Rightarrow> (case os_Rename s1 tmpPath path of None \<Rightarrow> (s1, False) | Some s2 \<Rightarrow> (s2, True)))"

section \<open>The file sequencer\<close>

record FileSequencer =
  fq_dir :: string
  fq_step :: u64
  fq_current :: u64
  fq_saved :: u64

definition fq_path :: "string \<Rightarrow> string" where
  "fq_path dir = filepath_Join dir ''max_needle_id''"

definition NewFileSequencer :: "fsys \<Rightarrow> string \<Rightarrow> u64 \<Rightarrow> FileSequencer option" where
  "NewFileSequencer s dataDir stepSize =
     (if dataDir = [] then None
      else map_option
             (\<lambda>saved. \<lparr>fq_dir = dataDir, fq_step = (if stepSize = 0 then 10000 else stepSize),
                       fq_current = saved, fq_saved = saved\<rparr>)
             (loadMaxFileId s (fq_path dataDir)))"

definition FileSequencer_NextFileId :: "fsys \<Rightarrow> FileSequencer \<Rightarrow> u64 \<Rightarrow> u64 \<times> fsys \<times> FileSequencer" where
  "FileSequencer_NextFileId s q n =
     (let count = (if n = 0 then 1 else n);
          newSaved = fq_current q + fq_step q + count;
          (s1, q1) =
            (if fq_current q + count > fq_saved q
             then (case saveMaxFileId s (fq_path (fq_dir q)) newSaved of
                     (s1, True) \<Rightarrow> (s1, q\<lparr>fq_saved := newSaved\<rparr>)
                   | (s1, False) \<Rightarrow> (s1, q))
             else (s, q))
      in (fq_current q1 + 1, s1, q1\<lparr>fq_current := fq_current q1 + count\<rparr>))"

definition FileSequencer_SetMax :: "fsys \<Rightarrow> FileSequencer \<Rightarrow> u64 \<Rightarrow> fsys \<times> FileSequencer" where
  "FileSequencer_SetMax s q maxId =
     (if maxId \<le> fq_current q then (s, q)
      else (let q1 = q\<lparr>fq_current := maxId\<rparr>; newSaved = maxId + fq_step q in
            case saveMaxFileId s (fq_path (fq_dir q)) newSaved of
              (s1, True) \<Rightarrow> (s1, q1\<lparr>fq_saved := newSaved\<rparr>)
            | (s1, False) \<Rightarrow> (s1, q1)))"

definition FileSequencer_GetMax :: "FileSequencer \<Rightarrow> u64" where
  "FileSequencer_GetMax q = fq_current q"

definition FileSequencer_Close :: "fsys \<Rightarrow> FileSequencer \<Rightarrow> fsys \<times> bool" where
  "FileSequencer_Close s q = saveMaxFileId s (fq_path (fq_dir q)) (fq_current q)"

section \<open>The Raft sequencer\<close>

text \<open>
  \<open>apply r m\<close> submits \<open>MaxFileIdCommand m\<close> to the consensus engine in state \<open>r\<close>. The mutex is
  released around that call, so the events that other goroutines deliver through \<open>SetMax\<close>
  before the allocation are an argument, the list \<open>evts\<close>.
\<close>

record 'r RaftSequencer =
  rq_wrapped :: FileSequencer
  rq_raft :: 'r
  rq_lastSyncedId :: u64

definition NewRaftSequencer :: "fsys \<Rightarrow> string \<Rightarrow> u64 \<Rightarrow> 'r \<Rightarrow> 'r RaftSequencer option" where
  "NewRaftSequencer s dataDir stepSize r =
     map_option (\<lambda>q. \<lparr>rq_wrapped = q, rq_raft = r, rq_lastSyncedId = FileSequencer_GetMax q\<rparr>)
       (NewFileSequencer s dataDir stepSize)"

definition RaftSequencer_SetMax :: "fsys \<times> 'r RaftSequencer \<Rightarrow> u64 \<Rightarrow> fsys \<times> 'r RaftSequencer" where
  "RaftSequencer_SetMax st maxId =
     (case st of (s, rs) \<Rightarrow>
        (case FileSequencer_SetMax s (rq_wrapped rs) maxId of
           (s1, q) \<Rightarrow>
             (s1, rs\<lparr>rq_wrapped := q,
                     rq_lastSyncedId := if maxId > rq_lastSyncedId rs then maxId else rq_lastSyncedId rs\<rparr>)))"

definition RaftSequencer_sync :: "('r \<Rightarrow> u64 \<Rightarrow> 'r \<times> bool) \<Rightarrow> u64 \<Rightarrow> 'r RaftSequencer \<Rightarrow> 'r RaftSequencer" where
  "RaftSequencer_sync apply newMax rs =
     (if newMax > rq_lastSyncedId rs
      then (case apply (rq_raft rs) newMax of
              (r, False) \<Rightarrow> rs\<lparr>rq_raft := r\<rparr>
            | (r, True) \<Rightarrow> rs\<lparr>rq_raft := r, rq_lastSyncedId := newMax\<rparr>)
      else rs)"

definition RaftSequencer_alloc :: "u64 \<Rightarrow> fsys \<times> 'r RaftSequencer \<Rightarrow> u64 \<times> fsys \<times> 'r RaftSequencer" where
  "RaftSequencer_alloc count st =
     (case st of (s, rs) \<Rightarrow>
        (case FileSequencer_NextFileId s (rq_wrapped rs) count of
           (start, s1, q) \<Rightarrow> (start, s1, rs\<lparr>rq_wrapped := q\<rparr>)))"

definition RaftSequencer_NextFileId ::
  "('r \<Rightarrow> u64 \<Rightarrow> 'r \<times> bool) \<Rightarrow> u64 list \<Rightarrow> fsys \<times> 'r RaftSequencer \<Rightarrow> u64 \<Rightarrow> u64 \<times> fsys \<times> 'r RaftSequencer"
where
  "RaftSequencer_NextFileId apply evts st n =
     (let count = (if n = 0 then 1 else n);
          newMax = fq_current (rq_wrapped (snd st)) + count;
          st1 = (fst st, RaftSequencer_sync apply newMax (snd st));
          st2 = fold (\<lambda>m st. RaftSequencer_SetMax st m) evts st1
      in RaftSequencer_alloc count st2)"

definition SyncToRaft :: "('r \<Rightarrow> u64 \<Rightarrow> 'r \<times> bool) \<Rightarrow> 'r RaftSequencer \<Rightarrow> bool \<times> 'r RaftSequencer" where
  "SyncToRaft apply rs =
     (let maxId = FileSequencer_GetMax (rq_wrapped rs) in
      if maxId = 0 then (True, rs)
      else (case apply (rq_raft rs) maxId of
              (r, False) \<Rightarrow> (False, rs\<lparr>rq_raft := r\<rparr>)
            | (r, True) \<Rightarrow> (True, rs\<lparr>rq_raft := r, rq_lastSyncedId := maxId\<rparr>)))"

section \<open>The snowflake sequencer\<close>

record SnowflakeSequencer =
  sf_nodeId :: u64
  sf_lastTime :: u64
  sf_sequence :: u64

definition maxSequenceValue :: u64 where "maxSequenceValue = 4095"
definition nodeIdShiftBits :: nat where "nodeIdShiftBits = 12"
definition timeShiftBits :: nat where "timeShiftBits = 22"

definition NewSnowflakeSequencer :: "u64 \<Rightarrow> SnowflakeSequencer option" where
  "NewSnowflakeSequencer nodeId =
     (if nodeId > 1023 then None else Some \<lparr>sf_nodeId = nodeId, sf_lastTime = 0, sf_sequence = 0\<rparr>)"

text \<open>The waiting loops read the clock until it satisfies \<open>P\<close>; \<open>None\<close> when the readings given run
  out before it does.\<close>

fun wait_until :: "(u64 \<Rightarrow> bool) \<Rightarrow> u64 \<Rightarrow> u64 list \<Rightarrow> (u64 \<times> u64 list) option" where
  "wait_until P now clock =
     (if P now then Some (now, clock)
      else case clock of [] \<Rightarrow> None | t # clock' \<Rightarrow> wait_until P t clock')"

definition snowflake_id :: "u64 \<Rightarrow> SnowflakeSequencer \<Rightarrow> u64" where
  "snowflake_id now s =
     push_bit timeShiftBits now OR push_bit nodeIdShiftBits (sf_nodeId s) OR sf_sequence s"

definition Snowflake_NextFileId ::
  "SnowflakeSequencer \<Rightarrow> u64 \<Rightarrow> u64 list \<Rightarrow> (u64 \<times> SnowflakeSequencer \<times> u64 list) option"
where
  "Snowflake_NextFileId s count clock =
     (case clock of
        [] \<Rightarrow> None
      | now # clock \<Rightarrow>
          if now = sf_lastTime s then
            (let s1 = s\<lparr>sf_sequence := sf_sequence s + 1\<rparr> in
             if sf_sequence s1 > maxSequenceValue
             then Option.bind (wait_until (\<lambda>t. t > sf_lastTime s) now clock) (\<lambda>(now, clock).
                    let s2 = s1\<lparr>sf_sequence := 0, sf_lastTime := now\<rparr>
                    in Some (snowflake_id now s2, s2, clock))
             else Some (snowflake_id now s1, s1, clock))
          else if now > sf_lastTime s then
            (let s1 = s\<lparr>sf_sequence := 0, sf_lastTime := now\<rparr> in Some (snowflake_id now s1, s1, clock))
          else
            Option.bind (wait_until (\<lambda>t. t \<ge> sf_lastTime s) now clock) (\<lambda>(now, clock).
              let s1 = s\<lparr>sf_sequence := 0, sf_lastTime := now\<rparr>
              in Some (snowflake_id now s1, s1, clock)))"

definition Snowflake_GetMax :: "SnowflakeSequencer \<Rightarrow> u64" where
  "Snowflake_GetMax s = snowflake_id (sf_lastTime s) s"

end
