(* ===== verification/MasterFsm.thy ===== *)
theory MasterFsm
  imports CoreTypes
begin

text \<open>
  The replicated state machine of the master (src/goblob/raft/fsm.go, events.go): the three scalars
  of the control plane, the commands that advance them, and snapshots. JSON documents are values
  of a datatype; \<open>encoding/json\<close> between them and bytes is not repeated here.
\<close>

datatype json = JNull | JNum int | JStr string | JArr "json list" | JObj "(string \<times> json) list"

text \<open>Unmarshalling one field of a struct: a missing or null field keeps its zero value, a number
  must fit the type, a duplicate key lets the last one win.\<close>

definition json_field :: "string \<Rightarrow> json \<Rightarrow> json option" where
  "json_field key j =
     (case j of JObj members \<Rightarrow> Some (case map_of (rev members) key of None \<Rightarrow> JNull | Some v \<Rightarrow> v)
              | JNull \<Rightarrow> Some JNull
              | _ \<Rightarrow> None)"

definition json_uint :: "nat \<Rightarrow> json \<Rightarrow> nat option" where
  "json_uint bits j =
     (case j of JNull \<Rightarrow> Some 0
              | JNum i \<Rightarrow> if 0 \<le> i \<and> i < 2 ^ bits then Some (nat i) else None
              | _ \<Rightarrow> None)"

definition json_string :: "json \<Rightarrow> string option" where
  "json_string j = (case j of JNull \<Rightarrow> Some [] | JStr s \<Rightarrow> Some s | _ \<Rightarrow> None)"

section \<open>Commands and log entries\<close>

datatype Command = MaxFileIdCommand u64 | MaxVolumeIdCommand u32 | TopologyIdCommand string

fun Command_Type :: "Command \<Rightarrow> string" where
  "Command_Type (MaxFileIdCommand _) = ''max_file_id''"
| "Command_Type (MaxVolumeIdCommand _) = ''max_volume_id''"
| "Command_Type (TopologyIdCommand _) = ''topology_id''"

fun Command_Encode :: "Command \<Rightarrow> json" where
  "Command_Encode (MaxFileIdCommand m) = JObj [(''max_file_id'', JNum (uint m))]"
| "Command_Encode (MaxVolumeIdCommand m) = JObj [(''max_volume_id'', JNum (uint m))]"
| "Command_Encode (TopologyIdCommand t) = JObj [(''topology_id'', JStr t)]"

record LogEntry =
  le_Type :: string
  le_Payload :: json

definition encodeLogEntry :: "Command \<Rightarrow> LogEntry" where
  "encodeLogEntry cmd = \<lparr>le_Type = Command_Type cmd, le_Payload = Command_Encode cmd\<rparr>"

text \<open>\<open>decodeNativeMasterCommand\<close> of the master server, by which a stored log is read back.\<close>

definition decodeNativeMasterCommand :: "string \<Rightarrow> json \<Rightarrow> Command option" where
  "decodeNativeMasterCommand ty payload =
     (if ty = ''max_file_id'' then
        map_option (\<lambda>n. MaxFileIdCommand (of_nat n)) (Option.bind (json_field ''max_file_id'' payload) (json_uint 64))
      else if ty = ''max_volume_id'' then
        map_option (\<lambda>n. MaxVolumeIdCommand (of_nat n)) (Option.bind (json_field ''max_volume_id'' payload) (json_uint 32))
      else if ty = ''topology_id'' then
        map_option TopologyIdCommand (Option.bind (json_field ''topology_id'' payload) json_string)
      else None)"

section \<open>The state machine\<close>

record MasterFSM =
  maxFileId :: u64
  maxVolumeId :: u32
  topologyId :: string

datatype StateEvent =
    EventMaxFileId u64 | EventMaxVolumeId u32 | EventTopologyId string | EventRestored u64 u32 string

datatype fsm_error = ErrUnmarshal | ErrUnknownCommand

definition NewMasterFSM :: MasterFSM where
  "NewMasterFSM = \<lparr>maxFileId = 0, maxVolumeId = 0, topologyId = []\<rparr>"

definition applyEntry :: "MasterFSM \<Rightarrow> LogEntry \<Rightarrow> (fsm_error + StateEvent option) \<times> MasterFSM" where
  "applyEntry m entry =
     (if le_Type entry = ''max_file_id'' then
        (case Option.bind (json_field ''max_file_id'' (le_Payload entry)) (json_uint 64) of
           None \<Rightarrow> (Inl ErrUnmarshal, m)
         | Some n \<Rightarrow>
             if of_nat n > maxFileId m
             then (Inr (Some (EventMaxFileId (of_nat n))), m\<lparr>maxFileId := of_nat n\<rparr>)
             else (Inr None, m))
      else if le_Type entry = ''max_volume_id'' then
        (case Option.bind (json_field ''max_volume_id'' (le_Payload entry)) (json_uint 32) of
           None \<Rightarrow> (Inl ErrUnmarshal, m)
         | Some n \<Rightarrow>
             if of_nat n > maxVolumeId m
             then (Inr (Some (EventMaxVolumeId (of_nat n))), m\<lparr>maxVolumeId := of_nat n\<rparr>)
             else (Inr None, m))
      else if le_Type entry = ''topology_id'' then
        (case Option.bind (json_field ''topology_id'' (le_Payload entry)) json_string of
           None \<Rightarrow> (Inl ErrUnmarshal, m)
         | Some t \<Rightarrow> (Inr (Some (EventTopologyId t)), m\<lparr>topologyId := t\<rparr>))
      else (Inl ErrUnknownCommand, m))"

definition ApplyCommand :: "MasterFSM \<Rightarrow> Command \<Rightarrow> (fsm_error + StateEvent option) \<times> MasterFSM" where
  "ApplyCommand m cmd = applyEntry m \<lparr>le_Type = Command_Type cmd, le_Payload = Command_Encode cmd\<rparr>"

definition SnapshotBytes :: "MasterFSM \<Rightarrow> json" where
  "SnapshotBytes m =
     JObj [(''max_file_id'', JNum (uint (maxFileId m))), (''max_volume_id'', JNum (uint (maxVolumeId m))),
           (''topology_id'', JStr (topologyId m))]"

definition RestoreBytes :: "MasterFSM \<Rightarrow> json \<Rightarrow> (fsm_error + StateEvent) \<times> MasterFSM" where
  "RestoreBytes m data =
     (case (Option.bind (json_field ''max_file_id'' data) (json_uint 64),
            Option.bind (json_field ''max_volume_id'' data) (json_uint 32),
            Option.bind (json_field ''topology_id'' data) json_string) of
        (Some f, Some v, Some t) \<Rightarrow>
          (Inr (EventRestored (of_nat f) (of_nat v) t),
           m\<lparr>maxFileId := of_nat f, maxVolumeId := of_nat v, topologyId := t\<rparr>)
      | _ \<Rightarrow> (Inl ErrUnmarshal, m))"

section \<open>Event subscriptions\<close>

text \<open>
  \<open>EventBus\<close>: each subscriber has a bounded channel; \<open>publish\<close> never blocks, it drops the event for
  a subscriber whose channel is full.
\<close>

record 'e channel =
  ch_cap :: nat
  ch_buf :: "'e list"

definition bus_Subscribe :: "(string \<Rightarrow> 'e channel option) \<Rightarrow> string \<Rightarrow> nat \<Rightarrow> string \<Rightarrow> 'e channel option" where
  "bus_Subscribe subs name bufSize = subs(name \<mapsto> \<lparr>ch_cap = bufSize, ch_buf = []\<rparr>)"

definition bus_Unsubscribe :: "(string \<Rightarrow> 'e channel option) \<Rightarrow> string \<Rightarrow> string \<Rightarrow> 'e channel option" where
  "bus_Unsubscribe subs name = subs(name := None)"

definition bus_publish :: "(string \<Rightarrow> 'e channel option) \<Rightarrow> 'e \<Rightarrow> string \<Rightarrow> 'e channel option" where
  "bus_publish subs e =
     (\<lambda>name. map_option (\<lambda>ch. if length (ch_buf ch) < ch_cap ch then ch\<lparr>ch_buf := ch_buf ch @ [e]\<rparr> else ch)
               (subs name))"

section \<open>Correctness of the state machine\<close>

definition fsm_step :: "LogEntry \<Rightarrow> MasterFSM \<Rightarrow> MasterFSM" where
  "fsm_step entry m = snd (applyEntry m entry)"

lemma json_uint_word: "json_uint LENGTH('a) (JNum (uint (w :: 'a::len word))) = Some (unat w)"
  by (simp add: json_uint_def uint_lt2p)

lemma json_uint_64: "json_uint 64 (JNum (uint (w :: u64))) = Some (unat w)"
  using json_uint_word [of w] by simp

lemma json_uint_32: "json_uint 32 (JNum (uint (w :: u32))) = Some (unat w)"
  using json_uint_word [of w] by simp

lemmas json_codec = json_uint_64 json_uint_32 json_field_def json_string_def

text \<open>What a well-formed command does.\<close>

lemma ApplyCommand_effect:
  "snd (ApplyCommand m (MaxFileIdCommand k)) = m\<lparr>maxFileId := max (maxFileId m) k\<rparr>"
  "snd (ApplyCommand m (MaxVolumeIdCommand v)) = m\<lparr>maxVolumeId := max (maxVolumeId m) v\<rparr>"
  "snd (ApplyCommand m (TopologyIdCommand t)) = m\<lparr>topologyId := t\<rparr>"
  by (auto simp: ApplyCommand_def applyEntry_def json_codec max_def not_less)

text \<open>Commands survive the log. Every command decodes from its type tag and payload to itself, so a
  log that is written and read back replays the same commands.\<close>

theorem command_roundtrip: "decodeNativeMasterCommand (Command_Type cmd) (Command_Encode cmd) = Some cmd"
  by (cases cmd) (simp_all add: decodeNativeMasterCommand_def json_codec)


lemma fsm_step_mono: "maxFileId m \<le> maxFileId (fsm_step e m)" "maxVolumeId m \<le> maxVolumeId (fsm_step e m)"
  by (auto simp: fsm_step_def applyEntry_def split: option.splits)

text \<open>The watermarks never go back. Whatever entries a replica applies, the highest file id and the
  highest volume id it holds do not decrease, and each is at least every id that a command in the
  log carries.\<close>

theorem watermarks_monotone:
  "maxFileId m \<le> maxFileId (fold fsm_step log m) \<and> maxVolumeId m \<le> maxVolumeId (fold fsm_step log m) \<and>
   (\<forall>k. encodeLogEntry (MaxFileIdCommand k) \<in> set log \<longrightarrow> k \<le> maxFileId (fold fsm_step log m)) \<and>
   (\<forall>v. encodeLogEntry (MaxVolumeIdCommand v) \<in> set log \<longrightarrow> v \<le> maxVolumeId (fold fsm_step log m))"
proof (induction log arbitrary: m)
  case (Cons e log)
  let ?m = "fold fsm_step log (fsm_step e m)"
  have own: "e = encodeLogEntry (MaxFileIdCommand k) \<Longrightarrow> k \<le> maxFileId (fsm_step e m)"
    "e = encodeLogEntry (MaxVolumeIdCommand v) \<Longrightarrow> v \<le> maxVolumeId (fsm_step e m)" for k v
    using ApplyCommand_effect(1) [of m k] ApplyCommand_effect(2) [of m v]
    by (simp_all add: fsm_step_def encodeLogEntry_def ApplyCommand_def)
  have ih: "maxFileId (fsm_step e m) \<le> maxFileId ?m" "maxVolumeId (fsm_step e m) \<le> maxVolumeId ?m"
    "\<And>k. encodeLogEntry (MaxFileIdCommand k) \<in> set log \<Longrightarrow> k \<le> maxFileId ?m"
    "\<And>v. encodeLogEntry (MaxVolumeIdCommand v) \<in> set log \<Longrightarrow> v \<le> maxVolumeId ?m"
    using Cons.IH [of "fsm_step e m"] by blast+
  show ?case
    using own ih fsm_step_mono [of m e] by (auto intro: order_trans)
qed simp

theorem watermarks_monotone_witness:
  "encodeLogEntry (MaxFileIdCommand 9) \<in> set [encodeLogEntry (MaxFileIdCommand 9), encodeLogEntry (MaxFileIdCommand 4)] \<and>
   9 \<le> maxFileId (fold fsm_step [encodeLogEntry (MaxFileIdCommand 9), encodeLogEntry (MaxFileIdCommand 4)] NewMasterFSM)"
proof -
  have mem: "encodeLogEntry (MaxFileIdCommand 9) \<in> set [encodeLogEntry (MaxFileIdCommand 9), encodeLogEntry (MaxFileIdCommand 4)]"
    by simp
  with watermarks_monotone [of NewMasterFSM "[encodeLogEntry (MaxFileIdCommand 9), encodeLogEntry (MaxFileIdCommand 4)]"]
  show ?thesis by blast
qed

text \<open>A dropped event: a subscriber with a full channel does not see later changes.\<close>

lemma bus_publish_full: "subs name = Some ch \<Longrightarrow> ch_cap ch \<le> length (ch_buf ch) \<Longrightarrow> bus_publish subs e name = Some ch"
  by (simp add: bus_publish_def)

end
