(* ===== verification/SequencerProps.thy ===== *)
theory SequencerProps
  imports Sequencer MasterFsm
begin

text \<open>
  Correctness of the sequencers: the interface \<open>Sequencer\<close> with its laws, discharged for the file
  sequencer and the Raft sequencer; ids are never issued twice, in one run and across a crash;
  and where the documented guarantees do not hold.
\<close>

section \<open>Saving and loading the ceiling\<close>

lemma bytes_string_string_bytes [simp]: "bytes_string (string_bytes s) = s"
proof -
  have "unat (of_nat (of_char c) :: byte) = of_char c" for c
    by (simp add: unat_byte_of_nat)
  then show ?thesis by (simp add: bytes_string_def string_bytes_def comp_def)
qed

lemma dropWhile_head: "xs \<noteq> [] \<Longrightarrow> \<not> P (hd xs) \<Longrightarrow> dropWhile P xs = xs"
  by (cases xs) auto

lemma TrimSpace_line:
  assumes "str \<noteq> []" "\<And>c. c \<in> set str \<Longrightarrow> \<not> is_space c"
  shows "TrimSpace (str @ [CHR 0x0A]) = str"
proof -
  have "dropWhile is_space (str @ [CHR 0x0A]) = str @ [CHR 0x0A]"
    using assms by (intro dropWhile_head) (auto simp: hd_append)
  moreover have "is_space (CHR 0x0A)" by (simp add: is_space_def)
  moreover have "dropWhile is_space (rev str) = rev str"
    using assms by (intro dropWhile_head) (auto simp: hd_rev)
  ultimately show ?thesis by (simp add: TrimSpace_def)
qed

lemma digit_not_space: "char_digit c \<noteq> None \<Longrightarrow> \<not> is_space c"
  by (auto simp: char_digit_def is_space_def Let_def split: if_splits)

lemma saveMaxFileId_outcome:
  assumes "saveMaxFileId s path m = (s', ok)"
  shows "ok \<Longrightarrow> loadMaxFileId s' path = Some m" and "\<not> ok \<Longrightarrow> fs_files s' path = fs_files s path"
    and "p \<noteq> path \<Longrightarrow> p \<noteq> path @ ''.tmp'' \<Longrightarrow> fs_files s' p = fs_files s p"
proof -
  let ?tmp = "path @ ''.tmp''" and ?str = "format_uint 10 (unat m) @ [CHR 0x0A]"
  obtain s1 f1 okw where w: "file_write (os_Create s ?tmp) (string_bytes ?str) = ((s1, f1), okw)"
    by (metis prod.collapse)
  have e: "at_end (fs_files s) \<lparr>f_name = ?tmp, f_pos = 0, f_append = False\<rparr> (os_Create s ?tmp)"
    by (simp add: at_end_def os_Create_def file_content_def)
  have o: "at_end (fs_files s) \<lparr>f_name = ?tmp, f_pos = 0, f_append = False\<rparr> (s1, f1)"
    by (rule file_write_at_end(1) [OF e w])
  have others: "q \<noteq> ?tmp \<Longrightarrow> fs_files s1 q = fs_files s q" for q using o by (simp add: at_end_def)
  have "file_content (os_Create s ?tmp) = []" by (simp add: os_Create_def file_content_def)
  then have tmp: "okw \<Longrightarrow> fs_files s1 ?tmp = Some (string_bytes ?str)"
    using osfile.write_ok [OF e, of "string_bytes ?str" "(s1, f1)"] w o by (auto simp: at_end_def file_content_def)
  have res: "okw \<Longrightarrow> s' = s1\<lparr>fs_files := (fs_files s1)(?tmp := None, path \<mapsto> string_bytes ?str)\<rparr> \<and> ok"
    "\<not> okw \<Longrightarrow> s' = s1 \<and> \<not> ok"
    using assms w tmp by (auto simp: saveMaxFileId_def Let_def os_Rename_def)
  have trim: "TrimSpace ?str = format_uint 10 (unat m)"
    by (rule TrimSpace_line) (use format_uint_digit [of 10 _ "unat m"] digit_not_space in auto)
  have "unat m < 2 ^ 64" using unat_bound [of m] by simp
  then have "parse_uint (format_uint 10 (unat m)) 10 64 = Some (unat m)" by (simp add: parse_uint_format)
  then show "loadMaxFileId s' path = Some m" if ok
    using that res by (cases okw) (simp_all add: loadMaxFileId_def trim Let_def)
  show "\<not> ok \<Longrightarrow> fs_files s' path = fs_files s path" using res others [of path] by (cases okw) simp_all
  show "p \<noteq> path \<Longrightarrow> p \<noteq> ?tmp \<Longrightarrow> fs_files s' p = fs_files s p" using res others [of p] by (cases okw) simp_all
qed

lemma loadMaxFileId_cong: "fs_files s' p = fs_files s p \<Longrightarrow> loadMaxFileId s' p = loadMaxFileId s p"
  by (simp add: loadMaxFileId_def)

section \<open>The Sequencer interface\<close>

definition batch :: "u64 \<Rightarrow> u64" where
  "batch n = (if n = 0 then 1 else n)"

text \<open>
  Any interleaving of allocations and \<open>SetMax\<close> calls, as a trace that collects the batches issued
  as pairs of first and last id. The guard keeps a batch within 64 bits.
\<close>

inductive seq_trace ::
  "('s \<Rightarrow> u64 \<Rightarrow> u64 \<times> 's) \<Rightarrow> ('s \<Rightarrow> u64 \<Rightarrow> 's) \<Rightarrow> 's \<Rightarrow> (nat \<times> nat) list \<Rightarrow> 's \<Rightarrow> bool"
  for nextId setMax s0
where
  start: "seq_trace nextId setMax s0 [] s0"
| alloc: "seq_trace nextId setMax s0 bs s \<Longrightarrow> nextId s n = (first, s') \<Longrightarrow>
    first \<noteq> 0 \<Longrightarrow> unat first + unat (batch n) \<le> 2 ^ 64 \<Longrightarrow>
    seq_trace nextId setMax s0 (bs @ [(unat first, unat first + unat (batch n) - 1)]) s'"
| raise: "seq_trace nextId setMax s0 bs s \<Longrightarrow> seq_trace nextId setMax s0 bs (setMax s m)"

locale Sequencer_contract =
  fixes nextId :: "'s \<Rightarrow> u64 \<Rightarrow> u64 \<times> 's"
    and setMax :: "'s \<Rightarrow> u64 \<Rightarrow> 's"
    and getMax :: "'s \<Rightarrow> u64"
  assumes next_first: "nextId s n = (first, s') \<Longrightarrow> first \<noteq> 0 \<Longrightarrow> getMax s < first"
    and next_max: "nextId s n = (first, s') \<Longrightarrow> getMax s' = first + (batch n - 1)"
    and set_max: "getMax (setMax s m) = max (getMax s) m"
begin

lemma trace_batches:
  "seq_trace nextId setMax s0 bs s \<Longrightarrow>
   unat (getMax s0) \<le> unat (getMax s) \<and>
   (\<forall>(a, b) \<in> set bs. unat (getMax s0) < a \<and> a \<le> b \<and> b \<le> unat (getMax s)) \<and>
   sorted_wrt (\<lambda>(a, b) (c, d). b < c) bs"
proof (induction rule: seq_trace.induct)
  case (alloc bs s n first s')
  have b: "0 < unat (batch n)" by (simp add: batch_def unat_gt_0)
  then have b1: "unat (batch n - 1) = unat (batch n) - 1"
    by (subst unat_minus_one) (auto simp: batch_def)
  have f: "unat (getMax s) < unat first"
    using next_first [OF alloc(2,3)] by (simp add: word_less_nat_alt)
  have m: "unat (getMax s') = unat first + unat (batch n) - 1"
    using next_max [OF alloc(2)] alloc(4) b b1 by (simp add: unat_word_ariths)
  show ?case using alloc.IH f m b by (auto simp: sorted_wrt_append)
next
  case (raise bs s m)
  have "unat (getMax s) \<le> unat (getMax (setMax s m))" by (simp add: set_max word_le_nat_alt [symmetric])
  then show ?case using raise.IH by auto
qed simp

end

section \<open>The file sequencer meets the interface\<close>

definition fileseq_next where "fileseq_next st n = (case st of (s, q) \<Rightarrow> FileSequencer_NextFileId s q n)"
definition fileseq_setMax where "fileseq_setMax st m = (case st of (s, q) \<Rightarrow> FileSequencer_SetMax s q m)"
definition fileseq_getMax where "fileseq_getMax st = (case st of (s :: fsys, q) \<Rightarrow> FileSequencer_GetMax q)"

lemma FileSequencer_NextFileId_current:
  assumes "FileSequencer_NextFileId s q n = (first, s', q')"
  shows "first = fq_current q + 1" "fq_current q' = fq_current q + batch n" "fq_dir q' = fq_dir q" "fq_step q' = fq_step q"
  using assms by (auto simp: FileSequencer_NextFileId_def Let_def batch_def split: if_splits prod.splits bool.splits)

lemma FileSequencer_SetMax_current:
  assumes "FileSequencer_SetMax s q m = (s', q')"
  shows "fq_current q' = max (fq_current q) m" "fq_dir q' = fq_dir q" "fq_step q' = fq_step q"
  using assms by (auto simp: FileSequencer_SetMax_def Let_def max_def split: if_splits prod.splits bool.splits)

lemma less_plus_one: "(x :: u64) + 1 \<noteq> 0 \<Longrightarrow> x < x + 1"
  using unatSuc [of x] by (simp add: word_less_nat_alt add.commute)

interpretation fileseq: Sequencer_contract fileseq_next fileseq_setMax fileseq_getMax
proof
  fix s :: "fsys \<times> FileSequencer" and n first s'
  assume run: "fileseq_next s n = (first, s')"
  obtain t q t' q' where eqs: "s = (t, q)" "s' = (t', q')" by (cases s, cases s')
  have c: "first = fq_current q + 1" "fq_current q' = fq_current q + batch n"
    using FileSequencer_NextFileId_current [of t q n first t' q'] run by (simp_all add: fileseq_next_def eqs)
  show "fileseq_getMax s' = first + (batch n - 1)"
    using c by (simp add: fileseq_getMax_def eqs FileSequencer_GetMax_def)
  show "first \<noteq> 0 \<Longrightarrow> fileseq_getMax s < first"
    using c less_plus_one by (simp add: fileseq_getMax_def eqs FileSequencer_GetMax_def)
next
  fix s :: "fsys \<times> FileSequencer" and m
  show "fileseq_getMax (fileseq_setMax s m) = max (fileseq_getMax s) m"
    using FileSequencer_SetMax_current(1) [of "fst s" "snd s" m]
    by (cases s) (auto simp: fileseq_getMax_def fileseq_setMax_def FileSequencer_GetMax_def split: prod.splits)
qed

text \<open>The file sequencer issues every id at most once. Whatever sequence of allocations and \<open>SetMax\<close>
  calls is made, and whether or not its saves succeed, the batches it hands out in one run are
  disjoint, in increasing order, and above every id issued or reported before.\<close>

theorem FileSequencer_unique:
  assumes "seq_trace fileseq_next fileseq_setMax (s, q) bs (s', q')"
  shows "(\<forall>(a, b) \<in> set bs. unat (FileSequencer_GetMax q) < a \<and> a \<le> b \<and> b \<le> unat (FileSequencer_GetMax q')) \<and>
         sorted_wrt (\<lambda>(a, b) (c, d). b < c) bs"
  using fileseq.trace_batches [OF assms] by (simp add: fileseq_getMax_def)

definition sample_seq :: FileSequencer where
  "sample_seq = \<lparr>fq_dir = ''q'', fq_step = 10, fq_current = 5, fq_saved = 5\<rparr>"

theorem FileSequencer_unique_witness:
  "\<exists>s' q'. seq_trace fileseq_next fileseq_setMax (\<lparr>fs_files = (\<lambda>_. None), fs_room = 0\<rparr>, sample_seq) [(6, 8)] (s', q') \<and>
     8 \<le> unat (FileSequencer_GetMax q')"
proof -
  let ?s = "\<lparr>fs_files = (\<lambda>_. None), fs_room = 0\<rparr>"
  obtain first s' q' where run: "fileseq_next (?s, sample_seq) 3 = (first, (s', q'))" by (metis prod.collapse)
  then have first: "first = 6"
    using FileSequencer_NextFileId_current(1) [of ?s sample_seq 3 first s' q'] by (simp add: fileseq_next_def sample_seq_def)
  have "seq_trace fileseq_next fileseq_setMax (?s, sample_seq) ([] @ [(unat first, unat first + unat (batch 3) - 1)]) (s', q')"
    by (rule seq_trace.alloc [where nextId = fileseq_next, OF seq_trace.start run]) (simp_all add: first batch_def)
  then have tr: "seq_trace fileseq_next fileseq_setMax (?s, sample_seq) [(6, 8)] (s', q')" by (simp add: first batch_def)
  then show ?thesis using FileSequencer_unique [OF tr] by auto
qed

section \<open>Restarting the file sequencer\<close>

definition fq_ok :: "fsys \<Rightarrow> FileSequencer \<Rightarrow> bool" where
  "fq_ok s q \<longleftrightarrow> fq_dir q \<noteq> [] \<and> loadMaxFileId s (fq_path (fq_dir q)) = Some (fq_saved q) \<and> fq_current q \<le> fq_saved q"

lemma saveMaxFileId_fits:
  assumes "21 \<le> fs_room s"
  shows "snd (saveMaxFileId s path m)"
proof -
  let ?tmp = "path @ ''.tmp''" and ?str = "format_uint 10 (unat m) @ [CHR 0x0A]"
  obtain w1 okw where w: "file_write (os_Create s ?tmp) (string_bytes ?str) = (w1, okw)" by fastforce
  have e: "at_end (fs_files s) \<lparr>f_name = ?tmp, f_pos = 0, f_append = False\<rparr> (os_Create s ?tmp)"
    by (simp add: at_end_def os_Create_def file_content_def)
  have "unat m < 10 ^ 20" using unat_bound [of m] by simp
  then have "length (format_uint 10 (unat m)) \<le> 20"
    using length_digits_le [of 10 "unat m" 20] by (simp add: format_uint_def)
  then have ok: "okw" using file_write_at_end(3) [OF e w] assms by (simp add: string_bytes_def os_Create_def)
  have "fs_files (fst w1) ?tmp \<noteq> None" using file_write_at_end(1) [OF e w] by (simp add: at_end_def)
  then show ?thesis using w ok by (cases w1) (auto simp: saveMaxFileId_def Let_def os_Rename_def)
qed

lemma FileSequencer_NextFileId_ok:
  assumes ok: "fq_ok s q" and room: "21 \<le> fs_room s"
    and wrap: "unat (fq_current q) + unat (fq_step q) + unat (batch n) < 2 ^ 64"
    and run: "FileSequencer_NextFileId s q n = (first, s', q')"
  shows "fq_ok s' q'"
proof -
  let ?p = "fq_path (fq_dir q)" and ?new = "fq_current q + fq_step q + batch n"
  obtain s1 okw where sv: "saveMaxFileId s ?p ?new = (s1, okw)" by fastforce
  have "okw" using saveMaxFileId_fits [OF room, of ?p ?new] sv by simp
  then have disk: "loadMaxFileId s1 ?p = Some ?new" using saveMaxFileId_outcome(1) [OF sv] by simp
  have le: "fq_current q + batch n \<le> ?new"
    using wrap by (simp add: word_le_nat_alt unat_word_ariths)
  show ?thesis
    using run ok sv \<open>okw\<close> disk le
    by (auto simp: FileSequencer_NextFileId_def batch_def [symmetric] Let_def fq_ok_def not_less split: if_splits)
qed

lemma FileSequencer_SetMax_ok:
  assumes ok: "fq_ok s q" and room: "21 \<le> fs_room s" and wrap: "unat m + unat (fq_step q) < 2 ^ 64"
    and run: "FileSequencer_SetMax s q m = (s', q')"
  shows "fq_ok s' q'"
proof -
  let ?p = "fq_path (fq_dir q)" and ?new = "m + fq_step q"
  obtain s1 okw where sv: "saveMaxFileId s ?p ?new = (s1, okw)" by fastforce
  have "okw" using saveMaxFileId_fits [OF room, of ?p ?new] sv by simp
  then have disk: "loadMaxFileId s1 ?p = Some ?new" using saveMaxFileId_outcome(1) [OF sv] by simp
  have "m \<le> ?new" using wrap by (simp add: word_le_nat_alt unat_word_ariths)
  then show ?thesis
    using run ok sv \<open>okw\<close> disk by (auto simp: FileSequencer_SetMax_def Let_def fq_ok_def split: if_splits)
qed

text \<open>Runs in which every save has room and the ceiling stays within 64 bits.\<close>

inductive fq_run :: "fsys \<times> FileSequencer \<Rightarrow> (nat \<times> nat) list \<Rightarrow> fsys \<times> FileSequencer \<Rightarrow> bool" for st0 where
  fstart: "fq_run st0 [] st0"
| falloc: "fq_run st0 bs (s, q) \<Longrightarrow> 21 \<le> fs_room s \<Longrightarrow>
    unat (fq_current q) + unat (fq_step q) + unat (batch n) < 2 ^ 64 \<Longrightarrow>
    FileSequencer_NextFileId s q n = (first, s', q') \<Longrightarrow>
    fq_run st0 (bs @ [(unat first, unat first + unat (batch n) - 1)]) (s', q')"
| fraise: "fq_run st0 bs (s, q) \<Longrightarrow> 21 \<le> fs_room s \<Longrightarrow> unat m + unat (fq_step q) < 2 ^ 64 \<Longrightarrow>
    FileSequencer_SetMax s q m = (s', q') \<Longrightarrow> fq_run st0 bs (s', q')"

lemma fq_run_ok:
  "fq_run st0 bs st \<Longrightarrow> fq_ok (fst st0) (snd st0) \<Longrightarrow>
   fq_ok (fst st) (snd st) \<and> seq_trace fileseq_next fileseq_setMax st0 bs st \<and> fq_dir (snd st) = fq_dir (snd st0)"
proof (induction rule: fq_run.induct)
  case (falloc bs s q n first s' q')
  have f: "first = fq_current q + 1" using FileSequencer_NextFileId_current(1) [OF falloc(4)] .
  have b: "0 < unat (batch n)" by (simp add: batch_def unat_gt_0)
  have "unat first = unat (fq_current q) + 1" using f falloc(3) b by (simp add: unat_word_ariths)
  then have "first \<noteq> 0" "unat first + unat (batch n) \<le> 2 ^ 64" using falloc(3) by auto
  moreover have "fileseq_next (s, q) n = (first, (s', q'))" by (simp add: fileseq_next_def falloc(4))
  ultimately have "seq_trace fileseq_next fileseq_setMax st0 (bs @ [(unat first, unat first + unat (batch n) - 1)]) (s', q')"
    using falloc.IH [OF falloc.prems] by (blast intro: seq_trace.alloc)
  then show ?case
    using falloc FileSequencer_NextFileId_ok [OF _ falloc(2,3,4)] FileSequencer_NextFileId_current(3) [OF falloc(4)]
    by simp
next
  case (fraise bs s q m s' q')
  have "fileseq_setMax (s, q) m = (s', q')" by (simp add: fileseq_setMax_def fraise(4))
  then show ?case
    using fraise FileSequencer_SetMax_ok [OF _ fraise(2,3,4)] FileSequencer_SetMax_current(2) [OF fraise(4)]
      seq_trace.raise [of fileseq_next fileseq_setMax st0 bs "(s, q)" m] by auto
qed (simp add: seq_trace.start)

text \<open>C29: no id is reused after a crash. After any run in which the saves had room, a sequencer started
  from what is on disk, at any moment and without a clean shutdown, begins above every id the
  previous one handed out.\<close>

theorem FileSequencer_crash_safe:
  assumes "fq_ok s q" "fq_run (s, q) bs (s', q')"
  shows "\<exists>q''. NewFileSequencer s' (fq_dir q) step = Some q'' \<and>
     (\<forall>(a, b) \<in> set bs. b \<le> unat (FileSequencer_GetMax q''))"
proof -
  have ok: "fq_ok s' q'" and tr: "seq_trace fileseq_next fileseq_setMax (s, q) bs (s', q')" and d: "fq_dir q' = fq_dir q"
    using fq_run_ok [OF assms(2)] assms(1) by simp_all
  let ?q = "\<lparr>fq_dir = fq_dir q, fq_step = (if step = 0 then 10000 else step), fq_current = fq_saved q', fq_saved = fq_saved q'\<rparr>"
  have new: "NewFileSequencer s' (fq_dir q) step = Some ?q"
    using ok d by (simp add: NewFileSequencer_def fq_ok_def)
  have "unat (fq_current q') \<le> unat (fq_saved q')" using ok by (simp add: fq_ok_def word_le_nat_alt)
  then have "\<forall>(a, b) \<in> set bs. b \<le> unat (FileSequencer_GetMax ?q)"
    using fileseq.trace_batches [OF tr] by (auto simp: fileseq_getMax_def FileSequencer_GetMax_def)
  with new show ?thesis by blast
qed

theorem FileSequencer_crash_safe_witness:
  "\<exists>s s' q'. fq_ok s sample_seq \<and> fq_run (s, sample_seq) [(6, 8)] (s', q') \<and>
     (\<exists>q''. NewFileSequencer s' ''q'' 10 = Some q'' \<and> 8 \<le> unat (FileSequencer_GetMax q''))"
proof -
  let ?e = "\<lparr>fs_files = (\<lambda>_. None), fs_room = 1000\<rparr>"
  obtain s1 okw where sv: "saveMaxFileId ?e (fq_path ''q'') 5 = (s1, okw)" by fastforce
  have "okw" using saveMaxFileId_fits [of ?e "fq_path ''q''" 5] sv by simp
  define s where "s = s1\<lparr>fs_room := 1000\<rparr>"
  have "loadMaxFileId s (fq_path ''q'') = Some 5"
    using saveMaxFileId_outcome(1) [OF sv \<open>okw\<close>] by (simp add: s_def loadMaxFileId_def)
  then have ok: "fq_ok s sample_seq" by (simp add: fq_ok_def sample_seq_def)
  obtain first s' q' where run: "FileSequencer_NextFileId s sample_seq 3 = (first, s', q')" by (metis prod.collapse)
  then have first: "first = 6"
    using FileSequencer_NextFileId_current(1) [OF run] by (simp add: sample_seq_def)
  have "fq_run (s, sample_seq) ([] @ [(unat first, unat first + unat (batch 3) - 1)]) (s', q')"
    by (rule fq_run.falloc [OF fq_run.fstart _ _ run]) (simp_all add: s_def sample_seq_def batch_def)
  then have r: "fq_run (s, sample_seq) [(6, 8)] (s', q')" by (simp add: first batch_def)
  have "fq_dir sample_seq = ''q''" by (simp add: sample_seq_def)
  then show ?thesis using ok r FileSequencer_crash_safe [OF ok r, of 10] by auto
qed

section \<open>The Raft sequencer\<close>

lemma RaftSequencer_SetMax_current:
  "fq_current (rq_wrapped (snd (RaftSequencer_SetMax st m))) = max (fq_current (rq_wrapped (snd st))) m"
  using FileSequencer_SetMax_current(1) [of "fst st" "rq_wrapped (snd st)" m]
  by (cases st) (auto simp: RaftSequencer_SetMax_def split: prod.splits)

lemma fold_SetMax_current:
  "fq_current (rq_wrapped (snd st)) \<le> fq_current (rq_wrapped (snd (fold (\<lambda>m st. RaftSequencer_SetMax st m) evts st)))"
proof (induction evts arbitrary: st)
  case (Cons m evts)
  have "fq_current (rq_wrapped (snd st)) \<le> fq_current (rq_wrapped (snd (RaftSequencer_SetMax st m)))"
    by (simp add: RaftSequencer_SetMax_current)
  then show ?case using Cons.IH [of "RaftSequencer_SetMax st m"] by simp
qed simp

lemma RaftSequencer_sync_wrapped [simp]: "rq_wrapped (RaftSequencer_sync app m rs) = rq_wrapped rs"
  by (simp add: RaftSequencer_sync_def split: prod.splits bool.splits)

lemma RaftSequencer_NextFileId_current:
  assumes "RaftSequencer_NextFileId app evts st n = (first, st')"
  shows "fq_current (rq_wrapped (snd st')) = first + (batch n - 1)"
    and "\<exists>c. fq_current (rq_wrapped (snd st)) \<le> c \<and> first = c + 1"
    and "evts = [] \<Longrightarrow> first = fq_current (rq_wrapped (snd st)) + 1"
proof -
  let ?st1 = "(fst st, RaftSequencer_sync app (fq_current (rq_wrapped (snd st)) + batch n) (snd st))"
  let ?st2 = "fold (\<lambda>m st. RaftSequencer_SetMax st m) evts ?st1"
  obtain s2 rs2 where st2: "?st2 = (s2, rs2)" by fastforce
  obtain s' q' where al: "FileSequencer_NextFileId s2 (rq_wrapped rs2) (batch n) = (first, s', q')"
    and st': "st' = (s', rs2\<lparr>rq_wrapped := q'\<rparr>)"
    using assms st2 unfolding RaftSequencer_NextFileId_def Let_def batch_def [symmetric]
    by (auto simp: RaftSequencer_alloc_def split: prod.splits)
  note c = FileSequencer_NextFileId_current [OF al]
  have "batch (batch n) = batch n" by (simp add: batch_def)
  then show "fq_current (rq_wrapped (snd st')) = first + (batch n - 1)" using c st' by simp
  have "fq_current (rq_wrapped (snd st)) \<le> fq_current (rq_wrapped rs2)"
    using fold_SetMax_current [of ?st1 evts] st2 by simp
  then show "\<exists>c. fq_current (rq_wrapped (snd st)) \<le> c \<and> first = c + 1" using c(1) by blast
  show "evts = [] \<Longrightarrow> first = fq_current (rq_wrapped (snd st)) + 1" using c(1) st2 by auto
qed

lemma foldr_max_shift: "foldr max (xs :: u64 list) (max a m) = max (foldr max xs a) m"
  by (induction xs) (simp_all add: max.assoc)

lemma fold_SetMax_max:
  "fq_current (rq_wrapped (snd (fold (\<lambda>m st. RaftSequencer_SetMax st m) evts st))) =
   foldr max evts (fq_current (rq_wrapped (snd st)))"
  by (induction evts arbitrary: st) (simp_all add: RaftSequencer_SetMax_current foldr_max_shift max.commute [of _ "foldr max _ _"])

lemma fold_SetMax_raft: "rq_raft (snd (fold (\<lambda>m st. RaftSequencer_SetMax st m) evts st)) = rq_raft (snd st)"
proof (induction evts arbitrary: st)
  case (Cons m evts)
  have "rq_raft (snd (RaftSequencer_SetMax st m)) = rq_raft (snd st)"
    by (simp add: RaftSequencer_SetMax_def split: prod.splits)
  then show ?case using Cons.IH by simp
qed simp

lemma RaftSequencer_NextFileId_first:
  "fst (RaftSequencer_NextFileId app evts (s, rs) n) = foldr max evts (fq_current (rq_wrapped rs)) + 1"
proof -
  have "fst (FileSequencer_NextFileId s' q m) = fq_current q + 1" for s' q m
    using FileSequencer_NextFileId_current(1) [of s' q m] by (metis prod.collapse)
  then show ?thesis
    by (simp add: RaftSequencer_NextFileId_def RaftSequencer_alloc_def Let_def case_prod_beta fold_SetMax_max)
qed

lemma RaftSequencer_NextFileId_raft:
  assumes "RaftSequencer_NextFileId app evts (s, rs) n = (first, (s', rs'))"
  shows "rq_raft rs' = rq_raft (RaftSequencer_sync app (fq_current (rq_wrapped rs) + batch n) rs)"
proof -
  have "rq_raft (snd (snd (RaftSequencer_NextFileId app evts (s, rs) n))) =
        rq_raft (RaftSequencer_sync app (fq_current (rq_wrapped rs) + batch n) rs)"
    by (simp add: RaftSequencer_NextFileId_def RaftSequencer_alloc_def Let_def case_prod_beta batch_def fold_SetMax_raft)
  then show ?thesis using assms by simp
qed

definition raftseq_getMax where "raftseq_getMax st = fq_current (rq_wrapped (snd st))"

text \<open>Whatever the consensus engine answers, and whatever events arrive during the call, the
  Raft sequencer meets the interface.\<close>

interpretation raftseq: Sequencer_contract
  "\<lambda>st n. RaftSequencer_NextFileId app (evts st n) st n" RaftSequencer_SetMax raftseq_getMax for app evts
proof
  fix s :: "fsys \<times> 'a RaftSequencer" and n first s'
  assume run: "RaftSequencer_NextFileId app (evts s n) s n = (first, s')"
  note c = RaftSequencer_NextFileId_current [OF run]
  show "raftseq_getMax s' = first + (batch n - 1)" using c(1) by (simp add: raftseq_getMax_def)
  show "first \<noteq> 0 \<Longrightarrow> raftseq_getMax s < first"
    using c(2) less_plus_one by (auto simp: raftseq_getMax_def intro: le_less_trans)
next
  fix s :: "fsys \<times> 'a RaftSequencer" and m
  show "raftseq_getMax (RaftSequencer_SetMax s m) = max (raftseq_getMax s) m"
    by (simp add: raftseq_getMax_def RaftSequencer_SetMax_current)
qed

text \<open>The Raft sequencer issues every id at most once on one master, whatever the consensus engine
  answers and whichever replicated events arrive while a call waits for it.\<close>

theorem RaftSequencer_unique:
  assumes "seq_trace (\<lambda>st n. RaftSequencer_NextFileId app (evts st n) st n) RaftSequencer_SetMax st bs st'"
  shows "(\<forall>(a, b) \<in> set bs. unat (raftseq_getMax st) < a \<and> a \<le> b \<and> b \<le> unat (raftseq_getMax st')) \<and>
         sorted_wrt (\<lambda>(a, b) (c, d). b < c) bs"
  using raftseq.trace_batches [OF assms] by simp

subsection \<open>The replicated watermark\<close>

text \<open>What the sequencer relies on of \<open>RaftApplier\<close>: a command that was applied is covered by the
  committed watermark, and the watermark does not decrease.\<close>

locale raft_applier =
  fixes app :: "'r \<Rightarrow> u64 \<Rightarrow> 'r \<times> bool" and committed :: "'r \<Rightarrow> u64"
  assumes app_covers: "app r m = (r', True) \<Longrightarrow> m \<le> committed r'"
    and app_mono: "app r m = (r', ok) \<Longrightarrow> committed r \<le> committed r'"
begin

lemma next_covered:
  assumes run: "RaftSequencer_NextFileId app [] (s, rs) n = (first, (s', rs'))"
    and synced: "rq_lastSyncedId rs \<le> committed (rq_raft rs)"
    and ok: "\<And>r'. app (rq_raft rs) (fq_current (rq_wrapped rs) + batch n) \<noteq> (r', False)"
  shows "first + (batch n - 1) \<le> committed (rq_raft rs') \<and> rq_lastSyncedId rs' \<le> committed (rq_raft rs')"
proof -
  let ?m = "fq_current (rq_wrapped rs) + batch n"
  obtain s1 q where al: "FileSequencer_NextFileId s (rq_wrapped rs) (batch n) = (first, s1, q)"
    and rs': "rs' = (RaftSequencer_sync app ?m rs)\<lparr>rq_wrapped := q\<rparr>"
    using run unfolding RaftSequencer_NextFileId_def Let_def batch_def [symmetric]
    by (auto simp: RaftSequencer_alloc_def split: prod.splits)
  have top: "first + (batch n - 1) = ?m" using FileSequencer_NextFileId_current(1) [OF al] by simp
  show ?thesis
  proof (cases "rq_lastSyncedId rs < ?m")
    case True
    obtain r' where r': "app (rq_raft rs) ?m = (r', True)" using ok by (metis (full_types) surj_pair)
    then show ?thesis unfolding top using True rs' app_covers [OF r'] by (simp add: RaftSequencer_sync_def)
  next
    case False
    then show ?thesis unfolding top using rs' synced by (auto simp: RaftSequencer_sync_def)
  qed
qed

end

definition fsm_apply :: "MasterFSM \<Rightarrow> u64 \<Rightarrow> MasterFSM \<times> bool" where
  "fsm_apply m k = (case ApplyCommand m (MaxFileIdCommand k) of (Inl _, m') \<Rightarrow> (m', False) | (Inr _, m') \<Rightarrow> (m', True))"

lemma fsm_apply_eq: "fsm_apply m k = (m\<lparr>maxFileId := max (maxFileId m) k\<rparr>, True)"
  using ApplyCommand_effect(1) [of m k]
  by (auto simp: fsm_apply_def ApplyCommand_def applyEntry_def json_codec max_def split: prod.splits)

interpretation master_fsm: raft_applier fsm_apply maxFileId
  by unfold_locales (auto simp: fsm_apply_eq)

text \<open>A batch that was allocated without an event in between is covered by the replicated watermark:
  when the command was applied to the master state machine, the last id of the batch is at most
  the highest file id every replica holds, so a new leader starts above it.\<close>

theorem RaftSequencer_replicated:
  assumes "RaftSequencer_NextFileId fsm_apply [] (s, rs) n = (first, (s', rs'))"
    and "rq_lastSyncedId rs \<le> maxFileId (rq_raft rs)"
  shows "first + (batch n - 1) \<le> maxFileId (rq_raft rs')"
  using master_fsm.next_covered [OF assms] by (simp add: fsm_apply_eq)

definition sample_rs :: "MasterFSM RaftSequencer" where
  "sample_rs = \<lparr>rq_wrapped = sample_seq, rq_raft = NewMasterFSM, rq_lastSyncedId = 0\<rparr>"

definition sample_fs0 :: fsys where "sample_fs0 = \<lparr>fs_files = (\<lambda>_. None), fs_room = 0\<rparr>"

theorem RaftSequencer_unique_witness:
  "\<exists>st'. seq_trace (\<lambda>st n. RaftSequencer_NextFileId fsm_apply [8] st n) RaftSequencer_SetMax (sample_fs0, sample_rs) [(9, 11)] st' \<and>
     11 \<le> unat (raftseq_getMax st')"
proof -
  let ?next = "\<lambda>st n. RaftSequencer_NextFileId fsm_apply [8] st n"
  have run: "RaftSequencer_NextFileId fsm_apply [8] (sample_fs0, sample_rs) 3 =
      (9, snd (RaftSequencer_NextFileId fsm_apply [8] (sample_fs0, sample_rs) 3))"
    by (rule prod_eqI) (simp_all add: RaftSequencer_NextFileId_first sample_rs_def sample_seq_def)
  have tr: "seq_trace ?next RaftSequencer_SetMax (sample_fs0, sample_rs)
     ([] @ [(unat (9::u64), unat (9::u64) + unat (batch 3) - 1)]) (snd (RaftSequencer_NextFileId fsm_apply [8] (sample_fs0, sample_rs) 3))"
    by (rule seq_trace.alloc [where nextId = ?next, OF seq_trace.start run]) (simp_all add: batch_def)
  show ?thesis using RaftSequencer_unique [OF tr] tr by (intro exI) (auto simp: batch_def)
qed

theorem RaftSequencer_replicated_witness:
  "\<exists>s' rs'. RaftSequencer_NextFileId fsm_apply [] (sample_fs0, sample_rs) 3 = (6, (s', rs')) \<and> 8 \<le> maxFileId (rq_raft rs')"
proof -
  obtain first s' rs' where run: "RaftSequencer_NextFileId fsm_apply [] (sample_fs0, sample_rs) 3 = (first, (s', rs'))"
    by (metis prod.collapse)
  then have "first = 6" using RaftSequencer_NextFileId_first [of fsm_apply "[]" sample_fs0 sample_rs 3]
    by (simp add: sample_rs_def sample_seq_def)
  then show ?thesis using run RaftSequencer_replicated [OF run] by (auto simp: sample_rs_def NewMasterFSM_def batch_def)
qed

text \<open>The lock is released around the consensus call, and the state machine's own event for that
  command reaches \<open>SetMax\<close>. When it is delivered before the allocation, the batch is allocated above
  the watermark that was replicated for it: the ids 9, 10, 11 are issued under watermark 8.\<close>

lemma event_before_allocation_outruns_watermark:
  "\<exists>s' rs'. RaftSequencer_NextFileId fsm_apply [8] (sample_fs0, sample_rs) 3 = (9, (s', rs')) \<and> maxFileId (rq_raft rs') = 8"
proof -
  obtain first s' rs' where run: "RaftSequencer_NextFileId fsm_apply [8] (sample_fs0, sample_rs) 3 = (first, (s', rs'))"
    by (metis prod.collapse)
  then have "first = 9" using RaftSequencer_NextFileId_first [of fsm_apply "[8]" sample_fs0 sample_rs 3]
    by (simp add: sample_rs_def sample_seq_def)
  moreover have "rq_raft rs' = (NewMasterFSM\<lparr>maxFileId := 8\<rparr>)"
    using RaftSequencer_NextFileId_raft [OF run] by (simp add: sample_rs_def sample_seq_def RaftSequencer_sync_def fsm_apply_eq NewMasterFSM_def batch_def)
  ultimately show ?thesis using run by simp
qed

end
