(* ===== verification/SnowflakeProps.thy ===== *)
theory SnowflakeProps
  imports SequencerProps
begin

text \<open>
  The snowflake sequencer of \<open>sequence/snowflake_sequencer.go\<close>: the layout of an id, that ids increase
  while the clock does not move backwards, and what happens when it does.
\<close>

unbundle bit_operations_syntax

definition sf_ok :: "SnowflakeSequencer \<Rightarrow> bool" where
  "sf_ok s \<longleftrightarrow> sf_nodeId s \<le> 1023 \<and> sf_sequence s \<le> 4095 \<and> unat (sf_lastTime s) < 2 ^ 42"

lemma nat_push_bit_or:
  assumes "(b::nat) < 2 ^ k"
  shows "push_bit k a OR b = a * 2 ^ k + b"
proof -
  have "take_bit k b = b" using assms by (simp add: take_bit_nat_eq_self)
  then have "bit b n \<Longrightarrow> n < k" for n by (metis bit_take_bit_iff)
  then have "push_bit k a AND b = 0" by (intro bit_eqI) (fastforce simp: bit_simps)
  then have "push_bit k a OR b = push_bit k a + b" by (simp add: disjunctive_add_eq_or)
  then show ?thesis by (simp add: push_bit_eq_mult)
qed

lemma unat_push_bit_or:
  fixes a b :: u64
  assumes "unat b < 2 ^ k" "unat a * 2 ^ k < 2 ^ 64"
  shows "unat (push_bit k a OR b) = unat a * 2 ^ k + unat b"
proof -
  have "unat (push_bit k a) = push_bit k (unat a)"
    using assms(2) by (simp add: unsigned_push_bit_eq push_bit_eq_mult [where 'a=nat] take_bit_nat_eq_self)
  then show ?thesis using nat_push_bit_or [OF assms(1), of "unat a"] by (simp add: unsigned_or_eq)
qed

lemma snowflake_id_layout:
  assumes "unat now < 2 ^ 42" "sf_nodeId s \<le> 1023" "sf_sequence s \<le> 4095"
  shows "unat (snowflake_id now s) = unat now * 2 ^ 22 + unat (sf_nodeId s) * 2 ^ 12 + unat (sf_sequence s)"
proof -
  have n: "unat (sf_nodeId s) \<le> 1023" and q: "unat (sf_sequence s) \<le> 4095"
    using assms(2,3) by (simp_all add: word_le_nat_alt)
  have in1: "unat (push_bit 12 (sf_nodeId s) OR sf_sequence s) = unat (sf_nodeId s) * 2 ^ 12 + unat (sf_sequence s)"
    by (rule unat_push_bit_or) (use n q in simp_all)
  show ?thesis unfolding snowflake_id_def timeShiftBits_def nodeIdShiftBits_def or.assoc
    by (subst unat_push_bit_or) (use in1 n q assms(1) in simp_all)
qed

lemma snowflake_id_less:
  assumes "unat t < 2 ^ 42" "unat t' < 2 ^ 42" "sf_nodeId s \<le> 1023" "sf_sequence s \<le> 4095"
    and "sf_nodeId s' = sf_nodeId s" "sf_sequence s' \<le> 4095"
    and "t < t' \<or> t = t' \<and> sf_sequence s < sf_sequence s'"
  shows "snowflake_id t s < snowflake_id t' s'"
proof -
  note l = snowflake_id_layout [OF assms(1,3,4)] snowflake_id_layout [of t' s', OF assms(2)]
  have "unat (sf_sequence s) \<le> 4095" "unat (sf_nodeId s) \<le> 1023" using assms(3,4) by (simp_all add: word_le_nat_alt)
  then have "unat (snowflake_id t s) < unat (snowflake_id t' s')"
    using assms(3,5,6,7) l by (auto simp: word_less_nat_alt)
  then show ?thesis by (simp add: word_less_nat_alt)
qed

lemma wait_until_Some:
  "wait_until P now clock = Some (t, rest) \<Longrightarrow> P t \<and> t \<in> set (now # clock) \<and> set rest \<subseteq> set clock"
proof (induction P now clock rule: wait_until.induct)
  case (1 P now clock)
  show ?case
  proof (cases "P now")
    case True then show ?thesis using 1(2) by simp
  next
    case False
    then obtain u cl where "clock = u # cl" using 1(2) by (cases clock) auto
    then show ?thesis using 1 False by auto
  qed
qed

declare wait_until.simps [simp del]

lemma Snowflake_step:
  assumes run: "Snowflake_NextFileId s count (now # clock) = Some (i, s', rest)"
    and ok: "sf_ok s" and fwd: "sf_lastTime s \<le> now" and small: "\<forall>t \<in> set (now # clock). unat t < 2 ^ 42"
  shows "Snowflake_GetMax s < i" "i = Snowflake_GetMax s'" "sf_ok s'" "sf_lastTime s' \<in> set (now # clock)"
proof -
  have q: "sf_nodeId s \<le> 1023" "sf_sequence s \<le> 4095" "unat (sf_lastTime s) < 2 ^ 42" using ok by (auto simp: sf_ok_def)
  have inc: "sf_sequence s < sf_sequence s + 1"
    using q(2) by (simp add: word_less_nat_alt word_le_nat_alt unat_word_ariths)
  define adv where "adv t = s\<lparr>sf_sequence := 0, sf_lastTime := t\<rparr>" for t
  have up: "Snowflake_GetMax s < snowflake_id t (adv t) \<and> snowflake_id t (adv t) = Snowflake_GetMax (adv t) \<and> sf_ok (adv t)"
    if "sf_lastTime s < t" "unat t < 2 ^ 42" for t
    using snowflake_id_less [of "sf_lastTime s" t s "adv t"] that q by (simp add: Snowflake_GetMax_def sf_ok_def adv_def)
  consider (seq) "now = sf_lastTime s" "sf_sequence s + 1 \<le> 4095" | (over) "now = sf_lastTime s" "4095 < sf_sequence s + 1"
    | (tick) "sf_lastTime s < now" using fwd by fastforce
  then have "Snowflake_GetMax s < i \<and> i = Snowflake_GetMax s' \<and> sf_ok s' \<and> sf_lastTime s' \<in> set (now # clock)"
  proof cases
    case seq
    then have "i = snowflake_id now (s\<lparr>sf_sequence := sf_sequence s + 1\<rparr>)" "s' = s\<lparr>sf_sequence := sf_sequence s + 1\<rparr>"
      using run by (auto simp: Snowflake_NextFileId_def maxSequenceValue_def Let_def not_less [symmetric])
    then show ?thesis
      using snowflake_id_less [of now now s "s\<lparr>sf_sequence := sf_sequence s + 1\<rparr>"] q inc seq
      by (simp add: Snowflake_GetMax_def sf_ok_def)
  next
    case over
    then obtain t where t: "wait_until (\<lambda>t. sf_lastTime s < t) now clock = Some (t, rest)" "i = snowflake_id t (adv t)" "s' = adv t"
      using run by (auto simp: Snowflake_NextFileId_def maxSequenceValue_def adv_def bind_eq_Some_conv Let_def )
    show ?thesis using up [of t] wait_until_Some [OF t(1)] small t(2,3) by (auto simp: adv_def)
  next
    case tick
    then have "i = snowflake_id now (adv now)" "s' = adv now" using run fwd by (auto simp: Snowflake_NextFileId_def adv_def Let_def split: if_splits)
    then show ?thesis using up [of now] tick small by (auto simp: adv_def)
  qed
  then show "Snowflake_GetMax s < i" "i = Snowflake_GetMax s'" "sf_ok s'" "sf_lastTime s' \<in> set (now # clock)" by auto
qed

text \<open>A run of calls, each with the clock readings it sees; none starts before the millisecond of
  the last id.\<close>

inductive sf_trace :: "SnowflakeSequencer \<Rightarrow> u64 list \<Rightarrow> SnowflakeSequencer \<Rightarrow> bool" where
  start: "sf_trace s [] s"
| call: "\<lbrakk>sf_trace s is s1; Snowflake_NextFileId s1 count (now # clock) = Some (i, s2, rest);
          sf_lastTime s1 \<le> now; \<forall>t \<in> set (now # clock). unat t < 2 ^ 42\<rbrakk> \<Longrightarrow> sf_trace s (is @ [i]) s2"

text \<open>While the clock does not move behind the millisecond of the last id, the ids a node issues
  are strictly increasing, so it never issues one twice.\<close>

theorem Snowflake_unique:
  assumes "sf_trace s is s'" and "sf_ok s"
  shows "sorted_wrt (<) is \<and> (\<forall>i \<in> set is. Snowflake_GetMax s < i \<and> i \<le> Snowflake_GetMax s') \<and> sf_ok s'"
proof -
  have "sf_ok s' \<and> Snowflake_GetMax s \<le> Snowflake_GetMax s' \<and> sorted_wrt (<) is \<and>
        (\<forall>i \<in> set is. Snowflake_GetMax s < i \<and> i \<le> Snowflake_GetMax s')"
    using assms
  proof induction
    case (call s "is" s1 count now clock i s2 rest)
    note st = Snowflake_step [OF call.hyps(2) _ call.hyps(3,4)]
    show ?case using call.IH [OF call.prems] st by (fastforce simp: sorted_wrt_append)
  qed simp
  then show ?thesis by blast
qed

theorem Snowflake_unique_witness:
  "\<exists>s'. sf_trace \<lparr>sf_nodeId = 3, sf_lastTime = 10, sf_sequence = 7\<rparr> [41955336, 46149632] s' \<and> sf_ok s' \<and>
     46149632 \<le> Snowflake_GetMax s'"
proof -
  let ?s = "\<lparr>sf_nodeId = 3, sf_lastTime = 10, sf_sequence = 7\<rparr>"
  let ?s1 = "\<lparr>sf_nodeId = 3, sf_lastTime = 10, sf_sequence = 8\<rparr>"
  let ?s2 = "\<lparr>sf_nodeId = 3, sf_lastTime = 11, sf_sequence = 0\<rparr>"
  have 1: "Snowflake_NextFileId ?s 1 [10] = Some (41955336, ?s1, [])" "Snowflake_NextFileId ?s1 1 [11] = Some (46149632, ?s2, [])"
    by (simp_all add: Snowflake_NextFileId_def maxSequenceValue_def snowflake_id_def timeShiftBits_def nodeIdShiftBits_def)
  have tr: "sf_trace ?s ([41955336] @ [46149632]) ?s2"
    by (rule sf_trace.call [OF _ 1(2)], rule sf_trace.call [OF sf_trace.start 1(1), simplified]) simp_all
  show ?thesis using Snowflake_unique [OF tr] tr by (intro exI [of _ ?s2]) (simp add: sf_ok_def)
qed

text \<open>When the clock moves back and the wait ends in the millisecond of the last id, the sequence is
  reset within that millisecond and ids repeat: here the second call returns the first id again.\<close>

lemma Snowflake_clock_back_repeats:
  "\<exists>s1 s2 s3 i. Snowflake_NextFileId \<lparr>sf_nodeId = 3, sf_lastTime = 9, sf_sequence = 0\<rparr> 1 [10] = Some (i, s1, []) \<and>
     Snowflake_NextFileId s1 1 [9, 10] = Some (i, s2, [])"
  by (simp add: Snowflake_NextFileId_def snowflake_id_def wait_until.simps)

text \<open>A call for a batch issues one id: the interface promises a batch of \<open>count\<close>, and the ids of
  the next call lie inside it.\<close>

lemma Snowflake_ignores_count:
  "Snowflake_NextFileId s count clock = Snowflake_NextFileId s 1 clock"
  by (simp add: Snowflake_NextFileId_def)

end
