(* ===== verification/NativeRaft.thy ===== *)
theory NativeRaft
  imports GoPrelude
begin

text \<open>
  The native Raft engine of \<open>consensus/native/engine.go\<close>, with the messages and the in-memory network
  of \<open>network.go\<close> and the persisted state of \<open>store.go\<close>. A method that holds the engine's mutex
  throughout is one function on the engine. A method that releases it around a remote call is given
  by its locked segments, and composed again over the in-memory network at the end. Terms and
  indexes are 64-bit words. The state machine is the argument \<open>sm\<close>; a tick of the clock is the call of
  the operation it triggers.
\<close>

section \<open>Entries, messages and the persisted state\<close>

datatype State = StateFollower | StateCandidate | StateLeader

record 'c native_LogEntry =
  en_Index :: u64
  en_Term :: u64
  en_Command :: "'c option"

record SnapshotRecord =
  sn_Index :: u64
  sn_Term :: u64
  sn_Data :: bytes

record 'c persistedState =
  ps_CurrentTerm :: u64
  ps_VotedFor :: string
  ps_Log :: "'c native_LogEntry list"
  ps_CommitIndex :: u64
  ps_Snapshot :: SnapshotRecord

definition empty_snapshot :: SnapshotRecord where
  "empty_snapshot = \<lparr>sn_Index = 0, sn_Term = 0, sn_Data = []\<rparr>"

text \<open>\<open>NewMemoryStore\<close>, and what a missing state file loads as.\<close>

definition empty_persisted :: "'c persistedState" where
  "empty_persisted = \<lparr>ps_CurrentTerm = 0, ps_VotedFor = [], ps_Log = [], ps_CommitIndex = 0, ps_Snapshot = empty_snapshot\<rparr>"

record requestVoteRequest =
  rv_Term :: u64
  rv_CandidateID :: string
  rv_LastLogIndex :: u64
  rv_LastLogTerm :: u64

record requestVoteResponse =
  rvr_Term :: u64
  rvr_VoteGranted :: bool

record 'c appendEntriesRequest =
  ae_Term :: u64
  ae_LeaderID :: string
  ae_PrevLogIndex :: u64
  ae_PrevLogTerm :: u64
  ae_Entries :: "'c native_LogEntry list"
  ae_LeaderCommit :: u64

record appendEntriesResponse =
  aer_Term :: u64
  aer_Success :: bool
  aer_MatchIndex :: u64

record installSnapshotRequest =
  is_Term :: u64
  is_LeaderID :: string
  is_LastIncludedIndex :: u64
  is_LastIncludedTerm :: u64
  is_Data :: bytes

record installSnapshotResponse =
  isr_Term :: u64
  isr_Success :: bool

section \<open>The engine\<close>

text \<open>The state machine: what \<open>Apply\<close> does to it, and, when it implements \<open>SnapshotStateMachine\<close>, its
  \<open>Snapshot\<close> and \<open>Restore\<close>, each of which may fail.\<close>

record ('c, 'f) StateMachine =
  sm_Apply :: "'c \<Rightarrow> 'f \<Rightarrow> 'f"
  sm_Snapshots :: "(('f \<Rightarrow> bytes option) \<times> (bytes \<Rightarrow> 'f \<Rightarrow> 'f option)) option"

text \<open>\<open>e_store\<close> is what the store holds and \<open>e_save_ok\<close> whether saving succeeds at the moment. A Go map
  that is only read by key is a function with the zero value as its default. \<open>e_events\<close> are the
  leadership changes published so far.\<close>

record ('c, 'f) Engine =
  e_id :: string
  e_peers :: "string list"
  e_store :: "'c persistedState"
  e_save_ok :: bool
  e_fsm :: 'f
  e_state :: State
  e_currentTerm :: u64
  e_votedFor :: string
  e_log :: "'c native_LogEntry list"
  e_commitIndex :: u64
  e_lastApplied :: u64
  e_snapshot :: SnapshotRecord
  e_leaderID :: string
  e_nextIndex :: "string \<Rightarrow> u64"
  e_matchIndex :: "string \<Rightarrow> u64"
  e_snapshotThreshold :: u64
  e_closed :: bool
  e_events :: "bool list"

datatype raft_error = ErrIdRequired | ErrPeersRequired | ErrCannotRestore | ErrRestoreFailed
  | ErrClosed | ErrNotLeader string | ErrSnapshotFailed | ErrSaveFailed | ErrApplyTimeout | ErrBarrierTimeout

subsection \<open>Helpers that run under the lock\<close>

definition persisted :: "('c, 'f) Engine \<Rightarrow> 'c persistedState" where
  "persisted e = \<lparr>ps_CurrentTerm = e_currentTerm e, ps_VotedFor = e_votedFor e, ps_Log = e_log e,
     ps_CommitIndex = e_commitIndex e, ps_Snapshot = e_snapshot e\<rparr>"

definition persistLocked :: "('c, 'f) Engine \<Rightarrow> ('c, 'f) Engine" where
  "persistLocked e = (if e_save_ok e then e\<lparr>e_store := persisted e\<rparr> else e)"

definition quorumLocked :: "('c, 'f) Engine \<Rightarrow> nat" where
  "quorumLocked e = length (e_peers e) div 2 + 1"

definition lastIndexLocked :: "('c, 'f) Engine \<Rightarrow> u64" where
  "lastIndexLocked e = (if e_log e = [] then sn_Index (e_snapshot e) else en_Index (last (e_log e)))"

definition entryAtLocked :: "('c, 'f) Engine \<Rightarrow> u64 \<Rightarrow> 'c native_LogEntry option" where
  "entryAtLocked e index = List.find (\<lambda>en. en_Index en = index) (e_log e)"

definition termAtLocked :: "('c, 'f) Engine \<Rightarrow> u64 \<Rightarrow> u64" where
  "termAtLocked e index =
     (if index = 0 then 0
      else if index = sn_Index (e_snapshot e) then sn_Term (e_snapshot e)
      else case List.find (\<lambda>en. en_Index en = index) (e_log e) of Some en \<Rightarrow> en_Term en | None \<Rightarrow> 0)"

definition entriesFromLocked :: "('c, 'f) Engine \<Rightarrow> u64 \<Rightarrow> 'c native_LogEntry list" where
  "entriesFromLocked e index = filter (\<lambda>en. en_Index en \<ge> (if index = 0 then 1 else index)) (e_log e)"

definition matchCountLocked :: "('c, 'f) Engine \<Rightarrow> u64 \<Rightarrow> nat" where
  "matchCountLocked e index =
     length (filter (\<lambda>peer. if peer = e_id e then lastIndexLocked e \<ge> index else e_matchIndex e peer \<ge> index) (e_peers e))"

definition truncateAfterLocked :: "u64 \<Rightarrow> ('c, 'f) Engine \<Rightarrow> ('c, 'f) Engine" where
  "truncateAfterLocked index e =
     (let index = (if index < sn_Index (e_snapshot e) then sn_Index (e_snapshot e) else index) in
      e\<lparr>e_log := filter (\<lambda>en. en_Index en \<le> index) (e_log e),
        e_commitIndex := if e_commitIndex e > index then index else e_commitIndex e,
        e_lastApplied := if e_lastApplied e > index then index else e_lastApplied e\<rparr>)"

definition compactThroughLocked :: "u64 \<Rightarrow> ('c, 'f) Engine \<Rightarrow> ('c, 'f) Engine" where
  "compactThroughLocked index e = e\<lparr>e_log := filter (\<lambda>en. en_Index en > index) (e_log e)\<rparr>"

text \<open>One turn of the loop of \<open>applyCommittedLocked\<close>, and the loop, which takes \<open>commitIndex -
  lastApplied\<close> turns.\<close>

definition apply_one :: "('c, 'f) StateMachine \<Rightarrow> ('c, 'f) Engine \<Rightarrow> ('c, 'f) Engine" where
  "apply_one sm e =
     (let e1 = e\<lparr>e_lastApplied := e_lastApplied e + 1\<rparr> in
      case entryAtLocked e1 (e_lastApplied e1) of
        None \<Rightarrow> e1
      | Some en \<Rightarrow> (case en_Command en of None \<Rightarrow> e1 | Some c \<Rightarrow> e1\<lparr>e_fsm := sm_Apply sm c (e_fsm e1)\<rparr>))"

function applyCommittedLocked :: "('c, 'f) StateMachine \<Rightarrow> ('c, 'f) Engine \<Rightarrow> ('c, 'f) Engine" where
  "applyCommittedLocked sm e =
     (if e_lastApplied e < e_commitIndex e then applyCommittedLocked sm (apply_one sm e) else e)"
  by pat_completeness auto

lemma apply_one_fields [simp]:
  "e_lastApplied (apply_one sm e) = e_lastApplied e + 1" "e_commitIndex (apply_one sm e) = e_commitIndex e"
  "e_log (apply_one sm e) = e_log e" "e_snapshot (apply_one sm e) = e_snapshot e"
  "e_currentTerm (apply_one sm e) = e_currentTerm e" "e_votedFor (apply_one sm e) = e_votedFor e"
  "e_state (apply_one sm e) = e_state e" "e_id (apply_one sm e) = e_id e" "e_peers (apply_one sm e) = e_peers e"
  "e_store (apply_one sm e) = e_store e" "e_save_ok (apply_one sm e) = e_save_ok e"
  by (simp_all add: apply_one_def Let_def split: option.splits)

lemma word_succ_less: "(a :: u64) < b \<Longrightarrow> unat (a + 1) = unat a + 1"
proof -
  assume "a < b"
  then have "unat a + 1 < 2 ^ 64" using unat_bound [of b] by (simp add: word_less_nat_alt)
  then show "unat (a + 1) = unat a + 1" by (simp add: unat_word_ariths)
qed

termination applyCommittedLocked
  by (relation "measure (\<lambda>(_, e). unat (e_commitIndex e) - unat (e_lastApplied e))")
     (auto simp: word_succ_less word_less_nat_alt)

declare applyCommittedLocked.simps [simp del]

definition maybeSnapshotLocked ::
  "('c, 'f) StateMachine \<Rightarrow> ('c, 'f) Engine \<Rightarrow> raft_error option \<times> ('c, 'f) Engine" where
  "maybeSnapshotLocked sm e =
     (if e_snapshotThreshold e = 0 \<or> e_commitIndex e = 0 then (None, e)
      else if e_commitIndex e - sn_Index (e_snapshot e) < e_snapshotThreshold e then (None, e)
      else case sm_Snapshots sm of
             None \<Rightarrow> (None, e)
           | Some (snapshot, _) \<Rightarrow>
               (case snapshot (e_fsm e) of
                  None \<Rightarrow> (Some ErrSnapshotFailed, e)
                | Some d \<Rightarrow>
                    let s = \<lparr>sn_Index = e_commitIndex e, sn_Term = termAtLocked e (e_commitIndex e), sn_Data = d\<rparr>;
                        e1 = compactThroughLocked (sn_Index s) (e\<lparr>e_snapshot := s\<rparr>)
                    in (if e_save_ok e1 then None else Some ErrSaveFailed, persistLocked e1)))"

definition stepDownLocked :: "u64 \<Rightarrow> string \<Rightarrow> ('c, 'f) Engine \<Rightarrow> ('c, 'f) Engine" where
  "stepDownLocked t leader e =
     (let e1 = persistLocked (e\<lparr>e_state := StateFollower, e_currentTerm := t, e_votedFor := [], e_leaderID := leader\<rparr>)
      in if e_state e = StateLeader then e1\<lparr>e_events := e_events e1 @ [False]\<rparr> else e1)"

definition becomeLeaderLocked :: "('c, 'f) Engine \<Rightarrow> ('c, 'f) Engine" where
  "becomeLeaderLocked e =
     e\<lparr>e_state := StateLeader, e_leaderID := e_id e,
       e_nextIndex := (\<lambda>p. if p \<in> set (e_peers e) then lastIndexLocked e + 1 else e_nextIndex e p),
       e_matchIndex := (\<lambda>p. if p = e_id e then lastIndexLocked e
                            else if p \<in> set (e_peers e) then 0 else e_matchIndex e p),
       e_events := e_events e @ [True]\<rparr>"

text \<open>The loop of \<open>advanceCommitLocked\<close> walks down from the last index.\<close>

function commit_candidate :: "('c, 'f) Engine \<Rightarrow> u64 \<Rightarrow> u64 option" where
  "commit_candidate e idx =
     (if idx > e_commitIndex e
      then if termAtLocked e idx = e_currentTerm e \<and> matchCountLocked e idx \<ge> quorumLocked e then Some idx
           else commit_candidate e (idx - 1)
      else None)"
  by pat_completeness auto

lemma word_pred_less: "(a :: u64) < b \<Longrightarrow> unat (b - 1) < unat b"
proof -
  assume "a < b"
  then have "b \<noteq> 0" by auto
  then have "unat (b - 1) = unat b - 1" "unat b \<noteq> 0" by (simp_all add: unat_minus_one unat_eq_0)
  then show "unat (b - 1) < unat b" by simp
qed

termination commit_candidate
  by (relation "measure (\<lambda>(e, idx). unat idx)") (simp_all add: word_pred_less)

declare commit_candidate.simps [simp del]

definition advanceCommitLocked :: "('c, 'f) StateMachine \<Rightarrow> ('c, 'f) Engine \<Rightarrow> ('c, 'f) Engine" where
  "advanceCommitLocked sm e =
     (case commit_candidate e (lastIndexLocked e) of
        None \<Rightarrow> e
      | Some idx \<Rightarrow> snd (maybeSnapshotLocked sm (applyCommittedLocked sm (persistLocked (e\<lparr>e_commitIndex := idx\<rparr>)))))"

section \<open>Construction and membership\<close>

text \<open>\<open>NewEngine\<close> up to the start of the transport and of the two loops; the store is loaded into
  \<open>p\<close>. Saving succeeds at first.\<close>

definition NewEngine ::
  "('c, 'f) StateMachine \<Rightarrow> string \<Rightarrow> string list \<Rightarrow> u64 \<Rightarrow> 'f \<Rightarrow> 'c persistedState \<Rightarrow> raft_error + ('c, 'f) Engine"
where
  "NewEngine sm i peers threshold f p =
     (if i = [] then Inl ErrIdRequired
      else if peers = [] then Inl ErrPeersRequired
      else
        (let e = \<lparr>e_id = i, e_peers = peers, e_store = p, e_save_ok = True, e_fsm = f, e_state = StateFollower,
                  e_currentTerm = ps_CurrentTerm p, e_votedFor = ps_VotedFor p, e_log = ps_Log p,
                  e_commitIndex = ps_CommitIndex p, e_lastApplied = sn_Index (ps_Snapshot p),
                  e_snapshot = ps_Snapshot p, e_leaderID = [], e_nextIndex = (\<lambda>_. 0), e_matchIndex = (\<lambda>_. 0),
                  e_snapshotThreshold = threshold, e_closed = False, e_events = []\<rparr>
         in if sn_Data (e_snapshot e) = [] then Inr (applyCommittedLocked sm e)
            else case sm_Snapshots sm of
                   None \<Rightarrow> Inl ErrCannotRestore
                 | Some (_, restore) \<Rightarrow>
                     (case restore (sn_Data (e_snapshot e)) (e_fsm e) of
                        None \<Rightarrow> Inl ErrRestoreFailed
                      | Some f' \<Rightarrow> Inr (applyCommittedLocked sm (e\<lparr>e_fsm := f'\<rparr>)))))"

definition IsLeader :: "('c, 'f) Engine \<Rightarrow> bool" where
  "IsLeader e \<longleftrightarrow> \<not> e_closed e \<and> e_state e = StateLeader"

definition AddPeer :: "string \<Rightarrow> ('c, 'f) Engine \<Rightarrow> ('c, 'f) Engine" where
  "AddPeer addr e = (if addr \<in> set (e_peers e) then e else e\<lparr>e_peers := e_peers e @ [addr]\<rparr>)"

definition RemovePeer :: "string \<Rightarrow> ('c, 'f) Engine \<Rightarrow> ('c, 'f) Engine" where
  "RemovePeer addr e =
     e\<lparr>e_peers := filter (\<lambda>p. p \<noteq> addr) (e_peers e),
       e_nextIndex := (e_nextIndex e)(addr := 0), e_matchIndex := (e_matchIndex e)(addr := 0)\<rparr>"

definition Shutdown :: "('c, 'f) Engine \<Rightarrow> ('c, 'f) Engine" where
  "Shutdown e = (if e_closed e then e else e\<lparr>e_closed := True\<rparr>)"

text \<open>One poll of \<open>Barrier\<close>; the call returns at the first poll that decides.\<close>

definition Barrier_poll :: "('c, 'f) Engine \<Rightarrow> (raft_error + unit) option" where
  "Barrier_poll e =
     (if e_closed e then Some (Inl ErrClosed)
      else if e_lastApplied e \<ge> e_commitIndex e then Some (Inr ()) else None)"

section \<open>The election\<close>

text \<open>\<open>startElection\<close> in its three parts: the locked start, which gives the request for every peer; the
  tally of the answers, one per peer in order, \<open>None\<close> when the call failed, which ends early at a
  larger term; and the locked end.\<close>

definition startElection_begin :: "('c, 'f) Engine \<Rightarrow> (('c, 'f) Engine \<times> requestVoteRequest) option" where
  "startElection_begin e =
     (if e_closed e \<or> e_state e = StateLeader then None
      else let e1 = e\<lparr>e_state := StateCandidate, e_currentTerm := e_currentTerm e + 1, e_votedFor := e_id e, e_leaderID := []\<rparr>
           in Some (persistLocked e1,
                \<lparr>rv_Term = e_currentTerm e1, rv_CandidateID = e_id e, rv_LastLogIndex = lastIndexLocked e1,
                 rv_LastLogTerm = termAtLocked e1 (lastIndexLocked e1)\<rparr>))"

fun startElection_tally :: "u64 \<Rightarrow> nat \<Rightarrow> requestVoteResponse option list \<Rightarrow> u64 + nat" where
  "startElection_tally t votes [] = Inr votes"
| "startElection_tally t votes (None # rs) = startElection_tally t votes rs"
| "startElection_tally t votes (Some r # rs) =
     (if rvr_Term r > t then Inl (rvr_Term r)
      else startElection_tally t (if rvr_VoteGranted r then votes + 1 else votes) rs)"

definition startElection_end :: "u64 \<Rightarrow> u64 + nat \<Rightarrow> ('c, 'f) Engine \<Rightarrow> ('c, 'f) Engine" where
  "startElection_end t result e =
     (case result of
        Inl t' \<Rightarrow> stepDownLocked t' [] e
      | Inr votes \<Rightarrow>
          if e_closed e \<or> e_state e \<noteq> StateCandidate \<or> e_currentTerm e \<noteq> t then e
          else if votes \<ge> quorumLocked e then becomeLeaderLocked e else e)"

definition upToDate :: "requestVoteRequest \<Rightarrow> ('c, 'f) Engine \<Rightarrow> bool" where
  "upToDate req e \<longleftrightarrow>
     rv_LastLogTerm req > termAtLocked e (lastIndexLocked e) \<or>
     rv_LastLogTerm req = termAtLocked e (lastIndexLocked e) \<and> rv_LastLogIndex req \<ge> lastIndexLocked e"

definition handleRequestVote :: "requestVoteRequest \<Rightarrow> ('c, 'f) Engine \<Rightarrow> requestVoteResponse \<times> ('c, 'f) Engine" where
  "handleRequestVote req e =
     (if rv_Term req < e_currentTerm e then (\<lparr>rvr_Term = e_currentTerm e, rvr_VoteGranted = False\<rparr>, e)
      else let e1 = (if rv_Term req > e_currentTerm e then stepDownLocked (rv_Term req) [] e else e)
           in if (e_votedFor e1 = [] \<or> e_votedFor e1 = rv_CandidateID req) \<and> upToDate req e1
              then let e2 = persistLocked (e1\<lparr>e_votedFor := rv_CandidateID req\<rparr>)
                   in (\<lparr>rvr_Term = e_currentTerm e2, rvr_VoteGranted = True\<rparr>, e2)
              else (\<lparr>rvr_Term = e_currentTerm e1, rvr_VoteGranted = False\<rparr>, e1))"

section \<open>Replication\<close>

definition append_one :: "'c native_LogEntry \<Rightarrow> ('c, 'f) Engine \<Rightarrow> ('c, 'f) Engine" where
  "append_one entry e =
     (if en_Index entry \<le> lastIndexLocked e
      then if termAtLocked e (en_Index entry) \<noteq> en_Term entry
           then (let e1 = truncateAfterLocked (en_Index entry - 1) e in e1\<lparr>e_log := e_log e1 @ [entry]\<rparr>)
           else e
      else e\<lparr>e_log := e_log e @ [entry]\<rparr>)"

definition follow :: "u64 \<Rightarrow> string \<Rightarrow> ('c, 'f) Engine \<Rightarrow> ('c, 'f) Engine" where
  "follow t leader e =
     (let e1 = (if t > e_currentTerm e \<or> e_state e \<noteq> StateFollower then stepDownLocked t leader e else e)
      in e1\<lparr>e_leaderID := leader\<rparr>)"

definition handleAppendEntries ::
  "('c, 'f) StateMachine \<Rightarrow> 'c appendEntriesRequest \<Rightarrow> ('c, 'f) Engine \<Rightarrow> appendEntriesResponse \<times> ('c, 'f) Engine"
where
  "handleAppendEntries sm req e =
     (if ae_Term req < e_currentTerm e
      then (\<lparr>aer_Term = e_currentTerm e, aer_Success = False, aer_MatchIndex = lastIndexLocked e\<rparr>, e)
      else
        (let e1 = follow (ae_Term req) (ae_LeaderID req) e in
         if ae_PrevLogIndex req > lastIndexLocked e1
         then (\<lparr>aer_Term = e_currentTerm e1, aer_Success = False, aer_MatchIndex = lastIndexLocked e1\<rparr>, e1)
         else if ae_PrevLogIndex req > 0 \<and> termAtLocked e1 (ae_PrevLogIndex req) \<noteq> ae_PrevLogTerm req
         then (let e2 = persistLocked (truncateAfterLocked (ae_PrevLogIndex req - 1) e1)
               in (\<lparr>aer_Term = e_currentTerm e2, aer_Success = False, aer_MatchIndex = lastIndexLocked e2\<rparr>, e2))
         else
           (let e2 = fold append_one (ae_Entries req) e1;
                e3 = (if ae_LeaderCommit req > e_commitIndex e2
                      then e2\<lparr>e_commitIndex := min (ae_LeaderCommit req) (lastIndexLocked e2)\<rparr> else e2);
                e4 = applyCommittedLocked sm (persistLocked e3)
            in (\<lparr>aer_Term = e_currentTerm e4, aer_Success = True, aer_MatchIndex = lastIndexLocked e4\<rparr>, e4))))"

definition handleInstallSnapshot ::
  "('c, 'f) StateMachine \<Rightarrow> installSnapshotRequest \<Rightarrow> ('c, 'f) Engine \<Rightarrow> installSnapshotResponse \<times> ('c, 'f) Engine"
where
  "handleInstallSnapshot sm req e =
     (if is_Term req < e_currentTerm e then (\<lparr>isr_Term = e_currentTerm e, isr_Success = False\<rparr>, e)
      else
        (let e1 = follow (is_Term req) (is_LeaderID req) e;
             failed = (\<lparr>isr_Term = e_currentTerm e1, isr_Success = False\<rparr>, e1)
         in case sm_Snapshots sm of
              None \<Rightarrow> failed
            | Some (_, restore) \<Rightarrow>
                (case restore (is_Data req) (e_fsm e1) of
                   None \<Rightarrow> failed
                 | Some f \<Rightarrow>
                     let e2 = compactThroughLocked (is_LastIncludedIndex req)
                                (e1\<lparr>e_fsm := f, e_snapshot := \<lparr>sn_Index = is_LastIncludedIndex req,
                                    sn_Term = is_LastIncludedTerm req, sn_Data = is_Data req\<rparr>\<rparr>);
                         e3 = e2\<lparr>e_commitIndex := if e_commitIndex e2 < is_LastIncludedIndex req
                                                  then is_LastIncludedIndex req else e_commitIndex e2,
                                 e_lastApplied := if e_lastApplied e2 < is_LastIncludedIndex req
                                                  then is_LastIncludedIndex req else e_lastApplied e2\<rparr>;
                         e4 = persistLocked e3
                     in (\<lparr>isr_Term = e_currentTerm e4, isr_Success = True\<rparr>, e4))))"

text \<open>\<open>replicateTo\<close> in its locked parts: the request for a peer, and the handling of the answer. \<open>t\<close> is
  the term in which the request was made.\<close>

datatype 'c replication = SendAppend "'c appendEntriesRequest" | SendSnapshot installSnapshotRequest

definition replicateTo_request :: "string \<Rightarrow> ('c, 'f) Engine \<Rightarrow> 'c replication option" where
  "replicateTo_request peer e =
     (if e_closed e \<or> e_state e \<noteq> StateLeader then None
      else
        (let nxt = (if e_nextIndex e peer = 0 then lastIndexLocked e + 1 else e_nextIndex e peer) in
         if nxt \<le> sn_Index (e_snapshot e) \<and> sn_Data (e_snapshot e) \<noteq> []
         then Some (SendSnapshot \<lparr>is_Term = e_currentTerm e, is_LeaderID = e_id e,
                is_LastIncludedIndex = sn_Index (e_snapshot e), is_LastIncludedTerm = sn_Term (e_snapshot e),
                is_Data = sn_Data (e_snapshot e)\<rparr>)
         else Some (SendAppend \<lparr>ae_Term = e_currentTerm e, ae_LeaderID = e_id e, ae_PrevLogIndex = nxt - 1,
                ae_PrevLogTerm = termAtLocked e (nxt - 1), ae_Entries = entriesFromLocked e nxt,
                ae_LeaderCommit = e_commitIndex e\<rparr>)))"

definition replicateTo_snapshot_reply ::
  "string \<Rightarrow> installSnapshotRequest \<Rightarrow> installSnapshotResponse \<Rightarrow> ('c, 'f) Engine \<Rightarrow> ('c, 'f) Engine" where
  "replicateTo_snapshot_reply peer req resp e =
     (if e_closed e \<or> e_currentTerm e \<noteq> is_Term req \<or> e_state e \<noteq> StateLeader then e
      else if isr_Term resp > e_currentTerm e then stepDownLocked (isr_Term resp) [] e
      else if isr_Success resp
      then e\<lparr>e_matchIndex := (e_matchIndex e)(peer := is_LastIncludedIndex req),
             e_nextIndex := (e_nextIndex e)(peer := is_LastIncludedIndex req + 1)\<rparr>
      else e)"

definition replicateTo_append_reply ::
  "('c, 'f) StateMachine \<Rightarrow> string \<Rightarrow> u64 \<Rightarrow> appendEntriesResponse \<Rightarrow> ('c, 'f) Engine \<Rightarrow> ('c, 'f) Engine" where
  "replicateTo_append_reply sm peer t resp e =
     (if e_closed e \<or> e_currentTerm e \<noteq> t \<or> e_state e \<noteq> StateLeader then e
      else if aer_Term resp > e_currentTerm e then stepDownLocked (aer_Term resp) [] e
      else if aer_Success resp
      then advanceCommitLocked sm (e\<lparr>e_matchIndex := (e_matchIndex e)(peer := aer_MatchIndex resp),
             e_nextIndex := (e_nextIndex e)(peer := aer_MatchIndex resp + 1)\<rparr>)
      else if e_nextIndex e peer > 1
      then e\<lparr>e_nextIndex := (e_nextIndex e)(peer := e_nextIndex e peer - 1)\<rparr> else e)"

text \<open>\<open>Apply\<close>: the locked start, which appends the entry, and the locked check of every round after
  \<open>replicateAll\<close>. \<open>None\<close> means that another round is needed.\<close>

definition Apply_begin :: "'c \<Rightarrow> ('c, 'f) Engine \<Rightarrow> raft_error + (u64 \<times> ('c, 'f) Engine)" where
  "Apply_begin cmd e =
     (if e_closed e then Inl ErrClosed
      else if e_state e \<noteq> StateLeader then Inl (ErrNotLeader (e_leaderID e))
      else let index = lastIndexLocked e + 1
           in Inr (index, persistLocked (e\<lparr>e_log := e_log e @ [\<lparr>en_Index = index, en_Term = e_currentTerm e, en_Command = Some cmd\<rparr>],
                     e_matchIndex := (e_matchIndex e)(e_id e := index)\<rparr>)))"

definition Apply_check ::
  "('c, 'f) StateMachine \<Rightarrow> u64 \<Rightarrow> ('c, 'f) Engine \<Rightarrow> (raft_error + unit) option \<times> ('c, 'f) Engine" where
  "Apply_check sm index e =
     (if e_closed e then (Some (Inl ErrClosed), e)
      else if e_state e \<noteq> StateLeader then (Some (Inl (ErrNotLeader (e_leaderID e))), e)
      else if matchCountLocked e index \<ge> quorumLocked e
      then (if index > e_commitIndex e
            then (case maybeSnapshotLocked sm (applyCommittedLocked sm (persistLocked (e\<lparr>e_commitIndex := index\<rparr>))) of
                    (Some err, e1) \<Rightarrow> (Some (Inl err), e1)
                  | (None, e1) \<Rightarrow> (Some (Inr ()), e1))
            else (Some (Inr ()), e))
      else (None, e))"

section \<open>The in-memory network\<close>

text \<open>\<open>MemoryNetwork\<close>: the engines that have started, by id. A call runs the handler of the target on
  the spot. Here an operation of one engine runs with no other in between.\<close>

type_synonym ('c, 'f) MemoryNetwork = "string \<Rightarrow> ('c, 'f) Engine option"

definition net_Start :: "('c, 'f) Engine \<Rightarrow> ('c, 'f) MemoryNetwork \<Rightarrow> ('c, 'f) MemoryNetwork" where
  "net_Start e net = net(e_id e \<mapsto> e)"

definition net_Shutdown :: "string \<Rightarrow> ('c, 'f) MemoryNetwork \<Rightarrow> ('c, 'f) MemoryNetwork" where
  "net_Shutdown i net = net(i := None)"

definition net_RequestVote ::
  "string \<Rightarrow> requestVoteRequest \<Rightarrow> ('c, 'f) MemoryNetwork \<Rightarrow> requestVoteResponse option \<times> ('c, 'f) MemoryNetwork" where
  "net_RequestVote target req net =
     (case net target of None \<Rightarrow> (None, net)
      | Some e \<Rightarrow> (case handleRequestVote req e of (resp, e') \<Rightarrow> (Some resp, net(target \<mapsto> e'))))"

definition net_AppendEntries ::
  "('c, 'f) StateMachine \<Rightarrow> string \<Rightarrow> 'c appendEntriesRequest \<Rightarrow> ('c, 'f) MemoryNetwork \<Rightarrow>
   appendEntriesResponse option \<times> ('c, 'f) MemoryNetwork" where
  "net_AppendEntries sm target req net =
     (case net target of None \<Rightarrow> (None, net)
      | Some e \<Rightarrow> (case handleAppendEntries sm req e of (resp, e') \<Rightarrow> (Some resp, net(target \<mapsto> e'))))"

definition net_InstallSnapshot ::
  "('c, 'f) StateMachine \<Rightarrow> string \<Rightarrow> installSnapshotRequest \<Rightarrow> ('c, 'f) MemoryNetwork \<Rightarrow>
   installSnapshotResponse option \<times> ('c, 'f) MemoryNetwork" where
  "net_InstallSnapshot sm target req net =
     (case net target of None \<Rightarrow> (None, net)
      | Some e \<Rightarrow> (case handleInstallSnapshot sm req e of (resp, e') \<Rightarrow> (Some resp, net(target \<mapsto> e'))))"

definition net_update :: "string \<Rightarrow> (('c, 'f) Engine \<Rightarrow> ('c, 'f) Engine) \<Rightarrow> ('c, 'f) MemoryNetwork \<Rightarrow> ('c, 'f) MemoryNetwork" where
  "net_update i f net = (case net i of None \<Rightarrow> net | Some e \<Rightarrow> net(i \<mapsto> f e))"

text \<open>The calls of the election stop at the first answer with a larger term.\<close>

fun net_votes :: "u64 \<Rightarrow> requestVoteRequest \<Rightarrow> string list \<Rightarrow> ('c, 'f) MemoryNetwork \<Rightarrow>
  requestVoteResponse option list \<times> ('c, 'f) MemoryNetwork" where
  "net_votes t req [] net = ([], net)"
| "net_votes t req (p # ps) net =
     (if p = rv_CandidateID req then net_votes t req ps net
      else case net_RequestVote p req net of
             (resp, net1) \<Rightarrow>
               if (case resp of Some r \<Rightarrow> rvr_Term r > t | None \<Rightarrow> False) then ([resp], net1)
               else case net_votes t req ps net1 of (rs, net2) \<Rightarrow> (resp # rs, net2))"

definition net_startElection :: "string \<Rightarrow> ('c, 'f) MemoryNetwork \<Rightarrow> ('c, 'f) MemoryNetwork" where
  "net_startElection i net =
     (case net i of
        None \<Rightarrow> net
      | Some e \<Rightarrow>
          (case startElection_begin e of
             None \<Rightarrow> net
           | Some (e1, req) \<Rightarrow>
               (case net_votes (rv_Term req) req (e_peers e) (net(i \<mapsto> e1)) of
                  (rs, net1) \<Rightarrow> net_update i (startElection_end (rv_Term req) (startElection_tally (rv_Term req) 1 rs)) net1)))"

definition net_replicateTo :: "('c, 'f) StateMachine \<Rightarrow> string \<Rightarrow> string \<Rightarrow> ('c, 'f) MemoryNetwork \<Rightarrow> ('c, 'f) MemoryNetwork" where
  "net_replicateTo sm i peer net =
     (case Option.bind (net i) (replicateTo_request peer) of
        None \<Rightarrow> net
      | Some (SendSnapshot req) \<Rightarrow>
          (case net_InstallSnapshot sm peer req net of
             (None, net1) \<Rightarrow> net1
           | (Some resp, net1) \<Rightarrow> net_update i (replicateTo_snapshot_reply peer req resp) net1)
      | Some (SendAppend req) \<Rightarrow>
          (case net_AppendEntries sm peer req net of
             (None, net1) \<Rightarrow> net1
           | (Some resp, net1) \<Rightarrow> net_update i (replicateTo_append_reply sm peer (ae_Term req) resp) net1))"

definition net_replicateAll :: "('c, 'f) StateMachine \<Rightarrow> string \<Rightarrow> ('c, 'f) MemoryNetwork \<Rightarrow> ('c, 'f) MemoryNetwork" where
  "net_replicateAll sm i net =
     (case net i of
        None \<Rightarrow> net
      | Some e \<Rightarrow> fold (net_replicateTo sm i) (filter (\<lambda>p. p \<noteq> i) (e_peers e)) net)"

text \<open>The rounds of \<open>Apply\<close> until its deadline: \<open>rounds\<close> is the number of them the deadline allows.\<close>

fun net_Apply_rounds ::
  "('c, 'f) StateMachine \<Rightarrow> string \<Rightarrow> u64 \<Rightarrow> nat \<Rightarrow> ('c, 'f) MemoryNetwork \<Rightarrow> (raft_error + unit) \<times> ('c, 'f) MemoryNetwork" where
  "net_Apply_rounds sm i index 0 net = (Inl ErrApplyTimeout, net)"
| "net_Apply_rounds sm i index (Suc k) net =
     (let net1 = net_replicateAll sm i net in
      case net1 i of
        None \<Rightarrow> (Inl ErrClosed, net1)
      | Some e \<Rightarrow>
          (case Apply_check sm index e of
             (Some r, e1) \<Rightarrow> (r, net1(i \<mapsto> e1))
           | (None, e1) \<Rightarrow> net_Apply_rounds sm i index k (net1(i \<mapsto> e1))))"

definition net_Apply ::
  "('c, 'f) StateMachine \<Rightarrow> string \<Rightarrow> 'c \<Rightarrow> nat \<Rightarrow> ('c, 'f) MemoryNetwork \<Rightarrow> (raft_error + unit) \<times> ('c, 'f) MemoryNetwork" where
  "net_Apply sm i cmd rounds net =
     (case net i of
        None \<Rightarrow> (Inl ErrClosed, net)
      | Some e \<Rightarrow>
          (case Apply_begin cmd e of
             Inl err \<Rightarrow> (Inl err, net)
           | Inr (index, e1) \<Rightarrow> net_Apply_rounds sm i index rounds (net(i \<mapsto> e1))))"

end
