(* ===== verification/RaftVoting.thy ===== *)
theory RaftVoting
  imports NativeRaft
begin

text \<open>
  The voting protocol behind the elections of the native Raft engine, as an abstract step relation
  over what matters to it of every node: its term, its vote and its role. The relation includes that
  a node that hears from the leader of its own term forgets its vote, which the engine does. The
  section ends with the fact that no term has two leaders. \<open>RaftElection\<close> shows that the engine
  refines it.
\<close>

record ballot_box =
  bb_term :: "string \<Rightarrow> u64"
  bb_vote :: "string \<Rightarrow> string"
  bb_role :: "string \<Rightarrow> State"
  bb_votes :: "(string \<times> string \<times> u64) set"
  bb_elected :: "(string \<times> u64 \<times> string set) set"

inductive vote_step :: "(string set \<Rightarrow> bool) \<Rightarrow> ballot_box \<Rightarrow> ballot_box \<Rightarrow> bool" for quorum where
  down: "\<lbrakk>bb_term b p < t\<rbrakk> \<Longrightarrow>
    vote_step quorum b (b\<lparr>bb_term := (bb_term b)(p := t), bb_vote := (bb_vote b)(p := []), bb_role := (bb_role b)(p := StateFollower)\<rparr>)"
| heard: "\<lbrakk>(l, bb_term b p, Q) \<in> bb_elected b; l \<noteq> p; bb_role b p \<noteq> StateFollower\<rbrakk> \<Longrightarrow>
    vote_step quorum b (b\<lparr>bb_vote := (bb_vote b)(p := []), bb_role := (bb_role b)(p := StateFollower)\<rparr>)"
| restart: "vote_step quorum b (b\<lparr>bb_role := (bb_role b)(p := StateFollower)\<rparr>)"
| stand: "\<lbrakk>p \<noteq> []; bb_term b p < bb_term b p + 1\<rbrakk> \<Longrightarrow>
    vote_step quorum b (b\<lparr>bb_term := (bb_term b)(p := bb_term b p + 1), bb_vote := (bb_vote b)(p := p),
       bb_role := (bb_role b)(p := StateCandidate), bb_votes := insert (p, p, bb_term b p + 1) (bb_votes b)\<rparr>)"
| grant: "\<lbrakk>bb_vote b p = [] \<or> bb_vote b p = c; c \<noteq> []; c \<noteq> p\<rbrakk> \<Longrightarrow>
    vote_step quorum b (b\<lparr>bb_vote := (bb_vote b)(p := c), bb_votes := insert (p, c, bb_term b p) (bb_votes b)\<rparr>)"
| win: "\<lbrakk>bb_role b p = StateCandidate; quorum Q; \<forall>q \<in> Q. (q, p, bb_term b p) \<in> bb_votes b\<rbrakk> \<Longrightarrow>
    vote_step quorum b (b\<lparr>bb_role := (bb_role b)(p := StateLeader), bb_elected := insert (p, bb_term b p, Q) (bb_elected b)\<rparr>)"

definition lost :: "ballot_box \<Rightarrow> string \<Rightarrow> u64 \<Rightarrow> bool" where
  "lost b p t \<longleftrightarrow> (\<exists>l Q. (l, t, Q) \<in> bb_elected b \<and> p \<notin> Q)"

definition votes_known :: "ballot_box \<Rightarrow> bool" where
  "votes_known b \<longleftrightarrow>
     (\<forall>p c t. (p, c, t) \<in> bb_votes b \<longrightarrow> t \<le> bb_term b p \<and> c \<noteq> []) \<and>
     (\<forall>p. bb_vote b p \<noteq> [] \<longrightarrow> (p, bb_vote b p, bb_term b p) \<in> bb_votes b) \<and>
     (\<forall>p c. (p, c, bb_term b p) \<in> bb_votes b \<longrightarrow> bb_vote b p = c \<or> lost b p (bb_term b p))"

definition votes_single :: "ballot_box \<Rightarrow> bool" where
  "votes_single b \<longleftrightarrow> (\<forall>p c c' t. (p, c, t) \<in> bb_votes b \<longrightarrow> (p, c', t) \<in> bb_votes b \<longrightarrow> c = c' \<or> lost b p t)"

definition candidates_ok :: "ballot_box \<Rightarrow> bool" where
  "candidates_ok b \<longleftrightarrow>
     (\<forall>p. bb_role b p = StateCandidate \<longrightarrow>
        bb_vote b p = p \<and> p \<noteq> [] \<and> (\<forall>Q. (p, bb_term b p, Q) \<notin> bb_elected b) \<and>
        (\<forall>c. (p, c, bb_term b p) \<in> bb_votes b \<longrightarrow> c = p)) \<and>
     (\<forall>p. bb_role b p = StateLeader \<longrightarrow> (\<exists>Q. (p, bb_term b p, Q) \<in> bb_elected b))"

definition elected_ok :: "(string set \<Rightarrow> bool) \<Rightarrow> ballot_box \<Rightarrow> bool" where
  "elected_ok quorum b \<longleftrightarrow>
     (\<forall>l t Q. (l, t, Q) \<in> bb_elected b \<longrightarrow> quorum Q \<and> t \<le> bb_term b l \<and> (\<forall>q \<in> Q. (q, l, t) \<in> bb_votes b))"

definition one_leader :: "ballot_box \<Rightarrow> bool" where
  "one_leader b \<longleftrightarrow> (\<forall>l l' t Q Q'. (l, t, Q) \<in> bb_elected b \<longrightarrow> (l', t, Q') \<in> bb_elected b \<longrightarrow> l = l' \<and> Q = Q')"

definition vote_inv :: "(string set \<Rightarrow> bool) \<Rightarrow> ballot_box \<Rightarrow> bool" where
  "vote_inv quorum b \<longleftrightarrow> votes_known b \<and> votes_single b \<and> candidates_ok b \<and> elected_ok quorum b \<and> one_leader b"

lemmas vote_inv_defs = vote_inv_def votes_known_def votes_single_def candidates_ok_def elected_ok_def one_leader_def

text \<open>All that is asked of a quorum: two of them meet.\<close>

locale quorum_system =
  fixes quorum :: "string set \<Rightarrow> bool"
  assumes meet: "quorum Q \<Longrightarrow> quorum Q' \<Longrightarrow> \<exists>x. x \<in> Q \<and> x \<in> Q'"

lemma inv_down:
  assumes "vote_inv quorum b" "bb_term b p < t"
  shows "vote_inv quorum (b\<lparr>bb_term := (bb_term b)(p := t), bb_vote := (bb_vote b)(p := []), bb_role := (bb_role b)(p := StateFollower)\<rparr>)"
    (is "vote_inv quorum ?b")
proof -
  have up: "t' \<le> bb_term b p \<Longrightarrow> t' \<le> t" for t' using assms(2) by auto
  have lost_eq: "lost ?b q t' = lost b q t'" for q t' by (simp add: lost_def)
  have fresh: "(p, c, t) \<notin> bb_votes b" for c
    using assms unfolding vote_inv_def votes_known_def by (meson leD)
  have "votes_known ?b" using assms(1) up fresh unfolding vote_inv_def votes_known_def lost_eq by auto
  moreover have "votes_single ?b" using assms(1) unfolding vote_inv_def votes_single_def lost_eq by simp
  moreover have "candidates_ok ?b" using assms(1) unfolding vote_inv_def candidates_ok_def by simp
  moreover have "elected_ok quorum ?b" using assms(1) up unfolding vote_inv_def elected_ok_def by auto
  moreover have "one_leader ?b" using assms(1) unfolding vote_inv_def one_leader_def by simp
  ultimately show ?thesis unfolding vote_inv_def by blast
qed

lemma heard_lost:
  assumes inv: "vote_inv quorum b" and l: "(l, bb_term b p, Q) \<in> bb_elected b" "l \<noteq> p" "bb_role b p \<noteq> StateFollower"
  shows "lost b p (bb_term b p)"
proof (cases "bb_role b p")
  case StateCandidate
  then have "p \<notin> Q" using inv l(1,2) unfolding vote_inv_def candidates_ok_def elected_ok_def by metis
  then show ?thesis using l(1) unfolding lost_def by blast
next
  case StateLeader
  then show ?thesis using inv l(1,2) unfolding vote_inv_def candidates_ok_def one_leader_def by metis
qed (use l in simp)

lemma inv_heard:
  assumes "vote_inv quorum b" "lost b p (bb_term b p)"
  shows "vote_inv quorum (b\<lparr>bb_vote := (bb_vote b)(p := []), bb_role := (bb_role b)(p := StateFollower)\<rparr>)"
  using assms unfolding vote_inv_defs lost_def by simp

lemma inv_restart:
  assumes "vote_inv quorum b"
  shows "vote_inv quorum (b\<lparr>bb_role := (bb_role b)(p := StateFollower)\<rparr>)"
  using assms unfolding vote_inv_defs lost_def by simp

lemma inv_stand:
  assumes inv: "vote_inv quorum b" and p: "p \<noteq> []" "bb_term b p < bb_term b p + 1"
  shows "vote_inv quorum (b\<lparr>bb_term := (bb_term b)(p := bb_term b p + 1), bb_vote := (bb_vote b)(p := p),
       bb_role := (bb_role b)(p := StateCandidate), bb_votes := insert (p, p, bb_term b p + 1) (bb_votes b)\<rparr>)"
    (is "vote_inv quorum ?b")
proof -
  have fresh: "(p, c, bb_term b p + 1) \<notin> bb_votes b" "(p, bb_term b p + 1, Q) \<notin> bb_elected b" for c Q
    using inv p(2) unfolding vote_inv_def votes_known_def elected_ok_def by (meson leD)+
  have up: "t \<le> bb_term b p \<Longrightarrow> t \<le> bb_term b p + 1" for t using p(2) by auto
  have lost_eq: "lost ?b q t = lost b q t" for q t by (simp add: lost_def)
  have "votes_known ?b" using inv p fresh up unfolding vote_inv_def votes_known_def lost_eq by auto
  moreover have "votes_single ?b" using inv fresh unfolding vote_inv_def votes_single_def lost_eq by auto
  moreover have "candidates_ok ?b" using inv p(1) fresh unfolding vote_inv_def candidates_ok_def by auto
  moreover have "elected_ok quorum ?b" using inv up unfolding vote_inv_def elected_ok_def by auto
  moreover have "one_leader ?b" using inv unfolding vote_inv_def one_leader_def by simp
  ultimately show ?thesis unfolding vote_inv_def by blast
qed

lemma inv_grant:
  assumes inv: "vote_inv quorum b" and g: "bb_vote b p = [] \<or> bb_vote b p = c" "c \<noteq> []" "c \<noteq> p"
  shows "vote_inv quorum (b\<lparr>bb_vote := (bb_vote b)(p := c), bb_votes := insert (p, c, bb_term b p) (bb_votes b)\<rparr>)"
    (is "vote_inv quorum ?b")
proof -
  have other: "c' = c \<or> lost b p (bb_term b p)" if "(p, c', bb_term b p) \<in> bb_votes b" for c'
    using inv that g(1) unfolding vote_inv_def votes_known_def by metis
  have lost_eq: "lost ?b q t = lost b q t" for q t by (simp add: lost_def)
  have nc: "bb_role b p \<noteq> StateCandidate" using inv g unfolding vote_inv_def candidates_ok_def by metis
  have "votes_known ?b" using inv g(2) other unfolding vote_inv_def votes_known_def lost_eq by auto
  moreover have "votes_single ?b" using inv other unfolding vote_inv_def votes_single_def lost_eq by auto
  moreover have "candidates_ok ?b" using inv nc unfolding vote_inv_def candidates_ok_def by auto
  moreover have "elected_ok quorum ?b" using inv unfolding vote_inv_def elected_ok_def by auto
  moreover have "one_leader ?b" using inv unfolding vote_inv_def one_leader_def by simp
  ultimately show ?thesis unfolding vote_inv_def by blast
qed

context quorum_system
begin

lemma win_new_term:
  assumes inv: "vote_inv quorum b" and w: "bb_role b p = StateCandidate" "quorum Q" "\<forall>q \<in> Q. (q, p, bb_term b p) \<in> bb_votes b"
  shows "(l, bb_term b p, Q') \<notin> bb_elected b"
proof
  assume l: "(l, bb_term b p, Q') \<in> bb_elected b"
  have q: "quorum Q'" "\<forall>q \<in> Q'. (q, l, bb_term b p) \<in> bb_votes b"
    using inv l unfolding vote_inv_def elected_ok_def by blast+
  obtain x where x: "x \<in> Q" "x \<in> Q'" using meet [OF w(2) q(1)] by blast
  have "l \<noteq> p" using inv w(1) l unfolding vote_inv_def candidates_ok_def by metis
  then have "lost b x (bb_term b p)"
    using inv w(3) q(2) x unfolding vote_inv_def votes_single_def by metis
  then show False using inv l x(2) unfolding lost_def vote_inv_def one_leader_def by metis
qed

lemma inv_win:
  assumes inv: "vote_inv quorum b" and w: "bb_role b p = StateCandidate" "quorum Q" "\<forall>q \<in> Q. (q, p, bb_term b p) \<in> bb_votes b"
  shows "vote_inv quorum (b\<lparr>bb_role := (bb_role b)(p := StateLeader), bb_elected := insert (p, bb_term b p, Q) (bb_elected b)\<rparr>)"
    (is "vote_inv quorum ?b")
proof -
  note fresh = win_new_term [OF inv w]
  have lost_mono: "lost b q t \<Longrightarrow> lost ?b q t" for q t unfolding lost_def by auto
  have "votes_known ?b" using inv lost_mono unfolding vote_inv_def votes_known_def by simp blast
  moreover have "votes_single ?b" using inv lost_mono unfolding vote_inv_def votes_single_def by simp blast
  moreover have "candidates_ok ?b" using inv unfolding vote_inv_def candidates_ok_def by auto
  moreover have "elected_ok quorum ?b" using inv w unfolding vote_inv_def elected_ok_def by auto
  moreover have "one_leader ?b" using inv fresh unfolding vote_inv_def one_leader_def by auto
  ultimately show ?thesis unfolding vote_inv_def by blast
qed

lemma vote_step_inv: "vote_step quorum b b' \<Longrightarrow> vote_inv quorum b \<Longrightarrow> vote_inv quorum b'"
proof (induction rule: vote_step.induct)
  case (heard l b p Q)
  then show ?case using inv_heard heard_lost by blast
qed (auto intro: inv_down inv_restart inv_stand inv_grant inv_win)

lemma vote_steps_inv: "(vote_step quorum)\<^sup>*\<^sup>* b b' \<Longrightarrow> vote_inv quorum b \<Longrightarrow> vote_inv quorum b'"
  by (induction rule: rtranclp_induct) (auto intro: vote_step_inv)

end

text \<open>The engine's quorum, a majority of a list of distinct peers.\<close>

definition majority :: "string list \<Rightarrow> string set \<Rightarrow> bool" where
  "majority peers Q \<longleftrightarrow> Q \<subseteq> set peers \<and> length peers div 2 + 1 \<le> card Q"

lemma majority_meet:
  assumes "majority peers Q" "majority peers Q'"
  shows "\<exists>x. x \<in> Q \<and> x \<in> Q'"
proof (rule ccontr)
  assume "\<not> ?thesis"
  then have "Q \<inter> Q' = {}" by blast
  then have "card Q + card Q' = card (Q \<union> Q')"
    using assms by (metis card_Un_disjoint finite_set finite_subset majority_def)
  also have "\<dots> \<le> card (set peers)" using assms by (intro card_mono) (auto simp: majority_def)
  also have "\<dots> \<le> length peers" by (rule card_length)
  finally show False using assms by (auto simp: majority_def)
qed

interpretation peers_majority: quorum_system "majority peers" for peers
  by unfold_locales (rule majority_meet)

end
