(* ===== verification/RaftElection.thy ===== *)
theory RaftElection
  imports RaftVoting
begin

text \<open>
  Election safety of the native Raft engine. A cluster of engines runs the locked segments of
  \<open>NativeRaft\<close> in any order, over a network that may delay, duplicate, reorder and drop every
  message, with engines that stop and restart from their stores. Every step is a run of the voting
  protocol of \<open>RaftVoting\<close>, so no term has two leaders, provided that an answer with a larger
  term than the election's also exceeds the term the engine has reached when it handles it.
  \<open>startElection\<close> does not check this; the last lemmas show what happens otherwise.
\<close>

section \<open>What each segment does to term, vote and role\<close>

definition e_synced :: "('c, 'f) Engine \<Rightarrow> bool" where
  "e_synced e \<longleftrightarrow> e_save_ok e \<and> ps_CurrentTerm (e_store e) = e_currentTerm e \<and> ps_VotedFor (e_store e) = e_votedFor e"

definition keeps :: "('c, 'f) Engine \<Rightarrow> ('c, 'f) Engine \<Rightarrow> bool" where
  "keeps e e' \<longleftrightarrow> e_id e' = e_id e \<and> e_peers e' = e_peers e \<and> e_currentTerm e' = e_currentTerm e \<and>
     e_votedFor e' = e_votedFor e \<and> e_state e' = e_state e \<and> (e_synced e \<longrightarrow> e_synced e')"

definition downed :: "u64 \<Rightarrow> ('c, 'f) Engine \<Rightarrow> ('c, 'f) Engine \<Rightarrow> bool" where
  "downed t e e' \<longleftrightarrow> e_id e' = e_id e \<and> e_peers e' = e_peers e \<and> e_currentTerm e' = t \<and>
     e_votedFor e' = [] \<and> e_state e' = StateFollower \<and> (e_synced e \<longrightarrow> e_synced e')"

lemma keeps_refl [simp, intro]: "keeps e e"
  by (simp add: keeps_def)

lemma keeps_trans: "keeps e e1 \<Longrightarrow> keeps e1 e2 \<Longrightarrow> keeps e e2"
  by (simp add: keeps_def)

text \<open>The rules for \<open>keeps\<close> are used in the form that peels the last operation off.\<close>

lemma downed_keeps: "downed t e e1 \<Longrightarrow> keeps e1 e2 \<Longrightarrow> downed t e e2"
  by (simp add: keeps_def downed_def)

lemma keeps_persistLocked [simp]: "keeps e (persistLocked e)"
  by (simp add: keeps_def persistLocked_def persisted_def e_synced_def)

lemmas keeps_persist_step [simp, intro] = keeps_trans [OF _ keeps_persistLocked]

lemma keeps_log [simp]:
  "keeps e (e\<lparr>e_log := l\<rparr>)" "keeps e (e\<lparr>e_commitIndex := i\<rparr>)" "keeps e (e\<lparr>e_leaderID := s\<rparr>)"
  "keeps e (e\<lparr>e_fsm := f, e_snapshot := sn\<rparr>)" "keeps e (e\<lparr>e_commitIndex := i, e_lastApplied := j\<rparr>)"
  "keeps e (e\<lparr>e_snapshot := sn\<rparr>)" "keeps e (e\<lparr>e_log := l, e_matchIndex := m\<rparr>)" "keeps e (e\<lparr>e_closed := b\<rparr>)"
  "keeps e (e\<lparr>e_nextIndex := n\<rparr>)" "keeps e (e\<lparr>e_matchIndex := m, e_nextIndex := n\<rparr>)"
  by (simp_all add: keeps_def e_synced_def)

lemmas keeps_log_step [simp, intro] = keeps_log [THEN keeps_trans [rotated]]

lemma keeps_truncateAfterLocked [simp]: "keeps e (truncateAfterLocked i e)"
  by (simp add: truncateAfterLocked_def keeps_def e_synced_def Let_def)

lemmas keeps_truncate_step [simp, intro] = keeps_trans [OF _ keeps_truncateAfterLocked]

lemma keeps_compactThroughLocked [simp]: "keeps e (compactThroughLocked i e)"
  by (simp add: compactThroughLocked_def)

lemmas keeps_compact_step [simp, intro] = keeps_trans [OF _ keeps_compactThroughLocked]

lemma keeps_append_one [simp]: "keeps e (append_one en e)"
  by (auto simp: append_one_def Let_def)

lemma keeps_fold_append [simp]: "keeps e (fold append_one ens e)"
  by (induction ens arbitrary: e) (auto intro: keeps_trans [OF keeps_append_one])

lemmas keeps_fold_step [simp, intro] = keeps_trans [OF _ keeps_fold_append]

lemma keeps_apply_one [simp]: "keeps e (apply_one sm e)"
  by (simp add: keeps_def e_synced_def)

lemma keeps_applyCommittedLocked [simp]: "keeps e (applyCommittedLocked sm e)"
proof (induction sm e rule: applyCommittedLocked.induct)
  case (1 sm e)
  then show ?case by (subst applyCommittedLocked.simps) (auto intro: keeps_trans [OF keeps_apply_one])
qed

lemmas keeps_apply_step [simp, intro] = keeps_trans [OF _ keeps_applyCommittedLocked]

lemma keeps_maybeSnapshotLocked [simp]: "keeps e (snd (maybeSnapshotLocked sm e))"
  by (auto simp: maybeSnapshotLocked_def Let_def split: option.splits)

lemmas keeps_snapshot_step [simp, intro] = keeps_trans [OF _ keeps_maybeSnapshotLocked]

lemma keeps_advanceCommitLocked [simp]: "keeps e (advanceCommitLocked sm e)"
  by (auto simp: advanceCommitLocked_def split: option.splits)

lemma keeps_Apply_begin: "Apply_begin cmd e = Inr (index, e') \<Longrightarrow> keeps e e'"
  by (auto simp: Apply_begin_def Let_def split: if_splits)

lemma keeps_Apply_check: "keeps e (snd (Apply_check sm index e))"
proof -
  let ?e = "applyCommittedLocked sm (persistLocked (e\<lparr>e_commitIndex := index\<rparr>))"
  obtain r e1 where m: "maybeSnapshotLocked sm ?e = (r, e1)" by fastforce
  have "keeps e (snd (maybeSnapshotLocked sm ?e))" by simp
  then have "keeps e e1" unfolding m by simp
  then show ?thesis by (auto simp: Apply_check_def m split: option.splits)
qed

lemma keeps_Shutdown [simp]: "keeps e (Shutdown e)"
  by (simp add: Shutdown_def)

lemma downed_stepDownLocked [simp]: "downed t e (stepDownLocked t l e)"
  by (auto simp: downed_def stepDownLocked_def persistLocked_def persisted_def e_synced_def Let_def)

lemma follow_effect:
  assumes "e_currentTerm e \<le> t"
  shows "(t > e_currentTerm e \<or> e_state e \<noteq> StateFollower) \<and> downed t e (follow t l e) \<or>
         t = e_currentTerm e \<and> e_state e = StateFollower \<and> keeps e (follow t l e)"
  using assms downed_keeps [OF downed_stepDownLocked keeps_log(3)] by (auto simp: follow_def Let_def)

lemma handleAppendEntries_after:
  assumes "\<not> ae_Term req < e_currentTerm e"
  shows "keeps (follow (ae_Term req) (ae_LeaderID req) e) (snd (handleAppendEntries sm req e))"
  using assms
  by (auto simp: handleAppendEntries_def Let_def)

lemma handleInstallSnapshot_after:
  assumes "\<not> is_Term req < e_currentTerm e"
  shows "keeps (follow (is_Term req) (is_LeaderID req) e) (snd (handleInstallSnapshot sm req e))"
  using assms
  by (auto simp: handleInstallSnapshot_def Let_def split: option.splits)

text \<open>A message from a leader: ignored, or the node follows it.\<close>

definition heard_from :: "u64 \<Rightarrow> ('c, 'f) Engine \<Rightarrow> ('c, 'f) Engine \<Rightarrow> bool" where
  "heard_from t e e' \<longleftrightarrow> keeps e e' \<or> e_currentTerm e < t \<and> downed t e e' \<or>
     t = e_currentTerm e \<and> e_state e \<noteq> StateFollower \<and> downed t e e'"

lemma heard_fromI: "\<lbrakk>e_currentTerm e \<le> t; keeps (follow t l e) e'\<rbrakk> \<Longrightarrow> heard_from t e e'"
  using follow_effect [of e t l] by (auto simp: heard_from_def intro: downed_keeps keeps_trans)

lemma heard_from_append: "heard_from (ae_Term req) e (snd (handleAppendEntries sm req e))"
proof (cases "ae_Term req < e_currentTerm e")
  case True then show ?thesis by (simp add: handleAppendEntries_def heard_from_def)
next
  case False then show ?thesis by (intro heard_fromI [OF _ handleAppendEntries_after]) (simp_all add: not_less)
qed

lemma heard_from_snapshot: "heard_from (is_Term req) e (snd (handleInstallSnapshot sm req e))"
proof (cases "is_Term req < e_currentTerm e")
  case True then show ?thesis by (simp add: handleInstallSnapshot_def heard_from_def)
next
  case False then show ?thesis by (intro heard_fromI [OF _ handleInstallSnapshot_after]) (simp_all add: not_less)
qed

definition maybe_downed :: "('c, 'f) Engine \<Rightarrow> ('c, 'f) Engine \<Rightarrow> bool" where
  "maybe_downed e e' \<longleftrightarrow> keeps e e' \<or> (\<exists>t. e_currentTerm e < t \<and> downed t e e')"

lemma append_reply_effect: "maybe_downed e (replicateTo_append_reply sm p t resp e)"
  unfolding replicateTo_append_reply_def maybe_downed_def
  by (auto intro: keeps_trans [OF _ keeps_advanceCommitLocked])

lemma snapshot_reply_effect: "maybe_downed e (replicateTo_snapshot_reply p req resp e)"
  unfolding replicateTo_snapshot_reply_def maybe_downed_def by auto

definition votes_for :: "string \<Rightarrow> ('c, 'f) Engine \<Rightarrow> ('c, 'f) Engine \<Rightarrow> bool" where
  "votes_for c e e' \<longleftrightarrow> (e_votedFor e = [] \<or> e_votedFor e = c) \<and> e_id e' = e_id e \<and> e_peers e' = e_peers e \<and>
     e_currentTerm e' = e_currentTerm e \<and> e_votedFor e' = c \<and> e_state e' = e_state e \<and> (e_synced e \<longrightarrow> e_synced e')"

lemma votes_for_persist: "e_votedFor e = [] \<or> e_votedFor e = c \<Longrightarrow> votes_for c e (persistLocked (e\<lparr>e_votedFor := c\<rparr>))"
  by (simp add: votes_for_def persistLocked_def persisted_def e_synced_def)

lemma handleRequestVote_effect:
  assumes run: "handleRequestVote req e = (resp, e')"
  shows "\<not> rvr_VoteGranted resp \<and> maybe_downed e e' \<or>
    rvr_VoteGranted resp \<and> rv_Term req = e_currentTerm e \<and> votes_for (rv_CandidateID req) e e' \<or>
    rvr_VoteGranted resp \<and> e_currentTerm e < rv_Term req \<and>
      (\<exists>e1. downed (rv_Term req) e e1 \<and> votes_for (rv_CandidateID req) e1 e')"
proof -
  consider (old) "rv_Term req < e_currentTerm e" | (same) "rv_Term req = e_currentTerm e" | (later) "e_currentTerm e < rv_Term req"
    by fastforce
  then show ?thesis
  proof cases
    case old then show ?thesis using run by (auto simp: handleRequestVote_def maybe_downed_def)
  next
    case same then show ?thesis using run votes_for_persist
      by (auto simp: handleRequestVote_def maybe_downed_def Let_def split: if_splits)
  next
    case later
    let ?e1 = "stepDownLocked (rv_Term req) [] e"
    have d: "downed (rv_Term req) e ?e1" by simp
    have "\<not> rv_Term req < e_currentTerm e" using later by simp
    then show ?thesis using run later d votes_for_persist [of ?e1 "rv_CandidateID req"]
      by (auto simp: handleRequestVote_def maybe_downed_def Let_def simp del: downed_stepDownLocked split: if_splits)
  qed
qed

section \<open>The cluster\<close>

text \<open>The nodes, the term of the election each is running, and every message ever sent: vote
  requests by target; their answers by voter, candidate and term; replication requests by target; and
  their answers by peer, leader and request. The last two fields record the votes given and the
  elections won with the voters counted.\<close>

record ('c, 'f) cluster =
  cl_nodes :: "string \<Rightarrow> ('c, 'f) Engine"
  cl_pending :: "string \<Rightarrow> u64 option"
  cl_requests :: "(string \<times> requestVoteRequest) set"
  cl_answers :: "(string \<times> string \<times> u64 \<times> requestVoteResponse) set"
  cl_sent :: "(string \<times> 'c replication) set"
  cl_appended :: "(string \<times> string \<times> u64 \<times> appendEntriesResponse) set"
  cl_installed :: "(string \<times> string \<times> installSnapshotRequest \<times> installSnapshotResponse) set"
  cl_votes :: "(string \<times> string \<times> u64) set"
  cl_elected :: "(string \<times> u64 \<times> string set) set"

definition others :: "string \<Rightarrow> string list \<Rightarrow> string list" where
  "others i peers = filter (\<lambda>p. p \<noteq> i) peers"

text \<open>The answers an election of \<open>i\<close> in term \<open>t\<close> may see, one for each other peer, and who granted.\<close>

definition answers_ok :: "('c, 'f) cluster \<Rightarrow> string \<Rightarrow> u64 \<Rightarrow> string list \<Rightarrow> requestVoteResponse option list \<Rightarrow> bool" where
  "answers_ok cl i t ps rs \<longleftrightarrow> list_all2 (\<lambda>p r. case r of None \<Rightarrow> True | Some a \<Rightarrow> (p, i, t, a) \<in> cl_answers cl) ps rs"

definition granters :: "string list \<Rightarrow> requestVoteResponse option list \<Rightarrow> string set" where
  "granters ps rs = {p. \<exists>a. (p, Some a) \<in> set (zip ps rs) \<and> rvr_VoteGranted a}"

definition node_upd :: "string \<Rightarrow> ('c, 'f) Engine \<Rightarrow> ('c, 'f) cluster \<Rightarrow> ('c, 'f) cluster" where
  "node_upd i e cl = cl\<lparr>cl_nodes := (cl_nodes cl)(i := e)\<rparr>"

text \<open>The steps. \<open>careful\<close> says whether the end of an election with an answer of a larger term is only
  taken when that term is still larger than the engine's.\<close>

inductive raft_step ::
  "('c, 'f) StateMachine \<Rightarrow> string list \<Rightarrow> bool \<Rightarrow> ('c, 'f) cluster \<Rightarrow> ('c, 'f) cluster \<Rightarrow> bool" for sm peers careful where
  election_begin: "\<lbrakk>i \<in> set peers; cl_pending cl i = None; startElection_begin (cl_nodes cl i) = Some (e', req);
      e_currentTerm (cl_nodes cl i) < e_currentTerm (cl_nodes cl i) + 1\<rbrakk> \<Longrightarrow>
    raft_step sm peers careful cl ((node_upd i e' cl)\<lparr>cl_pending := (cl_pending cl)(i \<mapsto> rv_Term req),
      cl_requests := cl_requests cl \<union> (\<lambda>p. (p, req)) ` set (others i (e_peers e')),
      cl_votes := insert (i, i, rv_Term req) (cl_votes cl)\<rparr>)"
| vote: "\<lbrakk>(p, req) \<in> cl_requests cl; handleRequestVote req (cl_nodes cl p) = (resp, e')\<rbrakk> \<Longrightarrow>
    raft_step sm peers careful cl ((node_upd p e' cl)\<lparr>cl_answers := insert (p, rv_CandidateID req, rv_Term req, resp) (cl_answers cl),
      cl_votes := (if rvr_VoteGranted resp then insert (p, rv_CandidateID req, rv_Term req) (cl_votes cl) else cl_votes cl)\<rparr>)"
| election_end: "\<lbrakk>i \<in> set peers; cl_pending cl i = Some t; ps = others i (e_peers (cl_nodes cl i)); answers_ok cl i t ps rs;
      result = startElection_tally t 1 rs; e' = startElection_end t result (cl_nodes cl i);
      \<forall>t'. careful \<longrightarrow> result = Inl t' \<longrightarrow> e_currentTerm (cl_nodes cl i) < t'\<rbrakk> \<Longrightarrow>
    raft_step sm peers careful cl ((node_upd i e' cl)\<lparr>cl_pending := (cl_pending cl)(i := None),
      cl_elected := (if e_state (cl_nodes cl i) = StateCandidate \<and> e_state e' = StateLeader
                     then insert (i, t, insert i (granters ps rs)) (cl_elected cl) else cl_elected cl)\<rparr>)"
| replicate: "\<lbrakk>i \<in> set peers; replicateTo_request p (cl_nodes cl i) = Some m; p \<in> set (others i (e_peers (cl_nodes cl i)))\<rbrakk> \<Longrightarrow>
    raft_step sm peers careful cl (cl\<lparr>cl_sent := insert (p, m) (cl_sent cl)\<rparr>)"
| append: "\<lbrakk>(p, SendAppend req) \<in> cl_sent cl; handleAppendEntries sm req (cl_nodes cl p) = (resp, e')\<rbrakk> \<Longrightarrow>
    raft_step sm peers careful cl ((node_upd p e' cl)\<lparr>cl_appended := insert (p, ae_LeaderID req, ae_Term req, resp) (cl_appended cl)\<rparr>)"
| append_reply: "\<lbrakk>i \<in> set peers; (p, i, t, resp) \<in> cl_appended cl\<rbrakk> \<Longrightarrow>
    raft_step sm peers careful cl (node_upd i (replicateTo_append_reply sm p t resp (cl_nodes cl i)) cl)"
| install: "\<lbrakk>(p, SendSnapshot req) \<in> cl_sent cl; handleInstallSnapshot sm req (cl_nodes cl p) = (resp, e')\<rbrakk> \<Longrightarrow>
    raft_step sm peers careful cl ((node_upd p e' cl)\<lparr>cl_installed := insert (p, is_LeaderID req, req, resp) (cl_installed cl)\<rparr>)"
| install_reply: "\<lbrakk>i \<in> set peers; (p, i, req, resp) \<in> cl_installed cl\<rbrakk> \<Longrightarrow>
    raft_step sm peers careful cl (node_upd i (replicateTo_snapshot_reply p req resp (cl_nodes cl i)) cl)"
| apply_begin: "\<lbrakk>i \<in> set peers; Apply_begin cmd (cl_nodes cl i) = Inr (index, e')\<rbrakk> \<Longrightarrow> raft_step sm peers careful cl (node_upd i e' cl)"
| apply_check: "i \<in> set peers \<Longrightarrow> raft_step sm peers careful cl (node_upd i (snd (Apply_check sm index (cl_nodes cl i))) cl)"
| shutdown: "i \<in> set peers \<Longrightarrow> raft_step sm peers careful cl (node_upd i (Shutdown (cl_nodes cl i)) cl)"
| restart: "\<lbrakk>i \<in> set peers; NewEngine sm i (e_peers (cl_nodes cl i)) threshold f (e_store (cl_nodes cl i)) = Inr e'\<rbrakk> \<Longrightarrow>
    raft_step sm peers careful cl ((node_upd i e' cl)\<lparr>cl_pending := (cl_pending cl)(i := None)\<rparr>)"

text \<open>A cluster that starts: engines on fresh stores, each with the same list of distinct peers.\<close>

definition cluster_init :: "('c, 'f) StateMachine \<Rightarrow> string list \<Rightarrow> ('c, 'f) cluster \<Rightarrow> bool" where
  "cluster_init sm peers cl \<longleftrightarrow>
     distinct peers \<and>
     (\<forall>i \<in> set peers. \<exists>threshold f. NewEngine sm i peers threshold f empty_persisted = Inr (cl_nodes cl i)) \<and>
     cl_requests cl = {} \<and> cl_answers cl = {} \<and> cl_sent cl = {} \<and> cl_appended cl = {} \<and> cl_installed cl = {} \<and>
     cl_votes cl = {} \<and> cl_elected cl = {} \<and> cl_pending cl = (\<lambda>_. None)"

section \<open>The cluster refines the voting protocol\<close>

definition ballots :: "string list \<Rightarrow> ('c, 'f) cluster \<Rightarrow> ballot_box" where
  "ballots peers cl =
     \<lparr>bb_term = (\<lambda>p. if p \<in> set peers then e_currentTerm (cl_nodes cl p) else 0),
      bb_vote = (\<lambda>p. if p \<in> set peers then e_votedFor (cl_nodes cl p) else []),
      bb_role = (\<lambda>p. if p \<in> set peers then e_state (cl_nodes cl p) else StateFollower),
      bb_votes = cl_votes cl, bb_elected = cl_elected cl\<rparr>"

fun msg_leader :: "'c replication \<Rightarrow> string \<times> u64" where
  "msg_leader (SendAppend r) = (ae_LeaderID r, ae_Term r)"
| "msg_leader (SendSnapshot r) = (is_LeaderID r, is_Term r)"

definition nodes_ok :: "string list \<Rightarrow> ('c, 'f) cluster \<Rightarrow> bool" where
  "nodes_ok peers cl \<longleftrightarrow>
     (\<forall>i \<in> set peers. i \<noteq> [] \<and> e_id (cl_nodes cl i) = i \<and> e_peers (cl_nodes cl i) = peers \<and> e_synced (cl_nodes cl i))"

definition messages_ok :: "string list \<Rightarrow> ('c, 'f) cluster \<Rightarrow> bool" where
  "messages_ok peers cl \<longleftrightarrow>
     (\<forall>p req. (p, req) \<in> cl_requests cl \<longrightarrow> p \<in> set peers \<and> rv_CandidateID req \<noteq> p \<and> rv_CandidateID req \<noteq> []) \<and>
     (\<forall>p c t a. (p, c, t, a) \<in> cl_answers cl \<longrightarrow> rvr_VoteGranted a \<longrightarrow> (p, c, t) \<in> cl_votes cl) \<and>
     (\<forall>i t. cl_pending cl i = Some t \<longrightarrow> (i, i, t) \<in> cl_votes cl) \<and>
     (\<forall>p m. (p, m) \<in> cl_sent cl \<longrightarrow> p \<in> set peers \<and> fst (msg_leader m) \<noteq> p \<and>
        (\<exists>Q. (fst (msg_leader m), snd (msg_leader m), Q) \<in> cl_elected cl))"

definition raft_inv :: "string list \<Rightarrow> ('c, 'f) cluster \<Rightarrow> bool" where
  "raft_inv peers cl \<longleftrightarrow> distinct peers \<and> nodes_ok peers cl \<and> messages_ok peers cl \<and> vote_inv (majority peers) (ballots peers cl)"

lemma ballots_keeps:
  assumes "keeps (cl_nodes cl i) e'"
  shows "ballots peers (node_upd i e' cl) = ballots peers cl"
  using assms by (auto simp: ballots_def node_upd_def keeps_def)

lemma ballots_downed:
  assumes "downed t (cl_nodes cl i) e'" "i \<in> set peers"
  shows "ballots peers (node_upd i e' cl) =
    (ballots peers cl)\<lparr>bb_term := (bb_term (ballots peers cl))(i := t), bb_vote := (bb_vote (ballots peers cl))(i := []),
       bb_role := (bb_role (ballots peers cl))(i := StateFollower)\<rparr>"
  using assms by (auto simp: ballots_def node_upd_def downed_def fun_eq_iff)

lemma ballots_heard:
  assumes "downed (e_currentTerm (cl_nodes cl i)) (cl_nodes cl i) e'" "i \<in> set peers"
  shows "ballots peers (node_upd i e' cl) =
    (ballots peers cl)\<lparr>bb_vote := (bb_vote (ballots peers cl))(i := []), bb_role := (bb_role (ballots peers cl))(i := StateFollower)\<rparr>"
  using assms by (auto simp: ballots_def node_upd_def downed_def fun_eq_iff)

lemma ballots_votes:
  assumes "votes_for c (cl_nodes cl i) e'" "i \<in> set peers"
  shows "ballots peers ((node_upd i e' cl)\<lparr>cl_votes := insert (i, c, e_currentTerm (cl_nodes cl i)) (cl_votes cl)\<rparr>) =
    (ballots peers cl)\<lparr>bb_vote := (bb_vote (ballots peers cl))(i := c),
       bb_votes := insert (i, c, bb_term (ballots peers cl) i) (bb_votes (ballots peers cl))\<rparr>"
  using assms by (auto simp: ballots_def node_upd_def votes_for_def fun_eq_iff)

text \<open>Fields the abstraction does not read.\<close>

lemma ballots_cong [simp]:
  "ballots peers (cl\<lparr>cl_pending := a\<rparr>) = ballots peers cl" "ballots peers (cl\<lparr>cl_requests := b\<rparr>) = ballots peers cl"
  "ballots peers (cl\<lparr>cl_answers := c\<rparr>) = ballots peers cl" "ballots peers (cl\<lparr>cl_sent := d\<rparr>) = ballots peers cl"
  "ballots peers (cl\<lparr>cl_appended := f\<rparr>) = ballots peers cl" "ballots peers (cl\<lparr>cl_installed := g\<rparr>) = ballots peers cl"
  by (simp_all add: ballots_def cong: if_cong)

lemma ballots_cong2:
  "ballots peers (cl\<lparr>cl_pending := a, cl_requests := b, cl_votes := v\<rparr>) = ballots peers (cl\<lparr>cl_votes := v\<rparr>)"
  "ballots peers (cl\<lparr>cl_answers := c, cl_votes := v\<rparr>) = ballots peers (cl\<lparr>cl_votes := v\<rparr>)"
  "ballots peers (cl\<lparr>cl_pending := a, cl_elected := w\<rparr>) = ballots peers (cl\<lparr>cl_elected := w\<rparr>)"
  by (simp_all add: ballots_def cong: if_cong)

abbreviation votes_to :: "string list \<Rightarrow> ballot_box \<Rightarrow> ballot_box \<Rightarrow> bool" where
  "votes_to peers \<equiv> (vote_step (majority peers))\<^sup>*\<^sup>*"

lemma sim_maybe_downed:
  assumes "maybe_downed (cl_nodes cl i) e'" "i \<in> set peers"
  shows "votes_to peers (ballots peers cl) (ballots peers (node_upd i e' cl))"
  using assms(1) unfolding maybe_downed_def
proof (elim disjE exE conjE)
  fix t assume t: "e_currentTerm (cl_nodes cl i) < t" "downed t (cl_nodes cl i) e'"
  have "bb_term (ballots peers cl) i < t" using t(1) assms(2) by (simp add: ballots_def)
  then show ?thesis unfolding ballots_downed [OF t(2) assms(2)] by (intro r_into_rtranclp vote_step.down)
qed (simp add: ballots_keeps)

lemma sim_heard_from:
  assumes "heard_from t (cl_nodes cl i) e'" "i \<in> set peers" "(l, t, Q) \<in> cl_elected cl" "l \<noteq> i"
  shows "votes_to peers (ballots peers cl) (ballots peers (node_upd i e' cl))"
  using assms(1) unfolding heard_from_def
proof (elim disjE conjE)
  assume t: "t = e_currentTerm (cl_nodes cl i)" "e_state (cl_nodes cl i) \<noteq> StateFollower" "downed t (cl_nodes cl i) e'"
  have "(l, bb_term (ballots peers cl) i, Q) \<in> bb_elected (ballots peers cl)" "bb_role (ballots peers cl) i \<noteq> StateFollower"
    using assms t by (simp_all add: ballots_def)
  then show ?thesis unfolding ballots_heard [OF t(3) [unfolded t(1)] assms(2)]
    using assms(4) by (intro r_into_rtranclp vote_step.heard)
qed (use assms(2) in \<open>auto simp: ballots_keeps maybe_downed_def intro!: sim_maybe_downed\<close>)

lemma granters_Cons:
  "granters (p # ps) (r # rs) = (case r of Some a \<Rightarrow> if rvr_VoteGranted a then insert p (granters ps rs) else granters ps rs
     | None \<Rightarrow> granters ps rs)"
  by (auto simp: granters_def split: option.splits)

lemma granters_subset: "granters ps rs \<subseteq> set ps"
  by (auto simp: granters_def dest: set_zip_leftD)

lemma tally_granters:
  assumes "list_all2 P ps rs" "distinct ps" "startElection_tally t v rs = Inr n"
  shows "n = v + card (granters ps rs)"
  using assms
proof (induction arbitrary: v rule: list_all2_induct)
  case Nil then show ?case by (simp add: granters_def)
next
  case (Cons p ps r rs)
  have fin: "finite (granters ps rs)" "p \<notin> granters ps rs"
    using granters_subset [of ps rs] Cons.prems(1) finite_subset by auto
  show ?case using Cons.prems fin Cons.IH [of v] Cons.IH [of "v + 1"] by (cases r) (auto simp: granters_Cons split: if_splits)
qed

lemma sim_win:
  assumes inv: "raft_inv peers cl" and i: "i \<in> set peers" and pend: "cl_pending cl i = Some t"
    and ans: "answers_ok cl i t (others i peers) rs" and res: "startElection_tally t 1 rs = Inr n" "quorumLocked (cl_nodes cl i) \<le> n"
    and st: "e_state (cl_nodes cl i) = StateCandidate" "e_currentTerm (cl_nodes cl i) = t"
    and e': "e_state e' = StateLeader" "e_currentTerm e' = t" "e_votedFor e' = e_votedFor (cl_nodes cl i)"
  shows "votes_to peers (ballots peers cl)
    (ballots peers ((node_upd i e' cl)\<lparr>cl_elected := insert (i, t, insert i (granters (others i peers) rs)) (cl_elected cl)\<rparr>))"
proof -
  let ?Q = "insert i (granters (others i peers) rs)"
  have d: "distinct (others i peers)" "distinct peers" and mok: "messages_ok peers cl" and nok: "nodes_ok peers cl"
    using inv by (simp_all add: raft_inv_def others_def)
  have sub: "granters (others i peers) rs \<subseteq> set peers" "i \<notin> granters (others i peers) rs"
    using granters_subset [of "others i peers" rs] by (auto simp: others_def)
  have "n = 1 + card (granters (others i peers) rs)"
    using tally_granters [OF ans [unfolded answers_ok_def] d(1) res(1)] .
  then have "card ?Q = n" using sub by (simp add: finite_subset [OF sub(1)])
  then have maj: "majority peers ?Q" using sub(1) i res(2) nok by (simp add: majority_def quorumLocked_def nodes_ok_def)
  have "(q, i, t) \<in> cl_votes cl" if q: "q \<in> granters (others i peers) rs" for q
  proof -
    obtain a where a: "(q, Some a) \<in> set (zip (others i peers) rs)" "rvr_VoteGranted a" using q by (auto simp: granters_def)
    then have "(q, i, t, a) \<in> cl_answers cl" using ans by (auto simp: answers_ok_def list_all2_iff)
    then show ?thesis using mok a(2) unfolding messages_ok_def by blast
  qed
  moreover have "(i, i, t) \<in> cl_votes cl" using mok pend unfolding messages_ok_def by blast
  ultimately have votes: "\<forall>q \<in> ?Q. (q, i, bb_term (ballots peers cl) i) \<in> bb_votes (ballots peers cl)"
    using i st(2) by (auto simp: ballots_def)
  have role: "bb_role (ballots peers cl) i = StateCandidate" using i st(1) by (simp add: ballots_def)
  have "ballots peers ((node_upd i e' cl)\<lparr>cl_elected := insert (i, t, ?Q) (cl_elected cl)\<rparr>) =
      (ballots peers cl)\<lparr>bb_role := (bb_role (ballots peers cl))(i := StateLeader),
         bb_elected := insert (i, bb_term (ballots peers cl) i, ?Q) (bb_elected (ballots peers cl))\<rparr>"
    using i st(2) e' by (auto simp: ballots_def node_upd_def fun_eq_iff)
  then show ?thesis using vote_step.win [of "ballots peers cl" i "majority peers" ?Q, OF role maj votes] by simp
qed

text \<open>What the end of an election does.\<close>

lemma startElection_end_effect:
  "(\<exists>t'. result = Inl t' \<and> downed t' e (startElection_end t result e)) \<or> keeps e (startElection_end t result e) \<or>
   (\<exists>n. result = Inr n \<and> quorumLocked e \<le> n \<and> e_state e = StateCandidate \<and> e_currentTerm e = t \<and>
      startElection_end t result e = becomeLeaderLocked e)"
  by (cases result) (auto simp: startElection_end_def)

lemma becomeLeaderLocked_fields [simp]:
  "e_id (becomeLeaderLocked e) = e_id e" "e_peers (becomeLeaderLocked e) = e_peers e"
  "e_currentTerm (becomeLeaderLocked e) = e_currentTerm e" "e_votedFor (becomeLeaderLocked e) = e_votedFor e"
  "e_state (becomeLeaderLocked e) = StateLeader" "e_synced (becomeLeaderLocked e) = e_synced e"
  by (simp_all add: becomeLeaderLocked_def e_synced_def)

lemma sim_election_end:
  assumes inv: "raft_inv peers cl" and i: "i \<in> set peers" and pend: "cl_pending cl i = Some t"
    and ans: "answers_ok cl i t (others i peers) rs" and res: "result = startElection_tally t 1 rs"
    and e': "e' = startElection_end t result (cl_nodes cl i)"
    and careful: "\<forall>t'. result = Inl t' \<longrightarrow> e_currentTerm (cl_nodes cl i) < t'"
  shows "votes_to peers (ballots peers cl)
    (ballots peers ((node_upd i e' cl)\<lparr>cl_elected := (if e_state (cl_nodes cl i) = StateCandidate \<and> e_state e' = StateLeader
       then insert (i, t, insert i (granters (others i peers) rs)) (cl_elected cl) else cl_elected cl)\<rparr>))"
  using startElection_end_effect [of result "cl_nodes cl i" t]
proof (elim disjE exE conjE)
  fix t' assume d: "result = Inl t'" "downed t' (cl_nodes cl i) (startElection_end t result (cl_nodes cl i))"
  then have md: "maybe_downed (cl_nodes cl i) e'" using careful e' by (auto simp: maybe_downed_def)
  have "e_state e' \<noteq> StateLeader" using d e' by (simp add: downed_def)
  moreover have "ballots peers ((node_upd i e' cl)\<lparr>cl_elected := cl_elected cl\<rparr>) = ballots peers (node_upd i e' cl)"
    by (simp add: ballots_def node_upd_def cong: if_cong)
  ultimately show ?thesis using sim_maybe_downed [OF md i] by simp
next
  assume k: "keeps (cl_nodes cl i) (startElection_end t result (cl_nodes cl i))"
  then have "\<not> (e_state (cl_nodes cl i) = StateCandidate \<and> e_state e' = StateLeader)" using e' by (auto simp: keeps_def)
  moreover have "ballots peers ((node_upd i e' cl)\<lparr>cl_elected := cl_elected cl\<rparr>) = ballots peers (node_upd i e' cl)"
    by (simp add: ballots_def node_upd_def cong: if_cong)
  ultimately show ?thesis using ballots_keeps [OF k, of peers] e' by (simp only: if_False)
next
  fix n assume w: "result = Inr n" "quorumLocked (cl_nodes cl i) \<le> n" "e_state (cl_nodes cl i) = StateCandidate"
    "e_currentTerm (cl_nodes cl i) = t" "startElection_end t result (cl_nodes cl i) = becomeLeaderLocked (cl_nodes cl i)"
  then have "e_state e' = StateLeader" "e_currentTerm e' = t" "e_votedFor e' = e_votedFor (cl_nodes cl i)" using e' by simp_all
  then show ?thesis using sim_win [OF inv i pend ans _ w(2,3,4)] w(1,3) res by simp
qed

lemma sim_election_begin:
  assumes inv: "raft_inv peers cl" and i: "i \<in> set peers"
    and run: "startElection_begin (cl_nodes cl i) = Some (e', req)"
    and room: "e_currentTerm (cl_nodes cl i) < e_currentTerm (cl_nodes cl i) + 1"
  shows "votes_to peers (ballots peers cl)
    (ballots peers ((node_upd i e' cl)\<lparr>cl_votes := insert (i, i, rv_Term req) (cl_votes cl)\<rparr>))"
proof -
  have n: "i \<noteq> []" "e_id (cl_nodes cl i) = i" using inv i by (auto simp: raft_inv_def nodes_ok_def)
  have f: "e_currentTerm e' = e_currentTerm (cl_nodes cl i) + 1" "e_votedFor e' = i" "e_state e' = StateCandidate"
    "rv_Term req = e_currentTerm (cl_nodes cl i) + 1"
    using run n(2) by (auto simp: startElection_begin_def Let_def persistLocked_def split: if_splits)
  let ?b = "ballots peers cl"
  have "ballots peers ((node_upd i e' cl)\<lparr>cl_votes := insert (i, i, rv_Term req) (cl_votes cl)\<rparr>) =
     ?b\<lparr>bb_term := (bb_term ?b)(i := bb_term ?b i + 1), bb_vote := (bb_vote ?b)(i := i),
       bb_role := (bb_role ?b)(i := StateCandidate), bb_votes := insert (i, i, bb_term ?b i + 1) (bb_votes ?b)\<rparr>"
    using f i by (auto simp: ballots_def node_upd_def fun_eq_iff)
  moreover have "bb_term ?b i < bb_term ?b i + 1" using room i by (simp add: ballots_def)
  ultimately show ?thesis using vote_step.stand [OF n(1), of ?b "majority peers"] by simp
qed

lemma sim_vote:
  assumes inv: "raft_inv peers cl" and p: "(p, req) \<in> cl_requests cl"
    and run: "handleRequestVote req (cl_nodes cl p) = (resp, e')"
  shows "votes_to peers (ballots peers cl) (ballots peers ((node_upd p e' cl)\<lparr>cl_votes :=
     (if rvr_VoteGranted resp then insert (p, rv_CandidateID req, rv_Term req) (cl_votes cl) else cl_votes cl)\<rparr>))"
proof -
  let ?c = "rv_CandidateID req"
  have m: "p \<in> set peers" "?c \<noteq> p" "?c \<noteq> []" using inv p by (auto simp: raft_inv_def messages_ok_def)
  have grant: "vote_step (majority peers) (ballots peers cl0)
      (ballots peers ((node_upd p e' cl0)\<lparr>cl_votes := insert (p, ?c, e_currentTerm (cl_nodes cl0 p)) (cl_votes cl0)\<rparr>))"
    if "votes_for ?c (cl_nodes cl0 p) e'" for cl0 :: "('a, 'b) cluster"
    unfolding ballots_votes [OF that m(1)] using that m by (intro vote_step.grant) (auto simp: ballots_def votes_for_def)
  from handleRequestVote_effect [OF run] show ?thesis
  proof (elim disjE conjE exE)
    assume "\<not> rvr_VoteGranted resp" "maybe_downed (cl_nodes cl p) e'"
    moreover have "ballots peers ((node_upd p e' cl)\<lparr>cl_votes := cl_votes cl\<rparr>) = ballots peers (node_upd p e' cl)"
      by (simp add: ballots_def node_upd_def cong: if_cong)
    ultimately show ?thesis using sim_maybe_downed m(1) by simp
  next
    assume "rvr_VoteGranted resp" "rv_Term req = e_currentTerm (cl_nodes cl p)" "votes_for ?c (cl_nodes cl p) e'"
    then show ?thesis using grant [of cl] by simp
  next
    fix e1 assume g: "rvr_VoteGranted resp" "e_currentTerm (cl_nodes cl p) < rv_Term req"
      "downed (rv_Term req) (cl_nodes cl p) e1" "votes_for ?c e1 e'"
    let ?cl1 = "node_upd p e1 cl"
    have n1: "cl_nodes ?cl1 p = e1" "cl_votes ?cl1 = cl_votes cl" "node_upd p e' ?cl1 = node_upd p e' cl"
      "e_currentTerm e1 = rv_Term req"
      using g(3) by (simp_all add: node_upd_def downed_def)
    have "votes_to peers (ballots peers cl) (ballots peers ?cl1)"
      using g(2,3) m(1) by (intro sim_maybe_downed) (auto simp: maybe_downed_def)
    then show ?thesis using grant [of ?cl1] g(1,4) n1 by (simp add: rtranclp.rtrancl_into_rtrancl)
  qed
qed

lemma NewEngine_restart:
  assumes "NewEngine sm i ps threshold f p = Inr e'"
  shows "i \<noteq> []" "e_id e' = i" "e_peers e' = ps" "e_currentTerm e' = ps_CurrentTerm p" "e_votedFor e' = ps_VotedFor p"
    "e_state e' = StateFollower" "e_synced e'"
proof -
  obtain e where e: "e' = applyCommittedLocked sm e" "e_id e = i" "e_peers e = ps" "e_currentTerm e = ps_CurrentTerm p"
    "e_votedFor e = ps_VotedFor p" "e_state e = StateFollower" "e_synced e"
    using assms by (auto simp: NewEngine_def Let_def e_synced_def split: if_splits option.splits)
  have "keeps e e'" using e(1) by simp
  then show "e_id e' = i" "e_peers e' = ps" "e_currentTerm e' = ps_CurrentTerm p" "e_votedFor e' = ps_VotedFor p"
    "e_state e' = StateFollower" "e_synced e'" using e by (simp_all add: keeps_def)
  show "i \<noteq> []" using assms by (auto simp: NewEngine_def)
qed

lemma sim_restart:
  assumes inv: "raft_inv peers cl" and i: "i \<in> set peers"
    and run: "NewEngine sm i ps threshold f (e_store (cl_nodes cl i)) = Inr e'"
  shows "votes_to peers (ballots peers cl) (ballots peers (node_upd i e' cl))"
proof -
  have "e_synced (cl_nodes cl i)" using inv i by (simp add: raft_inv_def nodes_ok_def)
  then have "ballots peers (node_upd i e' cl) = (ballots peers cl)\<lparr>bb_role := (bb_role (ballots peers cl))(i := StateFollower)\<rparr>"
    using NewEngine_restart [OF run] i by (auto simp: ballots_def node_upd_def e_synced_def fun_eq_iff)
  then show ?thesis using vote_step.restart [of "majority peers" "ballots peers cl" i] by simp
qed

lemma raft_step_refines:
  assumes "raft_step sm peers True cl cl'" and inv: "raft_inv peers cl"
  shows "votes_to peers (ballots peers cl) (ballots peers cl')"
  using assms
proof (induction rule: raft_step.induct)
  case (election_begin i cl e' req)
  then show ?case unfolding ballots_cong2 by (intro sim_election_begin)
next
  case (vote p req cl resp e')
  then show ?case unfolding ballots_cong2 by (intro sim_vote)
next
  case (election_end i cl t ps rs result e')
  have "e_peers (cl_nodes cl i) = peers" using election_end by (simp add: raft_inv_def nodes_ok_def)
  then have ps: "ps = others i peers" using election_end by simp
  show ?case unfolding ballots_cong2 ps
    by (rule sim_election_end) (use election_end ps in simp_all)
next
  case (append p req cl resp e')
  obtain Q where "p \<in> set peers" "ae_LeaderID req \<noteq> p" "(ae_LeaderID req, ae_Term req, Q) \<in> cl_elected cl"
    using append by (fastforce simp: raft_inv_def messages_ok_def)
  moreover have "heard_from (ae_Term req) (cl_nodes cl p) e'"
    using heard_from_append [of req "cl_nodes cl p" sm] append(2) by simp
  ultimately show ?case using sim_heard_from by simp
next
  case (install p req cl resp e')
  obtain Q where "p \<in> set peers" "is_LeaderID req \<noteq> p" "(is_LeaderID req, is_Term req, Q) \<in> cl_elected cl"
    using install by (fastforce simp: raft_inv_def messages_ok_def)
  moreover have "heard_from (is_Term req) (cl_nodes cl p) e'"
    using heard_from_snapshot [of req "cl_nodes cl p" sm] install(2) by simp
  ultimately show ?case using sim_heard_from by simp
next
  case (restart i cl threshold f e')
  then show ?case using sim_restart by simp
qed (auto simp: ballots_keeps keeps_Apply_begin keeps_Apply_check
       intro!: sim_maybe_downed append_reply_effect snapshot_reply_effect)

subsection \<open>The invariant\<close>

definition same_node :: "('c, 'f) Engine \<Rightarrow> ('c, 'f) Engine \<Rightarrow> bool" where
  "same_node e e' \<longleftrightarrow> e_id e' = e_id e \<and> e_peers e' = e_peers e \<and> (e_synced e \<longrightarrow> e_synced e')"

lemma same_nodeI:
  "keeps e e' \<Longrightarrow> same_node e e'" "downed t e e' \<Longrightarrow> same_node e e'" "maybe_downed e e' \<Longrightarrow> same_node e e'"
  "heard_from t e e' \<Longrightarrow> same_node e e'" "votes_for c e e' \<Longrightarrow> same_node e e'"
  "downed t e e1 \<Longrightarrow> votes_for c e1 e' \<Longrightarrow> same_node e e'"
  by (auto simp: same_node_def keeps_def downed_def maybe_downed_def heard_from_def votes_for_def)

lemma same_node_begin: "startElection_begin e = Some (e', req) \<Longrightarrow> same_node e e'"
  by (auto simp: startElection_begin_def same_node_def persistLocked_def persisted_def e_synced_def Let_def split: if_splits)

lemma same_node_end: "same_node e (startElection_end t result e)"
  using startElection_end_effect [of result e t] by (auto simp: same_node_def keeps_def downed_def)

lemma same_node_vote: "handleRequestVote req e = (resp, e') \<Longrightarrow> same_node e e'"
  using handleRequestVote_effect [of req e resp e'] by (auto intro: same_nodeI)

lemma nodes_ok_upd:
  "\<lbrakk>nodes_ok peers cl; same_node (cl_nodes cl i) e'; cl_nodes cl' = (cl_nodes cl)(i := e')\<rbrakk> \<Longrightarrow> nodes_ok peers cl'"
  by (auto simp: nodes_ok_def same_node_def)

lemma nodes_ok_step:
  assumes "raft_step sm peers careful cl cl'" "nodes_ok peers cl"
  shows "nodes_ok peers cl'"
  using assms
proof (induction rule: raft_step.induct)
  case (append p req cl resp e')
  have "heard_from (ae_Term req) (cl_nodes cl p) e'" using heard_from_append [of req "cl_nodes cl p" sm] append(2) by simp
  then show ?case by (intro nodes_ok_upd [OF append.prems same_nodeI(4)]) (simp_all add: node_upd_def)
next
  case (install p req cl resp e')
  have "heard_from (is_Term req) (cl_nodes cl p) e'" using heard_from_snapshot [of req "cl_nodes cl p" sm] install(2) by simp
  then show ?case by (intro nodes_ok_upd [OF install.prems same_nodeI(4)]) (simp_all add: node_upd_def)
next
  case (election_begin i cl e' req)
  then show ?case by (intro nodes_ok_upd [OF election_begin.prems same_node_begin]) (simp_all add: node_upd_def)
next
  case (vote p req cl resp e')
  then show ?case by (intro nodes_ok_upd [OF vote.prems same_node_vote]) (simp_all add: node_upd_def)
next
  case (election_end i cl t ps rs result e')
  then show ?case by (intro nodes_ok_upd [OF election_end.prems same_node_end]) (simp_all add: node_upd_def)
next
  case (replicate p cl i m)
  then show ?case by (simp add: nodes_ok_def)
next
  case (append_reply i p t resp cl)
  then show ?case by (intro nodes_ok_upd [OF append_reply.prems same_nodeI(3) [OF append_reply_effect]]) (simp_all add: node_upd_def)
next
  case (install_reply i p req resp cl)
  then show ?case by (intro nodes_ok_upd [OF install_reply.prems same_nodeI(3) [OF snapshot_reply_effect]]) (simp_all add: node_upd_def)
next
  case (apply_begin i cmd cl index e')
  then show ?case by (intro nodes_ok_upd [OF apply_begin.prems same_nodeI(1) [OF keeps_Apply_begin]]) (simp_all add: node_upd_def)
next
  case (apply_check i cl index)
  then show ?case by (intro nodes_ok_upd [OF apply_check.prems same_nodeI(1) [OF keeps_Apply_check]]) (simp_all add: node_upd_def)
next
  case (shutdown i cl)
  then show ?case by (intro nodes_ok_upd [OF shutdown.prems same_nodeI(1) [OF keeps_Shutdown]]) (simp_all add: node_upd_def)
next
  case (restart i cl threshold f e')
  then show ?case using NewEngine_restart [OF restart(2)] by (auto simp: nodes_ok_def node_upd_def)
qed

lemma startElection_begin_request:
  "startElection_begin e = Some (e', req) \<Longrightarrow> rv_CandidateID req = e_id e \<and> e_peers e' = e_peers e"
  by (auto simp: startElection_begin_def persistLocked_def Let_def split: if_splits)

lemma replicateTo_request_leader:
  "replicateTo_request p e = Some m \<Longrightarrow> e_state e = StateLeader \<and> msg_leader m = (e_id e, e_currentTerm e)"
  by (auto simp: replicateTo_request_def Let_def split: if_splits)

lemma leader_elected:
  assumes "raft_inv peers cl" "i \<in> set peers" "e_state (cl_nodes cl i) = StateLeader"
  shows "\<exists>Q. (i, e_currentTerm (cl_nodes cl i), Q) \<in> cl_elected cl"
proof -
  have "candidates_ok (ballots peers cl)" using assms(1) by (simp add: raft_inv_def vote_inv_def)
  moreover have "bb_role (ballots peers cl) i = StateLeader" using assms(2,3) by (simp add: ballots_def)
  ultimately have "\<exists>Q. (i, bb_term (ballots peers cl) i, Q) \<in> bb_elected (ballots peers cl)"
    unfolding candidates_ok_def by blast
  then show ?thesis using assms(2) by (simp add: ballots_def)
qed

lemma messages_ok_step:
  assumes "raft_step sm peers careful cl cl'" "raft_inv peers cl"
  shows "messages_ok peers cl'"
  using assms
proof (induction rule: raft_step.induct)
  case (election_begin i cl e' req)
  have m: "messages_ok peers cl" "e_id (cl_nodes cl i) = i" "e_peers (cl_nodes cl i) = peers" "i \<noteq> []"
    using election_begin by (simp_all add: raft_inv_def nodes_ok_def)
  have r: "rv_CandidateID req = i" "e_peers e' = peers" using startElection_begin_request [OF election_begin(3)] m by simp_all
  show ?case using m(1,4) r by (auto simp: messages_ok_def node_upd_def others_def)
next
  case (vote p req cl resp e')
  then have "messages_ok peers cl" by (simp add: raft_inv_def)
  then show ?case by (auto simp: messages_ok_def node_upd_def)
next
  case (election_end i cl t ps rs result e')
  then have "messages_ok peers cl" by (simp add: raft_inv_def)
  then show ?case unfolding messages_ok_def node_upd_def by simp blast
next
  case (replicate i p cl m)
  have m: "messages_ok peers cl" "e_id (cl_nodes cl i) = i" "e_peers (cl_nodes cl i) = peers"
    using replicate by (simp_all add: raft_inv_def nodes_ok_def)
  have l: "e_state (cl_nodes cl i) = StateLeader" "msg_leader m = (i, e_currentTerm (cl_nodes cl i))"
    using replicateTo_request_leader [OF replicate(2)] m by simp_all
  obtain Q where "(i, e_currentTerm (cl_nodes cl i), Q) \<in> cl_elected cl"
    using leader_elected replicate l(1) by blast
  moreover have "p \<in> set peers" "i \<noteq> p" using replicate(3) m(3) by (auto simp: others_def)
  ultimately show ?case using m(1) l(2) by (auto simp: messages_ok_def)
qed (simp_all add: raft_inv_def messages_ok_def node_upd_def)

lemma raft_step_inv:
  assumes step: "raft_step sm peers True cl cl'" and inv: "raft_inv peers cl"
  shows "raft_inv peers cl'"
proof -
  have "vote_inv (majority peers) (ballots peers cl')"
    using peers_majority.vote_steps_inv [OF raft_step_refines [OF step inv]] inv by (simp add: raft_inv_def)
  then show ?thesis using nodes_ok_step [OF step] messages_ok_step [OF step inv] inv by (simp add: raft_inv_def)
qed

lemma cluster_init_inv:
  assumes "cluster_init sm peers cl"
  shows "raft_inv peers cl"
proof -
  have n: "i \<noteq> [] \<and> e_id (cl_nodes cl i) = i \<and> e_peers (cl_nodes cl i) = peers \<and> e_synced (cl_nodes cl i) \<and>
      e_votedFor (cl_nodes cl i) = [] \<and> e_state (cl_nodes cl i) = StateFollower" if "i \<in> set peers" for i
    using assms that NewEngine_restart by (fastforce simp: cluster_init_def empty_persisted_def)
  show ?thesis
    using assms n by (auto simp: raft_inv_def nodes_ok_def messages_ok_def cluster_init_def vote_inv_defs ballots_def)
qed

lemma raft_run_inv:
  assumes "(raft_step sm peers True)\<^sup>*\<^sup>* cl0 cl" "cluster_init sm peers cl0"
  shows "raft_inv peers cl"
  using assms by (induction rule: rtranclp_induct) (auto intro: cluster_init_inv raft_step_inv)


subsection \<open>A cluster of three\<close>

definition max_sm :: "(nat, nat) StateMachine" where
  "max_sm = \<lparr>sm_Apply = max, sm_Snapshots = None\<rparr>"

definition abc :: "string list" where "abc = [''a'', ''b'', ''c'']"

definition fresh_node :: "string \<Rightarrow> (nat, nat) Engine" where
  "fresh_node i = \<lparr>e_id = i, e_peers = abc, e_store = empty_persisted, e_save_ok = True, e_fsm = 0, e_state = StateFollower,
     e_currentTerm = 0, e_votedFor = [], e_log = [], e_commitIndex = 0, e_lastApplied = 0, e_snapshot = empty_snapshot,
     e_leaderID = [], e_nextIndex = (\<lambda>_. 0), e_matchIndex = (\<lambda>_. 0), e_snapshotThreshold = 0, e_closed = False, e_events = []\<rparr>"

definition fresh_cluster :: "(nat, nat) cluster" where
  "fresh_cluster = \<lparr>cl_nodes = fresh_node, cl_pending = (\<lambda>_. None), cl_requests = {}, cl_answers = {}, cl_sent = {},
     cl_appended = {}, cl_installed = {}, cl_votes = {}, cl_elected = {}\<rparr>"

lemma NewEngine_fresh: "i \<noteq> [] \<Longrightarrow> NewEngine max_sm i abc 0 0 empty_persisted = Inr (fresh_node i)"
  by (simp add: NewEngine_def fresh_node_def empty_persisted_def empty_snapshot_def abc_def applyCommittedLocked.simps)

lemma fresh_cluster_init: "cluster_init max_sm abc fresh_cluster"
proof -
  have "\<exists>threshold f. NewEngine max_sm i abc threshold f empty_persisted = Inr (fresh_node i)" if "i \<in> set abc" for i
    using NewEngine_fresh [of i] that by (intro exI [of _ 0]) (auto simp: abc_def)
  then show ?thesis by (simp add: cluster_init_def fresh_cluster_def abc_def)
qed

definition ask_a :: requestVoteRequest where
  "ask_a = \<lparr>rv_Term = 1, rv_CandidateID = ''a'', rv_LastLogIndex = 0, rv_LastLogTerm = 0\<rparr>"

definition cand_a :: "(nat, nat) Engine" where
  "cand_a = persistLocked ((fresh_node ''a'')\<lparr>e_state := StateCandidate, e_currentTerm := 1, e_votedFor := ''a''\<rparr>)"

lemmas node_eval = fresh_node_def empty_persisted_def empty_snapshot_def lastIndexLocked_def termAtLocked_def
  persistLocked_def persisted_def ask_a_def cand_a_def

lemma stand_a: "startElection_begin (fresh_node ''a'') = Some (cand_a, ask_a)"
  by (simp add: startElection_begin_def node_eval)

lemma b_grants: "\<exists>e'. handleRequestVote ask_a (fresh_node ''b'') = (\<lparr>rvr_Term = 1, rvr_VoteGranted = True\<rparr>, e') \<and> e_state e' = StateFollower"
  by (simp add: handleRequestVote_def stepDownLocked_def upToDate_def node_eval)

lemma a_wins: "startElection_end 1 (startElection_tally 1 1 [Some \<lparr>rvr_Term = 1, rvr_VoteGranted = True\<rparr>, None]) cand_a = becomeLeaderLocked cand_a"
  by (simp add: startElection_end_def node_eval quorumLocked_def abc_def)


section \<open>A stale answer\<close>

text \<open>The end of an election takes the term of an answer without comparing it with the term the
  engine has reached meanwhile. Here \<open>a\<close> stands in term 1, votes for \<open>c\<close> in term 3 while its calls are
  outstanding, then handles an answer of term 2: it goes back to term 2 without a vote, and votes for
  \<open>b\<close> in term 3 as well.\<close>

definition ask3 :: "string \<Rightarrow> requestVoteRequest" where
  "ask3 c = \<lparr>rv_Term = 3, rv_CandidateID = c, rv_LastLogIndex = 0, rv_LastLogTerm = 0\<rparr>"

lemma stale_answer_votes_twice:
  "\<exists>e1 e2 e3. startElection_begin (fresh_node ''a'') = Some (cand_a, ask_a) \<and>
     handleRequestVote (ask3 ''c'') cand_a = (\<lparr>rvr_Term = 3, rvr_VoteGranted = True\<rparr>, e1) \<and>
     startElection_end 1 (startElection_tally 1 1 [Some \<lparr>rvr_Term = 2, rvr_VoteGranted = False\<rparr>]) e1 = e2 \<and>
     handleRequestVote (ask3 ''b'') e2 = (\<lparr>rvr_Term = 3, rvr_VoteGranted = True\<rparr>, e3)"
  by (simp add: stand_a) (simp add: handleRequestVote_def stepDownLocked_def startElection_end_def upToDate_def ask3_def node_eval)

text \<open>A save that fails is ignored: the vote is given, and forgotten by a restart.\<close>

lemma unsaved_vote_forgotten:
  "\<exists>e1 e2 e3. handleRequestVote (ask3 ''c'') ((fresh_node ''a'')\<lparr>e_save_ok := False\<rparr>) = (\<lparr>rvr_Term = 3, rvr_VoteGranted = True\<rparr>, e1) \<and>
     NewEngine max_sm ''a'' abc 0 0 (e_store e1) = Inr e2 \<and>
     handleRequestVote (ask3 ''b'') e2 = (\<lparr>rvr_Term = 3, rvr_VoteGranted = True\<rparr>, e3)"
proof -
  obtain e1 where e1: "handleRequestVote (ask3 ''c'') ((fresh_node ''a'')\<lparr>e_save_ok := False\<rparr>) = (\<lparr>rvr_Term = 3, rvr_VoteGranted = True\<rparr>, e1)"
    "e_store e1 = empty_persisted"
    by (simp add: handleRequestVote_def stepDownLocked_def upToDate_def ask3_def node_eval)
  moreover have "\<exists>e3. handleRequestVote (ask3 ''b'') (fresh_node ''a'') = (\<lparr>rvr_Term = 3, rvr_VoteGranted = True\<rparr>, e3)"
    by (simp add: handleRequestVote_def stepDownLocked_def upToDate_def ask3_def node_eval)
  ultimately show ?thesis using NewEngine_fresh [of "''a''"] by (auto simp: e1(2))
qed

end
