(* ===== verification/RaftLog.thy ===== *)
theory RaftLog
  imports RaftElection
begin

text \<open>
  The log of the native Raft engine: that the entries stay consecutive above the snapshot, what a
  successful append leaves in the follower's log, which index a leader commits, in which order
  committed commands reach the state machine, and that a restart rebuilds the state machine. The
  last lemmas show three situations the handlers do not guard against.
\<close>

section \<open>Consecutive entries\<close>

definition base :: "('c, 'f) Engine \<Rightarrow> nat" where
  "base e = unat (sn_Index (e_snapshot e))"

definition log_ok :: "('c, 'f) Engine \<Rightarrow> bool" where
  "log_ok e \<longleftrightarrow> (\<forall>k < length (e_log e). unat (en_Index (e_log e ! k)) = base e + 1 + k)"

lemma log_ok_nth: "log_ok e \<Longrightarrow> k < length (e_log e) \<Longrightarrow> unat (en_Index (e_log e ! k)) = base e + 1 + k"
  by (simp add: log_ok_def)

lemma lastIndex_base: "log_ok e \<Longrightarrow> unat (lastIndexLocked e) = base e + length (e_log e)"
  using log_ok_nth [of e "length (e_log e) - 1"]
  by (auto simp: lastIndexLocked_def base_def last_conv_nth)

lemma find_nth:
  assumes "log_ok e" "unat i = base e + 1 + k" "k < length (e_log e)"
  shows "List.find (\<lambda>en. en_Index en = i) (e_log e) = Some (e_log e ! k)"
proof -
  have idx: "(en_Index (e_log e ! j) = i) = (j = k)" if "j < length (e_log e)" for j
    using log_ok_nth [OF assms(1) that] assms(2) by (auto simp: word_unat_eq_iff)
  have "\<forall>j < k. en_Index (e_log e ! j) \<noteq> i" using idx assms(3) by simp
  then show ?thesis unfolding find_Some_iff using idx [OF assms(3)] assms(3) by blast
qed

lemma find_none:
  assumes "log_ok e" "unat i \<le> base e \<or> base e + length (e_log e) < unat i"
  shows "List.find (\<lambda>en. en_Index en = i) (e_log e) = None"
proof -
  have "en_Index (e_log e ! j) \<noteq> i" if "j < length (e_log e)" for j
    using log_ok_nth [OF assms(1) that] assms(2) that by auto
  then show ?thesis by (auto simp: find_None_iff in_set_conv_nth)
qed

lemma termAt_nth:
  "\<lbrakk>log_ok e; unat i = base e + 1 + k; k < length (e_log e)\<rbrakk> \<Longrightarrow> termAtLocked e i = en_Term (e_log e ! k)"
  using find_nth [of e i k] by (auto simp: termAtLocked_def base_def)

lemma filter_index_le:
  assumes "log_ok e" "base e \<le> unat i"
  shows "filter (\<lambda>en. en_Index en \<le> i) (e_log e) = take (unat i - base e) (e_log e)"
proof -
  let ?n = "unat i - base e" and ?l = "e_log e"
  have idx: "(en_Index (?l ! k) \<le> i) = (k < ?n)" if "k < length ?l" for k
    using log_ok_nth [OF assms(1) that] assms(2) by (auto simp: word_le_nat_alt)
  have "filter (\<lambda>en. en_Index en \<le> i) (take ?n ?l) = take ?n ?l"
    using idx by (auto simp: filter_id_conv in_set_conv_nth)
  moreover have "filter (\<lambda>en. en_Index en \<le> i) (drop ?n ?l) = []"
    using idx by (auto simp: filter_empty_conv in_set_conv_nth)
  ultimately show ?thesis by (metis append_Nil2 append_take_drop_id filter_append)
qed

definition commit_ok :: "('c, 'f) Engine \<Rightarrow> bool" where
  "commit_ok e \<longleftrightarrow> base e \<le> unat (e_lastApplied e) \<and> e_lastApplied e \<le> e_commitIndex e \<and>
     unat (e_commitIndex e) \<le> base e + length (e_log e)"

lemma truncateAfterLocked_take:
  assumes "log_ok e" "base e \<le> unat i"
  shows "e_log (truncateAfterLocked i e) = take (unat i - base e) (e_log e)"
    "e_commitIndex (truncateAfterLocked i e) = min (e_commitIndex e) i"
    "e_lastApplied (truncateAfterLocked i e) = min (e_lastApplied e) i"
proof -
  have "\<not> i < sn_Index (e_snapshot e)" using assms(2) by (simp add: base_def word_less_nat_alt)
  then show "e_log (truncateAfterLocked i e) = take (unat i - base e) (e_log e)"
    "e_commitIndex (truncateAfterLocked i e) = min (e_commitIndex e) i"
    "e_lastApplied (truncateAfterLocked i e) = min (e_lastApplied e) i"
    using filter_index_le [OF assms] by (auto simp: truncateAfterLocked_def Let_def min_def)
qed

lemma base_cong [simp]: "base (truncateAfterLocked i e) = base e" "base (append_one en e) = base e"
  "base (e\<lparr>e_log := l\<rparr>) = base e" "base (e\<lparr>e_commitIndex := c\<rparr>) = base e"
  by (simp_all add: base_def truncateAfterLocked_def append_one_def Let_def)

lemma append_one_log:
  assumes ok: "log_ok e" and idx: "unat (en_Index en) = base e + 1 + k" and k: "k \<le> length (e_log e)"
  shows "e_log (append_one en e) =
    (if k < length (e_log e) \<and> en_Term (e_log e ! k) = en_Term en then e_log e else take k (e_log e) @ [en])"
    and "commit_ok e \<Longrightarrow> commit_ok (append_one en e)"
proof -
  have le: "(en_Index en \<le> lastIndexLocked e) = (k < length (e_log e))"
    using lastIndex_base [OF ok] idx by (auto simp: word_le_nat_alt)
  have tm: "k < length (e_log e) \<Longrightarrow> termAtLocked e (en_Index en) = en_Term (e_log e ! k)"
    using termAt_nth [OF ok idx] .
  have "en_Index en \<noteq> 0" using idx by auto
  then have pred: "unat (en_Index en - 1) = base e + k" using idx by (simp add: unat_minus_one)
  note tr = truncateAfterLocked_take [OF ok, of "en_Index en - 1", unfolded pred, simplified]
  show "e_log (append_one en e) =
    (if k < length (e_log e) \<and> en_Term (e_log e ! k) = en_Term en then e_log e else take k (e_log e) @ [en])"
    using le tm k tr(1) by (auto simp: append_one_def Let_def)
  assume c: "commit_ok e"
  have m: "unat (min a (en_Index en - 1)) = min (unat a) (base e + k)" for a
    using pred by (simp add: min_def word_le_nat_alt)
  show "commit_ok (append_one en e)"
  proof (cases "k < length (e_log e) \<and> en_Term (e_log e ! k) \<noteq> en_Term en")
    case True
    then have "append_one en e = (let e1 = truncateAfterLocked (en_Index en - 1) e in e1\<lparr>e_log := e_log e1 @ [en]\<rparr>)"
      using le tm by (simp add: append_one_def)
    then show ?thesis using c k tr m by (auto simp: commit_ok_def Let_def base_def [symmetric] word_le_nat_alt min_le_iff_disj)
  next
    case False
    then have "append_one en e = e \<or> append_one en e = e\<lparr>e_log := e_log e @ [en]\<rparr>"
      using le tm by (auto simp: append_one_def Let_def)
    then show ?thesis using c by (auto simp: commit_ok_def base_def)
  qed
qed

lemma append_one_ok:
  assumes "log_ok e" "unat (en_Index en) = base e + 1 + k" "k \<le> length (e_log e)"
  shows "log_ok (append_one en e)" "k < length (e_log (append_one en e))"
    "en_Term (e_log (append_one en e) ! k) = en_Term en" "take k (e_log (append_one en e)) = take k (e_log e)"
  using assms append_one_log(1) [OF assms] by (auto simp: log_ok_def nth_append less_Suc_eq min_def)

text \<open>A batch of consecutive entries that starts right after index \<open>base + m\<close>.\<close>

definition batch_from :: "nat \<Rightarrow> 'c native_LogEntry list \<Rightarrow> bool" where
  "batch_from m ens \<longleftrightarrow> (\<forall>j < length ens. unat (en_Index (ens ! j)) = m + 1 + j)"

lemma fold_append_ok:
  assumes "log_ok e" "commit_ok e" "m \<le> length (e_log e)" "batch_from (base e + m) ens"
  shows "log_ok (fold append_one ens e) \<and> commit_ok (fold append_one ens e) \<and> base (fold append_one ens e) = base e \<and>
    take m (e_log (fold append_one ens e)) = take m (e_log e) \<and>
    (\<forall>j < length ens. m + j < length (e_log (fold append_one ens e)) \<and>
       en_Term (e_log (fold append_one ens e) ! (m + j)) = en_Term (ens ! j))"
  using assms
proof (induction ens arbitrary: e m)
  case (Cons en ens)
  let ?e = "append_one en e"
  have idx: "unat (en_Index en) = base e + 1 + m" using Cons.prems(4) by (auto simp: batch_from_def)
  note a = append_one_ok [OF Cons.prems(1) idx Cons.prems(3)] append_one_log(2) [OF Cons.prems(1) idx Cons.prems(3,2)]
  have "batch_from (base ?e + Suc m) ens" using Cons.prems(4) by (auto simp: batch_from_def)
  then have ih: "log_ok (fold append_one ens ?e) \<and> commit_ok (fold append_one ens ?e) \<and> base (fold append_one ens ?e) = base ?e \<and>
      take (Suc m) (e_log (fold append_one ens ?e)) = take (Suc m) (e_log ?e) \<and>
      (\<forall>j < length ens. Suc m + j < length (e_log (fold append_one ens ?e)) \<and>
         en_Term (e_log (fold append_one ens ?e) ! (Suc m + j)) = en_Term (ens ! j))"
    using a by (intro Cons.IH) auto
  let ?l = "e_log (fold append_one ens ?e)"
  have tk: "take (Suc m) ?l = take (Suc m) (e_log ?e)" using ih by simp
  have "length (take (Suc m) ?l) = Suc m" unfolding tk using a(2) by simp
  then have len: "m < length ?l" by simp
  have "take (Suc m) ?l ! m = take (Suc m) (e_log ?e) ! m" unfolding tk ..
  then have "?l ! m = e_log ?e ! m" by simp
  moreover have "take m (take (Suc m) ?l) = take m (take (Suc m) (e_log ?e))" unfolding tk ..
  then have "take m ?l = take m (e_log ?e)" by (simp add: min_def)
  ultimately show ?case using ih a len by (auto simp: nth_Cons split: nat.splits)
qed simp

section \<open>Handling a request to append\<close>

lemma truncateAfterLocked_ok:
  assumes "log_ok e" "commit_ok e"
  shows "log_ok (truncateAfterLocked i e)" "commit_ok (truncateAfterLocked i e)"
proof -
  define j where "j = (if i < sn_Index (e_snapshot e) then sn_Index (e_snapshot e) else i)"
  have eq: "truncateAfterLocked i e = truncateAfterLocked j e" by (simp add: truncateAfterLocked_def j_def)
  have j: "base e \<le> unat j" by (auto simp: j_def base_def word_less_nat_alt)
  note tr = truncateAfterLocked_take [OF assms(1) j]
  show "log_ok (truncateAfterLocked i e)" using assms(1) tr(1) unfolding eq by (simp add: log_ok_def)
  have m: "unat (min a j) = min (unat a) (unat j)" for a by (simp add: min_def word_le_nat_alt)
  show "commit_ok (truncateAfterLocked i e)"
    using assms(2) tr m j unfolding eq by (auto simp: commit_ok_def word_le_nat_alt min_le_iff_disj)
qed

lemma follow_log [simp]:
  "e_log (follow t l e) = e_log e" "e_snapshot (follow t l e) = e_snapshot e" "e_commitIndex (follow t l e) = e_commitIndex e"
  "e_lastApplied (follow t l e) = e_lastApplied e" "e_fsm (follow t l e) = e_fsm e"
  by (simp_all add: follow_def stepDownLocked_def persistLocked_def Let_def)

lemma persistLocked_log [simp]:
  "e_log (persistLocked e) = e_log e" "e_snapshot (persistLocked e) = e_snapshot e"
  "e_commitIndex (persistLocked e) = e_commitIndex e" "e_lastApplied (persistLocked e) = e_lastApplied e"
  "e_fsm (persistLocked e) = e_fsm e" "e_save_ok (persistLocked e) = e_save_ok e"
  by (simp_all add: persistLocked_def)

lemma applyCommittedLocked_log [simp]:
  "e_log (applyCommittedLocked sm e) = e_log e \<and> e_snapshot (applyCommittedLocked sm e) = e_snapshot e \<and>
   e_commitIndex (applyCommittedLocked sm e) = e_commitIndex e \<and> e_store (applyCommittedLocked sm e) = e_store e \<and>
   e_save_ok (applyCommittedLocked sm e) = e_save_ok e \<and>
   e_lastApplied (applyCommittedLocked sm e) = max (e_lastApplied e) (e_commitIndex e)"
proof (induction sm e rule: applyCommittedLocked.induct)
  case (1 sm e)
  show ?case
  proof (cases "e_lastApplied e < e_commitIndex e")
    case True
    have "max (e_lastApplied e + 1) (e_commitIndex e) = max (e_lastApplied e) (e_commitIndex e)"
      using True word_succ_less [OF True] by (auto simp: max_def word_le_nat_alt word_less_nat_alt)
    then show ?thesis using 1 [OF True] True by (subst (1 2 3 4 5 6) applyCommittedLocked.simps) simp
  next
    case False
    then show ?thesis by (simp add: applyCommittedLocked.simps max_def)
  qed
qed

lemma log_ok_cong: "e_log e' = e_log e \<Longrightarrow> e_snapshot e' = e_snapshot e \<Longrightarrow> log_ok e' = log_ok e"
  by (simp add: log_ok_def base_def)

lemma commit_ok_cong:
  "\<lbrakk>e_log e' = e_log e; e_snapshot e' = e_snapshot e; e_commitIndex e' = e_commitIndex e; e_lastApplied e' = e_lastApplied e\<rbrakk>
   \<Longrightarrow> commit_ok e' = commit_ok e"
  by (simp add: commit_ok_def base_def)

lemma termAt_cong: "e_log e' = e_log e \<Longrightarrow> e_snapshot e' = e_snapshot e \<Longrightarrow> termAtLocked e' i = termAtLocked e i"
  by (simp add: termAtLocked_def)

lemma commit_apply_ok:
  assumes "log_ok e" "commit_ok e"
    and e': "e' = applyCommittedLocked sm (persistLocked (if c > e_commitIndex e then e\<lparr>e_commitIndex := min c (lastIndexLocked e)\<rparr> else e))"
  shows "e_log e' = e_log e" "e_snapshot e' = e_snapshot e" "commit_ok e'"
proof -
  show f: "e_log e' = e_log e" "e_snapshot e' = e_snapshot e" using e' by simp_all
  let ?c = "if c > e_commitIndex e then min c (lastIndexLocked e) else e_commitIndex e"
  have li: "e_commitIndex e \<le> lastIndexLocked e" using assms(2) lastIndex_base [OF assms(1)] by (simp add: commit_ok_def word_le_nat_alt)
  then have mono: "e_commitIndex e \<le> ?c" by (auto simp: min_def)
  have la: "e_lastApplied e \<le> ?c" using assms(2) mono by (auto simp: commit_ok_def)
  have eq: "e_commitIndex e' = ?c" "e_lastApplied e' = ?c" using e' la by (auto simp: max_def)
  have "?c \<le> lastIndexLocked e" using li by (auto simp: min_def)
  then have "unat ?c \<le> base e + length (e_log e)" using lastIndex_base [OF assms(1)] by (simp add: word_le_nat_alt)
  moreover have "base e \<le> unat ?c" using la assms(2) by (auto simp: commit_ok_def word_le_nat_alt)
  ultimately show "commit_ok e'" using eq f by (simp add: commit_ok_def base_def)
qed

lemma append_one_snapshot [simp]: "e_snapshot (append_one en e) = e_snapshot e"
  by (simp add: append_one_def truncateAfterLocked_def Let_def)

lemma fold_append_snapshot [simp]: "e_snapshot (fold append_one ens e) = e_snapshot e"
  by (induction ens arbitrary: e) simp_all

lemma handleAppendEntries_accepted:
  assumes ok: "log_ok e" "commit_ok e" and from_base: "base e \<le> unat prev" and len: "unat prev \<le> base e + length (e_log e)"
    and bt: "batch_from (unat prev) ens" and f: "e_log f = e_log e" "e_snapshot f = e_snapshot e"
      "e_commitIndex f = e_commitIndex e" "e_lastApplied f = e_lastApplied e"
    and e': "e' = (let g = fold append_one ens f in
       applyCommittedLocked sm (persistLocked (if c > e_commitIndex g then g\<lparr>e_commitIndex := min c (lastIndexLocked g)\<rparr> else g)))"
  shows "log_ok e' \<and> commit_ok e' \<and> (\<forall>en \<in> set ens. termAtLocked e' (en_Index en) = en_Term en) \<and>
     (\<forall>i \<le> prev. termAtLocked e' i = termAtLocked e i)"
proof -
  define g where "g = fold append_one ens f"
  define m where "m = unat prev - base e"
  have bf: "base f = base e" using f by (simp add: base_def)
  have fo: "log_ok f" "commit_ok f" using ok f log_ok_cong [of f e] commit_ok_cong [of f e] by auto
  have "batch_from (base f + m) ens" using bt from_base by (simp add: m_def bf)
  moreover have "m \<le> length (e_log f)" using len f(1) by (simp add: m_def)
  ultimately have gg: "log_ok g" "commit_ok g" "base g = base f" "take m (e_log g) = take m (e_log f)"
    "\<forall>j < length ens. m + j < length (e_log g) \<and> en_Term (e_log g ! (m + j)) = en_Term (ens ! j)"
    using fold_append_ok [OF fo, of m ens] unfolding g_def by blast+
  note ca = commit_apply_ok [OF gg(1,2) e' [folded g_def, unfolded Let_def]]
  have tg: "termAtLocked e' i = termAtLocked g i" for i using ca by (intro termAt_cong)
  have "termAtLocked g (en_Index en) = en_Term en" if en: "en \<in> set ens" for en
  proof -
    obtain j where j: "j < length ens" "en = ens ! j" using en by (auto simp: in_set_conv_nth)
    have "unat (en_Index en) = base g + 1 + (m + j)" using bt j from_base gg(3) bf by (simp add: batch_from_def m_def)
    then show ?thesis using termAt_nth [OF gg(1)] gg(5) j by simp
  qed
  moreover have "termAtLocked g i = termAtLocked e i" if i: "i \<le> prev" for i
  proof (cases "unat i \<le> base e")
    case True
    have sn: "sn_Index (e_snapshot g) = sn_Index (e_snapshot e)" "sn_Term (e_snapshot g) = sn_Term (e_snapshot e)"
      using f(2) fold_append_snapshot [of ens f] by (simp_all add: g_def)
    show ?thesis using find_none [OF gg(1), of i] find_none [OF ok(1), of i] True gg(3) bf sn by (simp add: termAtLocked_def)
  next
    case False
    define k where "k = unat i - base e - 1"
    have k: "unat i = base e + 1 + k" "k < m" using False i from_base by (auto simp: k_def m_def word_le_nat_alt)
    have kl: "k < length (e_log f)" using k(2) len f(1) by (simp add: m_def)
    have "take m (e_log g) ! k = take m (e_log f) ! k" using gg(4) by simp
    then have "e_log g ! k = e_log f ! k" using k(2) by simp
    moreover have "length (take m (e_log g)) = length (take m (e_log f))" using gg(4) by simp
    then have "k < length (e_log g)" using k(2) kl by (simp add: min_def split: if_splits)
    ultimately show ?thesis using termAt_nth [OF gg(1), of i k] termAt_nth [OF ok(1) k(1)] k(1) kl gg(3) bf f(1) by simp
  qed
  ultimately show ?thesis using ca gg(1) log_ok_cong [OF ca(1,2)] tg by simp
qed


definition ent :: "u64 \<Rightarrow> u64 \<Rightarrow> nat \<Rightarrow> nat native_LogEntry" where
  "ent i t c = \<lparr>en_Index = i, en_Term = t, en_Command = Some c\<rparr>"

definition sample_follower :: "(nat, nat) Engine" where
  "sample_follower = (fresh_node ''b'')\<lparr>e_currentTerm := 2, e_log := [ent 1 1 10, ent 2 2 20], e_commitIndex := 1, e_lastApplied := 1\<rparr>"

definition sample_append :: "nat appendEntriesRequest" where
  "sample_append = \<lparr>ae_Term = 3, ae_LeaderID = ''a'', ae_PrevLogIndex = 1, ae_PrevLogTerm = 1, ae_Entries = [ent 2 3 30],
     ae_LeaderCommit = 1\<rparr>"


section \<open>Applying committed entries\<close>

definition commands :: "'c native_LogEntry list \<Rightarrow> 'c list" where
  "commands ens = List.map_filter en_Command ens"

definition replay :: "('c, 'f) StateMachine \<Rightarrow> 'c native_LogEntry list \<Rightarrow> 'f \<Rightarrow> 'f" where
  "replay sm ens = fold (sm_Apply sm) (commands ens)"

lemma replay_simps [simp]:
  "replay sm [] f = f" "replay sm (ens @ ens') f = replay sm ens' (replay sm ens f)"
  "replay sm [en] f = (case en_Command en of None \<Rightarrow> f | Some c \<Rightarrow> sm_Apply sm c f)"
  by (simp_all add: replay_def commands_def map_filter_def split: option.splits)

lemma apply_one_replay:
  assumes ok: "log_ok e" and k: "unat (e_lastApplied e) = base e + k" "k < length (e_log e)"
    and lt: "e_lastApplied e < e_commitIndex e"
  shows "e_fsm (apply_one sm e) = replay sm [e_log e ! k] (e_fsm e)"
proof -
  have "unat (e_lastApplied e + 1) = base e + 1 + k" using word_succ_less [OF lt] k(1) by simp
  then have "entryAtLocked (e\<lparr>e_lastApplied := e_lastApplied e + 1\<rparr>) (e_lastApplied e + 1) = Some (e_log e ! k)"
    using find_nth [OF ok _ k(2)] by (simp add: entryAtLocked_def)
  then show ?thesis by (simp add: apply_one_def Let_def split: option.splits)
qed

lemma applyCommittedLocked_replay:
  assumes "log_ok e" "commit_ok e"
  shows "e_fsm (applyCommittedLocked sm e) =
     replay sm (take (unat (e_commitIndex e) - unat (e_lastApplied e)) (drop (unat (e_lastApplied e) - base e) (e_log e))) (e_fsm e) \<and>
     e_lastApplied (applyCommittedLocked sm e) = e_commitIndex e"
  using assms
proof (induction sm e rule: applyCommittedLocked.induct)
  case (1 sm e)
  show ?case
  proof (cases "e_lastApplied e < e_commitIndex e")
    case True
    define k where "k = unat (e_lastApplied e) - base e"
    have k: "unat (e_lastApplied e) = base e + k" "k < length (e_log e)" "unat (e_lastApplied e) < unat (e_commitIndex e)"
      using 1(3) True by (auto simp: commit_ok_def k_def word_less_nat_alt)
    have next_ok: "log_ok (apply_one sm e)" "commit_ok (apply_one sm e)" "base (apply_one sm e) = base e"
      using 1(2,3) k word_succ_less [OF True] by (auto simp: log_ok_def commit_ok_def base_def word_le_nat_alt)
    have "take (unat (e_commitIndex e) - (base e + k)) (drop k (e_log e)) =
        e_log e ! k # take (unat (e_commitIndex e) - (base e + k + 1)) (drop (k + 1) (e_log e))"
      using k by (simp add: Cons_nth_drop_Suc [symmetric] take_Cons' Suc_diff_Suc)
    then have sp: "replay sm (take (unat (e_commitIndex e) - (base e + k)) (drop k (e_log e))) f =
        replay sm (take (unat (e_commitIndex e) - (base e + k + 1)) (drop (k + 1) (e_log e))) (replay sm [e_log e ! k] f)" for f
      using replay_simps(2) [of sm "[e_log e ! k]"] by simp
    show ?thesis
      using 1(1) [OF True next_ok(1,2)] True apply_one_replay [OF 1(2) k(1,2) True, of sm] word_succ_less [OF True] sp k(1) next_ok(3)
      by (subst (1 2) applyCommittedLocked.simps) (simp del: replay_simps(3))
  next
    case False
    then have "e_lastApplied e = e_commitIndex e" using 1(3) by (auto simp: commit_ok_def)
    then show ?thesis by (simp add: applyCommittedLocked.simps)
  qed
qed

text \<open>C36: the commands between the last applied and the commit index, and only they, are applied, each
  once and in the order of the log, and the apply mark then equals the commit index.\<close>

theorem applyCommittedLocked_in_order:
  assumes "log_ok e" "commit_ok e"
  shows "e_fsm (applyCommittedLocked sm e) =
     replay sm (take (unat (e_commitIndex e) - unat (e_lastApplied e)) (drop (unat (e_lastApplied e) - base e) (e_log e))) (e_fsm e) \<and>
     e_lastApplied (applyCommittedLocked sm e) = e_commitIndex e"
  by (rule applyCommittedLocked_replay [OF assms])

theorem applyCommittedLocked_in_order_witness:
  "let e = sample_follower\<lparr>e_commitIndex := 2\<rparr> in
     log_ok e \<and> commit_ok e \<and> e_fsm (applyCommittedLocked max_sm e) = 20 \<and> e_lastApplied (applyCommittedLocked max_sm e) = 2"
proof -
  let ?e = "sample_follower\<lparr>e_commitIndex := 2\<rparr>"
  have ok: "log_ok ?e" "commit_ok ?e"
    by (auto simp: log_ok_def commit_ok_def base_def sample_follower_def fresh_node_def empty_snapshot_def ent_def less_Suc_eq)
  have "unat (e_commitIndex ?e) = 2" "unat (e_lastApplied ?e) = 1" "base ?e = 0" "e_log ?e = [ent 1 1 10, ent 2 2 20]" "e_fsm ?e = 0"
    by (simp_all add: sample_follower_def fresh_node_def base_def empty_snapshot_def)
  then show ?thesis using applyCommittedLocked_in_order [OF ok, of max_sm] ok
    by (simp add: ent_def max_sm_def Let_def)
qed

section \<open>Advancing the commit index\<close>

definition committable :: "('c, 'f) Engine \<Rightarrow> u64 \<Rightarrow> bool" where
  "committable e i \<longleftrightarrow> termAtLocked e i = e_currentTerm e \<and> quorumLocked e \<le> matchCountLocked e i"

lemma commit_candidate_spec:
  "case commit_candidate e idx of
     Some i \<Rightarrow> e_commitIndex e < i \<and> i \<le> idx \<and> committable e i \<and> (\<forall>j. i < j \<and> j \<le> idx \<longrightarrow> \<not> committable e j)
   | None \<Rightarrow> \<forall>j. e_commitIndex e < j \<and> j \<le> idx \<longrightarrow> \<not> committable e j"
proof (induction e idx rule: commit_candidate.induct)
  case (1 e idx)
  consider (stop) "\<not> e_commitIndex e < idx" | (hit) "e_commitIndex e < idx" "committable e idx" | (miss) "e_commitIndex e < idx" "\<not> committable e idx"
    by blast
  then show ?case
  proof cases
    case stop then show ?thesis by (subst commit_candidate.simps) auto
  next
    case hit then show ?thesis by (subst commit_candidate.simps) (auto simp: committable_def)
  next
    case miss
    have "idx \<noteq> 0" using miss(1) by auto
    then have u: "unat (idx - 1) = unat idx - 1" "0 < unat idx" by (simp_all add: unat_minus_one unat_gt_0)
    have pred: "j \<le> idx \<longleftrightarrow> j = idx \<or> j \<le> idx - 1" for j
      using u by (auto simp: word_le_nat_alt word_unat_eq_iff)
    have "commit_candidate e idx = commit_candidate e (idx - 1)"
      using miss by (subst commit_candidate.simps) (auto simp: committable_def)
    moreover have "\<not> (termAtLocked e idx = e_currentTerm e \<and> quorumLocked e \<le> matchCountLocked e idx)"
      using miss(2) by (simp add: committable_def)
    ultimately show ?thesis using 1 [OF miss(1)] miss(2) unfolding pred by (auto split: option.splits)
  qed
qed

lemma maybeSnapshotLocked_commit [simp]: "e_commitIndex (snd (maybeSnapshotLocked sm e)) = e_commitIndex e"
  by (simp add: maybeSnapshotLocked_def compactThroughLocked_def Let_def split: option.splits)


section \<open>Restarting\<close>

text \<open>The state a snapshot stands for, when the engine was constructed with the state machine in \<open>f0\<close>.\<close>

definition snap_state :: "('c, 'f) StateMachine \<Rightarrow> 'f \<Rightarrow> SnapshotRecord \<Rightarrow> 'f option" where
  "snap_state sm f0 sn =
     (if sn_Data sn = [] then Some f0
      else case sm_Snapshots sm of None \<Rightarrow> None | Some (_, restore) \<Rightarrow> restore (sn_Data sn) f0)"

definition recoverable :: "('c, 'f) StateMachine \<Rightarrow> 'f \<Rightarrow> ('c, 'f) Engine \<Rightarrow> bool" where
  "recoverable sm f0 e \<longleftrightarrow> log_ok e \<and> commit_ok e \<and> e_lastApplied e = e_commitIndex e \<and> e_save_ok e \<and> e_store e = persisted e \<and>
     (\<exists>s0. snap_state sm f0 (e_snapshot e) = Some s0 \<and>
        e_fsm e = replay sm (take (unat (e_commitIndex e) - base e) (e_log e)) s0)"

text \<open>What is asked of the state machine's snapshots: they are not empty, and restoring one gives the
  state it was taken of.\<close>

definition snapshots_faithful :: "('c, 'f) StateMachine \<Rightarrow> bool" where
  "snapshots_faithful sm \<longleftrightarrow> (case sm_Snapshots sm of None \<Rightarrow> True
     | Some (snapshot, restore) \<Rightarrow> \<forall>f d. snapshot f = Some d \<longrightarrow> d \<noteq> [] \<and> (\<forall>g. restore d g = Some f))"

lemma persisted_cong:
  "\<lbrakk>e_currentTerm e' = e_currentTerm e; e_votedFor e' = e_votedFor e; e_log e' = e_log e; e_commitIndex e' = e_commitIndex e;
    e_snapshot e' = e_snapshot e\<rbrakk> \<Longrightarrow> persisted e' = persisted e"
  by (simp add: persisted_def)

lemma recoverable_persist:
  assumes "log_ok e" "commit_ok e" "e_lastApplied e = e_commitIndex e" "e_save_ok e"
    "snap_state sm f0 (e_snapshot e) = Some s0" "e_fsm e = replay sm (take (unat (e_commitIndex e) - base e) (e_log e)) s0"
  shows "recoverable sm f0 (persistLocked e)"
proof -
  have "log_ok (persistLocked e)" "commit_ok (persistLocked e)" "base (persistLocked e) = base e"
    using assms(1,2) by (simp_all add: log_ok_def commit_ok_def base_def)
  moreover have "e_store (persistLocked e) = persisted (persistLocked e)"
    using assms(4) by (simp add: persistLocked_def persisted_def)
  ultimately show ?thesis using assms by (auto simp: recoverable_def)
qed

lemma filter_index_gt:
  assumes "log_ok e" "base e \<le> unat i"
  shows "filter (\<lambda>en. en_Index en > i) (e_log e) = drop (unat i - base e) (e_log e)"
proof -
  let ?n = "unat i - base e" and ?l = "e_log e"
  have idx: "(en_Index (?l ! k) > i) = (k \<ge> ?n)" if "k < length ?l" for k
    using log_ok_nth [OF assms(1) that] assms(2) by (auto simp: word_less_nat_alt)
  have "filter (\<lambda>en. en_Index en > i) (take ?n ?l) = []"
    using idx by (auto simp: filter_empty_conv in_set_conv_nth)
  moreover have "filter (\<lambda>en. en_Index en > i) (drop ?n ?l) = drop ?n ?l"
    using idx by (auto simp: filter_id_conv in_set_conv_nth)
  ultimately show ?thesis by (metis append_Nil append_take_drop_id filter_append)
qed

lemma recoverable_snapshot:
  assumes rec: "recoverable sm f0 e" and faithful: "snapshots_faithful sm"
  shows "recoverable sm f0 (snd (maybeSnapshotLocked sm e))"
proof (cases "snd (maybeSnapshotLocked sm e) = e")
  case False
  let ?c = "e_commitIndex e"
  obtain snapshot restore d where s: "sm_Snapshots sm = Some (snapshot, restore)" "snapshot (e_fsm e) = Some d"
    and m: "snd (maybeSnapshotLocked sm e) = persistLocked (compactThroughLocked ?c
       (e\<lparr>e_snapshot := \<lparr>sn_Index = ?c, sn_Term = termAtLocked e ?c, sn_Data = d\<rparr>\<rparr>))"
    using False by (auto simp: maybeSnapshotLocked_def Let_def split: if_splits option.splits prod.splits)
  have d: "d \<noteq> []" "restore d f0 = Some (e_fsm e)" using faithful s by (auto simp: snapshots_faithful_def)
  have ok: "log_ok e" "commit_ok e" "e_lastApplied e = ?c" "e_save_ok e" using rec by (auto simp: recoverable_def)
  have "base e \<le> unat ?c" using ok(2,3) by (simp add: commit_ok_def)
  note fl = filter_index_gt [OF ok(1) this]
  let ?e = "compactThroughLocked ?c (e\<lparr>e_snapshot := \<lparr>sn_Index = ?c, sn_Term = termAtLocked e ?c, sn_Data = d\<rparr>\<rparr>)"
  have f: "e_log ?e = drop (unat ?c - base e) (e_log e)" "base ?e = unat ?c" "e_commitIndex ?e = ?c" "e_lastApplied ?e = ?c"
    "e_fsm ?e = e_fsm e" "e_save_ok ?e"
    using fl ok(3,4) by (simp_all add: compactThroughLocked_def base_def)
  show ?thesis unfolding m
  proof (rule recoverable_persist)
    show "log_ok ?e" using ok(1,2) f(1,2) \<open>base e \<le> unat ?c\<close> unfolding log_ok_def by (auto simp: commit_ok_def)
    show "commit_ok ?e" using f by (simp add: commit_ok_def)
    show "snap_state sm f0 (e_snapshot ?e) = Some (e_fsm e)" using d s by (simp add: snap_state_def compactThroughLocked_def)
  qed (use f in simp_all)
qed (use rec in simp)

lemma recoverable_commit:
  assumes rec: "recoverable sm f0 e" and i: "e_commitIndex e < i" "unat i \<le> base e + length (e_log e)"
  shows "recoverable sm f0 (applyCommittedLocked sm (persistLocked (e\<lparr>e_commitIndex := i\<rparr>)))"
proof -
  let ?g = "persistLocked (e\<lparr>e_commitIndex := i\<rparr>)" and ?c = "unat (e_commitIndex e)"
  obtain s0 where ok: "log_ok e" "commit_ok e" "e_lastApplied e = e_commitIndex e" "e_save_ok e"
    and s0: "snap_state sm f0 (e_snapshot e) = Some s0" "e_fsm e = replay sm (take (?c - base e) (e_log e)) s0"
    using rec by (auto simp: recoverable_def)
  have bg: "base ?g = base e" by (simp add: base_def)
  have ord: "base e \<le> ?c" "?c < unat i" using ok(2,3) i(1) by (simp_all add: commit_ok_def word_less_nat_alt)
  have g: "log_ok ?g" "commit_ok ?g" using ok ord i by (simp_all add: log_ok_def commit_ok_def bg less_imp_le)
  note ap = applyCommittedLocked_replay [OF g, of sm]
  have "take (unat i - base e) (e_log e) = take (?c - base e) (e_log e) @ take (unat i - ?c) (drop (?c - base e) (e_log e))"
    using take_add [of "?c - base e" "unat i - ?c" "e_log e"] ord by simp
  then have fsm: "e_fsm (applyCommittedLocked sm ?g) = replay sm (take (unat i - base e) (e_log e)) s0"
    using ap s0(2) ok(3) bg by simp
  have "e_store (applyCommittedLocked sm ?g) = persisted ?g" using ok(4) by (simp add: persistLocked_def persisted_def)
  moreover have "persisted (applyCommittedLocked sm ?g) = persisted ?g"
    using keeps_applyCommittedLocked [of ?g sm] by (intro persisted_cong) (simp_all add: keeps_def)
  moreover have "base (applyCommittedLocked sm ?g) = base e" by (simp add: base_def)
  moreover have "log_ok (applyCommittedLocked sm ?g)" "commit_ok (applyCommittedLocked sm ?g)"
    using g ap ok(3) ord by (auto simp: log_ok_def commit_ok_def base_def)
  ultimately show ?thesis using fsm ap s0(1) ok(4) by (auto simp: recoverable_def)
qed

lemma recoverable_cong:
  assumes "recoverable sm f0 e" "e_log e' = e_log e" "e_snapshot e' = e_snapshot e" "e_commitIndex e' = e_commitIndex e"
    "e_lastApplied e' = e_lastApplied e" "e_fsm e' = e_fsm e" "e_save_ok e' = e_save_ok e" "e_store e' = persisted e'"
  shows "recoverable sm f0 e'"
  using assms log_ok_cong [of e' e] commit_ok_cong [of e' e] by (simp add: recoverable_def base_def)

text \<open>What an engine does to its own log while no other leader writes to it: the segments of \<open>Apply\<close>,
  the answers of replication, and votes and elections.\<close>

inductive own_step :: "('c, 'f) StateMachine \<Rightarrow> ('c, 'f) Engine \<Rightarrow> ('c, 'f) Engine \<Rightarrow> bool" for sm where
  begin_apply: "\<lbrakk>Apply_begin cmd e = Inr (index, e'); lastIndexLocked e < index\<rbrakk> \<Longrightarrow> own_step sm e e'"
| check_apply: "index \<le> lastIndexLocked e \<Longrightarrow> own_step sm e (snd (Apply_check sm index e))"
| append_answer: "own_step sm e (replicateTo_append_reply sm p t resp e)"
| install_answer: "own_step sm e (replicateTo_snapshot_reply p req sresp e)"
| voting: "handleRequestVote vreq e = (vresp, e') \<Longrightarrow> own_step sm e e'"
| standing: "startElection_begin e = Some (e', vreq) \<Longrightarrow> own_step sm e e'"
| ending: "own_step sm e (startElection_end t result e)"

lemma recoverable_Apply_begin:
  assumes rec: "recoverable sm f0 e" and run: "Apply_begin cmd e = Inr (index, e')" and room: "lastIndexLocked e < index"
  shows "recoverable sm f0 e'"
proof -
  let ?en = "\<lparr>en_Index = index, en_Term = e_currentTerm e, en_Command = Some cmd\<rparr>"
  let ?e = "e\<lparr>e_log := e_log e @ [?en], e_matchIndex := (e_matchIndex e)(e_id e := index)\<rparr>"
  have e': "index = lastIndexLocked e + 1" "e' = persistLocked ?e" using run by (auto simp: Apply_begin_def Let_def split: if_splits)
  obtain s0 where ok: "log_ok e" "commit_ok e" "e_lastApplied e = e_commitIndex e" "e_save_ok e"
    and s0: "snap_state sm f0 (e_snapshot e) = Some s0" "e_fsm e = replay sm (take (unat (e_commitIndex e) - base e) (e_log e)) s0"
    using rec by (auto simp: recoverable_def)
  have idx: "unat index = base e + 1 + length (e_log e)"
    using word_succ_less [OF room] lastIndex_base [OF ok(1)] e'(1) by simp
  have b: "base ?e = base e" by (simp add: base_def)
  show ?thesis unfolding e'(2)
  proof (rule recoverable_persist)
    show "log_ok ?e" using ok(1) idx by (auto simp: log_ok_def b nth_append less_Suc_eq)
    show "commit_ok ?e" using ok(2) by (auto simp: commit_ok_def b)
    show "snap_state sm f0 (e_snapshot ?e) = Some s0" using s0(1) by simp
    show "e_fsm ?e = replay sm (take (unat (e_commitIndex ?e) - base ?e) (e_log ?e)) s0"
      using s0(2) ok(2) by (simp add: b commit_ok_def)
  qed (use ok in simp_all)
qed

lemma Apply_check_cases:
  "snd (Apply_check sm index e) = e \<or> e_commitIndex e < index \<and>
     snd (Apply_check sm index e) = snd (maybeSnapshotLocked sm (applyCommittedLocked sm (persistLocked (e\<lparr>e_commitIndex := index\<rparr>))))"
  by (auto simp: Apply_check_def split: prod.splits option.splits)

lemma recoverable_Apply_check:
  assumes "recoverable sm f0 e" "snapshots_faithful sm" "index \<le> lastIndexLocked e"
  shows "recoverable sm f0 (snd (Apply_check sm index e))"
proof -
  have "unat index \<le> base e + length (e_log e)"
    using assms(1,3) lastIndex_base [of e] by (simp add: recoverable_def word_le_nat_alt)
  then have "e_commitIndex e < index \<Longrightarrow>
      recoverable sm f0 (snd (maybeSnapshotLocked sm (applyCommittedLocked sm (persistLocked (e\<lparr>e_commitIndex := index\<rparr>)))))"
    using assms(1,2) by (intro recoverable_snapshot recoverable_commit)
  then show ?thesis using Apply_check_cases [of sm index e] assms(1) by auto
qed

lemma recoverable_advanceCommitLocked:
  assumes "recoverable sm f0 e" "snapshots_faithful sm"
  shows "recoverable sm f0 (advanceCommitLocked sm e)"
proof (cases "commit_candidate e (lastIndexLocked e)")
  case (Some i)
  then have "e_commitIndex e < i" "unat i \<le> base e + length (e_log e)"
    using commit_candidate_spec [of e "lastIndexLocked e"] assms(1) lastIndex_base [of e]
    by (simp_all add: recoverable_def word_le_nat_alt)
  then show ?thesis using Some assms
    by (auto simp: advanceCommitLocked_def intro!: recoverable_snapshot recoverable_commit)
qed (use assms in \<open>simp add: advanceCommitLocked_def\<close>)

lemma recoverable_stepDownLocked:
  assumes "recoverable sm f0 e" shows "recoverable sm f0 (stepDownLocked t l e)"
  using assms by (intro recoverable_cong [OF assms])
    (auto simp: stepDownLocked_def persistLocked_def persisted_def Let_def recoverable_def)

lemma recoverable_handleRequestVote:
  assumes "recoverable sm f0 e" "handleRequestVote req e = (resp, e')"
  shows "recoverable sm f0 e'"
proof -
  have vote: "recoverable sm f0 (persistLocked (g\<lparr>e_votedFor := c\<rparr>))" if "recoverable sm f0 g" for g c
    using that by (intro recoverable_cong [OF that]) (auto simp: persistLocked_def persisted_def recoverable_def)
  show ?thesis using assms recoverable_stepDownLocked [OF assms(1)] vote
    by (auto simp: handleRequestVote_def Let_def split: if_splits)
qed

lemma recoverable_indexes:
  assumes "recoverable sm f0 e"
  shows "recoverable sm f0 (e\<lparr>e_matchIndex := m, e_nextIndex := n\<rparr>)" "recoverable sm f0 (e\<lparr>e_nextIndex := n\<rparr>)"
  using assms by (auto simp: recoverable_def persisted_def log_ok_def commit_ok_def base_def)

lemma own_step_recoverable:
  assumes "own_step sm e e'" "recoverable sm f0 e" "snapshots_faithful sm"
  shows "recoverable sm f0 e'"
  using assms
proof cases
  case (append_answer p t resp)
  show ?thesis unfolding append_answer replicateTo_append_reply_def
    using assms(2,3) by (auto intro: recoverable_indexes recoverable_advanceCommitLocked recoverable_stepDownLocked)
next
  case (install_answer p req sresp)
  show ?thesis unfolding install_answer replicateTo_snapshot_reply_def
    using assms(2) by (auto intro: recoverable_indexes recoverable_stepDownLocked)
next
  case (standing vreq)
  then show ?thesis using assms(2)
    by (intro recoverable_cong [OF assms(2)])
      (auto simp: startElection_begin_def persistLocked_def persisted_def recoverable_def Let_def split: if_splits)
next
  case (ending t result)
  have "recoverable sm f0 (becomeLeaderLocked e)"
    using assms(2) by (intro recoverable_cong [OF assms(2)]) (auto simp: becomeLeaderLocked_def persisted_def recoverable_def)
  then show ?thesis unfolding ending startElection_end_def
    using assms(2) by (auto intro: recoverable_stepDownLocked split: sum.splits)
qed (auto intro: recoverable_Apply_begin recoverable_Apply_check recoverable_handleRequestVote)

definition boot :: "string \<Rightarrow> string list \<Rightarrow> u64 \<Rightarrow> 'f \<Rightarrow> 'c persistedState \<Rightarrow> ('c, 'f) Engine" where
  "boot i peers threshold f p = \<lparr>e_id = i, e_peers = peers, e_store = p, e_save_ok = True, e_fsm = f, e_state = StateFollower,
     e_currentTerm = ps_CurrentTerm p, e_votedFor = ps_VotedFor p, e_log = ps_Log p, e_commitIndex = ps_CommitIndex p,
     e_lastApplied = sn_Index (ps_Snapshot p), e_snapshot = ps_Snapshot p, e_leaderID = [], e_nextIndex = (\<lambda>_. 0),
     e_matchIndex = (\<lambda>_. 0), e_snapshotThreshold = threshold, e_closed = False, e_events = []\<rparr>"

lemma NewEngine_boot:
  assumes "i \<noteq> []" "peers \<noteq> []" "snap_state sm f0 (ps_Snapshot p) = Some s0"
  shows "NewEngine sm i peers threshold f0 p = Inr (applyCommittedLocked sm (boot i peers threshold s0 p))"
  using assms by (auto simp: NewEngine_def boot_def snap_state_def Let_def split: if_splits option.splits)

lemma restart_recoverable:
  assumes rec: "recoverable sm f0 e" and i: "i \<noteq> []" "peers \<noteq> []"
  shows "\<exists>e'. NewEngine sm i peers threshold f0 (e_store e) = Inr e' \<and> e_fsm e' = e_fsm e \<and> e_log e' = e_log e \<and>
     e_commitIndex e' = e_commitIndex e \<and> e_lastApplied e' = e_commitIndex e \<and> e_currentTerm e' = e_currentTerm e \<and> e_votedFor e' = e_votedFor e"
proof -
  obtain s0 where ok: "log_ok e" "commit_ok e" "e_lastApplied e = e_commitIndex e" "e_store e = persisted e"
    and s0: "snap_state sm f0 (e_snapshot e) = Some s0" "e_fsm e = replay sm (take (unat (e_commitIndex e) - base e) (e_log e)) s0"
    using rec by (auto simp: recoverable_def)
  define g where "g = boot i peers threshold s0 (e_store e)"
  have g: "e_log g = e_log e" "e_snapshot g = e_snapshot e" "e_commitIndex g = e_commitIndex e"
    "unat (e_lastApplied g) = base e" "e_fsm g = s0" "base g = base e" "e_currentTerm g = e_currentTerm e" "e_votedFor g = e_votedFor e"
    using ok(4) by (simp_all add: g_def boot_def persisted_def base_def)
  have "log_ok g" "commit_ok g" using ok g by (auto simp: log_ok_def commit_ok_def word_le_nat_alt)
  note ap = applyCommittedLocked_replay [OF this, of sm]
  have "keeps g (applyCommittedLocked sm g)" by simp
  moreover have "NewEngine sm i peers threshold f0 (e_store e) = Inr (applyCommittedLocked sm g)"
    using NewEngine_boot [OF i, of sm f0 "e_store e" s0] s0(1) ok(4) by (simp add: g_def persisted_def)
  ultimately show ?thesis using ap g s0(2) by (simp add: keeps_def)
qed



section \<open>What the handlers do not guard against\<close>

text \<open>A successful answer reports the follower's last index, also when the entries after the request
  are not the leader's. Here \<open>a\<close> leads term 3 with one entry; \<open>b\<close> holds a second entry of term 2 that
  was never committed; \<open>c\<close> is down. After one heartbeat \<open>a\<close> counts \<open>b\<close> for index 2, and its next command
  is committed and acknowledged while no other node holds it.\<close>

definition split_net :: "(nat, nat) MemoryNetwork" where
  "split_net = [''a'' \<mapsto> (fresh_node ''a'')\<lparr>e_state := StateLeader, e_currentTerm := 3, e_votedFor := ''a'', e_log := [ent 1 1 10],
       e_commitIndex := 1, e_lastApplied := 1, e_nextIndex := (\<lambda>_. 2), e_matchIndex := (\<lambda>p. if p = ''a'' then 1 else 0)\<rparr>,
     ''b'' \<mapsto> sample_follower]"

lemmas net_eval = net_replicateAll_def net_replicateTo_def net_AppendEntries_def net_InstallSnapshot_def net_update_def
  replicateTo_request_def replicateTo_append_reply_def handleAppendEntries_def follow_def stepDownLocked_def persistLocked_def
  persisted_def lastIndexLocked_def termAtLocked_def entriesFromLocked_def append_one_def truncateAfterLocked_def
  advanceCommitLocked_def matchCountLocked_def quorumLocked_def split_net_def sample_follower_def fresh_node_def
  empty_snapshot_def empty_persisted_def ent_def abc_def

lemma acknowledged_on_one_node:
  "\<exists>net e_a e_b. net_Apply max_sm ''a'' 30 1 (net_replicateAll max_sm ''a'' split_net) = (Inr (), net) \<and>
     net ''a'' = Some e_a \<and> e_commitIndex e_a = 2 \<and> net ''b'' = Some e_b \<and> e_log e_b = [ent 1 1 10] \<and> net ''c'' = None"
  by (simp add: net_eval net_Apply_def Apply_begin_def Apply_check_def maybeSnapshotLocked_def commit_candidate.simps
      applyCommittedLocked.simps apply_one_def entryAtLocked_def max_sm_def Let_def word_le_nat_alt word_less_nat_alt)

text \<open>A snapshot older than what the node has applied replaces the state machine's state all the same,
  and the apply mark stays: the commands after the snapshot are lost on this node.\<close>

definition byte_sm :: "(nat, nat) StateMachine" where
  "byte_sm = \<lparr>sm_Apply = max, sm_Snapshots = Some (\<lambda>f. Some [of_nat f], \<lambda>d _. case d of [b] \<Rightarrow> Some (unat b) | _ \<Rightarrow> None)\<rparr>"

lemma old_snapshot_rolls_back:
  "let e = (fresh_node ''b'')\<lparr>e_log := [ent 1 0 10, ent 2 0 20], e_commitIndex := 2, e_lastApplied := 2, e_fsm := 20\<rparr>;
       (resp, e') = handleInstallSnapshot byte_sm \<lparr>is_Term = 0, is_LeaderID = ''a'', is_LastIncludedIndex = 1, is_LastIncludedTerm = 0, is_Data = [10]\<rparr> e
   in isr_Success resp \<and> e_fsm e' = 10 \<and> e_lastApplied e' = 2 \<and> e_fsm (applyCommittedLocked byte_sm e') = 10"
  by (simp add: handleInstallSnapshot_def follow_def fresh_node_def byte_sm_def compactThroughLocked_def persistLocked_def
      applyCommittedLocked.simps Let_def)

end
