(* ===== verification/NativeStore.thy ===== *)
theory NativeStore
  imports NativeRaft SequencerProps
begin

text \<open>
  The file store of the native Raft engine (\<open>FileStore\<close> in src/goblob/consensus/native/store.go). The
  state is one JSON document, written to a temporary file that then replaces the old one. A file
  holds a whole document, or one that was cut off, which no JSON parser accepts since the document is
  an object. A byte slice is a JSON string; the base64 alphabet of its text is not repeated here.
\<close>

section \<open>The document\<close>

definition json_bytes :: "bytes \<Rightarrow> json" where
  "json_bytes d = (if d = [] then JNull else JStr (bytes_string d))"

definition json_get_bytes :: "json \<Rightarrow> bytes option" where
  "json_get_bytes j = map_option string_bytes (json_string j)"

definition json_array :: "json \<Rightarrow> json list option" where
  "json_array j = (case j of JNull \<Rightarrow> Some [] | JArr js \<Rightarrow> Some js | _ \<Rightarrow> None)"

definition get_u64 :: "string \<Rightarrow> json \<Rightarrow> u64 option" where
  "get_u64 key j = map_option of_nat (Option.bind (json_field key j) (json_uint 64))"

definition get_string :: "string \<Rightarrow> json \<Rightarrow> string option" where
  "get_string key j = Option.bind (json_field key j) json_string"

text \<open>A command is known to the store by its type and its encoding, the methods of
  \<open>consensus.Command\<close>, and by the \<open>CommandDecoder\<close>.\<close>

definition diskEntry :: "('c \<Rightarrow> string) \<Rightarrow> ('c \<Rightarrow> json) \<Rightarrow> 'c native_LogEntry \<Rightarrow> 'c \<Rightarrow> json" where
  "diskEntry ty enc en c =
     JObj [(''index'', JNum (uint (en_Index en))), (''term'', JNum (uint (en_Term en))), (''type'', JStr (ty c)), (''payload'', enc c)]"

fun diskLog :: "('c \<Rightarrow> string) \<Rightarrow> ('c \<Rightarrow> json) \<Rightarrow> 'c native_LogEntry list \<Rightarrow> json list" where
  "diskLog ty enc [] = []"
| "diskLog ty enc (en # ens) =
     (case en_Command en of None \<Rightarrow> diskLog ty enc ens | Some c \<Rightarrow> diskEntry ty enc en c # diskLog ty enc ens)"

definition diskSnapshot :: "SnapshotRecord \<Rightarrow> json" where
  "diskSnapshot s = JObj [(''index'', JNum (uint (sn_Index s))), (''term'', JNum (uint (sn_Term s))), (''data'', json_bytes (sn_Data s))]"

definition diskState :: "('c \<Rightarrow> string) \<Rightarrow> ('c \<Rightarrow> json) \<Rightarrow> 'c persistedState \<Rightarrow> json" where
  "diskState ty enc st =
     (let log = diskLog ty enc (ps_Log st) in
      JObj [(''current_term'', JNum (uint (ps_CurrentTerm st))), (''voted_for'', JStr (ps_VotedFor st)),
            (''log'', if log = [] then JNull else JArr log), (''commit_index'', JNum (uint (ps_CommitIndex st))),
            (''snapshot'', diskSnapshot (ps_Snapshot st))])"

definition load_entry_json :: "(string \<Rightarrow> json \<Rightarrow> 'c option) \<Rightarrow> json \<Rightarrow> 'c native_LogEntry option" where
  "load_entry_json dec j =
     (case (get_u64 ''index'' j, get_u64 ''term'' j, get_string ''type'' j, json_field ''payload'' j) of
        (Some i, Some t, Some ty, Some payload) \<Rightarrow>
          map_option (\<lambda>c. \<lparr>en_Index = i, en_Term = t, en_Command = Some c\<rparr>) (dec ty payload)
      | _ \<Rightarrow> None)"

definition load_snapshot_json :: "json \<Rightarrow> SnapshotRecord option" where
  "load_snapshot_json j =
     (case (get_u64 ''index'' j, get_u64 ''term'' j, Option.bind (json_field ''data'' j) json_get_bytes) of
        (Some i, Some t, Some d) \<Rightarrow> Some \<lparr>sn_Index = i, sn_Term = t, sn_Data = d\<rparr>
      | _ \<Rightarrow> None)"

definition load_state_json :: "(string \<Rightarrow> json \<Rightarrow> 'c option) \<Rightarrow> json \<Rightarrow> 'c persistedState option" where
  "load_state_json dec j =
     (case (get_u64 ''current_term'' j, get_string ''voted_for'' j,
            Option.bind (Option.bind (json_field ''log'' j) json_array) (those \<circ> map (load_entry_json dec)),
            get_u64 ''commit_index'' j, Option.bind (json_field ''snapshot'' j) load_snapshot_json) of
        (Some t, Some v, Some log, Some c, Some s) \<Rightarrow>
          Some \<lparr>ps_CurrentTerm = t, ps_VotedFor = v, ps_Log = log, ps_CommitIndex = c, ps_Snapshot = s\<rparr>
      | _ \<Rightarrow> None)"

section \<open>The store\<close>

datatype document = Whole json | Torn

text \<open>How far \<open>os.WriteFile\<close> and \<open>os.Rename\<close> get before they fail or the process stops.\<close>

datatype progress = NotOpened | CutOff | NotRenamed | Completed

definition tmp_path :: "string \<Rightarrow> string" where "tmp_path path = path @ ''.tmp''"

definition FileStore_save ::
  "('c \<Rightarrow> string) \<Rightarrow> ('c \<Rightarrow> json) \<Rightarrow> string \<Rightarrow> progress \<Rightarrow> 'c persistedState \<Rightarrow> (string \<Rightarrow> document option) \<Rightarrow>
   bool \<times> (string \<Rightarrow> document option)"
where
  "FileStore_save ty enc path pr st files =
     (let raw = diskState ty enc st in
      case pr of
        NotOpened \<Rightarrow> (False, files)
      | CutOff \<Rightarrow> (False, files(tmp_path path \<mapsto> Torn))
      | NotRenamed \<Rightarrow> (False, files(tmp_path path \<mapsto> Whole raw))
      | Completed \<Rightarrow> (True, files(tmp_path path := None, path \<mapsto> Whole raw)))"

definition FileStore_load :: "(string \<Rightarrow> json \<Rightarrow> 'c option) \<Rightarrow> string \<Rightarrow> (string \<Rightarrow> document option) \<Rightarrow> 'c persistedState option" where
  "FileStore_load dec path files =
     (case files path of
        None \<Rightarrow> Some empty_persisted
      | Some Torn \<Rightarrow> None
      | Some (Whole j) \<Rightarrow> load_state_json dec j)"

section \<open>Saving and loading\<close>

text \<open>What the store asks of commands.\<close>

locale command_codec =
  fixes ty :: "'c \<Rightarrow> string" and enc :: "'c \<Rightarrow> json" and dec :: "string \<Rightarrow> json \<Rightarrow> 'c option"
  assumes dec_enc: "dec (ty c) (enc c) = Some c"

interpretation master_commands: command_codec Command_Type Command_Encode decodeNativeMasterCommand
proof
  show "decodeNativeMasterCommand (Command_Type c) (Command_Encode c) = Some c" for c
    by (cases c) (simp_all add: decodeNativeMasterCommand_def json_codec)
qed

definition without_nil :: "'c persistedState \<Rightarrow> 'c persistedState" where
  "without_nil st = st\<lparr>ps_Log := filter (\<lambda>en. en_Command en \<noteq> None) (ps_Log st)\<rparr>"

lemma string_bytes_bytes_string [simp]: "string_bytes (bytes_string d) = d"
proof -
  have "of_nat (of_char (char_of (unat b) :: char)) = b" for b :: byte
    using unat_bound [of b] by simp
  then show ?thesis by (simp add: string_bytes_def bytes_string_def comp_def map_idI)
qed

lemma load_snapshot [simp]: "load_snapshot_json (diskSnapshot s) = Some s"
proof -
  have "string_bytes [] = []" by (simp add: string_bytes_def)
  then show ?thesis
    by (cases s) (simp add: load_snapshot_json_def diskSnapshot_def get_u64_def json_codec json_bytes_def json_get_bytes_def)
qed

context command_codec
begin

lemma load_entry [simp]:
  "load_entry_json dec (diskEntry ty enc en c) = Some \<lparr>en_Index = en_Index en, en_Term = en_Term en, en_Command = Some c\<rparr>"
  by (simp add: load_entry_json_def diskEntry_def get_u64_def get_string_def json_codec dec_enc)

lemma load_log: "those (map (load_entry_json dec) (diskLog ty enc ens)) = Some (filter (\<lambda>en. en_Command en \<noteq> None) ens)"
proof (induction ens)
  case (Cons en ens)
  then show ?case by (cases en) (auto split: option.splits)
qed simp

lemma load_state: "load_state_json dec (diskState ty enc st) = Some (without_nil st)"
proof -
  define l where "l = diskLog ty enc (ps_Log st)"
  define j where "j = (if l = [] then JNull else JArr l)"
  have "those (map (load_entry_json dec) l) = Some (filter (\<lambda>en. en_Command en \<noteq> None) (ps_Log st))"
    using load_log [of "ps_Log st"] by (simp add: l_def)
  then have log: "Option.bind (json_array j) (those \<circ> map (load_entry_json dec)) =
      Some (filter (\<lambda>en. en_Command en \<noteq> None) (ps_Log st))"
    by (cases "l = []") (simp_all add: j_def json_array_def)
  have "diskState ty enc st = JObj [(''current_term'', JNum (uint (ps_CurrentTerm st))), (''voted_for'', JStr (ps_VotedFor st)),
      (''log'', j), (''commit_index'', JNum (uint (ps_CommitIndex st))), (''snapshot'', diskSnapshot (ps_Snapshot st))]"
    by (simp add: diskState_def j_def l_def)
  then show ?thesis using log
    by (cases st) (simp add: load_state_json_def get_u64_def get_string_def json_codec without_nil_def)
qed

lemma save_atomic:
  assumes "FileStore_save ty enc path pr st files = (ok, files')"
  shows "FileStore_load dec path files' = (if ok then Some (without_nil st) else FileStore_load dec path files)"
proof -
  have "tmp_path path \<noteq> path" by (simp add: tmp_path_def)
  then show ?thesis using assms load_state
    by (auto simp: FileStore_save_def FileStore_load_def Let_def split: progress.splits)
qed

end

text \<open>C31: saving the engine's state is atomic. However far the write and the rename get, loading gives the
  state saved, entry for entry, when the save reports success, and the state that was there before
  when it does not.\<close>

theorem FileStore_save_atomic:
  assumes "FileStore_save Command_Type Command_Encode path pr st files = (ok, files')"
  shows "FileStore_load decodeNativeMasterCommand path files' =
     (if ok then Some (without_nil st) else FileStore_load decodeNativeMasterCommand path files)"
  using assms by (rule master_commands.save_atomic)

theorem FileStore_save_atomic_witness:
  "\<exists>files st. FileStore_save Command_Type Command_Encode ''s'' Completed
       (empty_persisted\<lparr>ps_CurrentTerm := 3, ps_Log := [\<lparr>en_Index = 1, en_Term = 3, en_Command = Some (MaxFileIdCommand 7)\<rparr>]\<rparr>) (\<lambda>_. None) = (True, files) \<and>
     FileStore_load decodeNativeMasterCommand ''s'' files = Some st \<and> ps_CurrentTerm st = 3 \<and> length (ps_Log st) = 1 \<and>
     FileStore_load decodeNativeMasterCommand ''s'' (snd (FileStore_save Command_Type Command_Encode ''s'' CutOff st files)) = Some st"
proof -
  let ?st = "empty_persisted\<lparr>ps_CurrentTerm := 3, ps_Log := [\<lparr>en_Index = 1, en_Term = 3, en_Command = Some (MaxFileIdCommand 7)\<rparr>]\<rparr>"
  obtain files where s: "FileStore_save Command_Type Command_Encode ''s'' Completed ?st (\<lambda>_. None) = (True, files)"
    by (simp add: FileStore_save_def Let_def)
  have l: "FileStore_load decodeNativeMasterCommand ''s'' files = Some (without_nil ?st)"
    using FileStore_save_atomic [OF s] by simp
  obtain files2 where s2: "FileStore_save Command_Type Command_Encode ''s'' CutOff (without_nil ?st) files = (False, files2)"
    by (simp add: FileStore_save_def Let_def)
  show ?thesis using s l s2 FileStore_save_atomic [OF s2] by (auto simp: without_nil_def empty_persisted_def)
qed

end
