(* ===== verification/TopologyNodes.thy ===== *)
theory TopologyNodes
  imports CoreTypes
begin

text \<open>
  Volume servers in the cluster topology (src/goblob/topology/data_node.go, rack.go, data_center.go
  and the base node of node.go): their disks, volumes, slot reservations and addresses. A Go map is a
  function to option; where its iteration order is visible the order is an argument. Times are
  nanoseconds, counts are unbounded unless a sum can leave 64 bits.
\<close>

section \<open>Messages\<close>

record VolumeInformation =
  vi_Id :: u32
  vi_Collection :: string
  vi_ReplicaPlacement :: u32
  vi_Ttl :: string
  vi_DiskType :: string
  vi_ReadOnly :: bool

record MaxVolumeCounts =
  mc_DiskType :: string
  mc_MaxCount :: u32

record Heartbeat =
  hb_Ip :: string
  hb_Port :: u32
  hb_PublicUrl :: string
  hb_GrpcPort :: u32
  hb_DataCenter :: string
  hb_Rack :: string
  hb_Volumes :: "VolumeInformation list"
  hb_DeletedVids :: "u32 list"
  hb_MaxVolumeCounts :: "MaxVolumeCounts list"

record pb_VolumeLocation =
  pl_Url :: string
  pl_PublicUrl :: string
  pl_DataCenter :: string
  pl_Rack :: string

section \<open>Disks\<close>

record DiskInfo =
  di_volumeCount :: int
  di_maxVolumeCount :: u32

definition NewDiskInfo :: DiskInfo where
  "NewDiskInfo = \<lparr>di_volumeCount = 0, di_maxVolumeCount = 0\<rparr>"

definition DiskInfo_AddVolume :: "DiskInfo \<Rightarrow> DiskInfo" where
  "DiskInfo_AddVolume di = di\<lparr>di_volumeCount := di_volumeCount di + 1\<rparr>"

definition DiskInfo_RemoveVolume :: "DiskInfo \<Rightarrow> DiskInfo" where
  "DiskInfo_RemoveVolume di = (if di_volumeCount di > 0 then di\<lparr>di_volumeCount := di_volumeCount di - 1\<rparr> else di)"

definition max_int64 :: int where "max_int64 = 2 ^ 63 - 1"

definition GetFreeVolumeSlot :: "DiskInfo \<Rightarrow> int" where
  "GetFreeVolumeSlot di =
     (if di_maxVolumeCount di = 0 then max_int64
      else let free = uint (di_maxVolumeCount di) - di_volumeCount di in if free < 0 then 0 else free)"

definition IsFull :: "DiskInfo \<Rightarrow> bool" where
  "IsFull di = (if di_maxVolumeCount di = 0 then False else di_volumeCount di \<ge> uint (di_maxVolumeCount di))"

section \<open>Data nodes\<close>

text \<open>The ids of the rack and of the data center are those of the parents, which never change.\<close>

record DataNode =
  dn_id :: string
  dn_rack :: string
  dn_dc :: string
  dn_lastSeen :: int
  dn_url :: string
  dn_publicUrl :: string
  dn_ip :: string
  dn_port :: u32
  dn_grpcPort :: u32
  dn_disks :: "string \<Rightarrow> DiskInfo option"
  dn_volumes :: "u32 \<Rightarrow> VolumeInformation option"
  dn_reservations :: "string \<Rightarrow> int"

definition NewDataNode :: "int \<Rightarrow> string \<Rightarrow> string \<Rightarrow> string \<Rightarrow> DataNode" where
  "NewDataNode now dc rack i =
     \<lparr>dn_id = i, dn_rack = rack, dn_dc = dc, dn_lastSeen = now, dn_url = [], dn_publicUrl = [], dn_ip = [], dn_port = 0,
      dn_grpcPort = 0, dn_disks = (\<lambda>_. None), dn_volumes = (\<lambda>_. None), dn_reservations = (\<lambda>_. 0)\<rparr>"

definition alive_for :: int where "alive_for = 30 * 10 ^ 9"

definition IsAlive :: "int \<Rightarrow> int \<Rightarrow> bool" where
  "IsAlive now lastSeen \<longleftrightarrow> now - lastSeen < alive_for"

definition getOrCreateDisk :: "string \<Rightarrow> DataNode \<Rightarrow> DiskInfo" where
  "getOrCreateDisk dt dn = (case dn_disks dn dt of Some di \<Rightarrow> di | None \<Rightarrow> NewDiskInfo)"

definition set_disk :: "string \<Rightarrow> DiskInfo \<Rightarrow> DataNode \<Rightarrow> DataNode" where
  "set_disk dt di dn = dn\<lparr>dn_disks := (dn_disks dn)(dt \<mapsto> di)\<rparr>"

definition update_disk :: "string \<Rightarrow> (DiskInfo \<Rightarrow> DiskInfo) \<Rightarrow> DataNode \<Rightarrow> DataNode" where
  "update_disk dt f dn = (case dn_disks dn dt of None \<Rightarrow> dn | Some di \<Rightarrow> set_disk dt (f di) dn)"

definition UpdateMaxVolumeCounts :: "MaxVolumeCounts list \<Rightarrow> DataNode \<Rightarrow> DataNode" where
  "UpdateMaxVolumeCounts mcs dn =
     fold (\<lambda>mc dn. set_disk (mc_DiskType mc) ((getOrCreateDisk (mc_DiskType mc) dn)\<lparr>di_maxVolumeCount := mc_MaxCount mc\<rparr>) dn) mcs dn"

definition add_to_disk :: "string \<Rightarrow> DataNode \<Rightarrow> DataNode" where
  "add_to_disk dt dn = set_disk dt (DiskInfo_AddVolume (getOrCreateDisk dt dn)) dn"

text \<open>\<open>DefaultDiskType\<close> is the empty name, so its substitution for an empty name changes nothing.\<close>

definition AddOrUpdateVolume :: "VolumeInformation \<Rightarrow> DataNode \<Rightarrow> DataNode" where
  "AddOrUpdateVolume vi dn =
     (let dn1 = (case dn_volumes dn (vi_Id vi) of
                   None \<Rightarrow> add_to_disk (vi_DiskType vi) dn
                 | Some old \<Rightarrow>
                     if vi_DiskType old \<noteq> vi_DiskType vi
                     then add_to_disk (vi_DiskType vi) (update_disk (vi_DiskType old) DiskInfo_RemoveVolume dn)
                     else dn)
      in dn1\<lparr>dn_volumes := (dn_volumes dn1)(vi_Id vi \<mapsto> vi)\<rparr>)"

definition DeleteVolume :: "u32 \<Rightarrow> DataNode \<Rightarrow> DataNode" where
  "DeleteVolume vid dn =
     (case dn_volumes dn vid of
        None \<Rightarrow> dn
      | Some vi \<Rightarrow> update_disk (vi_DiskType vi) DiskInfo_RemoveVolume (dn\<lparr>dn_volumes := (dn_volumes dn)(vid := None)\<rparr>))"

definition GetFreeVolumeSlots :: "DataNode \<Rightarrow> string \<Rightarrow> int option" where
  "GetFreeVolumeSlots dn dt =
     map_option (\<lambda>di. let free = GetFreeVolumeSlot di - dn_reservations dn dt in if free < 0 then 0 else free) (dn_disks dn dt)"

definition ReserveSlot :: "string \<Rightarrow> DataNode \<Rightarrow> bool \<times> DataNode" where
  "ReserveSlot dt dn =
     (case dn_disks dn dt of
        None \<Rightarrow> (False, dn)
      | Some di \<Rightarrow>
          if di_maxVolumeCount di > 0 \<and> GetFreeVolumeSlot di - dn_reservations dn dt \<le> 0 then (False, dn)
          else (True, dn\<lparr>dn_reservations := (dn_reservations dn)(dt := dn_reservations dn dt + 1)\<rparr>))"

definition ReleaseSlot :: "string \<Rightarrow> DataNode \<Rightarrow> DataNode" where
  "ReleaseSlot dt dn =
     (if dn_reservations dn dt > 0 then dn\<lparr>dn_reservations := (dn_reservations dn)(dt := dn_reservations dn dt - 1)\<rparr> else dn)"

definition disk_has_room :: "DataNode \<Rightarrow> string \<Rightarrow> bool" where
  "disk_has_room dn dt =
     (case dn_disks dn dt of None \<Rightarrow> False
      | Some di \<Rightarrow> di_maxVolumeCount di = 0 \<or> GetFreeVolumeSlot di - dn_reservations dn dt > 0)"

text \<open>\<open>order\<close> enumerates the disk types of the node.\<close>

definition HasFreeSlot :: "string list \<Rightarrow> string \<Rightarrow> DataNode \<Rightarrow> bool" where
  "HasFreeSlot order dt dn = (if dt = [] then list_ex (disk_has_room dn) order else disk_has_room dn dt)"

definition node_url :: "string \<Rightarrow> u32 \<Rightarrow> string" where
  "node_url ip port = ''http://'' @ ip @ '':'' @ format_uint 10 (unat port)"

definition UpdateFromHeartbeat :: "Heartbeat \<Rightarrow> DataNode \<Rightarrow> DataNode" where
  "UpdateFromHeartbeat hb dn =
     (let dn1 = dn\<lparr>dn_ip := hb_Ip hb, dn_port := hb_Port hb, dn_publicUrl := hb_PublicUrl hb, dn_grpcPort := hb_GrpcPort hb\<rparr>;
          dn2 = (if dn_url dn1 = [] then dn1\<lparr>dn_url := node_url (hb_Ip hb) (hb_Port hb)\<rparr> else dn1)
      in UpdateMaxVolumeCounts (hb_MaxVolumeCounts hb) dn2)"

definition NodeIDFromHeartbeat :: "Heartbeat \<Rightarrow> string" where
  "NodeIDFromHeartbeat hb =
     (if hb_GrpcPort hb > 0 then hb_Ip hb @ '':'' @ format_uint 10 (unat (hb_GrpcPort hb))
      else hb_Ip hb @ '':'' @ format_uint 10 (unat (hb_Port hb)))"

section \<open>Racks and data centers\<close>

text \<open>The sums over the nodes of a rack or of a data center; Go's \<open>int\<close> wraps at 64 bits.\<close>

definition rack_free_slots :: "DataNode list \<Rightarrow> string \<Rightarrow> int" where
  "rack_free_slots nodes dt =
     fold (\<lambda>dn sum. case GetFreeVolumeSlots dn dt of None \<Rightarrow> sum | Some free \<Rightarrow> wrap64 (sum + free)) nodes 0"

definition active_count :: "int \<Rightarrow> DataNode list \<Rightarrow> nat" where
  "active_count now nodes = length (filter (\<lambda>dn. IsAlive now (dn_lastSeen dn)) nodes)"

end
