(* ===== verification/Topology.thy ===== *)
theory Topology
  imports TopologyNodes
begin

text \<open>
  The master's view of the cluster (src/goblob/topology/volume_layout.go and topology.go): volume
  layouts, the tree of data centers, racks and nodes, heartbeats, the removal of dead nodes, lookup,
  and the allocation of volume ids. Data nodes live in a heap, since a layout keeps pointers to them
  after they left the tree. A slice is a value: no caller of a layout keeps one across a later call.
\<close>

section \<open>Layouts\<close>

text \<open>A pointer to a node, with the node's id, which never changes.\<close>

type_synonym nref = "nat \<times> string"

record VolumeLocation =
  vloc_DataNode :: "nref option"
  vloc_VolumeId :: u32
  vloc_isReadOnly :: bool

type_synonym loc_map = "u32 \<Rightarrow> VolumeLocation list option"

record VolumeLayout =
  vl_collection :: string
  vl_replication :: string
  vl_ttl :: string
  vl_diskType :: string
  vl_writable :: loc_map
  vl_readonly :: loc_map
  vl_crowded :: loc_map

definition NewVolumeLayout :: "string \<Rightarrow> string \<Rightarrow> string \<Rightarrow> string \<Rightarrow> VolumeLayout" where
  "NewVolumeLayout c r t d =
     \<lparr>vl_collection = c, vl_replication = r, vl_ttl = t, vl_diskType = d,
      vl_writable = (\<lambda>_. None), vl_readonly = (\<lambda>_. None), vl_crowded = (\<lambda>_. None)\<rparr>"

definition sameDataNode :: "VolumeLocation \<Rightarrow> nref option \<Rightarrow> bool" where
  "sameDataNode loc node =
     (let nodeID = (case node of None \<Rightarrow> [] | Some (_, i) \<Rightarrow> i) in
      if nodeID \<noteq> [] \<and> vloc_DataNode loc \<noteq> None then map_option snd (vloc_DataNode loc) = Some nodeID
      else node \<noteq> None \<and> map_option fst (vloc_DataNode loc) = map_option fst node)"

definition set_or_delete :: "u32 \<Rightarrow> VolumeLocation list \<Rightarrow> loc_map \<Rightarrow> loc_map" where
  "set_or_delete vid filtered m = m(vid := if filtered = [] then None else Some filtered)"

definition removeLocationFromMap :: "u32 \<Rightarrow> nref option \<Rightarrow> loc_map \<Rightarrow> loc_map" where
  "removeLocationFromMap vid node m =
     (case m vid of None \<Rightarrow> m
      | Some locs \<Rightarrow> set_or_delete vid (filter (\<lambda>l. \<not> sameDataNode l node) locs) m)"

fun replace_first :: "('a \<Rightarrow> bool) \<Rightarrow> 'a \<Rightarrow> 'a list \<Rightarrow> 'a list option" where
  "replace_first P y [] = None"
| "replace_first P y (x # xs) = (if P x then Some (y # xs) else map_option ((#) x) (replace_first P y xs))"

definition upsertLocation :: "u32 \<Rightarrow> VolumeLocation \<Rightarrow> loc_map \<Rightarrow> loc_map" where
  "upsertLocation vid loc m =
     (let existing = (case m vid of None \<Rightarrow> [] | Some l \<Rightarrow> l) in
      case replace_first (\<lambda>e. sameDataNode e (vloc_DataNode loc)) loc existing of
        Some l \<Rightarrow> m(vid \<mapsto> l)
      | None \<Rightarrow> m(vid \<mapsto> existing @ [loc]))"

definition AddVolumeLayout :: "VolumeLocation \<Rightarrow> VolumeLayout \<Rightarrow> VolumeLayout" where
  "AddVolumeLayout loc vl =
     (let vid = vloc_VolumeId loc; node = vloc_DataNode loc in
      if vid = 0 then vl
      else if vloc_isReadOnly loc
      then vl\<lparr>vl_writable := removeLocationFromMap vid node (vl_writable vl),
              vl_crowded := removeLocationFromMap vid node (vl_crowded vl),
              vl_readonly := upsertLocation vid loc (vl_readonly vl)\<rparr>
      else vl\<lparr>vl_readonly := removeLocationFromMap vid node (vl_readonly vl),
              vl_crowded := removeLocationFromMap vid node (vl_crowded vl),
              vl_writable := upsertLocation vid loc (vl_writable vl)\<rparr>)"

definition RemoveVolumeLocation :: "u32 \<Rightarrow> VolumeLayout \<Rightarrow> VolumeLayout" where
  "RemoveVolumeLocation vid vl =
     vl\<lparr>vl_writable := (vl_writable vl)(vid := None), vl_readonly := (vl_readonly vl)(vid := None),
        vl_crowded := (vl_crowded vl)(vid := None)\<rparr>"

definition on_node :: "string \<Rightarrow> VolumeLocation \<Rightarrow> bool" where
  "on_node i loc \<longleftrightarrow> map_option snd (vloc_DataNode loc) = Some i"

definition filterMap :: "u32 \<Rightarrow> string \<Rightarrow> loc_map \<Rightarrow> loc_map" where
  "filterMap vid i m =
     (case m vid of None \<Rightarrow> m | Some locs \<Rightarrow> set_or_delete vid (filter (\<lambda>l. \<not> on_node i l) locs) m)"

definition RemoveDataNodeLocation :: "u32 \<Rightarrow> string \<Rightarrow> VolumeLayout \<Rightarrow> VolumeLayout" where
  "RemoveDataNodeLocation vid i vl =
     vl\<lparr>vl_writable := filterMap vid i (vl_writable vl), vl_readonly := filterMap vid i (vl_readonly vl),
        vl_crowded := filterMap vid i (vl_crowded vl)\<rparr>"

definition layout_LookupVolume :: "VolumeLayout \<Rightarrow> u32 \<Rightarrow> VolumeLocation list option" where
  "layout_LookupVolume vl vid =
     (case vl_writable vl vid of Some locs \<Rightarrow> Some locs
      | None \<Rightarrow> (case vl_readonly vl vid of Some locs \<Rightarrow> Some locs | None \<Rightarrow> vl_crowded vl vid))"

definition SetVolumeWritable :: "u32 \<Rightarrow> VolumeLayout \<Rightarrow> VolumeLayout" where
  "SetVolumeWritable vid vl =
     (case vl_readonly vl vid of
        Some locs \<Rightarrow> vl\<lparr>vl_readonly := (vl_readonly vl)(vid := None), vl_writable := (vl_writable vl)(vid \<mapsto> locs)\<rparr>
      | None \<Rightarrow>
          (case vl_crowded vl vid of
             Some locs \<Rightarrow> vl\<lparr>vl_crowded := (vl_crowded vl)(vid := None), vl_writable := (vl_writable vl)(vid \<mapsto> locs)\<rparr>
           | None \<Rightarrow> vl))"

definition SetVolumeReadOnly :: "u32 \<Rightarrow> VolumeLayout \<Rightarrow> VolumeLayout" where
  "SetVolumeReadOnly vid vl =
     (case vl_writable vl vid of
        Some locs \<Rightarrow> vl\<lparr>vl_writable := (vl_writable vl)(vid := None), vl_readonly := (vl_readonly vl)(vid \<mapsto> locs)\<rparr>
      | None \<Rightarrow>
          (case vl_crowded vl vid of
             Some locs \<Rightarrow> vl\<lparr>vl_crowded := (vl_crowded vl)(vid := None), vl_readonly := (vl_readonly vl)(vid \<mapsto> locs)\<rparr>
           | None \<Rightarrow> vl))"

text \<open>\<open>PickForWrite\<close>: the first volume that is acceptable in the order in which the map is iterated. The
  heap gives the nodes; the search for id 0 means that none was found.\<close>

definition matches_affinity :: "(nat \<Rightarrow> DataNode option) \<Rightarrow> string \<Rightarrow> string \<Rightarrow> VolumeLocation \<Rightarrow> bool" where
  "matches_affinity heap dc rack loc =
     (case Option.bind (vloc_DataNode loc) (\<lambda>(a, _). heap a) of
        None \<Rightarrow> False
      | Some dn \<Rightarrow> dn_dc dn = dc \<and> (rack = [] \<or> dn_rack dn = rack))"

definition acceptable :: "(nat \<Rightarrow> DataNode option) \<Rightarrow> int \<Rightarrow> string \<Rightarrow> string \<Rightarrow> VolumeLocation list \<Rightarrow> bool" where
  "acceptable heap now dc rack ls =
     (case ls of
        [] \<Rightarrow> False
      | l # _ \<Rightarrow>
          (case Option.bind (vloc_DataNode l) (\<lambda>(a, _). heap a) of None \<Rightarrow> True | Some dn \<Rightarrow> IsAlive now (dn_lastSeen dn)) \<and>
          (dc = [] \<or> list_ex (matches_affinity heap dc rack) ls))"

fun pick_first :: "('v \<Rightarrow> bool) \<Rightarrow> (u32 \<Rightarrow> 'v option) \<Rightarrow> u32 list \<Rightarrow> (u32 \<times> 'v) option" where
  "pick_first P m [] = None"
| "pick_first P m (v # vs) =
     (case m v of None \<Rightarrow> pick_first P m vs | Some x \<Rightarrow> if P x then Some (v, x) else pick_first P m vs)"

definition PickForWrite ::
  "(nat \<Rightarrow> DataNode option) \<Rightarrow> int \<Rightarrow> string \<Rightarrow> string \<Rightarrow> u32 list \<Rightarrow> VolumeLayout \<Rightarrow> (u32 \<times> VolumeLocation list) option" where
  "PickForWrite heap now dc rack order vl =
     (case pick_first (acceptable heap now dc rack) (vl_writable vl) order of
        None \<Rightarrow> None
      | Some (vid, locs) \<Rightarrow> if vid = 0 then None else Some (vid, locs))"

section \<open>The collection of layouts\<close>

definition makeKey :: "string \<Rightarrow> string \<Rightarrow> string \<Rightarrow> string \<Rightarrow> string" where
  "makeKey c r t d = c @ '':'' @ r @ '':'' @ t @ '':'' @ d"

definition GetOrCreateLayout :: "string \<Rightarrow> string \<Rightarrow> string \<Rightarrow> string \<Rightarrow> (string \<Rightarrow> VolumeLayout option) \<Rightarrow> VolumeLayout" where
  "GetOrCreateLayout c r t d layouts =
     (case layouts (makeKey c r t d) of Some vl \<Rightarrow> vl | None \<Rightarrow> NewVolumeLayout c r t d)"

definition RemoveVolumeFromDataNode :: "string \<Rightarrow> u32 \<Rightarrow> (string \<Rightarrow> VolumeLayout option) \<Rightarrow> string \<Rightarrow> VolumeLayout option" where
  "RemoveVolumeFromDataNode i vid layouts = (\<lambda>k. map_option (RemoveDataNodeLocation vid i) (layouts k))"

definition remove_node_from_map :: "string \<Rightarrow> loc_map \<Rightarrow> loc_map" where
  "remove_node_from_map i m =
     (\<lambda>vid. case m vid of None \<Rightarrow> None
            | Some locs \<Rightarrow> let filtered = filter (\<lambda>l. \<not> on_node i l) locs in if filtered = [] then None else Some filtered)"

definition RemoveDataNode :: "string \<Rightarrow> (string \<Rightarrow> VolumeLayout option) \<Rightarrow> string \<Rightarrow> VolumeLayout option" where
  "RemoveDataNode i layouts =
     (\<lambda>k. map_option (\<lambda>vl. vl\<lparr>vl_writable := remove_node_from_map i (vl_writable vl),
            vl_readonly := remove_node_from_map i (vl_readonly vl), vl_crowded := remove_node_from_map i (vl_crowded vl)\<rparr>) (layouts k))"

definition location_ToProto :: "(nat \<Rightarrow> DataNode option) \<Rightarrow> VolumeLocation \<Rightarrow> pb_VolumeLocation option" where
  "location_ToProto heap loc =
     map_option (\<lambda>dn. \<lparr>pl_Url = dn_url dn, pl_PublicUrl = dn_publicUrl dn, pl_DataCenter = dn_dc dn, pl_Rack = dn_rack dn\<rparr>)
       (Option.bind (vloc_DataNode loc) (\<lambda>(a, _). heap a))"

definition layouts_LookupVolume ::
  "(nat \<Rightarrow> DataNode option) \<Rightarrow> string list \<Rightarrow> (string \<Rightarrow> VolumeLayout option) \<Rightarrow> u32 \<Rightarrow> pb_VolumeLocation list" where
  "layouts_LookupVolume heap order layouts vid =
     concat (map (\<lambda>k. case Option.bind (layouts k) (\<lambda>vl. layout_LookupVolume vl vid) of
                        None \<Rightarrow> [] | Some locs \<Rightarrow> List.map_filter (location_ToProto heap) locs) order)"

section \<open>The tree\<close>

record Rack =
  rk_lastSeen :: int
  rk_nodes :: "string \<Rightarrow> nat option"

record DataCenter =
  dc_lastSeen :: int
  dc_racks :: "string \<Rightarrow> Rack option"

record Topology =
  tp_heap :: "nat \<Rightarrow> DataNode option"
  tp_free :: nat
  tp_dcs :: "string \<Rightarrow> DataCenter option"
  tp_layouts :: "string \<Rightarrow> VolumeLayout option"
  tp_nextVolumeId :: u32

definition NewTopology :: Topology where
  "NewTopology = \<lparr>tp_heap = (\<lambda>_. None), tp_free = 0, tp_dcs = (\<lambda>_. None), tp_layouts = (\<lambda>_. None), tp_nextVolumeId = 1\<rparr>"

definition findOrCreateDataNode :: "int \<Rightarrow> string \<Rightarrow> string \<Rightarrow> string \<Rightarrow> Topology \<Rightarrow> nat \<times> Topology" where
  "findOrCreateDataNode now dc rack i t =
     (let d = (case tp_dcs t dc of Some d \<Rightarrow> d | None \<Rightarrow> \<lparr>dc_lastSeen = now, dc_racks = (\<lambda>_. None)\<rparr>);
          r = (case dc_racks d rack of Some r \<Rightarrow> r | None \<Rightarrow> \<lparr>rk_lastSeen = now, rk_nodes = (\<lambda>_. None)\<rparr>)
      in case rk_nodes r i of
           Some a \<Rightarrow> (a, t)
         | None \<Rightarrow>
             let a = tp_free t;
                 r1 = r\<lparr>rk_nodes := (rk_nodes r)(i \<mapsto> a)\<rparr>;
                 d1 = d\<lparr>dc_racks := (dc_racks d)(rack \<mapsto> r1)\<rparr>
             in (a, t\<lparr>tp_heap := (tp_heap t)(a \<mapsto> NewDataNode now dc rack i), tp_free := a + 1,
                      tp_dcs := (tp_dcs t)(dc \<mapsto> d1)\<rparr>))"

definition node_map :: "nat \<Rightarrow> (DataNode \<Rightarrow> DataNode) \<Rightarrow> Topology \<Rightarrow> Topology" where
  "node_map a f t = (case tp_heap t a of None \<Rightarrow> t | Some dn \<Rightarrow> t\<lparr>tp_heap := (tp_heap t)(a \<mapsto> f dn)\<rparr>)"

definition setMaxVolumeId :: "u32 \<Rightarrow> Topology \<Rightarrow> Topology" where
  "setMaxVolumeId v t = (if v \<ge> tp_nextVolumeId t then t\<lparr>tp_nextVolumeId := v + 1\<rparr> else t)"

definition processVolume :: "nref \<Rightarrow> VolumeInformation \<Rightarrow> Topology \<Rightarrow> Topology" where
  "processVolume node vi t =
     (let c = vi_Collection vi; r = ReplicaPlacement_String (ParseReplicaPlacement (ucast (vi_ReplicaPlacement vi)));
          k = makeKey c r (vi_Ttl vi) (vi_DiskType vi);
          vl = GetOrCreateLayout c r (vi_Ttl vi) (vi_DiskType vi) (tp_layouts t);
          loc = \<lparr>vloc_DataNode = Some node, vloc_VolumeId = vi_Id vi, vloc_isReadOnly = vi_ReadOnly vi\<rparr>;
          t1 = t\<lparr>tp_layouts := (tp_layouts t)(k \<mapsto> AddVolumeLayout loc vl)\<rparr>
      in setMaxVolumeId (vi_Id vi) (node_map (fst node) (AddOrUpdateVolume vi) t1))"

definition removeVolume :: "nref \<Rightarrow> u32 \<Rightarrow> Topology \<Rightarrow> Topology" where
  "removeVolume node vid t =
     node_map (fst node) (DeleteVolume vid) (t\<lparr>tp_layouts := RemoveVolumeFromDataNode (snd node) vid (tp_layouts t)\<rparr>)"

text \<open>\<open>known\<close> enumerates the volumes the node had before this heartbeat.\<close>

definition ProcessJoinMessage :: "int \<Rightarrow> u32 list \<Rightarrow> Heartbeat \<Rightarrow> Topology \<Rightarrow> Topology" where
  "ProcessJoinMessage now known hb t =
     (let i = NodeIDFromHeartbeat hb in
      case findOrCreateDataNode now (hb_DataCenter hb) (hb_Rack hb) i t of
        (a, t1) \<Rightarrow>
          let t2 = node_map a (\<lambda>dn. (UpdateFromHeartbeat hb dn)\<lparr>dn_lastSeen := now\<rparr>) t1;
              t3 = fold (processVolume (a, i)) (hb_Volumes hb) t2;
              t4 = fold (removeVolume (a, i)) (hb_DeletedVids hb) t3;
              stale = filter (\<lambda>v. v \<notin> vi_Id ` set (hb_Volumes hb) \<and> v \<notin> set (hb_DeletedVids hb)) known;
              t5 = fold (removeVolume (a, i)) stale t4
          in node_map a (UpdateMaxVolumeCounts (hb_MaxVolumeCounts hb)) t5)"

definition LookupVolumeLocation :: "string list \<Rightarrow> Topology \<Rightarrow> u32 \<Rightarrow> pb_VolumeLocation list" where
  "LookupVolumeLocation order t vid = layouts_LookupVolume (tp_heap t) order (tp_layouts t) vid"

text \<open>\<open>SyncDeadNodeRemoval\<close>. Every node of the tree that is not alive leaves its parent; of the data
  nodes among them the locations are removed. Data centers and racks have their own time, set when
  they are created.\<close>

definition dead_ids :: "int \<Rightarrow> Topology \<Rightarrow> string set" where
  "dead_ids now t =
     {i. \<exists>d dc r rack a dn. tp_dcs t d = Some dc \<and> dc_racks dc r = Some rack \<and> rk_nodes rack i = Some a \<and>
           tp_heap t a = Some dn \<and> \<not> IsAlive now (dn_lastSeen dn)}"

definition prune_rack :: "int \<Rightarrow> (nat \<Rightarrow> DataNode option) \<Rightarrow> Rack \<Rightarrow> Rack" where
  "prune_rack now heap rack =
     rack\<lparr>rk_nodes := (\<lambda>i. case rk_nodes rack i of None \<Rightarrow> None
        | Some a \<Rightarrow> (case heap a of None \<Rightarrow> None | Some dn \<Rightarrow> if IsAlive now (dn_lastSeen dn) then Some a else None))\<rparr>"

definition prune_dc :: "int \<Rightarrow> (nat \<Rightarrow> DataNode option) \<Rightarrow> DataCenter \<Rightarrow> DataCenter" where
  "prune_dc now heap dc =
     dc\<lparr>dc_racks := (\<lambda>r. case dc_racks dc r of None \<Rightarrow> None
        | Some rack \<Rightarrow> if IsAlive now (rk_lastSeen rack) then Some (prune_rack now heap rack) else None)\<rparr>"

definition SyncDeadNodeRemoval :: "int \<Rightarrow> string list \<Rightarrow> Topology \<Rightarrow> Topology" where
  "SyncDeadNodeRemoval now dead t =
     t\<lparr>tp_layouts := fold RemoveDataNode dead (tp_layouts t),
       tp_dcs := (\<lambda>d. case tp_dcs t d of None \<Rightarrow> None
          | Some dc \<Rightarrow> if IsAlive now (dc_lastSeen dc) then Some (prune_dc now (tp_heap t) dc) else None)\<rparr>"

section \<open>Volume ids\<close>

definition NextVolumeId :: "Topology \<Rightarrow> u32 \<times> Topology" where
  "NextVolumeId t =
     (let n = (if tp_nextVolumeId t = 0 then 1 else tp_nextVolumeId t) in (n, t\<lparr>tp_nextVolumeId := n + 1\<rparr>))"

text \<open>\<open>persist\<close> runs after the lock is released; it may call back into the topology.\<close>

definition AllocateNextVolumeId :: "(u32 \<Rightarrow> Topology \<Rightarrow> bool \<times> Topology) \<Rightarrow> Topology \<Rightarrow> u32 option \<times> Topology" where
  "AllocateNextVolumeId persist t =
     (case NextVolumeId t of
        (vid, t1) \<Rightarrow> (case persist vid t1 of (ok, t2) \<Rightarrow> (if ok then Some vid else None, t2)))"

definition GetMaxVolumeId :: "Topology \<Rightarrow> u32" where
  "GetMaxVolumeId t = (if tp_nextVolumeId t = 0 then 0 else tp_nextVolumeId t - 1)"

end
