(* ===== verification/TopologyNodesProps.thy ===== *)
theory TopologyNodesProps
  imports TopologyNodes
begin

text \<open>
  Slot accounting on a volume server: the counter of every disk is the number of volumes recorded
  for it, through heartbeats, allocations and deletions, and a reservation that succeeds leaves
  volumes and reservations within the limit of the disk.
\<close>

definition on_disk :: "DataNode \<Rightarrow> string \<Rightarrow> u32 set" where
  "on_disk dn dt = {v. \<exists>vi. dn_volumes dn v = Some vi \<and> vi_DiskType vi = dt}"

definition counts_ok :: "DataNode \<Rightarrow> bool" where
  "counts_ok dn \<longleftrightarrow>
     (\<forall>dt. dn_disks dn dt = None \<longrightarrow> on_disk dn dt = {}) \<and>
     (\<forall>dt di. dn_disks dn dt = Some di \<longrightarrow> di_volumeCount di = int (card (on_disk dn dt))) \<and>
     (\<forall>dt. 0 \<le> dn_reservations dn dt)"

lemma finite_on_disk [simp]: "finite (on_disk dn dt)"
  by (rule finite)

lemma counts_okD:
  assumes "counts_ok dn"
  shows "di_volumeCount (getOrCreateDisk dt dn) = int (card (on_disk dn dt))" "dn_disks dn dt = None \<Longrightarrow> on_disk dn dt = {}"
    "dn_disks dn dt = Some di \<Longrightarrow> di_volumeCount di = int (card (on_disk dn dt))"
  using assms by (auto simp: counts_ok_def getOrCreateDisk_def NewDiskInfo_def split: option.splits)

lemma set_disk_simps [simp]:
  "dn_volumes (set_disk dt di dn) = dn_volumes dn" "dn_reservations (set_disk dt di dn) = dn_reservations dn"
  "dn_disks (set_disk dt di dn) = (dn_disks dn)(dt \<mapsto> di)"
  by (simp_all add: set_disk_def)

lemma update_disk_volumes [simp]:
  "dn_volumes (update_disk dt f dn) = dn_volumes dn" "dn_reservations (update_disk dt f dn) = dn_reservations dn"
  by (simp_all add: update_disk_def split: option.splits)

lemma on_disk_cong: "dn_volumes dn' = dn_volumes dn \<Longrightarrow> on_disk dn' dt = on_disk dn dt"
  by (simp add: on_disk_def)

text \<open>The volumes of a disk after a volume is recorded or removed.\<close>

lemma on_disk_upd:
  "on_disk (dn\<lparr>dn_volumes := (dn_volumes dn)(v \<mapsto> vi)\<rparr>) dt =
     (if vi_DiskType vi = dt then insert v (on_disk dn dt) else on_disk dn dt - {v})"
  "on_disk (dn\<lparr>dn_volumes := (dn_volumes dn)(v := None)\<rparr>) dt = on_disk dn dt - {v}"
  by (auto simp: on_disk_def)

lemma counts_ok_set_disk:
  assumes "counts_ok dn" "di_volumeCount di = di_volumeCount (getOrCreateDisk dt dn)"
  shows "counts_ok (set_disk dt di dn)"
  using assms counts_okD(1) [OF assms(1), of dt] by (simp add: counts_ok_def on_disk_cong [of "set_disk dt di dn" dn])

lemma counts_ok_UpdateMaxVolumeCounts: "counts_ok dn \<Longrightarrow> counts_ok (UpdateMaxVolumeCounts mcs dn)"
  unfolding UpdateMaxVolumeCounts_def by (induction mcs arbitrary: dn) (simp_all add: counts_ok_set_disk)

lemma counts_ok_delete:
  assumes ok: "counts_ok dn" and v: "dn_volumes dn vid = Some vi"
  shows "counts_ok (update_disk (vi_DiskType vi) DiskInfo_RemoveVolume (dn\<lparr>dn_volumes := (dn_volumes dn)(vid := None)\<rparr>))"
    (is "counts_ok ?dn")
proof -
  let ?t = "vi_DiskType vi"
  have mem: "vid \<in> on_disk dn ?t" "\<And>dt. dt \<noteq> ?t \<Longrightarrow> vid \<notin> on_disk dn dt" using v by (auto simp: on_disk_def)
  obtain di where di: "dn_disks dn ?t = Some di" using counts_okD(2) [OF ok, of ?t] mem(1) by (cases "dn_disks dn ?t") auto
  have od: "on_disk ?dn dt = on_disk dn dt - {vid}" for dt
    using on_disk_upd(2) [of dn vid dt] by (simp add: on_disk_def)
  have cnt: "di_volumeCount di = int (card (on_disk dn ?t))" using counts_okD(3) [OF ok di] .
  have pos: "0 < card (on_disk dn ?t)" using mem(1) by (auto simp: card_gt_0_iff)
  have disks: "dn_disks ?dn = (dn_disks dn)(?t \<mapsto> di\<lparr>di_volumeCount := di_volumeCount di - 1\<rparr>)"
    using di cnt pos by (simp add: update_disk_def DiskInfo_RemoveVolume_def)
  show ?thesis unfolding counts_ok_def
  proof (intro conjI allI impI)
    fix dt
    show "dn_disks ?dn dt = None \<Longrightarrow> on_disk ?dn dt = {}"
      using ok unfolding disks od counts_ok_def by (auto split: if_splits)
    show "dn_disks ?dn dt = Some d \<Longrightarrow> di_volumeCount d = int (card (on_disk ?dn dt))" for d
      using ok mem cnt pos unfolding disks od counts_ok_def by (cases "dt = ?t") auto
    show "0 \<le> dn_reservations ?dn dt" using ok by (simp add: counts_ok_def)
  qed
qed

lemma counts_ok_DeleteVolume: "counts_ok dn \<Longrightarrow> counts_ok (DeleteVolume vid dn)"
  using counts_ok_delete by (simp add: DeleteVolume_def split: option.splits)

lemma counts_ok_add:
  assumes ok: "counts_ok dn" and new: "dn_volumes dn (vi_Id vi) = None"
  shows "counts_ok (let dn1 = add_to_disk (vi_DiskType vi) dn in dn1\<lparr>dn_volumes := (dn_volumes dn1)(vi_Id vi \<mapsto> vi)\<rparr>)" (is "counts_ok ?dn")
proof -
  let ?t = "vi_DiskType vi" and ?v = "vi_Id vi"
  have nm: "?v \<notin> on_disk dn dt" for dt using new by (simp add: on_disk_def)
  have od: "on_disk ?dn dt = (if dt = ?t then insert ?v (on_disk dn dt) else on_disk dn dt)" for dt
    using on_disk_upd(1) [of dn ?v vi dt] nm [of dt] by (auto simp: on_disk_def add_to_disk_def Let_def)
  have disks: "dn_disks ?dn = (dn_disks dn)(?t \<mapsto> DiskInfo_AddVolume (getOrCreateDisk ?t dn))" by (simp add: add_to_disk_def Let_def)
  show ?thesis unfolding counts_ok_def
  proof (intro conjI allI impI)
    fix dt
    show "dn_disks ?dn dt = None \<Longrightarrow> on_disk ?dn dt = {}"
      using ok unfolding disks od counts_ok_def by (auto split: if_splits)
    show "dn_disks ?dn dt = Some d \<Longrightarrow> di_volumeCount d = int (card (on_disk ?dn dt))" for d
      using ok nm counts_okD(1) [OF ok, of ?t] unfolding disks od counts_ok_def
      by (cases "dt = ?t") (auto simp: DiskInfo_AddVolume_def)
    show "0 \<le> dn_reservations ?dn dt" using ok by (simp add: counts_ok_def add_to_disk_def Let_def)
  qed
qed

lemma AddOrUpdateVolume_moved:
  assumes "dn_volumes dn (vi_Id vi) = Some old" "vi_DiskType old \<noteq> vi_DiskType vi"
  shows "AddOrUpdateVolume vi dn = (let dn1 = add_to_disk (vi_DiskType vi) (DeleteVolume (vi_Id vi) dn)
     in dn1\<lparr>dn_volumes := (dn_volumes dn1)(vi_Id vi \<mapsto> vi)\<rparr>)"
  using assms
  by (simp add: AddOrUpdateVolume_def DeleteVolume_def add_to_disk_def set_disk_def update_disk_def getOrCreateDisk_def Let_def
      split: option.splits)

lemma counts_ok_AddOrUpdateVolume:
  assumes "counts_ok dn"
  shows "counts_ok (AddOrUpdateVolume vi dn)"
proof (cases "dn_volumes dn (vi_Id vi)")
  case None
  then show ?thesis using counts_ok_add [OF assms None] by (simp add: AddOrUpdateVolume_def Let_def)
next
  case (Some old)
  show ?thesis
  proof (cases "vi_DiskType old = vi_DiskType vi")
    case True
    have "on_disk (dn\<lparr>dn_volumes := (dn_volumes dn)(vi_Id vi \<mapsto> vi)\<rparr>) dt = on_disk dn dt" for dt
      using Some True by (auto simp: on_disk_def)
    then show ?thesis using Some True assms by (simp add: AddOrUpdateVolume_def counts_ok_def)
  next
    case False
    have "dn_volumes (DeleteVolume (vi_Id vi) dn) (vi_Id vi) = None" using Some by (simp add: DeleteVolume_def)
    then show ?thesis unfolding AddOrUpdateVolume_moved [OF Some False]
      using counts_ok_add counts_ok_DeleteVolume assms by blast
  qed
qed

lemma counts_ok_reserve:
  "counts_ok dn \<Longrightarrow> counts_ok (snd (ReserveSlot dt dn))" "counts_ok dn \<Longrightarrow> counts_ok (ReleaseSlot dt dn)"
  by (auto simp: ReserveSlot_def ReleaseSlot_def counts_ok_def on_disk_def split: option.splits)

lemma counts_ok_UpdateFromHeartbeat:
  assumes "counts_ok dn" shows "counts_ok (UpdateFromHeartbeat hb dn)"
proof -
  have "counts_ok (dn\<lparr>dn_ip := i, dn_port := p, dn_publicUrl := u, dn_grpcPort := g\<rparr>)"
    "counts_ok (dn\<lparr>dn_ip := i, dn_port := p, dn_publicUrl := u, dn_grpcPort := g, dn_url := w\<rparr>)" for i p u g w
    using assms by (auto simp: counts_ok_def on_disk_def)
  then show ?thesis by (auto simp: UpdateFromHeartbeat_def Let_def intro: counts_ok_UpdateMaxVolumeCounts)
qed

text \<open>What the master does to a node it knows.\<close>

inductive dn_step :: "DataNode \<Rightarrow> DataNode \<Rightarrow> bool" where
  heartbeat: "dn_step dn (UpdateFromHeartbeat hb dn)"
| add: "dn_step dn (AddOrUpdateVolume vi dn)"
| delete: "dn_step dn (DeleteVolume vid dn)"
| limits: "dn_step dn (UpdateMaxVolumeCounts mcs dn)"
| reserve: "dn_step dn (snd (ReserveSlot dt dn))"
| release: "dn_step dn (ReleaseSlot dt dn)"

lemma dn_run_counts_ok:
  assumes "dn_step\<^sup>*\<^sup>* (NewDataNode now dc rack i) dn"
  shows "counts_ok dn"
  using assms
proof (induction rule: rtranclp_induct)
  case base
  then show ?case by (simp add: counts_ok_def NewDataNode_def on_disk_def)
next
  case (step y z)
  from step(2,3) show ?case
    by cases (auto intro: counts_ok_UpdateFromHeartbeat counts_ok_AddOrUpdateVolume counts_ok_DeleteVolume
        counts_ok_UpdateMaxVolumeCounts counts_ok_reserve)
qed

text \<open>C38: whatever heartbeats, allocations, deletions and reservations a node goes through, a reservation
  on a disk with a limit succeeds only if, counting it, the volumes recorded for that disk and its
  reservations are within the limit, and it fails on such a disk exactly when they would not be.\<close>

theorem ReserveSlot_within_limit:
  assumes "dn_step\<^sup>*\<^sup>* (NewDataNode now dc rack i) dn" "dn_disks dn dt = Some di" "di_maxVolumeCount di \<noteq> 0"
  shows "fst (ReserveSlot dt dn) \<longleftrightarrow> int (card (on_disk dn dt)) + dn_reservations dn dt + 1 \<le> uint (di_maxVolumeCount di)"
proof -
  have ok: "di_volumeCount di = int (card (on_disk dn dt))" "0 \<le> dn_reservations dn dt"
    using dn_run_counts_ok [OF assms(1)] assms(2) by (auto simp: counts_ok_def)
  have "di_maxVolumeCount di > 0" using assms(3) by (simp add: word_neq_0_conv)
  then show ?thesis using ok assms(2) by (auto simp: ReserveSlot_def GetFreeVolumeSlot_def Let_def)
qed

theorem ReserveSlot_within_limit_witness:
  "let vi = \<lparr>vi_Id = 5, vi_Collection = [], vi_ReplicaPlacement = 0, vi_Ttl = [], vi_DiskType = ''ssd'', vi_ReadOnly = False\<rparr>;
       dn = AddOrUpdateVolume vi (UpdateMaxVolumeCounts [\<lparr>mc_DiskType = ''ssd'', mc_MaxCount = 1\<rparr>] (NewDataNode 0 ''d'' ''r'' ''n''))
   in dn_step\<^sup>*\<^sup>* (NewDataNode 0 ''d'' ''r'' ''n'') dn \<and> on_disk dn ''ssd'' = {5} \<and> \<not> fst (ReserveSlot ''ssd'' dn)"
proof -
  let ?vi = "\<lparr>vi_Id = 5, vi_Collection = [], vi_ReplicaPlacement = 0, vi_Ttl = [], vi_DiskType = ''ssd'', vi_ReadOnly = False\<rparr>"
  let ?n = "NewDataNode 0 ''d'' ''r'' ''n''"
  let ?m = "UpdateMaxVolumeCounts [\<lparr>mc_DiskType = ''ssd'', mc_MaxCount = 1\<rparr>] ?n"
  have run: "dn_step\<^sup>*\<^sup>* ?n (AddOrUpdateVolume ?vi ?m)"
    by (meson dn_step.limits dn_step.add r_into_rtranclp rtranclp.rtrancl_into_rtrancl)
  have d: "dn_disks (AddOrUpdateVolume ?vi ?m) ''ssd'' = Some \<lparr>di_volumeCount = 1, di_maxVolumeCount = 1\<rparr>"
    "on_disk (AddOrUpdateVolume ?vi ?m) ''ssd'' = {5}" "dn_reservations (AddOrUpdateVolume ?vi ?m) ''ssd'' = 0"
    by (auto simp: AddOrUpdateVolume_def UpdateMaxVolumeCounts_def NewDataNode_def add_to_disk_def set_disk_def getOrCreateDisk_def
        NewDiskInfo_def DiskInfo_AddVolume_def on_disk_def Let_def split: if_splits)
  have "\<not> fst (ReserveSlot ''ssd'' (AddOrUpdateVolume ?vi ?m))"
    using ReserveSlot_within_limit [OF run d(1)] d by simp
  then show ?thesis using run d(2) by (simp add: Let_def)
qed

text \<open>Two nodes whose disks have no limit add up to a negative number of free slots.\<close>

lemma rack_free_slots_wraps:
  "rack_free_slots [UpdateMaxVolumeCounts [\<lparr>mc_DiskType = ''ssd'', mc_MaxCount = 0\<rparr>] (NewDataNode 0 ''d'' ''r'' ''m''),
                    UpdateMaxVolumeCounts [\<lparr>mc_DiskType = ''ssd'', mc_MaxCount = 0\<rparr>] (NewDataNode 0 ''d'' ''r'' ''n'')] ''ssd'' = - 2"
  by (simp add: rack_free_slots_def GetFreeVolumeSlots_def UpdateMaxVolumeCounts_def NewDataNode_def set_disk_def getOrCreateDisk_def
      NewDiskInfo_def GetFreeVolumeSlot_def max_int64_def wrap64_def Let_def)

end
