(* ===== verification/TopologyProps.thy ===== *)
theory TopologyProps
  imports Topology TopologyNodesProps
begin

text \<open>
  The layouts after heartbeats: a server has a location for a volume exactly when its last heartbeat
  reported the volume. Then the allocation of volume ids, and what lookup, the removal of dead
  nodes and the key of a layout do that their comments do not say.
\<close>

section \<open>Locations of a node\<close>

definition has_loc :: "loc_map \<Rightarrow> string \<Rightarrow> u32 \<Rightarrow> bool" where
  "has_loc m i v \<longleftrightarrow> (case m v of None \<Rightarrow> False | Some locs \<Rightarrow> \<exists>l \<in> set locs. on_node i l)"

definition layout_has :: "VolumeLayout \<Rightarrow> string \<Rightarrow> u32 \<Rightarrow> bool" where
  "layout_has vl i v \<longleftrightarrow> has_loc (vl_writable vl) i v \<or> has_loc (vl_readonly vl) i v \<or> has_loc (vl_crowded vl) i v"

definition located :: "Topology \<Rightarrow> string \<Rightarrow> u32 \<Rightarrow> bool" where
  "located t i v \<longleftrightarrow> (\<exists>k vl. tp_layouts t k = Some vl \<and> layout_has vl i v)"

lemma sameDataNode_id: "j \<noteq> [] \<Longrightarrow> sameDataNode l (Some (a, j)) = on_node j l"
  by (auto simp: sameDataNode_def on_node_def Let_def split: option.splits)

lemma has_set_or_delete:
  "has_loc (set_or_delete vid locs m) i v = (if v = vid then \<exists>l \<in> set locs. on_node i l else has_loc m i v)"
  by (auto simp: has_loc_def set_or_delete_def)

lemma has_filter:
  assumes "m vid = Some locs"
  shows "has_loc (set_or_delete vid (filter (\<lambda>l. \<not> on_node j l) locs) m) i v \<longleftrightarrow> has_loc m i v \<and> \<not> (v = vid \<and> i = j)"
proof (cases "v = vid")
  case True
  have "has_loc m i vid \<longleftrightarrow> (\<exists>l \<in> set locs. on_node i l)" using assms by (simp add: has_loc_def)
  then show ?thesis using True by (auto simp: has_set_or_delete on_node_def)
qed (simp add: has_set_or_delete)

lemma has_filterMap: "has_loc (filterMap vid j m) i v \<longleftrightarrow> has_loc m i v \<and> \<not> (v = vid \<and> i = j)"
proof (cases "m vid")
  case None then show ?thesis by (auto simp: filterMap_def has_loc_def)
next
  case (Some locs) then show ?thesis using has_filter [of m vid locs j i v] by (simp add: filterMap_def)
qed

lemma has_removeLocation:
  assumes "j \<noteq> []"
  shows "has_loc (removeLocationFromMap vid (Some (a, j)) m) i v \<longleftrightarrow> has_loc m i v \<and> \<not> (v = vid \<and> i = j)"
proof (cases "m vid")
  case None then show ?thesis by (auto simp: removeLocationFromMap_def has_loc_def)
next
  case (Some locs) then show ?thesis using has_filter [of m vid locs j i v] assms by (simp add: removeLocationFromMap_def sameDataNode_id)
qed

lemma replace_first_has:
  assumes "replace_first (on_node j) l xs = Some ys" "on_node j l"
  shows "(\<exists>x \<in> set ys. on_node i x) \<longleftrightarrow> (\<exists>x \<in> set xs. on_node i x)"
  using assms(1)
proof (induction xs arbitrary: ys)
  case (Cons x xs)
  show ?case
  proof (cases "on_node j x")
    case True
    then show ?thesis using Cons.prems assms(2) by (auto simp: on_node_def)
  next
    case False
    then obtain zs where "replace_first (on_node j) l xs = Some zs" "ys = x # zs" using Cons.prems by auto
    then show ?thesis using Cons.IH by simp
  qed
qed simp

lemma replace_first_None: "replace_first P l xs = None \<longleftrightarrow> (\<forall>x \<in> set xs. \<not> P x)"
  by (induction xs) auto

lemma replace_first_found: "replace_first P l xs = Some ys \<Longrightarrow> \<exists>x \<in> set xs. P x"
  by (induction xs arbitrary: ys) (auto split: if_splits)

lemma has_upsert:
  assumes j: "j \<noteq> []" and l: "vloc_DataNode l = Some (a, j)"
  shows "has_loc (upsertLocation vid l m) i v \<longleftrightarrow> has_loc m i v \<or> v = vid \<and> i = j"
proof -
  have onj: "on_node i l \<longleftrightarrow> i = j" for i using l by (auto simp: on_node_def)
  have P: "(\<lambda>e. sameDataNode e (vloc_DataNode l)) = on_node j" using j l by (simp add: sameDataNode_id fun_eq_iff)
  define xs where "xs = (case m vid of None \<Rightarrow> [] | Some l \<Rightarrow> l)"
  have hx: "has_loc m i vid \<longleftrightarrow> (\<exists>x \<in> set xs. on_node i x)" for i by (auto simp: has_loc_def xs_def split: option.splits)
  show ?thesis
  proof (cases "replace_first (on_node j) l xs")
    case None
    then show ?thesis using hx onj by (auto simp: upsertLocation_def P xs_def [symmetric] has_loc_def Let_def)
  next
    case (Some ys)
    have "(\<exists>x \<in> set ys. on_node i x) \<longleftrightarrow> (\<exists>x \<in> set xs. on_node i x)" using replace_first_has [OF Some] onj by simp
    moreover have "has_loc m j vid" using replace_first_found [OF Some] hx by simp
    ultimately show ?thesis using Some hx by (auto simp: upsertLocation_def P xs_def [symmetric] has_loc_def Let_def)
  qed
qed

lemma layout_has_add:
  assumes "j \<noteq> []" "vloc_DataNode l = Some (a, j)"
  shows "layout_has (AddVolumeLayout l vl) i v \<longleftrightarrow> layout_has vl i v \<or> v = vloc_VolumeId l \<and> i = j \<and> v \<noteq> 0"
  using assms(2) by (auto simp: AddVolumeLayout_def layout_has_def Let_def has_upsert [OF assms] has_removeLocation [OF assms(1)])

lemma layout_has_remove: "layout_has (RemoveDataNodeLocation vid j vl) i v \<longleftrightarrow> layout_has vl i v \<and> \<not> (v = vid \<and> i = j)"
  by (auto simp: RemoveDataNodeLocation_def layout_has_def has_filterMap)

lemma layout_has_new [simp]: "\<not> layout_has (NewVolumeLayout c r t d) i v"
  by (simp add: layout_has_def has_loc_def NewVolumeLayout_def)

lemma tp_layouts_node_map [simp]: "tp_layouts (node_map a f t) = tp_layouts t" "tp_dcs (node_map a f t) = tp_dcs t"
  "tp_free (node_map a f t) = tp_free t" "tp_nextVolumeId (node_map a f t) = tp_nextVolumeId t"
  by (simp_all add: node_map_def split: option.splits)

lemma setMaxVolumeId_simps [simp]: "tp_layouts (setMaxVolumeId v t) = tp_layouts t" "tp_dcs (setMaxVolumeId v t) = tp_dcs t"
  "tp_heap (setMaxVolumeId v t) = tp_heap t" "tp_free (setMaxVolumeId v t) = tp_free t"
  by (simp_all add: setMaxVolumeId_def)

lemma located_node_map [simp]: "located (node_map a f t) i v = located t i v"
  by (simp add: located_def)

lemma map_upd_ex: "(\<exists>k' w. (m(k \<mapsto> x)) k' = Some w \<and> P w) \<longleftrightarrow> P x \<or> (\<exists>k' w. k' \<noteq> k \<and> m k' = Some w \<and> P w)"
  by (metis fun_upd_apply option.inject)

lemma located_processVolume:
  assumes "j \<noteq> []"
  shows "located (processVolume (a, j) vi t) i v \<longleftrightarrow> located t i v \<or> v = vi_Id vi \<and> i = j \<and> v \<noteq> 0"
proof -
  define r where "r = ReplicaPlacement_String (ParseReplicaPlacement (ucast (vi_ReplicaPlacement vi)))"
  define k where "k = makeKey (vi_Collection vi) r (vi_Ttl vi) (vi_DiskType vi)"
  define vl where "vl = GetOrCreateLayout (vi_Collection vi) r (vi_Ttl vi) (vi_DiskType vi) (tp_layouts t)"
  let ?l = "\<lparr>vloc_DataNode = Some (a, j), vloc_VolumeId = vi_Id vi, vloc_isReadOnly = vi_ReadOnly vi\<rparr>"
  have ly: "tp_layouts (processVolume (a, j) vi t) = (tp_layouts t)(k \<mapsto> AddVolumeLayout ?l vl)"
    by (simp add: processVolume_def r_def k_def vl_def Let_def)
  have old: "layout_has vl i v \<longleftrightarrow> (case tp_layouts t k of None \<Rightarrow> False | Some w \<Rightarrow> layout_has w i v)" for i v
    by (auto simp: vl_def GetOrCreateLayout_def k_def split: option.splits)
  have "layout_has (AddVolumeLayout ?l vl) i v \<longleftrightarrow> layout_has vl i v \<or> v = vi_Id vi \<and> i = j \<and> v \<noteq> 0"
    using layout_has_add [OF assms, of ?l a vl i v] by simp
  moreover have "located (processVolume (a, j) vi t) i v \<longleftrightarrow> layout_has (AddVolumeLayout ?l vl) i v \<or>
      (\<exists>k' w. k' \<noteq> k \<and> tp_layouts t k' = Some w \<and> layout_has w i v)"
    unfolding located_def ly map_upd_ex ..
  moreover have "located t i v \<longleftrightarrow> layout_has vl i v \<or> (\<exists>k' w. k' \<noteq> k \<and> tp_layouts t k' = Some w \<and> layout_has w i v)"
    unfolding located_def old by (cases "tp_layouts t k") (simp, metis option.distinct(1), simp, metis option.inject)
  ultimately show ?thesis by blast
qed

lemma located_removeVolume: "located (removeVolume (a, j) vid t) i v \<longleftrightarrow> located t i v \<and> \<not> (v = vid \<and> i = j)"
proof -
  have "tp_layouts (removeVolume (a, j) vid t) k = map_option (RemoveDataNodeLocation vid j) (tp_layouts t k)" for k
    by (simp add: removeVolume_def RemoveVolumeFromDataNode_def)
  then have "located (removeVolume (a, j) vid t) i v \<longleftrightarrow>
      (\<exists>k vl. tp_layouts t k = Some vl \<and> layout_has (RemoveDataNodeLocation vid j vl) i v)"
    unfolding located_def by auto
  then show ?thesis unfolding layout_has_remove located_def by blast
qed

lemma located_fold_process:
  assumes "j \<noteq> []"
  shows "located (fold (processVolume (a, j)) vis t) i v \<longleftrightarrow> located t i v \<or> i = j \<and> v \<in> vi_Id ` set vis \<and> v \<noteq> 0"
  by (induction vis arbitrary: t) (auto simp: located_processVolume [OF assms])

lemma located_fold_remove:
  "located (fold (removeVolume (a, j)) vs t) i v \<longleftrightarrow> located t i v \<and> \<not> (i = j \<and> v \<in> set vs)"
  by (induction vs arbitrary: t) (auto simp: located_removeVolume)

section \<open>Volumes recorded on a node\<close>

definition node_at :: "Topology \<Rightarrow> string \<times> string \<Rightarrow> string \<Rightarrow> nat option" where
  "node_at t p i = Option.bind (tp_dcs t (fst p)) (\<lambda>dc. Option.bind (dc_racks dc (snd p)) (\<lambda>r. rk_nodes r i))"

lemma dn_volumes_AddOrUpdate [simp]: "dn_volumes (AddOrUpdateVolume vi dn) = (dn_volumes dn)(vi_Id vi \<mapsto> vi)"
  by (simp add: AddOrUpdateVolume_def add_to_disk_def Let_def split: option.splits)

lemma dn_volumes_Delete [simp]: "dn_volumes (DeleteVolume v dn) = (dn_volumes dn)(v := None)"
  by (auto simp: DeleteVolume_def split: option.splits)

lemma dn_volumes_limits [simp]: "dn_volumes (UpdateMaxVolumeCounts mcs dn) = dn_volumes dn"
  unfolding UpdateMaxVolumeCounts_def by (induction mcs arbitrary: dn) simp_all

lemma dn_volumes_heartbeat [simp]: "dn_volumes (UpdateFromHeartbeat hb dn) = dn_volumes dn"
  by (simp add: UpdateFromHeartbeat_def Let_def)

lemma dn_id_ops [simp]:
  "dn_id (set_disk dt di dn) = dn_id dn" "dn_id (update_disk dt f dn) = dn_id dn" "dn_id (AddOrUpdateVolume vi dn) = dn_id dn"
  "dn_id (DeleteVolume v dn) = dn_id dn" "dn_id (UpdateMaxVolumeCounts mcs dn) = dn_id dn" "dn_id (UpdateFromHeartbeat hb dn) = dn_id dn"
proof -
  show s: "dn_id (set_disk dt di dn) = dn_id dn" for dt di dn by (simp add: set_disk_def)
  then show u: "dn_id (update_disk dt f dn) = dn_id dn" for dt f dn by (simp add: update_disk_def split: option.splits)
  show "dn_id (AddOrUpdateVolume vi dn) = dn_id dn" by (simp add: AddOrUpdateVolume_def add_to_disk_def s u Let_def split: option.splits)
  show "dn_id (DeleteVolume v dn) = dn_id dn" by (simp add: DeleteVolume_def u split: option.splits)
  show m: "dn_id (UpdateMaxVolumeCounts mcs dn) = dn_id dn" for mcs dn
    unfolding UpdateMaxVolumeCounts_def by (induction mcs arbitrary: dn) (simp_all add: s)
  show "dn_id (UpdateFromHeartbeat hb dn) = dn_id dn" using m by (simp add: UpdateFromHeartbeat_def Let_def)
qed

text \<open>A node in the heap: its id and the volumes recorded on it.\<close>

definition node_is :: "Topology \<Rightarrow> nat \<Rightarrow> string \<Rightarrow> u32 set \<Rightarrow> bool" where
  "node_is t a i V \<longleftrightarrow> (\<exists>dn. tp_heap t a = Some dn \<and> dn_id dn = i \<and> dom (dn_volumes dn) = V)"

lemma node_is_map_other: "a \<noteq> b \<Longrightarrow> node_is (node_map b f t) a i V = node_is t a i V"
  by (simp add: node_is_def node_map_def split: option.splits)

lemma heap_layouts [simp]:
  "node_is (t\<lparr>tp_layouts := l\<rparr>) a i V = node_is t a i V" "node_is (setMaxVolumeId v t) a i V = node_is t a i V"
  by (simp_all add: node_is_def)

lemma node_is_process:
  "node_is t a i V \<Longrightarrow> node_is (processVolume (a, j) vi t) a i (insert (vi_Id vi) V)"
  "b \<noteq> a \<Longrightarrow> node_is (processVolume (a, j) vi t) b i V = node_is t b i V"
  by (auto simp: processVolume_def Let_def node_is_map_other) (auto simp: node_is_def node_map_def)

lemma node_is_remove:
  "node_is t a i V \<Longrightarrow> node_is (removeVolume (a, j) v t) a i (V - {v})"
  "b \<noteq> a \<Longrightarrow> node_is (removeVolume (a, j) v t) b i V = node_is t b i V"
  by (auto simp: removeVolume_def node_is_map_other) (auto simp: node_is_def node_map_def)

lemma node_is_folds:
  "node_is t a i V \<Longrightarrow> node_is (fold (processVolume (a, j)) vis t) a i (V \<union> vi_Id ` set vis)"
  "node_is t a i V \<Longrightarrow> node_is (fold (removeVolume (a, j)) vs t) a i (V - set vs)"
  "b \<noteq> a \<Longrightarrow> node_is (fold (processVolume (a, j)) vis t) b i V = node_is t b i V"
  "b \<noteq> a \<Longrightarrow> node_is (fold (removeVolume (a, j)) vs t) b i V = node_is t b i V"
proof -
  show "node_is t a i V \<Longrightarrow> node_is (fold (processVolume (a, j)) vis t) a i (V \<union> vi_Id ` set vis)"
  proof (induction vis arbitrary: t V)
    case (Cons vi vis)
    have "node_is (fold (processVolume (a, j)) vis (processVolume (a, j) vi t)) a i (insert (vi_Id vi) V \<union> vi_Id ` set vis)"
      by (rule Cons.IH [OF node_is_process(1) [OF Cons.prems]])
    then show ?case by simp
  qed simp
  show "node_is t a i V \<Longrightarrow> node_is (fold (removeVolume (a, j)) vs t) a i (V - set vs)"
  proof (induction vs arbitrary: t V)
    case (Cons v vs)
    have "node_is (fold (removeVolume (a, j)) vs (removeVolume (a, j) v t)) a i (V - {v} - set vs)"
      by (rule Cons.IH [OF node_is_remove(1) [OF Cons.prems]])
    moreover have "V - {v} - set vs = V - set (v # vs)" by auto
    ultimately show ?case by simp
  qed simp
  show "b \<noteq> a \<Longrightarrow> node_is (fold (processVolume (a, j)) vis t) b i V = node_is t b i V"
    by (induction vis arbitrary: t) (simp_all add: node_is_process(2))
  show "b \<noteq> a \<Longrightarrow> node_is (fold (removeVolume (a, j)) vs t) b i V = node_is t b i V"
    by (induction vs arbitrary: t) (simp_all add: node_is_remove(2))
qed

lemma tree_folds [simp]:
  "tp_dcs (processVolume n vi t) = tp_dcs t" "tp_dcs (removeVolume n v t) = tp_dcs t"
  "tp_free (processVolume n vi t) = tp_free t" "tp_free (removeVolume n v t) = tp_free t"
  "tp_dcs (fold (processVolume n) vis t) = tp_dcs t" "tp_dcs (fold (removeVolume n) vs t) = tp_dcs t"
  "tp_free (fold (processVolume n) vis t) = tp_free t" "tp_free (fold (removeVolume n) vs t) = tp_free t"
proof -
  show p: "tp_dcs (processVolume n vi t) = tp_dcs t" "tp_free (processVolume n vi t) = tp_free t" for vi t
    by (simp_all add: processVolume_def Let_def)
  show r: "tp_dcs (removeVolume n v t) = tp_dcs t" "tp_free (removeVolume n v t) = tp_free t" for v t
    by (simp_all add: removeVolume_def)
  show "tp_dcs (fold (processVolume n) vis t) = tp_dcs t" "tp_free (fold (processVolume n) vis t) = tp_free t"
    by (induction vis arbitrary: t) (simp_all add: p)
  show "tp_dcs (fold (removeVolume n) vs t) = tp_dcs t" "tp_free (fold (removeVolume n) vs t) = tp_free t"
    by (induction vs arbitrary: t) (simp_all add: r)
qed

text \<open>Finding or creating the node of a heartbeat.\<close>

lemma findOrCreate_found:
  assumes "node_at t (d, r) i = Some a"
  shows "findOrCreateDataNode now d r i t = (a, t)"
  using assms by (auto simp: node_at_def findOrCreateDataNode_def bind_eq_Some_conv)

lemma findOrCreate_new:
  assumes "node_at t (d, r) i = None"
  obtains t1 where "findOrCreateDataNode now d r i t = (tp_free t, t1)" "tp_layouts t1 = tp_layouts t" "tp_free t1 = tp_free t + 1"
    "node_at t1 (d, r) i = Some (tp_free t)" "\<And>p j. (p, j) \<noteq> ((d, r), i) \<Longrightarrow> node_at t1 p j = node_at t p j"
    "node_is t1 (tp_free t) i {}" "\<And>b j V. b \<noteq> tp_free t \<Longrightarrow> node_is t1 b j V = node_is t b j V"
proof -
  define D where "D = (case tp_dcs t d of Some d \<Rightarrow> d | None \<Rightarrow> \<lparr>dc_lastSeen = now, dc_racks = (\<lambda>_. None)\<rparr>)"
  define R where "R = (case dc_racks D r of Some r \<Rightarrow> r | None \<Rightarrow> \<lparr>rk_lastSeen = now, rk_nodes = (\<lambda>_. None)\<rparr>)"
  have at: "node_at t (d, r) j = rk_nodes R j" for j
    by (auto simp: node_at_def D_def R_def split: option.splits)
  have atd: "node_at t (d, r') j = Option.bind (dc_racks D r') (\<lambda>r. rk_nodes r j)" for r' j
    by (auto simp: node_at_def D_def split: option.splits)
  define t1 where "t1 = t\<lparr>tp_heap := (tp_heap t)(tp_free t \<mapsto> NewDataNode now d r i), tp_free := tp_free t + 1,
      tp_dcs := (tp_dcs t)(d \<mapsto> D\<lparr>dc_racks := (dc_racks D)(r \<mapsto> R\<lparr>rk_nodes := (rk_nodes R)(i \<mapsto> tp_free t)\<rparr>)\<rparr>)\<rparr>"
  have "rk_nodes R i = None" using assms at by simp
  then have "findOrCreateDataNode now d r i t = (tp_free t, t1)"
    by (simp add: findOrCreateDataNode_def D_def [symmetric] R_def [symmetric] t1_def Let_def)
  moreover have "tp_layouts t1 = tp_layouts t" "tp_free t1 = tp_free t + 1" "node_at t1 (d, r) i = Some (tp_free t)"
    "node_is t1 (tp_free t) i {}"
    by (simp_all add: t1_def node_at_def NewDataNode_def node_is_def)
  moreover have "node_at t1 p j = node_at t p j" if "(p, j) \<noteq> ((d, r), i)" for p j
  proof (cases p)
    case (Pair d' r')
    show ?thesis
    proof (cases "d' = d")
      case False then show ?thesis using Pair by (simp add: node_at_def t1_def)
    next
      case True
      then show ?thesis using Pair that atd [of r' j] at [of j] by (cases "r' = r") (simp_all add: node_at_def t1_def)
    qed
  qed
  moreover have "node_is t1 b j V = node_is t b j V" if "b \<noteq> tp_free t" for b j V
    using that by (simp add: t1_def node_is_def)
  ultimately show thesis using that by blast
qed

section \<open>Heartbeats\<close>

definition known_volumes :: "Topology \<Rightarrow> Heartbeat \<Rightarrow> u32 set" where
  "known_volumes t hb =
     (case node_at t (hb_DataCenter hb, hb_Rack hb) (NodeIDFromHeartbeat hb) of
        None \<Rightarrow> {} | Some a \<Rightarrow> (case tp_heap t a of None \<Rightarrow> {} | Some dn \<Rightarrow> dom (dn_volumes dn)))"

definition reported :: "Heartbeat \<Rightarrow> u32 set" where
  "reported hb = vi_Id ` set (hb_Volumes hb) - set (hb_DeletedVids hb)"

lemma NodeID_nonempty [simp]: "NodeIDFromHeartbeat hb \<noteq> []"
  by (simp add: NodeIDFromHeartbeat_def)

lemma node_is_node_map:
  assumes "node_is t a i V" "\<And>dn. dn_id (f dn) = dn_id dn" "\<And>dn. dn_volumes (f dn) = dn_volumes dn"
  shows "node_is (node_map a f t) a i V"
  using assms by (auto simp: node_is_def node_map_def)

lemma beat_on_node:
  assumes found: "findOrCreateDataNode now (hb_DataCenter hb) (hb_Rack hb) j t = (a, t1)" and j: "j = NodeIDFromHeartbeat hb"
    and n: "node_is t1 a j (set known)" and t': "t' = ProcessJoinMessage now known hb t"
  shows "tp_dcs t' = tp_dcs t1" "tp_free t' = tp_free t1" "node_is t' a j (reported hb)"
    "\<And>b i V. b \<noteq> a \<Longrightarrow> node_is t' b i V = node_is t1 b i V"
    "\<And>i v. located t' i v \<longleftrightarrow> located t1 i v \<and> \<not> (i = j \<and> v \<notin> reported hb \<and> v \<in> set known \<union> set (hb_DeletedVids hb)) \<or>
       i = j \<and> v \<in> reported hb \<and> v \<noteq> 0"
proof -
  define beat where "beat = (\<lambda>dn. (UpdateFromHeartbeat hb dn)\<lparr>dn_lastSeen := now\<rparr>)"
  define t2 where "t2 = node_map a beat t1"
  define t3 where "t3 = fold (processVolume (a, j)) (hb_Volumes hb) t2"
  define t4 where "t4 = fold (removeVolume (a, j)) (hb_DeletedVids hb) t3"
  define stale where "stale = filter (\<lambda>v. v \<notin> vi_Id ` set (hb_Volumes hb) \<and> v \<notin> set (hb_DeletedVids hb)) known"
  define t5 where "t5 = fold (removeVolume (a, j)) stale t4"
  have e: "t' = node_map a (UpdateMaxVolumeCounts (hb_MaxVolumeCounts hb)) t5"
    using found j by (simp add: t' ProcessJoinMessage_def t2_def t3_def t4_def t5_def stale_def beat_def Let_def)
  show "tp_dcs t' = tp_dcs t1" "tp_free t' = tp_free t1" by (simp_all add: e t5_def t4_def t3_def t2_def)
  have "node_is t2 a j (set known)" unfolding t2_def by (rule node_is_node_map [OF n]) (simp_all add: beat_def)
  then have "node_is t3 a j (set known \<union> vi_Id ` set (hb_Volumes hb))" unfolding t3_def by (rule node_is_folds(1))
  then have "node_is t4 a j (set known \<union> vi_Id ` set (hb_Volumes hb) - set (hb_DeletedVids hb))" unfolding t4_def by (rule node_is_folds(2))
  then have "node_is t5 a j (set known \<union> vi_Id ` set (hb_Volumes hb) - set (hb_DeletedVids hb) - set stale)" unfolding t5_def by (rule node_is_folds(2))
  moreover have "set known \<union> vi_Id ` set (hb_Volumes hb) - set (hb_DeletedVids hb) - set stale = reported hb"
    by (auto simp: stale_def reported_def)
  ultimately show "node_is t' a j (reported hb)" unfolding e by (intro node_is_node_map) simp_all
  show "node_is t' b i V = node_is t1 b i V" if "b \<noteq> a" for b i V
    using that by (simp add: e t5_def t4_def t3_def t2_def node_is_map_other node_is_folds(3,4))
  have nonempty: "j \<noteq> []" using j by simp
  show "located t' i v \<longleftrightarrow> located t1 i v \<and> \<not> (i = j \<and> v \<notin> reported hb \<and> v \<in> set known \<union> set (hb_DeletedVids hb)) \<or>
       i = j \<and> v \<in> reported hb \<and> v \<noteq> 0" for i v
    by (auto simp: e t5_def t4_def t3_def t2_def stale_def reported_def located_fold_remove located_fold_process [OF nonempty])
qed

text \<open>Heartbeats in any order from any servers, each of which stays in its rack. \<open>view\<close> is what the last
  heartbeat of every server reported.\<close>

inductive hb_run :: "(string \<Rightarrow> string \<times> string) \<Rightarrow> Topology \<Rightarrow> (string \<Rightarrow> u32 set) \<Rightarrow> bool" for place where
  start: "hb_run place NewTopology (\<lambda>_. {})"
| beat: "\<lbrakk>hb_run place t view; place (NodeIDFromHeartbeat hb) = (hb_DataCenter hb, hb_Rack hb); set known = known_volumes t hb\<rbrakk>
    \<Longrightarrow> hb_run place (ProcessJoinMessage now known hb t) (view(NodeIDFromHeartbeat hb := reported hb))"

definition view_ok :: "(string \<Rightarrow> string \<times> string) \<Rightarrow> Topology \<Rightarrow> (string \<Rightarrow> u32 set) \<Rightarrow> bool" where
  "view_ok place t view \<longleftrightarrow>
     (\<forall>i v. located t i v \<longleftrightarrow> v \<in> view i \<and> v \<noteq> 0) \<and>
     (\<forall>i. node_at t (place i) i = None \<longrightarrow> view i = {}) \<and>
     (\<forall>i a. node_at t (place i) i = Some a \<longrightarrow> a < tp_free t \<and> node_is t a i (view i))"

lemma node_is_unique: "node_is t a i V \<Longrightarrow> node_is t a j W \<Longrightarrow> i = j \<and> V = W"
  by (auto simp: node_is_def)

lemma find_node:
  assumes ok: "view_ok place t view" and pl: "place (NodeIDFromHeartbeat hb) = (hb_DataCenter hb, hb_Rack hb)"
    and kn: "set known = known_volumes t hb" and j: "j = NodeIDFromHeartbeat hb"
  shows "\<exists>a t1. findOrCreateDataNode now (hb_DataCenter hb) (hb_Rack hb) j t = (a, t1) \<and> tp_layouts t1 = tp_layouts t \<and>
     node_is t1 a j (set known) \<and> node_at t1 (hb_DataCenter hb, hb_Rack hb) j = Some a \<and> a < tp_free t1 \<and> tp_free t \<le> tp_free t1 \<and>
     set known = view j \<and> (\<forall>i. i \<noteq> j \<longrightarrow> node_at t1 (place i) i = node_at t (place i) i) \<and>
     (\<forall>b i V. node_is t b i V \<longrightarrow> b < tp_free t \<longrightarrow> i \<noteq> j \<longrightarrow> b \<noteq> a \<and> node_is t1 b i V)"
proof (cases "node_at t (hb_DataCenter hb, hb_Rack hb) j")
  case (Some a)
  then have "node_at t (place j) j = Some a" by (simp add: pl j)
  then have a: "node_is t a j (view j)" "a < tp_free t" using ok unfolding view_ok_def by blast+
  have k: "set known = view j" using kn Some a(1) by (auto simp: known_volumes_def j node_is_def)
  have "b \<noteq> a" if "node_is t b i V" "i \<noteq> j" for b i V using that a(1) node_is_unique by blast
  then show ?thesis
    using findOrCreate_found [OF Some, of now] Some a k by (intro exI [of _ a] exI [of _ t]) auto
next
  case None
  then have "node_at t (place j) j = None" by (simp add: pl j)
  then have v: "view j = {}" using ok unfolding view_ok_def by blast
  have k: "set known = view j" using kn None v by (simp add: known_volumes_def j)
  from findOrCreate_new [OF None, of now] obtain t1 where t1:
    "findOrCreateDataNode now (hb_DataCenter hb) (hb_Rack hb) j t = (tp_free t, t1)" "tp_layouts t1 = tp_layouts t" "tp_free t1 = tp_free t + 1"
    "node_at t1 (hb_DataCenter hb, hb_Rack hb) j = Some (tp_free t)"
    "\<And>p i. (p, i) \<noteq> ((hb_DataCenter hb, hb_Rack hb), j) \<Longrightarrow> node_at t1 p i = node_at t p i"
    "node_is t1 (tp_free t) j {}" "\<And>b i V. b \<noteq> tp_free t \<Longrightarrow> node_is t1 b i V = node_is t b i V" by blast
  then show ?thesis using k v by (intro exI [of _ "tp_free t"] exI [of _ t1]) auto
qed

lemma view_ok_beat:
  assumes ok: "view_ok place t view" and pl: "place (NodeIDFromHeartbeat hb) = (hb_DataCenter hb, hb_Rack hb)"
    and kn: "set known = known_volumes t hb"
  shows "view_ok place (ProcessJoinMessage now known hb t) (view(NodeIDFromHeartbeat hb := reported hb))"
proof -
  define j where "j = NodeIDFromHeartbeat hb"
  define t' where "t' = ProcessJoinMessage now known hb t"
  let ?p = "(hb_DataCenter hb, hb_Rack hb)"
  from find_node [OF ok pl kn j_def, of now] obtain a t1 where
    f: "findOrCreateDataNode now (hb_DataCenter hb) (hb_Rack hb) j t = (a, t1)" "tp_layouts t1 = tp_layouts t"
    and n1: "node_is t1 a j (set known)" "node_at t1 ?p j = Some a" "a < tp_free t1" "tp_free t \<le> tp_free t1" "set known = view j"
    and o1: "\<forall>i. i \<noteq> j \<longrightarrow> node_at t1 (place i) i = node_at t (place i) i"
      "\<forall>b i V. node_is t b i V \<longrightarrow> b < tp_free t \<longrightarrow> i \<noteq> j \<longrightarrow> b \<noteq> a \<and> node_is t1 b i V"
    by (elim exE conjE)
  note b = beat_on_node [OF f(1) j_def n1(1) t'_def]
  show ?thesis unfolding t'_def [symmetric] j_def [symmetric] view_ok_def
  proof (intro conjI allI impI)
    fix i v
    have "located t1 i v \<longleftrightarrow> v \<in> view i \<and> v \<noteq> 0" using ok f(2) by (simp add: view_ok_def located_def)
    then show "located t' i v \<longleftrightarrow> v \<in> (view(j := reported hb)) i \<and> v \<noteq> 0"
      using b(5) [of i v] n1(5) by (cases "i = j") auto
  next
    fix i assume "node_at t' (place i) i = None"
    then have "node_at t1 (place i) i = None" using b(1) by (simp add: node_at_def)
    moreover have "i \<noteq> j" using calculation n1(2) pl by (auto simp: j_def)
    ultimately have "node_at t (place i) i = None" using o1(1) by simp
    then show "(view(j := reported hb)) i = {}" using ok \<open>i \<noteq> j\<close> unfolding view_ok_def by simp
  next
    fix i c assume "node_at t' (place i) i = Some c"
    then have c: "node_at t1 (place i) i = Some c" using b(1) by (simp add: node_at_def)
    have "c < tp_free t' \<and> node_is t' c i ((view(j := reported hb)) i)"
    proof (cases "i = j")
      case True
      then have "c = a" using c n1(2) pl by (simp add: j_def)
      then show ?thesis using True b(2,3) n1(3) by simp
    next
      case False
      then have "node_at t (place i) i = Some c" using c o1(1) by simp
      then have c: "c < tp_free t" "node_is t c i (view i)" using ok unfolding view_ok_def by blast+
      then have "c \<noteq> a" "node_is t1 c i (view i)" using o1(2) False by blast+
      then show ?thesis using False b(2,4) n1(4) c(1) by simp
    qed
    then show "c < tp_free t'" "node_is t' c i ((view(j := reported hb)) i)" by blast+
  qed
qed

lemma hb_run_view_ok: "hb_run place t view \<Longrightarrow> view_ok place t view"
proof (induction rule: hb_run.induct)
  case start
  then show ?case by (simp add: view_ok_def located_def NewTopology_def node_at_def)
next
  case (beat t view hb known now)
  then show ?case by (intro view_ok_beat)
qed


definition sample_hb :: "u32 list \<Rightarrow> Heartbeat" where
  "sample_hb vs = \<lparr>hb_Ip = ''h'', hb_Port = 80, hb_PublicUrl = [], hb_GrpcPort = 0, hb_DataCenter = ''d'', hb_Rack = ''r'',
     hb_Volumes = map (\<lambda>v. \<lparr>vi_Id = v, vi_Collection = [], vi_ReplicaPlacement = 0, vi_Ttl = [], vi_DiskType = [], vi_ReadOnly = False\<rparr>) vs,
     hb_DeletedVids = [], hb_MaxVolumeCounts = []\<rparr>"


section \<open>Volume ids\<close>

text \<open>Allocations, heartbeats and replicated maxima, in any order; \<open>seen\<close> are the ids allocated, reported
  or replicated so far. The callback of an allocation may set maxima itself. The last id of 32 bits
  is not used.\<close>

inductive vid_run :: "Topology \<Rightarrow> u32 set \<Rightarrow> bool" where
  start: "vid_run NewTopology {}"
| allocate: "\<lbrakk>vid_run t seen; AllocateNextVolumeId (\<lambda>v t. (ok, fold setMaxVolumeId (ms v) t)) t = (r, t');
     tp_nextVolumeId t \<noteq> - 1; \<forall>v. - 1 \<notin> set (ms v)\<rbrakk> \<Longrightarrow> vid_run t' (insert (fst (NextVolumeId t)) (seen \<union> set (ms (fst (NextVolumeId t)))))"
| replicate: "\<lbrakk>vid_run t seen; v \<noteq> - 1\<rbrakk> \<Longrightarrow> vid_run (setMaxVolumeId v t) (insert v seen)"
| report: "\<lbrakk>vid_run t seen; - 1 \<notin> vi_Id ` set (hb_Volumes hb)\<rbrakk> \<Longrightarrow>
     vid_run (ProcessJoinMessage now known hb t) (seen \<union> vi_Id ` set (hb_Volumes hb))"

definition ids_below :: "Topology \<Rightarrow> u32 set \<Rightarrow> bool" where
  "ids_below t seen \<longleftrightarrow> tp_nextVolumeId t \<noteq> 0 \<and> (\<forall>v \<in> seen. v < tp_nextVolumeId t)"

lemma word32_succ: "(v :: u32) \<noteq> - 1 \<Longrightarrow> unat (v + 1) = unat v + 1"
  by (metis add.commute add_eq_0_iff add_left_imp_eq one_neq_zero unatSuc plus_1_eq_Suc add_cancel_right_left)

lemma ids_below_setMax:
  assumes "ids_below t seen" "v \<noteq> - 1"
  shows "ids_below (setMaxVolumeId v t) (insert v seen)"
  using assms word32_succ [of v] unfolding ids_below_def setMaxVolumeId_def
  by (auto simp: word_less_nat_alt word_le_nat_alt word_unat_eq_iff [of _ 0] intro: less_trans)

lemma ids_below_fold:
  "ids_below t seen \<Longrightarrow> - 1 \<notin> set vs \<Longrightarrow> ids_below (fold setMaxVolumeId vs t) (seen \<union> set vs)"
proof (induction vs arbitrary: t seen)
  case (Cons v vs)
  have "ids_below (fold setMaxVolumeId vs (setMaxVolumeId v t)) (insert v seen \<union> set vs)"
    by (rule Cons.IH [OF ids_below_setMax]) (use Cons.prems in auto)
  then show ?case by simp
qed simp

lemma ids_below_next:
  assumes "ids_below t seen" "tp_nextVolumeId t \<noteq> - 1" "NextVolumeId t = (v, t')"
  shows "v \<notin> seen" "ids_below t' (insert v seen)"
  using assms word32_succ [of v] unfolding ids_below_def NextVolumeId_def
  by (auto simp: word_less_nat_alt word_unat_eq_iff [of _ 0] Let_def intro: less_SucI)

lemma ids_below_cong: "tp_nextVolumeId t' = tp_nextVolumeId t \<Longrightarrow> ids_below t' seen = ids_below t seen"
  by (simp add: ids_below_def)

lemma next_removeVolume: "tp_nextVolumeId (fold (removeVolume n) vs t) = tp_nextVolumeId t"
  by (induction vs arbitrary: t) (simp_all add: removeVolume_def)

lemma next_findOrCreate: "findOrCreateDataNode now d r i t = (a, t1) \<Longrightarrow> tp_nextVolumeId t1 = tp_nextVolumeId t"
  by (auto simp: findOrCreateDataNode_def Let_def split: option.splits)

lemma ids_below_process:
  "ids_below t seen \<Longrightarrow> - 1 \<notin> vi_Id ` set vis \<Longrightarrow> ids_below (fold (processVolume n) vis t) (seen \<union> vi_Id ` set vis)"
proof (induction vis arbitrary: t seen)
  case (Cons vi vis)
  have "ids_below (processVolume n vi t) (insert (vi_Id vi) seen)"
    unfolding processVolume_def Let_def
    by (rule ids_below_setMax) (use Cons.prems in \<open>auto simp: ids_below_def\<close>)
  then have "ids_below (fold (processVolume n) vis (processVolume n vi t)) (insert (vi_Id vi) seen \<union> vi_Id ` set vis)"
    by (rule Cons.IH) (use Cons.prems in auto)
  then show ?case by simp
qed simp

lemma ids_below_beat:
  assumes "ids_below t seen" "- 1 \<notin> vi_Id ` set (hb_Volumes hb)"
  shows "ids_below (ProcessJoinMessage now known hb t) (seen \<union> vi_Id ` set (hb_Volumes hb))"
proof -
  obtain a t1 where f: "findOrCreateDataNode now (hb_DataCenter hb) (hb_Rack hb) (NodeIDFromHeartbeat hb) t = (a, t1)" by fastforce
  let ?t2 = "node_map a (\<lambda>dn. (UpdateFromHeartbeat hb dn)\<lparr>dn_lastSeen := now\<rparr>) t1"
  have "ids_below ?t2 seen" using assms(1) next_findOrCreate [OF f] by (simp add: ids_below_def)
  then have "ids_below (fold (processVolume (a, NodeIDFromHeartbeat hb)) (hb_Volumes hb) ?t2) (seen \<union> vi_Id ` set (hb_Volumes hb))"
    using assms(2) by (rule ids_below_process)
  then show ?thesis
    by (subst ids_below_cong) (simp_all add: ProcessJoinMessage_def f Let_def next_removeVolume)
qed

text \<open>C33: volume ids are never reused. Whatever is allocated, reported by servers and replicated, in any
  order, and whatever the callback of an allocation does, the id the next allocation returns was
  neither allocated nor reported nor replicated before, as long as the last id of 32 bits is not.\<close>

theorem volume_ids_fresh:
  assumes "vid_run t seen" "tp_nextVolumeId t \<noteq> - 1" "AllocateNextVolumeId persist t = (Some v, t')"
  shows "v \<notin> seen"
proof -
  have "ids_below t seen" using assms(1)
  proof induction
    case start
    then show ?case by (simp add: ids_below_def NewTopology_def)
  next
    case (allocate t seen ok ms r t')
    obtain v t1 where n: "NextVolumeId t = (v, t1)" by fastforce
    have "t' = fold setMaxVolumeId (ms v) t1" using allocate(2) n by (simp add: AllocateNextVolumeId_def)
    moreover have "ids_below t1 (insert v seen)" using ids_below_next(2) [OF _ allocate(3) n] allocate by simp
    ultimately show ?case using ids_below_fold [of t1 "insert v seen" "ms v"] allocate(4) n by simp
  qed (auto intro: ids_below_setMax ids_below_beat)
  moreover have "fst (NextVolumeId t) = v" using assms(3) by (auto simp: AllocateNextVolumeId_def split: prod.splits if_splits)
  ultimately show ?thesis using ids_below_next(1) [OF _ assms(2)] by (metis prod.collapse)
qed

theorem volume_ids_fresh_witness:
  "\<exists>t seen t'. vid_run t seen \<and> 3 \<in> seen \<and> 7 \<in> seen \<and> AllocateNextVolumeId (\<lambda>_ t. (True, t)) t = (Some 8, t') \<and> 8 \<notin> seen"
proof -
  let ?t = "setMaxVolumeId 3 (setMaxVolumeId 7 NewTopology)"
  have run: "vid_run ?t (insert 3 (insert 7 {}))" by (intro vid_run.replicate vid_run.start) simp_all
  have n: "tp_nextVolumeId ?t = 8" by (simp add: setMaxVolumeId_def NewTopology_def)
  obtain t' where a: "AllocateNextVolumeId (\<lambda>_ t. (True, t)) ?t = (Some 8, t')"
    by (simp add: AllocateNextVolumeId_def NextVolumeId_def n Let_def)
  show ?thesis using volume_ids_fresh [OF run _ a] run a n by (intro exI [of _ ?t]) auto
qed

text \<open>When a server reports the last id, the counter wraps and allocation starts over at 1.\<close>

lemma last_id_restarts: "fst (NextVolumeId (setMaxVolumeId (- 1) t)) = 1"
  by (simp add: setMaxVolumeId_def NextVolumeId_def Let_def)

section \<open>Differences from the comments\<close>

text \<open>Lookup is said to return all replica locations. When one replica is writable and another is read
  only, it returns the writable one.\<close>

lemma lookup_omits_readonly:
  "let l1 = \<lparr>vloc_DataNode = Some (0, ''a''), vloc_VolumeId = 3, vloc_isReadOnly = False\<rparr>;
       l2 = \<lparr>vloc_DataNode = Some (1, ''b''), vloc_VolumeId = 3, vloc_isReadOnly = True\<rparr>;
       vl = AddVolumeLayout l2 (AddVolumeLayout l1 (NewVolumeLayout [] ''001'' [] []))
   in layout_has vl ''b'' 3 \<and> layout_LookupVolume vl 3 = Some [l1]"
  by (simp add: AddVolumeLayout_def NewVolumeLayout_def upsertLocation_def removeLocationFromMap_def set_or_delete_def sameDataNode_def
      layout_LookupVolume_def layout_has_def has_loc_def on_node_def Let_def)

text \<open>Layouts of different parameters can share a key.\<close>

lemma makeKey_collision: "makeKey ''a:b'' ''c'' t d = makeKey ''a'' ''b:c'' t d"
  by (simp add: makeKey_def)

text \<open>Only data nodes have their time refreshed by a heartbeat. The removal of dead nodes therefore
  drops a data center thirty seconds after it first appeared, with the nodes in it that are alive.\<close>

lemma live_node_removed:
  "let t1 = ProcessJoinMessage 0 [] (sample_hb []) NewTopology;
       t2 = ProcessJoinMessage (40 * 10 ^ 9) [] (sample_hb []) t1;
       t3 = SyncDeadNodeRemoval (41 * 10 ^ 9) [] t2;
       i = NodeIDFromHeartbeat (sample_hb [])
   in node_at t2 (''d'', ''r'') i = Some 0 \<and> map_option (\<lambda>dn. IsAlive (41 * 10 ^ 9) (dn_lastSeen dn)) (tp_heap t2 0) = Some True \<and>
      dead_ids (41 * 10 ^ 9) t2 = {} \<and> node_at t3 (''d'', ''r'') i = None"
proof -
  define i where "i = NodeIDFromHeartbeat (sample_hb [])"
  let ?h = "sample_hb []"
  have h: "hb_DataCenter ?h = ''d''" "hb_Rack ?h = ''r''" "hb_Volumes ?h = []" "hb_DeletedVids ?h = []" "hb_MaxVolumeCounts ?h = []"
    by (simp_all add: sample_hb_def)
  show ?thesis unfolding i_def [symmetric]
    by (simp add: ProcessJoinMessage_def findOrCreateDataNode_def NewTopology_def h i_def [symmetric] node_map_def node_at_def
        SyncDeadNodeRemoval_def IsAlive_def alive_for_def dead_ids_def UpdateMaxVolumeCounts_def Let_def)
qed

end
