(* ===== verification/VolumeGrowth.thy ===== *)
theory VolumeGrowth
  imports Complex_Main Topology "HOL-Library.List_Lexorder" "HOL-Library.Char_ord"
begin

text \<open>
  Automatic volume creation (src/goblob/topology/volume_growth.go and the candidates of topology.go):
  the choice of the servers that hold the replicas of a new volume, the reservation of their slots,
  the allocation on each and the rollback. The answers of the volume servers to \<open>AllocateVolume\<close> are the
  argument \<open>rpc\<close>, by address and volume; the answer to \<open>VolumeDelete\<close> is ignored by the code.
  \<open>dts\<close> enumerates the disk types in use and \<open>order\<close> the nodes of the tree.
\<close>

section \<open>Candidates\<close>

record Candidate =
  cd_addr :: nat
  cd_id :: string
  cd_dc :: string
  cd_rack :: string

definition candidate_of :: "nat \<Rightarrow> DataNode \<Rightarrow> Candidate" where
  "candidate_of a dn = \<lparr>cd_addr = a, cd_id = dn_id dn, cd_dc = dn_dc dn, cd_rack = dn_rack dn\<rparr>"

definition AllocateVolumeCandidates :: "string list \<Rightarrow> int \<Rightarrow> nat list \<Rightarrow> string \<Rightarrow> Topology \<Rightarrow> Candidate list" where
  "AllocateVolumeCandidates dts now order dt t =
     sort_key cd_id (List.map_filter (\<lambda>a. case tp_heap t a of
        None \<Rightarrow> None
      | Some dn \<Rightarrow>
          if \<not> IsAlive now (dn_lastSeen dn) \<or> \<not> HasFreeSlot (filter (\<lambda>d. dn_disks dn d \<noteq> None) dts) dt dn then None
          else Some (candidate_of a dn)) order)"

section \<open>Choosing the replicas\<close>

definition used :: "Candidate \<Rightarrow> Candidate list \<Rightarrow> bool" where
  "used n sel \<longleftrightarrow> cd_id n \<in> cd_id ` set sel"

fun pick_other_dc :: "nat \<Rightarrow> string \<Rightarrow> Candidate list \<Rightarrow> Candidate list \<Rightarrow> Candidate list" where
  "pick_other_dc limit pdc [] sel = sel"
| "pick_other_dc limit pdc (n # ns) sel =
     (if length sel \<ge> limit then sel
      else if used n sel then pick_other_dc limit pdc ns sel
      else if cd_dc n = pdc then pick_other_dc limit pdc ns sel
      else pick_other_dc limit pdc ns (sel @ [n]))"

fun pick_other_rack :: "nat \<Rightarrow> string \<Rightarrow> string set \<Rightarrow> Candidate list \<Rightarrow> Candidate list \<Rightarrow> Candidate list" where
  "pick_other_rack target pdc racks [] sel = sel"
| "pick_other_rack target pdc racks (n # ns) sel =
     (if target = 0 then sel
      else if used n sel \<or> cd_dc n \<noteq> pdc then pick_other_rack target pdc racks ns sel
      else if cd_rack n \<in> racks then pick_other_rack target pdc racks ns sel
      else pick_other_rack (target - 1) pdc (insert (cd_rack n) racks) ns (sel @ [n]))"

fun pick_same_rack :: "nat \<Rightarrow> string \<Rightarrow> string \<Rightarrow> Candidate list \<Rightarrow> Candidate list \<Rightarrow> Candidate list" where
  "pick_same_rack target pdc prack [] sel = sel"
| "pick_same_rack target pdc prack (n # ns) sel =
     (if target = 0 then sel
      else if used n sel then pick_same_rack target pdc prack ns sel
      else if cd_dc n = pdc \<and> cd_rack n = prack then pick_same_rack (target - 1) pdc prack ns (sel @ [n])
      else pick_same_rack target pdc prack ns sel)"

fun fill_up :: "nat \<Rightarrow> Candidate list \<Rightarrow> Candidate list \<Rightarrow> Candidate list" where
  "fill_up totalCopies [] sel = sel"
| "fill_up totalCopies (n # ns) sel =
     (if length sel \<ge> totalCopies then sel
      else if used n sel then fill_up totalCopies ns sel
      else fill_up totalCopies ns (sel @ [n]))"

definition selectNodesForReplica :: "ReplicaPlacement \<Rightarrow> Candidate list \<Rightarrow> Candidate list" where
  "selectNodesForReplica rp cands =
     (case cands of
        [] \<Rightarrow> []
      | primary # rest \<Rightarrow>
          let totalCopies = TotalCopies rp;
              sel1 = pick_other_dc (1 + unat (DifferentDataCenterCount rp)) (cd_dc primary) rest [primary];
              racks = insert (cd_rack primary) (cd_rack ` {n \<in> set sel1. cd_dc n = cd_dc primary});
              sel2 = pick_other_rack (unat (DifferentRackCount rp)) (cd_dc primary) racks cands sel1;
              sel3 = pick_same_rack (unat (SameRackCount rp)) (cd_dc primary) (cd_rack primary) cands sel2;
              sel4 = fill_up totalCopies cands sel3
          in take totalCopies sel4)"

section \<open>Reservations\<close>

definition pickReservationDiskType :: "string list \<Rightarrow> DataNode \<Rightarrow> string option" where
  "pickReservationDiskType dts dn =
     List.find (\<lambda>dt. case GetFreeVolumeSlots dn dt of None \<Rightarrow> False | Some free \<Rightarrow> free > 0)
       (sort (filter (\<lambda>d. dn_disks dn d \<noteq> None) dts))"

definition reserveCapacity :: "string list \<Rightarrow> string \<Rightarrow> nat \<Rightarrow> Topology \<Rightarrow> (nat \<times> string) option \<times> Topology" where
  "reserveCapacity dts dt a t =
     (case tp_heap t a of
        None \<Rightarrow> (None, t)
      | Some dn \<Rightarrow>
          (case (if dt = [] then pickReservationDiskType dts dn else Some dt) of
             None \<Rightarrow> (None, t)
           | Some rdt \<Rightarrow>
               (case ReserveSlot rdt dn of
                  (False, _) \<Rightarrow> (None, t)
                | (True, dn1) \<Rightarrow> (Some (a, rdt), t\<lparr>tp_heap := (tp_heap t)(a \<mapsto> dn1)\<rparr>))))"

definition releaseReservation :: "nat \<times> string \<Rightarrow> Topology \<Rightarrow> Topology" where
  "releaseReservation res t = node_map (fst res) (ReleaseSlot (snd res)) t"

fun reserve_all :: "string list \<Rightarrow> string \<Rightarrow> nat list \<Rightarrow> (nat \<times> string) list \<Rightarrow> Topology \<Rightarrow> (nat \<times> string) list option \<times> Topology" where
  "reserve_all dts dt [] acc t = (Some acc, t)"
| "reserve_all dts dt (a # as) acc t =
     (case reserveCapacity dts dt a t of
        (None, t1) \<Rightarrow> (None, fold releaseReservation acc t1)
      | (Some res, t1) \<Rightarrow> reserve_all dts dt as (acc @ [res]) t1)"

section \<open>Allocation\<close>

definition split_last_colon :: "string \<Rightarrow> (string \<times> string) option" where
  "split_last_colon s =
     (if CHR '':'' \<in> set s
      then Some (rev (tl (dropWhile (\<lambda>c. c \<noteq> CHR '':'') (rev s))), rev (takeWhile (\<lambda>c. c \<noteq> CHR '':'') (rev s)))
      else None)"

text \<open>\<open>net.SplitHostPort\<close> and \<open>net.JoinHostPort\<close> of Go's library.\<close>

definition SplitHostPort :: "string \<Rightarrow> (string \<times> string) option" where
  "SplitHostPort s =
     (case split_last_colon s of
        None \<Rightarrow> None
      | Some (before, port) \<Rightarrow>
          if take 1 s = ''[''
          then (let host = takeWhile (\<lambda>c. c \<noteq> CHR '']'') (tl s) in
                if before = ''['' @ host @ '']'' \<and> CHR ''['' \<notin> set (tl s) \<and> CHR '']'' \<notin> set port then Some (host, port) else None)
          else if CHR '':'' \<in> set before \<or> CHR ''['' \<in> set s \<or> CHR '']'' \<in> set s then None
          else Some (before, port))"

definition JoinHostPort :: "string \<Rightarrow> string \<Rightarrow> string" where
  "JoinHostPort host port =
     (if CHR '':'' \<in> set host then ''['' @ host @ '']:'' @ port else host @ '':'' @ port)"

definition grpcAddressForDataNode :: "DataNode \<Rightarrow> string" where
  "grpcAddressForDataNode dn =
     (if dn_ip dn \<noteq> [] \<and> dn_grpcPort dn > 0 then JoinHostPort (dn_ip dn) (format_uint 10 (unat (dn_grpcPort dn)))
      else case SplitHostPort (dn_id dn) of Some (host, p) \<Rightarrow> JoinHostPort host p | None \<Rightarrow> [])"

definition allocateVolumeOnNode ::
  "(string \<Rightarrow> u32 \<Rightarrow> bool) \<Rightarrow> u32 \<Rightarrow> string \<Rightarrow> ReplicaPlacement \<Rightarrow> nat \<times> string \<Rightarrow> Topology \<Rightarrow> bool \<times> Topology" where
  "allocateVolumeOnNode rpc vid collection rp res t =
     (case tp_heap t (fst res) of
        None \<Rightarrow> (False, t)
      | Some dn \<Rightarrow>
          let grpcAddr = grpcAddressForDataNode dn in
          if grpcAddr \<noteq> [] \<and> \<not> rpc grpcAddr vid then (False, t)
          else (True, t\<lparr>tp_heap := (tp_heap t)(fst res \<mapsto> AddOrUpdateVolume \<lparr>vi_Id = vid, vi_Collection = collection,
                  vi_ReplicaPlacement = ucast (ReplicaPlacement_Byte rp), vi_Ttl = [], vi_DiskType = snd res,
                  vi_ReadOnly = False\<rparr> dn)\<rparr>))"

definition deallocateVolumeOnNode :: "u32 \<Rightarrow> nat \<Rightarrow> Topology \<Rightarrow> Topology" where
  "deallocateVolumeOnNode vid a t = node_map a (DeleteVolume vid) t"

fun allocate_all ::
  "(string \<Rightarrow> u32 \<Rightarrow> bool) \<Rightarrow> u32 \<Rightarrow> string \<Rightarrow> ReplicaPlacement \<Rightarrow> (nat \<times> string) list \<Rightarrow> nat list \<Rightarrow> Topology \<Rightarrow> bool \<times> Topology" where
  "allocate_all rpc vid collection rp [] placed t = (True, t)"
| "allocate_all rpc vid collection rp (res # rs) placed t =
     (case allocateVolumeOnNode rpc vid collection rp res t of
        (True, t1) \<Rightarrow> allocate_all rpc vid collection rp rs (placed @ [fst res]) t1
      | (False, t1) \<Rightarrow> (False, fold (deallocateVolumeOnNode vid) placed t1))"

datatype grow_error = NotEnoughCandidates | NotEnoughNodes | ReserveFailed | PersistFailed | AllocateFailed

text \<open>One turn of the loop of \<open>CheckAndGrow\<close>.\<close>

definition grow_once ::
  "string list \<Rightarrow> (string \<Rightarrow> u32 \<Rightarrow> bool) \<Rightarrow> (u32 \<Rightarrow> Topology \<Rightarrow> bool \<times> Topology) \<Rightarrow> string \<Rightarrow> ReplicaPlacement \<Rightarrow> string \<Rightarrow>
   Candidate list \<Rightarrow> Topology \<Rightarrow> (grow_error + u32) \<times> Topology"
where
  "grow_once dts rpc persist collection rp dt cands t =
     (let sel = selectNodesForReplica rp cands in
      if length sel < TotalCopies rp then (Inl NotEnoughNodes, t)
      else
        (case reserve_all dts dt (map cd_addr sel) [] t of
           (None, t1) \<Rightarrow> (Inl ReserveFailed, t1)
         | (Some rs, t1) \<Rightarrow>
             (case AllocateNextVolumeId persist t1 of
                (None, t2) \<Rightarrow> (Inl PersistFailed, fold releaseReservation rs t2)
              | (Some vid, t2) \<Rightarrow>
                  (case allocate_all rpc vid collection rp rs [] t2 of
                     (ok, t3) \<Rightarrow> (if ok then Inr vid else Inl AllocateFailed, fold releaseReservation rs t3)))))"

fun grow_loop ::
  "string list \<Rightarrow> (string \<Rightarrow> u32 \<Rightarrow> bool) \<Rightarrow> (u32 \<Rightarrow> Topology \<Rightarrow> bool \<times> Topology) \<Rightarrow> string \<Rightarrow> ReplicaPlacement \<Rightarrow> string \<Rightarrow>
   Candidate list \<Rightarrow> nat \<Rightarrow> nat \<Rightarrow> Topology \<Rightarrow> (nat \<times> grow_error option) \<times> Topology"
where
  "grow_loop dts rpc persist collection rp dt cands 0 created t = ((created, None), t)"
| "grow_loop dts rpc persist collection rp dt cands (Suc k) created t =
     (case grow_once dts rpc persist collection rp dt cands t of
        (Inl err, t1) \<Rightarrow> ((created, Some err), t1)
      | (Inr _, t1) \<Rightarrow> grow_loop dts rpc persist collection rp dt cands k (created + 1) t1)"

text \<open>The ratio of \<open>shouldGrowVolumes\<close> over the rationals.\<close>

definition volume_count :: "loc_map \<Rightarrow> nat" where
  "volume_count m = card (dom m)"

definition shouldGrowVolumes :: "VolumeLayout \<Rightarrow> bool" where
  "shouldGrowVolumes vl =
     (let writable = volume_count (vl_writable vl);
          total = writable + volume_count (vl_readonly vl) + volume_count (vl_crowded vl)
      in if total = 0 then True else (of_nat writable / of_nat total :: rat) < 9 / 10)"

definition CheckAndGrow ::
  "string list \<Rightarrow> (string \<Rightarrow> u32 \<Rightarrow> bool) \<Rightarrow> (u32 \<Rightarrow> Topology \<Rightarrow> bool \<times> Topology) \<Rightarrow> int \<Rightarrow> nat list \<Rightarrow> string \<Rightarrow> ReplicaPlacement \<Rightarrow>
   string \<Rightarrow> string \<Rightarrow> int \<Rightarrow> Topology \<Rightarrow> (nat \<times> grow_error option) \<times> Topology"
where
  "CheckAndGrow dts rpc persist now order collection rp ttl dt count t =
     (if count \<le> 0 then ((0, None), t)
      else
        (let r = ReplicaPlacement_String rp;
             vl = GetOrCreateLayout collection r ttl dt (tp_layouts t);
             t1 = t\<lparr>tp_layouts := (tp_layouts t)(makeKey collection r ttl dt \<mapsto> vl)\<rparr>
         in if \<not> shouldGrowVolumes vl then ((0, None), t1)
            else
              (let cands = AllocateVolumeCandidates dts now order dt t1 in
               if length cands < TotalCopies rp then ((0, Some NotEnoughCandidates), t1)
               else grow_loop dts rpc persist collection rp dt cands (nat count) 0 t1)))"

end
