(* ===== verification/VolumeGrowthProps.thy ===== *)
theory VolumeGrowthProps
  imports VolumeGrowth TopologyProps
begin

text \<open>
  Volume growth: the servers chosen for a new volume meet its replica placement whenever the candidates
  allow it, and a growth step either records the new volume on all of them or changes no server;
  reservations never outlive it.
\<close>

section \<open>The choice of servers\<close>

abbreviation ids_distinct :: "Candidate list \<Rightarrow> bool" where
  "ids_distinct ns \<equiv> distinct (map cd_id ns)"

text \<open>The first candidate of every rack that is not in \<open>racks\<close>.\<close>

fun first_per_rack :: "string set \<Rightarrow> Candidate list \<Rightarrow> Candidate list" where
  "first_per_rack racks [] = []"
| "first_per_rack racks (n # ns) =
     (if cd_rack n \<in> racks then first_per_rack racks ns else n # first_per_rack (insert (cd_rack n) racks) ns)"

lemma used_append: "used n (sel @ [m]) \<longleftrightarrow> used n sel \<or> cd_id n = cd_id m"
  by (auto simp: used_def)

lemma unpicked:
  "cd_id n \<notin> cd_id ` set ns \<Longrightarrow> filter (\<lambda>x. \<not> used x (sel @ [n]) \<and> P x) ns = filter (\<lambda>x. \<not> used x sel \<and> P x) ns"
  by (rule filter_cong) (auto simp: used_append image_iff)

lemmas unpicked_any = unpicked [where P = "\<lambda>_. True", simplified]

lemma pick_other_dc_eq:
  "ids_distinct ns \<Longrightarrow>
   pick_other_dc limit pdc ns sel = sel @ take (limit - length sel) (filter (\<lambda>n. \<not> used n sel \<and> cd_dc n \<noteq> pdc) ns)"
  by (induction ns arbitrary: sel) (auto simp: unpicked take_Cons')

lemma pick_same_rack_eq:
  "ids_distinct ns \<Longrightarrow>
   pick_same_rack target pdc prack ns sel = sel @ take target (filter (\<lambda>n. \<not> used n sel \<and> cd_dc n = pdc \<and> cd_rack n = prack) ns)"
  by (induction ns arbitrary: sel target) (auto simp: unpicked take_Cons')

lemma fill_up_eq:
  "ids_distinct ns \<Longrightarrow> fill_up k ns sel = sel @ take (k - length sel) (filter (\<lambda>n. \<not> used n sel) ns)"
  by (induction ns arbitrary: sel) (auto simp: unpicked_any take_Cons')

lemma pick_other_rack_eq:
  "ids_distinct ns \<Longrightarrow> \<forall>n \<in> set ns. used n sel \<longrightarrow> cd_dc n \<noteq> pdc \<or> cd_rack n \<in> racks \<Longrightarrow>
   pick_other_rack target pdc racks ns sel = sel @ take target (first_per_rack racks (filter (\<lambda>n. cd_dc n = pdc) ns))"
proof (induction ns arbitrary: sel target racks)
  case (Cons n ns)
  show ?case
  proof (cases "target = 0 \<or> used n sel \<or> cd_dc n \<noteq> pdc \<or> cd_rack n \<in> racks")
    case True
    then show ?thesis using Cons by auto
  next
    case False
    have "pick_other_rack (target - 1) pdc (insert (cd_rack n) racks) ns (sel @ [n]) =
        (sel @ [n]) @ take (target - 1) (first_per_rack (insert (cd_rack n) racks) (filter (\<lambda>n. cd_dc n = pdc) ns))"
      using Cons.prems by (intro Cons.IH) (auto simp: used_append image_iff)
    then show ?thesis using False by (auto simp: take_Cons')
  qed
qed simp

lemma first_per_rack_set:
  "set (first_per_rack racks ns) \<subseteq> set ns"
  by (induction ns arbitrary: racks) auto

lemma first_per_rack_racks: "cd_rack ` set (first_per_rack racks ns) = cd_rack ` set ns - racks"
  by (induction ns arbitrary: racks) auto

lemma first_per_rack_distinct: "distinct (map cd_rack (first_per_rack racks ns))"
  by (induction ns arbitrary: racks) (auto simp: first_per_rack_racks)

lemma first_per_rack_length: "length (first_per_rack racks ns) = card (cd_rack ` set ns - racks)"
  using distinct_card [OF first_per_rack_distinct, of racks ns] by (simp add: first_per_rack_racks)

lemma used_iff:
  assumes "ids_distinct cands" "set sel \<subseteq> set cands" "n \<in> set cands"
  shows "used n sel \<longleftrightarrow> n \<in> set sel"
  using assms unfolding used_def distinct_map inj_on_def by (metis (no_types, lifting) image_iff subsetD)

text \<open>The three groups of replicas beside the primary one.\<close>

definition other_dcs :: "ReplicaPlacement \<Rightarrow> Candidate \<Rightarrow> Candidate list \<Rightarrow> Candidate list" where
  "other_dcs rp p rest = take (unat (DifferentDataCenterCount rp)) (filter (\<lambda>n. cd_dc n \<noteq> cd_dc p) rest)"

definition other_racks :: "ReplicaPlacement \<Rightarrow> Candidate \<Rightarrow> Candidate list \<Rightarrow> Candidate list" where
  "other_racks rp p rest = take (unat (DifferentRackCount rp)) (first_per_rack {cd_rack p} (filter (\<lambda>n. cd_dc n = cd_dc p) rest))"

definition same_rack :: "ReplicaPlacement \<Rightarrow> Candidate \<Rightarrow> Candidate list \<Rightarrow> Candidate list" where
  "same_rack rp p rest = take (unat (SameRackCount rp)) (filter (\<lambda>n. cd_dc n = cd_dc p \<and> cd_rack n = cd_rack p) rest)"

abbreviation placed :: "ReplicaPlacement \<Rightarrow> Candidate \<Rightarrow> Candidate list \<Rightarrow> Candidate list" where
  "placed rp p rest \<equiv> p # other_dcs rp p rest @ other_racks rp p rest @ same_rack rp p rest"

lemma groups:
  "n \<in> set (other_dcs rp p rest) \<Longrightarrow> n \<in> set rest \<and> cd_dc n \<noteq> cd_dc p"
  "n \<in> set (other_racks rp p rest) \<Longrightarrow> n \<in> set rest \<and> cd_dc n = cd_dc p \<and> cd_rack n \<noteq> cd_rack p"
  "n \<in> set (same_rack rp p rest) \<Longrightarrow> n \<in> set rest \<and> cd_dc n = cd_dc p \<and> cd_rack n = cd_rack p"
proof -
  let ?f = "first_per_rack {cd_rack p} (filter (\<lambda>n. cd_dc n = cd_dc p) rest)"
  show "n \<in> set rest \<and> cd_dc n = cd_dc p \<and> cd_rack n \<noteq> cd_rack p" if "n \<in> set (other_racks rp p rest)"
  proof -
    have "n \<in> set ?f" using that by (auto simp: other_racks_def dest: in_set_takeD)
    moreover from this have "cd_rack n \<in> cd_rack ` set ?f" by simp
    ultimately show ?thesis using first_per_rack_set [of "{cd_rack p}" "filter (\<lambda>n. cd_dc n = cd_dc p) rest"]
      unfolding first_per_rack_racks by auto
  qed
qed (auto simp: other_dcs_def same_rack_def dest: in_set_takeD)

lemma distinct_other_racks:
  "distinct (map cd_rack (other_racks rp p rest))" "distinct (other_racks rp p rest)"
proof -
  show *: "distinct (map cd_rack (other_racks rp p rest))"
    using distinct_take [OF first_per_rack_distinct] by (simp add: other_racks_def take_map)
  show "distinct (other_racks rp p rest)" by (rule distinct_map [THEN iffD1, THEN conjunct1, OF *])
qed

lemma placed_distinct:
  assumes "distinct (p # rest)"
  shows "distinct (placed rp p rest)" "set (placed rp p rest) \<subseteq> set (p # rest)" "length (placed rp p rest) \<le> TotalCopies rp"
proof -
  have "distinct (other_dcs rp p rest)" "distinct (same_rack rp p rest)"
    using assms by (simp_all add: other_dcs_def same_rack_def)
  then show "distinct (placed rp p rest)" using assms groups [of _ rp p rest] distinct_other_racks(2) [of rp p rest]
    unfolding distinct.simps distinct_append set_append disjoint_iff Un_iff by blast
  show "set (placed rp p rest) \<subseteq> set (p # rest)" using groups [of _ rp p rest] by auto
  show "length (placed rp p rest) \<le> TotalCopies rp" by (simp add: TotalCopies_def other_dcs_def other_racks_def same_rack_def)
qed

lemma select_eq:
  assumes d: "ids_distinct (p # rest)"
  shows "selectNodesForReplica rp (p # rest) =
    placed rp p rest @ take (TotalCopies rp - length (placed rp p rest)) (filter (\<lambda>n. n \<notin> set (placed rp p rest)) (p # rest))"
proof -
  let ?A = "other_dcs rp p rest" and ?B = "other_racks rp p rest" and ?C = "same_rack rp p rest"
  have dr: "distinct (p # rest)" using d by (simp only: distinct_map)
  note sub = placed_distinct(2) [OF dr, of rp] and u = used_iff [OF d]
  have "filter (\<lambda>n. \<not> used n [p] \<and> cd_dc n \<noteq> cd_dc p) rest = filter (\<lambda>n. cd_dc n \<noteq> cd_dc p) rest"
    using dr by (intro filter_cong) (auto simp: u)
  then have 1: "pick_other_dc (1 + unat (DifferentDataCenterCount rp)) (cd_dc p) rest [p] = p # ?A"
    using d by (simp add: pick_other_dc_eq other_dcs_def)
  have racks: "insert (cd_rack p) (cd_rack ` {n \<in> set (p # ?A). cd_dc n = cd_dc p}) = {cd_rack p}"
    using groups(1) [of _ rp p rest] by auto
  have "\<forall>n \<in> set (p # rest). used n (p # ?A) \<longrightarrow> cd_dc n \<noteq> cd_dc p \<or> cd_rack n \<in> {cd_rack p}"
    using groups(1) [of _ rp p rest] sub by (auto simp: u)
  from pick_other_rack_eq [OF d this]
  have 2: "pick_other_rack (unat (DifferentRackCount rp)) (cd_dc p) {cd_rack p} (p # rest) (p # ?A) = p # ?A @ ?B"
    by (simp add: other_racks_def)
  have "filter (\<lambda>n. \<not> used n (p # ?A @ ?B) \<and> cd_dc n = cd_dc p \<and> cd_rack n = cd_rack p) (p # rest) =
      filter (\<lambda>n. n \<noteq> p \<and> cd_dc n = cd_dc p \<and> cd_rack n = cd_rack p) (p # rest)"
    using groups [of _ rp p rest] sub by (intro filter_cong) (auto simp: u)
  also have "\<dots> = filter (\<lambda>n. cd_dc n = cd_dc p \<and> cd_rack n = cd_rack p) rest"
    using dr by (auto intro!: filter_cong)
  finally have 3: "pick_same_rack (unat (SameRackCount rp)) (cd_dc p) (cd_rack p) (p # rest) (p # ?A @ ?B) = placed rp p rest"
    unfolding pick_same_rack_eq [OF d] by (simp add: same_rack_def)
  have "filter (\<lambda>n. \<not> used n (placed rp p rest)) (p # rest) = filter (\<lambda>n. n \<notin> set (placed rp p rest)) (p # rest)"
    using sub by (intro filter_cong) (auto simp: u)
  then have 4: "fill_up (TotalCopies rp) (p # rest) (placed rp p rest) =
      placed rp p rest @ take (TotalCopies rp - length (placed rp p rest)) (filter (\<lambda>n. n \<notin> set (placed rp p rest)) (p # rest))"
    by (simp only: fill_up_eq [OF d])
  show ?thesis unfolding selectNodesForReplica_def list.case Let_def 1 racks 2 3 4
    using placed_distinct(3) [OF dr, of rp] by (simp del: filter.simps)
qed

lemma filled:
  assumes "distinct S" "set S \<subseteq> set cs" "distinct cs" "length S \<le> k"
  defines "R \<equiv> S @ take (k - length S) (filter (\<lambda>n. n \<notin> set S) cs)"
  shows "distinct R" "set R \<subseteq> set cs" "length R = min k (length cs)"
proof -
  let ?F = "filter (\<lambda>n. n \<notin> set S) cs"
  have F: "length ?F = length cs - length S"
  proof -
    have "length ?F = card (set cs - set S)" using distinct_card [of ?F] assms(3) by (simp add: set_diff_eq)
    then show ?thesis using card_Diff_subset [OF _ assms(2)] distinct_card [OF assms(1)] distinct_card [OF assms(3)] by simp
  qed
  have le: "length S \<le> length cs"
    using card_mono [OF _ assms(2)] distinct_card [OF assms(1)] distinct_card [OF assms(3)] by simp
  have sub: "set (take j ?F) \<subseteq> set cs - set S" for j using set_take_subset [of j ?F] by auto
  show "distinct R" "set R \<subseteq> set cs" using assms(1-3) sub unfolding R_def by (auto intro: distinct_take)
  show "length R = min k (length cs)" using F le assms(4) unfolding R_def by simp
qed

lemma select_distinct:
  assumes "ids_distinct cands"
  shows "ids_distinct (selectNodesForReplica rp cands)" "set (selectNodesForReplica rp cands) \<subseteq> set cands"
    "length (selectNodesForReplica rp cands) = min (TotalCopies rp) (length cands)"
proof -
  have *: "distinct (selectNodesForReplica rp cands) \<and> set (selectNodesForReplica rp cands) \<subseteq> set cands \<and>
      length (selectNodesForReplica rp cands) = min (TotalCopies rp) (length cands)"
  proof (cases cands)
    case Nil
    then show ?thesis by (simp add: selectNodesForReplica_def TotalCopies_def)
  next
    case (Cons p rest)
    have d: "ids_distinct (p # rest)" and dr: "distinct (p # rest)" using assms Cons by (simp_all only: distinct_map)
    note pd = placed_distinct [OF dr, of rp]
    show ?thesis unfolding Cons select_eq [OF d] using filled [OF pd(1,2) dr pd(3)] by blast
  qed
  then show "set (selectNodesForReplica rp cands) \<subseteq> set cands"
    "length (selectNodesForReplica rp cands) = min (TotalCopies rp) (length cands)" by simp_all
  show "ids_distinct (selectNodesForReplica rp cands)" using * assms unfolding distinct_map by (meson inj_on_subset)
qed

text \<open>C32: the servers chosen for a new volume meet its replica placement. Of candidates with distinct ids
  of which enough are in other data centers, enough racks beside the first candidate's have one, and
  enough are in its rack, \<open>selectNodesForReplica\<close> takes distinct candidates, exactly as many in other
  data centers as the placement asks for, exactly as many in other racks of the first candidate's data
  center, each in a rack of its own, and the rest in the first candidate's rack.\<close>

theorem replica_placement_met:
  assumes "ids_distinct (p # rest)"
    and "unat (DifferentDataCenterCount rp) \<le> length (filter (\<lambda>n. cd_dc n \<noteq> cd_dc p) rest)"
    and "unat (DifferentRackCount rp) \<le> card (cd_rack ` {n \<in> set rest. cd_dc n = cd_dc p} - {cd_rack p})"
    and "unat (SameRackCount rp) \<le> length (filter (\<lambda>n. cd_dc n = cd_dc p \<and> cd_rack n = cd_rack p) rest)"
  defines "sel \<equiv> selectNodesForReplica rp (p # rest)"
  shows "length sel = TotalCopies rp \<and> ids_distinct sel \<and> set sel \<subseteq> set (p # rest) \<and>
    length (filter (\<lambda>n. cd_dc n \<noteq> cd_dc p) sel) = unat (DifferentDataCenterCount rp) \<and>
    length (filter (\<lambda>n. cd_dc n = cd_dc p \<and> cd_rack n \<noteq> cd_rack p) sel) = unat (DifferentRackCount rp) \<and>
    distinct (map cd_rack (filter (\<lambda>n. cd_dc n = cd_dc p \<and> cd_rack n \<noteq> cd_rack p) sel)) \<and>
    length (filter (\<lambda>n. cd_dc n = cd_dc p \<and> cd_rack n = cd_rack p) sel) = 1 + unat (SameRackCount rp)"
proof -
  let ?A = "other_dcs rp p rest" and ?B = "other_racks rp p rest" and ?C = "same_rack rp p rest"
  have len: "length ?A = unat (DifferentDataCenterCount rp)" "length ?B = unat (DifferentRackCount rp)" "length ?C = unat (SameRackCount rp)"
    using assms(2-4) by (simp_all add: other_dcs_def other_racks_def same_rack_def first_per_rack_length)
  then have sel: "sel = p # ?A @ ?B @ ?C"
    unfolding sel_def select_eq [OF assms(1)] by (simp add: TotalCopies_def del: filter.simps)
  have "filter (\<lambda>n. cd_dc n \<noteq> cd_dc p) ?A = ?A" "filter (\<lambda>n. cd_dc n \<noteq> cd_dc p) ?B = []" "filter (\<lambda>n. cd_dc n \<noteq> cd_dc p) ?C = []"
    "filter (\<lambda>n. cd_dc n = cd_dc p \<and> cd_rack n \<noteq> cd_rack p) ?A = []" "filter (\<lambda>n. cd_dc n = cd_dc p \<and> cd_rack n \<noteq> cd_rack p) ?B = ?B"
    "filter (\<lambda>n. cd_dc n = cd_dc p \<and> cd_rack n \<noteq> cd_rack p) ?C = []" "filter (\<lambda>n. cd_dc n = cd_dc p \<and> cd_rack n = cd_rack p) ?A = []"
    "filter (\<lambda>n. cd_dc n = cd_dc p \<and> cd_rack n = cd_rack p) ?B = []" "filter (\<lambda>n. cd_dc n = cd_dc p \<and> cd_rack n = cd_rack p) ?C = ?C"
    using groups [of _ rp p rest] by (auto simp: filter_id_conv filter_empty_conv)
  moreover have "ids_distinct sel" "set sel \<subseteq> set (p # rest)" using select_distinct [OF assms(1), of rp] unfolding sel_def by simp_all
  ultimately show ?thesis unfolding sel using len distinct_other_racks(1) [of rp p rest] by (simp add: TotalCopies_def)
qed

definition sample_candidates :: "Candidate list" where
  "sample_candidates =
     [\<lparr>cd_addr = 0, cd_id = ''a'', cd_dc = ''d1'', cd_rack = ''r1''\<rparr>, \<lparr>cd_addr = 1, cd_id = ''b'', cd_dc = ''d1'', cd_rack = ''r1''\<rparr>,
      \<lparr>cd_addr = 2, cd_id = ''c'', cd_dc = ''d1'', cd_rack = ''r2''\<rparr>, \<lparr>cd_addr = 3, cd_id = ''d'', cd_dc = ''d2'', cd_rack = ''r1''\<rparr>]"

theorem replica_placement_met_witness:
  "let rp = \<lparr>DifferentDataCenterCount = 1, DifferentRackCount = 1, SameRackCount = 0\<rparr>;
       sel = selectNodesForReplica rp sample_candidates
   in length sel = 3 \<and> ids_distinct sel \<and> length (filter (\<lambda>n. cd_dc n \<noteq> ''d1'') sel) = 1 \<and>
      length (filter (\<lambda>n. cd_dc n = ''d1'' \<and> cd_rack n \<noteq> ''r1'') sel) = 1"
proof -
  let ?rp = "\<lparr>DifferentDataCenterCount = 1, DifferentRackCount = 1, SameRackCount = 0\<rparr>"
  have s: "sample_candidates = hd sample_candidates # tl sample_candidates" by (simp add: sample_candidates_def)
  have "{n \<in> set (tl sample_candidates). cd_dc n = cd_dc (hd sample_candidates)} = set (take 2 (tl sample_candidates))"
    by (auto simp: sample_candidates_def)
  then have "cd_rack ` {n \<in> set (tl sample_candidates). cd_dc n = cd_dc (hd sample_candidates)} - {cd_rack (hd sample_candidates)} = {''r2''}"
    by (auto simp: sample_candidates_def)
  then show ?thesis
    using replica_placement_met [of "hd sample_candidates" "tl sample_candidates" ?rp]
    by (simp add: sample_candidates_def TotalCopies_def Let_def)
qed

text \<open>Where the candidates do not allow the placement, the remaining places are filled with any of them:
  a volume that asks for a copy in another data center has both copies in one rack.\<close>

lemma placement_not_enforced:
  "map cd_id (selectNodesForReplica \<lparr>DifferentDataCenterCount = 1, DifferentRackCount = 0, SameRackCount = 0\<rparr> (take 2 sample_candidates)) =
     [''a'', ''b'']"
  by (simp add: sample_candidates_def selectNodesForReplica_def TotalCopies_def used_def numeral_2_eq_2)

section \<open>Effects on one server\<close>

definition slot :: "string \<Rightarrow> DataNode \<Rightarrow> DataNode" where
  "slot dt dn = dn\<lparr>dn_reservations := (dn_reservations dn)(dt := dn_reservations dn dt + 1)\<rparr>"

definition new_volume :: "u32 \<Rightarrow> string \<Rightarrow> ReplicaPlacement \<Rightarrow> string \<Rightarrow> VolumeInformation" where
  "new_volume vid collection rp dt = \<lparr>vi_Id = vid, vi_Collection = collection, vi_ReplicaPlacement = ucast (ReplicaPlacement_Byte rp),
     vi_Ttl = [], vi_DiskType = dt, vi_ReadOnly = False\<rparr>"

lemma new_volume_sel [simp]: "vi_Id (new_volume vid c rp dt) = vid" "vi_DiskType (new_volume vid c rp dt) = dt"
  by (simp_all add: new_volume_def)

lemma ReserveSlot_True:
  "ReserveSlot dt dn = (True, dn1) \<Longrightarrow> dn1 = slot dt dn \<and> dn_disks dn dt \<noteq> None"
  by (auto simp: ReserveSlot_def slot_def split: option.splits if_splits)

lemma counts_okD_res: "counts_ok dn \<Longrightarrow> 0 \<le> dn_reservations dn dt"
  by (simp add: counts_ok_def)

lemma release_slot: "counts_ok dn \<Longrightarrow> ReleaseSlot dt (slot dt dn) = dn"
  using counts_okD_res [of dn dt] by (simp add: ReleaseSlot_def slot_def)

lemma release_add:
  assumes "counts_ok dn"
  shows "ReleaseSlot dt (AddOrUpdateVolume vi (slot dt dn)) = AddOrUpdateVolume vi dn"
  using counts_okD_res [OF assms, of dt]
  by (simp add: ReleaseSlot_def slot_def AddOrUpdateVolume_def add_to_disk_def set_disk_def update_disk_def getOrCreateDisk_def Let_def
      split: option.splits)

lemma delete_add:
  assumes ok: "counts_ok dn" and new: "dn_volumes dn (vi_Id vi) = None" and disk: "dn_disks dn (vi_DiskType vi) \<noteq> None"
  shows "DeleteVolume (vi_Id vi) (AddOrUpdateVolume vi (slot dt dn)) = slot dt dn"
proof -
  obtain di where di: "dn_disks dn (vi_DiskType vi) = Some di" using disk by blast
  then have "0 \<le> di_volumeCount di" using counts_okD(3) [OF ok] by simp
  moreover have "(dn_volumes dn)(vi_Id vi := None) = dn_volumes dn" "(dn_disks dn)(vi_DiskType vi \<mapsto> di) = dn_disks dn"
    using new di by (simp_all add: fun_upd_idem)
  ultimately show ?thesis using new di
    by (simp add: DeleteVolume_def slot_def AddOrUpdateVolume_def add_to_disk_def set_disk_def update_disk_def getOrCreateDisk_def
        DiskInfo_AddVolume_def DiskInfo_RemoveVolume_def Let_def)
qed

section \<open>Effects on several servers\<close>

fun on_nodes :: "(string \<Rightarrow> DataNode \<Rightarrow> DataNode) \<Rightarrow> (nat \<times> string) list \<Rightarrow> Topology \<Rightarrow> Topology" where
  "on_nodes f [] t = t"
| "on_nodes f (r # rs) t = on_nodes f rs (node_map (fst r) (f (snd r)) t)"

lemma on_nodes_append [simp]: "on_nodes f (rs @ qs) t = on_nodes f qs (on_nodes f rs t)"
  by (induction rs arbitrary: t) simp_all

lemma heap_node_map: "tp_heap (node_map a f t) b = (if b = a then map_option f (tp_heap t a) else tp_heap t b)"
  by (simp add: node_map_def split: option.splits)

lemma heap_on_nodes:
  "distinct (map fst rs) \<Longrightarrow>
   tp_heap (on_nodes f rs t) a = (case map_of rs a of None \<Rightarrow> tp_heap t a | Some d \<Rightarrow> map_option (f d) (tp_heap t a))"
proof (induction rs arbitrary: t)
  case (Cons r rs)
  then have "map_of rs (fst r) = None" by (auto simp: map_of_eq_None_iff)
  with Cons show ?case by (cases r) (auto simp: heap_node_map split: option.splits)
qed simp

lemma next_on_nodes [simp]: "tp_nextVolumeId (on_nodes f rs t) = tp_nextVolumeId t" "tp_layouts (on_nodes f rs t) = tp_layouts t"
  by (induction rs arbitrary: t) simp_all

lemma release_all: "fold releaseReservation rs t = on_nodes ReleaseSlot rs t"
  by (induction rs arbitrary: t) (simp_all add: releaseReservation_def)

lemma deallocate_all: "fold (deallocateVolumeOnNode vid) (map fst rs) t = on_nodes (\<lambda>_. DeleteVolume vid) rs t"
  by (induction rs arbitrary: t) (simp_all add: deallocateVolumeOnNode_def)

lemma reserveCapacity_Some:
  assumes "reserveCapacity dts dt a t = (Some r, t1)"
  shows "fst r = a" "t1 = node_map (fst r) (slot (snd r)) t" "\<exists>dn. tp_heap t a = Some dn \<and> dn_disks dn (snd r) \<noteq> None"
  using assms ReserveSlot_True by (auto simp: reserveCapacity_def node_map_def split: option.splits prod.splits bool.splits)

lemma reserveCapacity_None: "reserveCapacity dts dt a t = (None, t1) \<Longrightarrow> t1 = t"
  by (auto simp: reserveCapacity_def split: option.splits prod.splits bool.splits)

lemma reserve_all_Some:
  assumes "reserve_all dts dt as acc t = (Some rs, t1)" "distinct as"
  shows "\<exists>qs. rs = acc @ qs \<and> map fst qs = as \<and> t1 = on_nodes slot qs t \<and>
    (\<forall>(a, d) \<in> set qs. \<exists>dn. tp_heap t a = Some dn \<and> dn_disks dn d \<noteq> None)"
  using assms
proof (induction as arbitrary: acc t)
  case (Cons a as)
  then obtain r t2 where r: "reserveCapacity dts dt a t = (Some r, t2)" and rest: "reserve_all dts dt as (acc @ [r]) t2 = (Some rs, t1)"
    by (auto split: prod.splits option.splits)
  note R = reserveCapacity_Some [OF r]
  obtain qs where qs: "rs = (acc @ [r]) @ qs" "map fst qs = as" "t1 = on_nodes slot qs t2"
    "\<forall>(a, d) \<in> set qs. \<exists>dn. tp_heap t2 a = Some dn \<and> dn_disks dn d \<noteq> None"
    using Cons.IH [OF rest] Cons.prems by auto
  have "\<forall>(b, d) \<in> set qs. b \<noteq> a" using qs(2) Cons.prems(2) by force
  then have "\<forall>(b, d) \<in> set qs. \<exists>dn. tp_heap t b = Some dn \<and> dn_disks dn d \<noteq> None"
    using qs(4) R(1) unfolding R(2) heap_node_map by fastforce
  then show ?case using qs R by (intro exI [of _ "r # qs"]) (auto split: prod.splits)
qed simp

definition nodes_ok :: "Topology \<Rightarrow> bool" where
  "nodes_ok t \<longleftrightarrow> (\<forall>a dn. tp_heap t a = Some dn \<longrightarrow> counts_ok dn)"

lemma release_slots:
  assumes "nodes_ok t" "distinct (map fst rs)"
  shows "tp_heap (on_nodes ReleaseSlot rs (on_nodes slot rs t)) = tp_heap t"
proof
  fix a
  show "tp_heap (on_nodes ReleaseSlot rs (on_nodes slot rs t)) a = tp_heap t a"
    using assms unfolding heap_on_nodes [OF assms(2)] nodes_ok_def
    by (cases "tp_heap t a") (auto simp: release_slot split: option.splits)
qed

lemma reserve_all_None:
  assumes "reserve_all dts dt as acc (on_nodes slot acc t) = (None, t1)" "nodes_ok t" "distinct (map fst acc @ as)"
  shows "tp_heap t1 = tp_heap t \<and> tp_nextVolumeId t1 = tp_nextVolumeId t"
  using assms
proof (induction as arbitrary: acc)
  case (Cons a as)
  obtain ro t2 where r: "reserveCapacity dts dt a (on_nodes slot acc t) = (ro, t2)" by fastforce
  show ?case
  proof (cases ro)
    case None
    with r have "t2 = on_nodes slot acc t" using reserveCapacity_None by blast
    then show ?thesis using Cons.prems r None release_slots [OF Cons.prems(2), of acc] by (auto simp: release_all)
  next
    case (Some q)
    note R = reserveCapacity_Some [OF r [unfolded Some]]
    have "reserve_all dts dt as (acc @ [q]) (on_nodes slot (acc @ [q]) t) = (None, t1)"
      using Cons.prems(1) r Some R by simp
    then show ?thesis using Cons.IH [of "acc @ [q]"] Cons.prems R by simp
  qed
qed simp

lemma allocate_cases:
  assumes "allocateVolumeOnNode rpc vid c rp r t = (ok, t1)"
  shows "ok \<Longrightarrow> t1 = node_map (fst r) (AddOrUpdateVolume (new_volume vid c rp (snd r))) t" "\<not> ok \<Longrightarrow> t1 = t"
  using assms by (auto simp: allocateVolumeOnNode_def new_volume_def node_map_def Let_def split: option.splits if_splits)

lemma allocate_all_cases:
  assumes "allocate_all rpc vid c rp rs (map fst pre) (on_nodes (\<lambda>d. AddOrUpdateVolume (new_volume vid c rp d)) pre t) = (ok, t1)"
  shows "if ok then t1 = on_nodes (\<lambda>d. AddOrUpdateVolume (new_volume vid c rp d)) (pre @ rs) t
    else \<exists>qs post. pre @ rs = qs @ post \<and> t1 = on_nodes (\<lambda>_. DeleteVolume vid) qs (on_nodes (\<lambda>d. AddOrUpdateVolume (new_volume vid c rp d)) qs t)"
  using assms
proof (induction rs arbitrary: pre)
  case (Cons r rs)
  let ?t = "on_nodes (\<lambda>d. AddOrUpdateVolume (new_volume vid c rp d)) pre t"
  obtain ok1 t2 where a: "allocateVolumeOnNode rpc vid c rp r ?t = (ok1, t2)" by fastforce
  note A = allocate_cases [OF a]
  show ?case
  proof (cases ok1)
    case True
    then have "allocate_all rpc vid c rp rs (map fst (pre @ [r])) (on_nodes (\<lambda>d. AddOrUpdateVolume (new_volume vid c rp d)) (pre @ [r]) t) = (ok, t1)"
      using Cons.prems a A(1) by simp
    from Cons.IH [OF this] show ?thesis by (simp only: append_assoc append_Cons append_Nil)
  next
    case False
    then have "\<not> ok" "t1 = on_nodes (\<lambda>_. DeleteVolume vid) pre ?t" using Cons.prems a A(2) by (simp_all add: deallocate_all)
    then show ?thesis by auto
  qed
qed simp

lemma rollback:
  assumes "nodes_ok t" "distinct (map fst rs)" "rs = qs @ post"
    and disks: "\<forall>(a, d) \<in> set rs. \<exists>dn. tp_heap t a = Some dn \<and> dn_disks dn d \<noteq> None"
    and fresh: "\<forall>a dn. tp_heap t a = Some dn \<longrightarrow> dn_volumes dn vid = None"
    and t1: "tp_heap t1 = tp_heap (on_nodes slot rs t)"
  shows "tp_heap (on_nodes (\<lambda>_. DeleteVolume vid) qs (on_nodes (\<lambda>d. AddOrUpdateVolume (new_volume vid c rp d)) qs t1)) = tp_heap t1"
proof
  fix a
  have dq: "distinct (map fst qs)" using assms(2,3) by simp
  show "tp_heap (on_nodes (\<lambda>_. DeleteVolume vid) qs (on_nodes (\<lambda>d. AddOrUpdateVolume (new_volume vid c rp d)) qs t1)) a = tp_heap t1 a"
  proof (cases "map_of qs a")
    case (Some d)
    then have "(a, d) \<in> set rs" using assms(3) map_of_SomeD by fastforce
    moreover from this have "map_of rs a = Some d" using assms(2) by simp
    moreover obtain dn where dn: "tp_heap t a = Some dn" "dn_disks dn d \<noteq> None" using disks calculation(1) by blast
    ultimately have "tp_heap t1 a = Some (slot d dn)" by (simp add: t1 heap_on_nodes [OF assms(2)])
    moreover have "DeleteVolume vid (AddOrUpdateVolume (new_volume vid c rp d) (slot d dn)) = slot d dn"
      using delete_add [of dn "new_volume vid c rp d" d] dn fresh assms(1) by (auto simp: nodes_ok_def)
    ultimately show ?thesis using Some by (simp add: heap_on_nodes [OF dq])
  qed (simp add: heap_on_nodes [OF dq])
qed

lemma commit:
  assumes "nodes_ok t" "distinct (map fst rs)" "tp_heap t1 = tp_heap (on_nodes slot rs t)"
  shows "tp_heap (on_nodes ReleaseSlot rs (on_nodes (\<lambda>d. AddOrUpdateVolume (new_volume vid c rp d)) rs t1)) =
    tp_heap (on_nodes (\<lambda>d. AddOrUpdateVolume (new_volume vid c rp d)) rs t)"
proof
  fix a
  show "tp_heap (on_nodes ReleaseSlot rs (on_nodes (\<lambda>d. AddOrUpdateVolume (new_volume vid c rp d)) rs t1)) a =
      tp_heap (on_nodes (\<lambda>d. AddOrUpdateVolume (new_volume vid c rp d)) rs t) a"
    using assms(1) unfolding heap_on_nodes [OF assms(2)] assms(3) nodes_ok_def
    by (cases "tp_heap t a") (auto simp: release_add split: option.splits)
qed

lemma release_heap_cong:
  assumes "distinct (map fst rs)" "tp_heap t1 = tp_heap t2"
  shows "tp_heap (on_nodes f rs t1) = tp_heap (on_nodes f rs t2)"
  by (rule ext) (simp add: heap_on_nodes assms split: option.split)

text \<open>What a growth step does: nothing to any server when it fails, the new volume on every chosen server
  when it succeeds.\<close>

definition keeps :: "(u32 \<Rightarrow> Topology \<Rightarrow> bool \<times> Topology) \<Rightarrow> bool" where
  "keeps persist \<longleftrightarrow> (\<forall>v t. tp_heap (snd (persist v t)) = tp_heap t \<and> tp_nextVolumeId (snd (persist v t)) = tp_nextVolumeId t)"

lemma allocated:
  assumes "keeps persist" "AllocateNextVolumeId persist t = (r, t2)"
  shows "tp_heap t2 = tp_heap t" "tp_nextVolumeId t2 = tp_nextVolumeId (snd (NextVolumeId t))" "r = Some v \<Longrightarrow> v = fst (NextVolumeId t)"
proof -
  obtain v1 t1 where n: "NextVolumeId t = (v1, t1)" by fastforce
  have h: "tp_heap t1 = tp_heap t" using n by (auto simp: NextVolumeId_def Let_def)
  obtain ok t' where p: "persist v1 t1 = (ok, t')" by fastforce
  have "tp_heap t' = tp_heap t1 \<and> tp_nextVolumeId t' = tp_nextVolumeId t1" using assms(1) p unfolding keeps_def by (metis snd_conv)
  then show "tp_heap t2 = tp_heap t" "tp_nextVolumeId t2 = tp_nextVolumeId (snd (NextVolumeId t))" "r = Some v \<Longrightarrow> v = fst (NextVolumeId t)"
    using assms(2) n p h by (auto simp: AllocateNextVolumeId_def split: if_splits)
qed

lemma select_addrs:
  assumes "ids_distinct cands" "distinct (map cd_addr cands)"
  shows "distinct (map cd_addr (selectNodesForReplica rp cands))"
proof -
  have "inj_on cd_addr (set (selectNodesForReplica rp cands))"
    using assms select_distinct(2) [OF assms(1), of rp] by (auto simp: distinct_map intro: inj_on_subset)
  then show ?thesis using select_distinct(1) [OF assms(1), of rp] by (simp add: distinct_map)
qed

lemma NextVolumeId_heap: "tp_heap (snd (NextVolumeId t)) = tp_heap t"
  by (simp add: NextVolumeId_def Let_def)

lemma release_reserved:
  assumes "nodes_ok t" "distinct (map fst rs)" "tp_heap t1 = tp_heap (on_nodes slot rs t)"
  shows "tp_heap (on_nodes ReleaseSlot rs t1) = tp_heap t"
  using release_heap_cong [OF assms(2,3)] release_slots [OF assms(1,2)] by simp

lemma allocate_effect:
  assumes ok: "nodes_ok t" and d: "distinct (map fst rs)" and h: "tp_heap t2 = tp_heap (on_nodes slot rs t)"
    and disks: "\<forall>(a, d) \<in> set rs. \<exists>dn. tp_heap t a = Some dn \<and> dn_disks dn d \<noteq> None"
    and fresh: "\<forall>a dn. tp_heap t a = Some dn \<longrightarrow> dn_volumes dn vid = None"
    and al: "allocate_all rpc vid c rp rs [] t2 = (s, t3)"
  shows "tp_heap (on_nodes ReleaseSlot rs t3) =
      (if s then tp_heap (on_nodes (\<lambda>d. AddOrUpdateVolume (new_volume vid c rp d)) rs t) else tp_heap t)"
    "tp_nextVolumeId t3 = tp_nextVolumeId t2"
proof -
  note cases = allocate_all_cases [of rpc vid c rp rs "[]" t2 s t3]
  show "tp_heap (on_nodes ReleaseSlot rs t3) =
      (if s then tp_heap (on_nodes (\<lambda>d. AddOrUpdateVolume (new_volume vid c rp d)) rs t) else tp_heap t)"
  proof (cases s)
    case True
    then have "t3 = on_nodes (\<lambda>d. AddOrUpdateVolume (new_volume vid c rp d)) rs t2" using cases al by simp
    then show ?thesis using commit [OF ok d h, of vid c rp] True by simp
  next
    case False
    then obtain qs post where q: "rs = qs @ post"
        "t3 = on_nodes (\<lambda>_. DeleteVolume vid) qs (on_nodes (\<lambda>d. AddOrUpdateVolume (new_volume vid c rp d)) qs t2)"
      using cases al by auto
    have "tp_heap t3 = tp_heap t2" using rollback [OF ok d q(1) disks fresh h, of c rp] q(2) by simp
    then show ?thesis using release_reserved [OF ok d] h False by simp
  qed
  show "tp_nextVolumeId t3 = tp_nextVolumeId t2" using cases al by (auto split: if_splits)
qed

text \<open>The new volume \<open>vid\<close> on every chosen server, and nothing else.\<close>

definition grown :: "u32 \<Rightarrow> string \<Rightarrow> ReplicaPlacement \<Rightarrow> Candidate list \<Rightarrow> Topology \<Rightarrow> Topology \<Rightarrow> bool" where
  "grown vid c rp cands t t' \<longleftrightarrow>
     (\<exists>rs. map fst rs = map cd_addr (selectNodesForReplica rp cands) \<and> length rs = TotalCopies rp \<and> distinct (map fst rs) \<and>
        (\<forall>(a, d) \<in> set rs. \<exists>dn. tp_heap t a = Some dn \<and> dn_disks dn d \<noteq> None) \<and>
        tp_heap t' = tp_heap (on_nodes (\<lambda>d. AddOrUpdateVolume (new_volume vid c rp d)) rs t))"

lemma grow_once_effect:
  assumes g: "grow_once dts rpc persist c rp dt cands t = (r, t')"
    and ok: "nodes_ok t" and cands: "ids_distinct cands" "distinct (map cd_addr cands)" and persist: "keeps persist"
    and fresh: "\<forall>a dn. tp_heap t a = Some dn \<longrightarrow> dn_volumes dn (fst (NextVolumeId t)) = None"
  shows "case r of
      Inl _ \<Rightarrow> tp_heap t' = tp_heap t
    | Inr vid \<Rightarrow> vid = fst (NextVolumeId t) \<and> tp_nextVolumeId t' = tp_nextVolumeId (snd (NextVolumeId t)) \<and> grown vid c rp cands t t'"
proof (cases "length (selectNodesForReplica rp cands) < TotalCopies rp")
  case True
  then show ?thesis using g by (auto simp: grow_once_def Let_def)
next
  case False
  let ?as = "map cd_addr (selectNodesForReplica rp cands)"
  have len: "length ?as = TotalCopies rp" using False select_distinct(3) [OF cands(1), of rp] by simp
  have da: "distinct ?as" by (rule select_addrs [OF cands])
  obtain ro t1 where r1: "reserve_all dts dt ?as [] t = (ro, t1)" by fastforce
  show ?thesis
  proof (cases ro)
    case None
    then show ?thesis using g False r1 reserve_all_None [of dts dt ?as "[]" t t1] ok da by (auto simp: grow_once_def Let_def)
  next
    case (Some rs)
    then have rs: "map fst rs = ?as" "t1 = on_nodes slot rs t" "\<forall>(a, d) \<in> set rs. \<exists>dn. tp_heap t a = Some dn \<and> dn_disks dn d \<noteq> None"
      using reserve_all_Some [OF r1 [unfolded Some] da] by auto
    have d: "distinct (map fst rs)" "length rs = TotalCopies rp" using da rs(1) len by (simp, metis length_map)
    obtain vo t2 where a: "AllocateNextVolumeId persist t1 = (vo, t2)" by fastforce
    have n: "fst (NextVolumeId t1) = fst (NextVolumeId t)" "tp_nextVolumeId (snd (NextVolumeId t1)) = tp_nextVolumeId (snd (NextVolumeId t))"
      using rs(2) by (simp_all add: NextVolumeId_def Let_def)
    note A = allocated [OF persist a]
    have h2: "tp_heap t2 = tp_heap (on_nodes slot rs t)" using A(1) rs(2) by simp
    show ?thesis
    proof (cases vo)
      case None
      then show ?thesis using g False r1 Some a release_reserved [OF ok d(1) h2] by (auto simp: grow_once_def Let_def release_all)
    next
      case (Some vid)
      obtain s t3 where al: "allocate_all rpc vid c rp rs [] t2 = (s, t3)" by fastforce
      have vid: "vid = fst (NextVolumeId t)" using A(3) [OF Some] n(1) by simp
      have res: "r = (if s then Inr vid else Inl AllocateFailed)" "t' = on_nodes ReleaseSlot rs t3"
        using g False r1 \<open>ro = Some rs\<close> a Some al by (auto simp: grow_once_def Let_def release_all)
      have "\<forall>a dn. tp_heap t a = Some dn \<longrightarrow> dn_volumes dn vid = None" using fresh vid by simp
      from allocate_effect [OF ok d(1) h2 rs(3) this al] show ?thesis
        using res vid rs d A(2) n(2) unfolding grown_def by auto
    qed
  qed
qed

section \<open>Growth\<close>

text \<open>The servers that hold a volume, and the volumes held by some server.\<close>

definition holders :: "Topology \<Rightarrow> u32 \<Rightarrow> nat set" where
  "holders t v = {a. \<exists>dn. tp_heap t a = Some dn \<and> dn_volumes dn v \<noteq> None}"

definition held :: "Topology \<Rightarrow> u32 set" where
  "held t = {v. holders t v \<noteq> {}}"

definition reservations :: "Topology \<Rightarrow> nat \<Rightarrow> (string \<Rightarrow> int) option" where
  "reservations t a = map_option dn_reservations (tp_heap t a)"

lemma same_heap:
  "tp_heap t' = tp_heap t \<Longrightarrow> holders t' = holders t \<and> held t' = held t \<and> reservations t' = reservations t \<and> nodes_ok t' = nodes_ok t"
  by (simp add: holders_def fun_eq_iff held_def reservations_def nodes_ok_def)

lemma reservations_add [simp]: "dn_reservations (AddOrUpdateVolume vi dn) = dn_reservations dn"
  by (simp add: AddOrUpdateVolume_def add_to_disk_def Let_def split: option.splits)

lemma grown_holders:
  assumes "grown vid c rp cands t t'" "nodes_ok t" "vid \<notin> held t"
  shows "nodes_ok t'" "reservations t' = reservations t" "v \<noteq> vid \<Longrightarrow> holders t' v = holders t v"
    "card (holders t' vid) = TotalCopies rp" "held t' = insert vid (held t)"
proof -
  obtain rs where rs: "length rs = TotalCopies rp" "distinct (map fst rs)"
      "\<And>a d. (a, d) \<in> set rs \<Longrightarrow> \<exists>dn. tp_heap t a = Some dn"
      "tp_heap t' = tp_heap (on_nodes (\<lambda>d. AddOrUpdateVolume (new_volume vid c rp d)) rs t)"
    using assms(1) unfolding grown_def by fast
  note h = heap_on_nodes [OF rs(2), of "\<lambda>d. AddOrUpdateVolume (new_volume vid c rp d)" t, folded rs(4)]
  show "nodes_ok t'" using assms(2) unfolding nodes_ok_def h by (auto simp: counts_ok_AddOrUpdateVolume split: option.splits)
  show "reservations t' = reservations t" unfolding reservations_def h
    by (rule ext) (auto simp: option.map_comp comp_def split: option.splits)
  have other: "holders t' v = holders t v" if "v \<noteq> vid" for v
    unfolding holders_def h using that by (auto split: option.splits)
  then show "v \<noteq> vid \<Longrightarrow> holders t' v = holders t v" .
  have none: "dn_volumes dn vid = None" if "tp_heap t a = Some dn" for a dn using assms(3) that by (auto simp: held_def holders_def)
  have "holders t' vid = set (map fst rs)"
  proof (intro set_eqI)
    fix a
    show "a \<in> holders t' vid \<longleftrightarrow> a \<in> set (map fst rs)"
    proof (cases "map_of rs a")
      case None
      then have "a \<notin> set (map fst rs)" by (simp add: map_of_eq_None_iff)
      then show ?thesis using none [of a] None by (auto simp: holders_def h)
    next
      case (Some d)
      then have "(a, d) \<in> set rs" by (rule map_of_SomeD)
      then show ?thesis using Some rs(3) by (force simp: holders_def h)
    qed
  qed
  then show card: "card (holders t' vid) = TotalCopies rp" using distinct_card [OF rs(2)] rs(1) by simp
  then have "holders t' vid \<noteq> {}" by (auto simp: TotalCopies_def)
  then have "v \<in> held t' \<longleftrightarrow> v = vid \<or> v \<in> held t" for v using other [of v] by (cases "v = vid") (simp_all add: held_def)
  then show "held t' = insert vid (held t)" by blast
qed

definition full_growth :: "ReplicaPlacement \<Rightarrow> nat \<Rightarrow> Topology \<Rightarrow> Topology \<Rightarrow> bool" where
  "full_growth rp n t t' \<longleftrightarrow>
     reservations t' = reservations t \<and> (\<forall>v \<in> held t. holders t' v = holders t v) \<and>
     card (held t' - held t) = n \<and> (\<forall>v \<in> held t' - held t. card (holders t' v) = TotalCopies rp)"

lemma full_growth_none: "tp_heap t' = tp_heap t \<Longrightarrow> full_growth rp 0 t t'"
  using same_heap [of t' t] by (simp add: full_growth_def)

lemma full_growth_step:
  assumes "grown vid c rp cands t t1" "nodes_ok t" "vid \<notin> held t" "full_growth rp n t1 t'"
  shows "full_growth rp (Suc n) t t'"
proof -
  note G = grown_holders [OF assms(1-3)] and F = assms(4) [unfolded full_growth_def]
  have old: "\<forall>v \<in> held t. holders t' v = holders t v" using F G(3,5) assms(3) by (metis insert_iff)
  have vid: "holders t' vid = holders t1 vid" using F G(5) by simp
  then have "vid \<in> held t'" using G(5) by (auto simp: held_def)
  then have new: "held t' - held t = insert vid (held t' - held t1)" using G(5) assms(3) by blast
  have "vid \<notin> held t' - held t1" using G(5) by simp
  then have "card (held t' - held t) = Suc n" using F unfolding new by (simp add: card_insert_if)
  moreover have "\<forall>v \<in> held t' - held t. card (holders t' v) = TotalCopies rp" using F G(4) vid unfolding new by simp
  ultimately show ?thesis using old F G(2) by (simp add: full_growth_def)
qed

lemma grow_loop_effect:
  assumes "grow_loop dts rpc persist c rp dt cands k created t = ((created', err), t')"
    and "nodes_ok t" "ids_below t (held t)" "unat (tp_nextVolumeId t) + k < 2 ^ 32"
    and cands: "ids_distinct cands" "distinct (map cd_addr cands)" and persist: "keeps persist"
  shows "\<exists>n. created' = created + n \<and> full_growth rp n t t' \<and> (err = None \<longrightarrow> n = k)"
  using assms(1-4)
proof (induction k arbitrary: created t)
  case 0
  then show ?case by (simp add: full_growth_none)
next
  case (Suc k)
  obtain r t1 where g: "grow_once dts rpc persist c rp dt cands t = (r, t1)" by fastforce
  obtain v t2 where n: "NextVolumeId t = (v, t2)" by fastforce
  have nw: "tp_nextVolumeId t \<noteq> - 1" using Suc.prems(4) by (auto simp: unsigned_minus_1_eq_mask mask_eq_exp_minus_1)
  have v: "v \<notin> held t" "ids_below t2 (insert v (held t))" using ids_below_next [OF Suc.prems(3) nw n] by simp_all
  have "\<forall>a dn. tp_heap t a = Some dn \<longrightarrow> dn_volumes dn (fst (NextVolumeId t)) = None"
    using v(1) n by (auto simp: held_def holders_def)
  note E = grow_once_effect [OF g Suc.prems(2) cands persist this]
  show ?case
  proof (cases r)
    case (Inl e)
    then show ?thesis using Suc.prems(1) g E by (auto simp: full_growth_none)
  next
    case (Inr vid)
    then have vid: "vid = v" "tp_nextVolumeId t1 = tp_nextVolumeId t2" "grown v c rp cands t t1" using E n by auto
    note G = grown_holders [OF vid(3) Suc.prems(2) v(1)]
    have "tp_nextVolumeId t2 = v + 1" "v = tp_nextVolumeId t" using n Suc.prems(3) by (auto simp: NextVolumeId_def Let_def ids_below_def)
    then have "unat (tp_nextVolumeId t1) = unat (tp_nextVolumeId t) + 1" using word32_succ [OF nw] vid(2) by simp
    moreover have "ids_below t1 (held t1)" using v(2) vid(2) by (simp add: G(5) ids_below_def)
    moreover have "grow_loop dts rpc persist c rp dt cands k (created + 1) t1 = ((created', err), t')" using Suc.prems(1) g Inr by simp
    ultimately obtain n where "created' = created + 1 + n" "full_growth rp n t1 t'" "err = None \<longrightarrow> n = k"
      using Suc.IH [OF _ G(1)] Suc.prems(4) by fastforce
    then show ?thesis using full_growth_step [OF vid(3) Suc.prems(2) v(1)] by (intro exI [of _ "Suc n"]) auto
  qed
qed

lemma map_filter_key:
  assumes "\<And>a n. f a = Some n \<Longrightarrow> g n = a"
  shows "g ` set (List.map_filter f xs) \<subseteq> set xs" "distinct xs \<Longrightarrow> distinct (map g (List.map_filter f xs))"
proof -
  have sub: "g ` set (List.map_filter f xs) \<subseteq> set xs" for xs
    using assms by (induction xs) (auto simp: map_filter_simps split: option.splits)
  then show "g ` set (List.map_filter f xs) \<subseteq> set xs" .
  show "distinct xs \<Longrightarrow> distinct (map g (List.map_filter f xs))"
  proof (induction xs)
    case (Cons x xs)
    then show ?case using sub [of xs] assms [of x] by (auto simp: map_filter_simps split: option.splits)
  qed (simp add: map_filter_simps)
qed

lemma candidates_distinct:
  assumes "distinct order" "\<And>a b dn dm. \<lbrakk>a \<in> set order; b \<in> set order; tp_heap t a = Some dn; tp_heap t b = Some dm; dn_id dn = dn_id dm\<rbrakk> \<Longrightarrow> a = b"
    and "cands = AllocateVolumeCandidates dts now order dt t"
  shows "ids_distinct cands" "distinct (map cd_addr cands)"
proof -
  define f where "f = (\<lambda>a. case tp_heap t a of
        None \<Rightarrow> None
      | Some dn \<Rightarrow>
          if \<not> IsAlive now (dn_lastSeen dn) \<or> \<not> HasFreeSlot (filter (\<lambda>d. dn_disks dn d \<noteq> None) dts) dt dn then None
          else Some (candidate_of a dn))"
  have f: "\<exists>dn. tp_heap t a = Some dn \<and> n = candidate_of a dn" if "f a = Some n" for a n
    using that by (auto simp: f_def split: option.splits if_splits)
  then have g: "cd_addr n = a" if "f a = Some n" for a n using that by (fastforce simp: candidate_of_def)
  let ?F = "List.map_filter f order"
  note M = map_filter_key [of f cd_addr, OF g]
  have F: "\<exists>dn. cd_addr n \<in> set order \<and> tp_heap t (cd_addr n) = Some dn \<and> n = candidate_of (cd_addr n) dn" if n: "n \<in> set ?F" for n
  proof -
    obtain a where "f a = Some n" using n by (auto simp: List.map_filter_def)
    then show ?thesis using f g M(1) [of order] n by blast
  qed
  have addr: "distinct (map cd_addr ?F)" using M(2) assms(1) by blast
  have "inj_on cd_id (set ?F)"
  proof (rule inj_onI)
    fix n m
    assume nm: "n \<in> set ?F" "m \<in> set ?F" "cd_id n = cd_id m"
    obtain dn dm where "tp_heap t (cd_addr n) = Some dn" "n = candidate_of (cd_addr n) dn" "cd_addr n \<in> set order"
      "tp_heap t (cd_addr m) = Some dm" "m = candidate_of (cd_addr m) dm" "cd_addr m \<in> set order" using F nm by blast
    moreover from this have "dn_id dn = dn_id dm" using nm(3) by (metis Candidate.select_convs(2) candidate_of_def)
    ultimately show "n = m" using assms(2) by (metis option.inject)
  qed
  then show "ids_distinct cands" "distinct (map cd_addr cands)"
    using addr unfolding assms(3) AllocateVolumeCandidates_def f_def [symmetric] by (simp_all add: distinct_map)
qed

text \<open>C5: growth is all or nothing for every volume. Whatever the volume servers answer and wherever
  \<open>CheckAndGrow\<close> stops, no reservation is left behind, the volumes that existed are where they were, and
  there are exactly as many new volumes as it reports, each recorded on as many distinct servers as its
  placement has copies; without an error it made all it was asked for, or none because none was needed.
  Reported servers have distinct ids, their counters are exact, ids in use are below the next id, the
  ids do not run out, and persisting an id changes no server.\<close>

theorem CheckAndGrow_all_or_nothing:
  assumes "CheckAndGrow dts rpc persist now order c rp ttl dt count t = ((created, err), t')"
    and "nodes_ok t" "ids_below t (held t)" "unat (tp_nextVolumeId t) + nat count < 2 ^ 32" "keeps persist"
    and "distinct order" "\<And>a b dn dm. \<lbrakk>a \<in> set order; b \<in> set order; tp_heap t a = Some dn; tp_heap t b = Some dm; dn_id dn = dn_id dm\<rbrakk> \<Longrightarrow> a = b"
  shows "reservations t' = reservations t \<and> (\<forall>v \<in> held t. holders t' v = holders t v) \<and>
    card (held t' - held t) = created \<and> (\<forall>v \<in> held t' - held t. card (holders t' v) = TotalCopies rp) \<and>
    (err = None \<longrightarrow> created = 0 \<or> created = nat count)"
proof -
  define l where "l = (tp_layouts t)(makeKey c (ReplicaPlacement_String rp) ttl dt \<mapsto> GetOrCreateLayout c (ReplicaPlacement_String rp) ttl dt (tp_layouts t))"
  define t1 where "t1 = t\<lparr>tp_layouts := l\<rparr>"
  note same = same_heap [of t1 t] full_growth_none [of t1 t rp] full_growth_none [of t t rp]
  have same1: "tp_heap t1 = tp_heap t" "tp_nextVolumeId t1 = tp_nextVolumeId t" by (simp_all add: t1_def)
  define cands where "cands = AllocateVolumeCandidates dts now order dt t1"
  have d: "ids_distinct cands" "distinct (map cd_addr cands)"
    using candidates_distinct [OF assms(6), of t1 cands] assms(7) by (auto simp: same1 cands_def)
  consider (none) "created = 0" "tp_heap t' = tp_heap t"
    | (loop) "grow_loop dts rpc persist c rp dt cands (nat count) 0 t1 = ((created, err), t')"
    using assms(1) same1(1) unfolding CheckAndGrow_def Let_def l_def [symmetric] t1_def [symmetric] cands_def [symmetric]
    by (auto split: if_splits)
  then show ?thesis
  proof cases
    case none
    then show ?thesis using full_growth_none [OF none(2), of rp] by (simp add: full_growth_def)
  next
    case loop
    then obtain n where "created = n" "full_growth rp n t1 t'" "err = None \<longrightarrow> n = nat count"
      using grow_loop_effect [OF loop _ _ _ d assms(5)] assms(2-4) same(1) same1 by (auto simp: ids_below_def)
    then show ?thesis using same(1) same1 by (simp add: full_growth_def)
  qed
qed

definition sample_node :: "string \<Rightarrow> DataNode" where
  "sample_node i = set_disk ''ssd'' NewDiskInfo (NewDataNode 0 ''d'' ''r'' i)"

definition sample_topology :: Topology where
  "sample_topology = NewTopology\<lparr>tp_heap := [0 \<mapsto> sample_node ''a'', 2 \<mapsto> sample_node ''b'']\<rparr>"

lemma sample_node_simps:
  "dn_id (sample_node i) = i" "dn_dc (sample_node i) = ''d''" "dn_rack (sample_node i) = ''r''" "dn_lastSeen (sample_node i) = 0"
  "dn_disks (sample_node i) = [''ssd'' \<mapsto> NewDiskInfo]" "dn_volumes (sample_node i) = (\<lambda>_. None)" "dn_reservations (sample_node i) = (\<lambda>_. 0)"
  by (simp_all add: sample_node_def NewDataNode_def set_disk_def)

lemma sample_node_ok: "counts_ok (sample_node i)"
  by (simp add: counts_ok_def sample_node_simps on_disk_def NewDiskInfo_def)

lemma sample_heap: "tp_heap sample_topology a = Some dn \<Longrightarrow> dn = sample_node ''a'' \<and> a = 0 \<or> dn = sample_node ''b'' \<and> a = 2"
  by (auto simp: sample_topology_def split: if_splits)

definition sample_cands :: "Candidate list" where
  "sample_cands = [candidate_of 0 (sample_node ''a''), candidate_of 2 (sample_node ''b'')]"

definition sample_rp :: ReplicaPlacement where
  "sample_rp = \<lparr>DifferentDataCenterCount = 0, DifferentRackCount = 0, SameRackCount = 1\<rparr>"

lemma sample_rp_copies: "TotalCopies sample_rp = 2"
  by (simp add: sample_rp_def TotalCopies_def)

lemma sample_candidates_eq:
  assumes "tp_heap t = tp_heap sample_topology"
  shows "AllocateVolumeCandidates [''ssd''] 1 [2, 0] ''ssd'' t = sample_cands"
  by (simp add: AllocateVolumeCandidates_def assms sample_topology_def map_filter_simps sample_node_simps IsAlive_def alive_for_def
      HasFreeSlot_def disk_has_room_def NewDiskInfo_def candidate_of_def sample_cands_def)

lemma sample_select:
  "selectNodesForReplica sample_rp
     sample_cands = sample_cands"
  by (simp add: selectNodesForReplica_def TotalCopies_def used_def candidate_of_def sample_node_simps sample_cands_def sample_rp_def)

lemma sample_grow_once:
  assumes "tp_heap t = tp_heap sample_topology"
  shows "\<exists>v t'. grow_once [''ssd''] (\<lambda>_ _. True) (\<lambda>_ t. (True, t)) [] sample_rp ''ssd''
     sample_cands t = (Inr v, t')"
proof -
  have r: "ReserveSlot ''ssd'' (sample_node i) = (True, slot ''ssd'' (sample_node i))" for i
    by (simp add: ReserveSlot_def slot_def sample_node_simps NewDiskInfo_def)
  have len: "length sample_cands = 2" and addrs: "map cd_addr sample_cands = [0, 2]"
    by (simp_all add: sample_cands_def candidate_of_def)
  show ?thesis
    unfolding grow_once_def Let_def sample_select addrs len sample_rp_copies
    by (simp add: reserveCapacity_def assms sample_topology_def r AllocateNextVolumeId_def NextVolumeId_def allocateVolumeOnNode_def Let_def)
qed

theorem CheckAndGrow_all_or_nothing_witness:
  "let r = CheckAndGrow [''ssd''] (\<lambda>_ _. True) (\<lambda>_ t. (True, t)) 1 [2, 0] [] sample_rp [] ''ssd'' 1 sample_topology
   in fst r = (1, None) \<and> card (held (snd r)) = 1 \<and> (\<forall>v \<in> held (snd r). card (holders (snd r) v) = 2)"
proof -
  define r where "r = CheckAndGrow [''ssd''] (\<lambda>_ _. True) (\<lambda>_ t. (True, t)) 1 [2, 0] [] sample_rp [] ''ssd'' 1 sample_topology"
  have f: "fst r = (1, None)"
  proof -
    define t where "t l = sample_topology\<lparr>tp_layouts := l\<rparr>" for l
    have h: "tp_heap (t l) = tp_heap sample_topology" for l by (simp add: t_def)
    have n: "nat 1 = Suc 0" by simp
    have "tp_layouts sample_topology = (\<lambda>_. None)" by (simp add: sample_topology_def NewTopology_def)
    then have "shouldGrowVolumes (GetOrCreateLayout [] q [] ''ssd'' (tp_layouts sample_topology))" for q
      by (simp add: shouldGrowVolumes_def GetOrCreateLayout_def NewVolumeLayout_def volume_count_def)
    moreover have "length sample_cands = 2" by (simp add: sample_cands_def)
    moreover have "fst (grow_loop [''ssd''] (\<lambda>_ _. True) (\<lambda>_ t. (True, t)) [] sample_rp ''ssd'' sample_cands (Suc 0) 0 (t l)) = (1, None)" for l
      using sample_grow_once [OF h, of l] by auto
    ultimately show ?thesis
      unfolding r_def CheckAndGrow_def Let_def t_def [symmetric] n sample_candidates_eq [OF h] sample_rp_copies by simp
  qed
  have held: "held sample_topology = {}" by (auto simp: held_def holders_def sample_node_simps dest!: sample_heap)
  have ok: "nodes_ok sample_topology" unfolding nodes_ok_def using sample_heap sample_node_ok by blast
  have names: "a = b" if "tp_heap sample_topology a = Some dn" "tp_heap sample_topology b = Some dm" "dn_id dn = dn_id dm" for a b dn dm
    using sample_heap [OF that(1)] sample_heap [OF that(2)] that(3) by (auto simp: sample_node_simps)
  have next1: "tp_nextVolumeId sample_topology = 1" by (simp add: sample_topology_def NewTopology_def)
  have k: "keeps (\<lambda>_ t. (True, t))" by (simp add: keeps_def)
  have "r = ((1, None), snd r)" using f by (metis prod.collapse)
  from CheckAndGrow_all_or_nothing [OF this [unfolded r_def] ok _ _ k _ names] show ?thesis
    using f held next1 sample_rp_copies unfolding Let_def r_def [symmetric] by (simp add: ids_below_def)
qed

end
