(* ===== verification/VolumeStore.thy ===== *)
theory VolumeStore
  imports Volume "HOL-Library.AList"
begin

text \<open>
  The volumes of a volume server: a directory of volumes (src/goblob/storage/volume/disk_location.go) and
  the store over several directories (src/goblob/storage/store.go). The map of a location is an association
  list with distinct keys. What the operating system says of a directory, its entries in order, the files
  below it and the size of its device, is an argument.
\<close>

section \<open>Disk locations\<close>

record DiskLocation =
  dl_directory :: string
  dl_maxVolumeCount :: int
  dl_volumes :: "(VolumeId \<times> Volume) list"
  dl_usedSize :: u64
  dl_maxSize :: u64
  dl_isReadOnly :: bool

definition has_suffix :: "string \<Rightarrow> string \<Rightarrow> bool" where
  "has_suffix s p \<longleftrightarrow> length p \<le> length s \<and> drop (length s - length p) s = p"

text \<open>The files found by walking a directory are given by their paths.\<close>

definition calculateUsedSize :: "fsys \<Rightarrow> string list \<Rightarrow> u64" where
  "calculateUsedSize s walk =
     fold (\<lambda>p total. if has_suffix p ''.dat'' \<or> has_suffix p ''.idx''
                      then total + of_nat (case fs_files s p of None \<Rightarrow> 0 | Some c \<Rightarrow> length c) else total) walk 0"

datatype store_err = StNoDirectory string | StNoSpace | StNotFound | StReadOnly | StVolume volume_error

definition NewDiskLocation :: "fsys \<Rightarrow> string list \<Rightarrow> u64 option \<Rightarrow> string \<Rightarrow> int \<Rightarrow> store_err + DiskLocation" where
  "NewDiskLocation s walk diskSize directory maxVolumeCount =
     (case diskSize of
        None \<Rightarrow> Inl (StNoDirectory directory)
      | Some sz \<Rightarrow>
          Inr \<lparr>dl_directory = directory, dl_maxVolumeCount = maxVolumeCount, dl_volumes = [], dl_usedSize = calculateUsedSize s walk,
               dl_maxSize = sz, dl_isReadOnly = False\<rparr>)"

definition dl_GetVolume :: "VolumeId \<Rightarrow> DiskLocation \<Rightarrow> Volume option" where
  "dl_GetVolume vid dl = map_of (dl_volumes dl) vid"

definition AddVolumeObject :: "Volume \<Rightarrow> DiskLocation \<Rightarrow> DiskLocation" where
  "AddVolumeObject v dl = dl\<lparr>dl_volumes := AList.update (v_id v) v (dl_volumes dl)\<rparr>"

definition volume_id_of :: "string \<Rightarrow> VolumeId option" where
  "volume_id_of name =
     (if \<not> has_suffix name ''.dat'' then None
      else map_option of_nat (parse_uint (take (length name - 4) name) 10 32))"

fun load_names :: "string \<Rightarrow> NeedleVersion \<Rightarrow> string list \<Rightarrow> DiskLocation \<Rightarrow> fsys \<Rightarrow> (store_err + unit) \<times> DiskLocation \<times> fsys" where
  "load_names collection version [] dl s = (Inr (), dl, s)"
| "load_names collection version (name # names) dl s =
     (case volume_id_of name of
        None \<Rightarrow> load_names collection version names dl s
      | Some vid \<Rightarrow>
          if dl_GetVolume vid dl \<noteq> None then load_names collection version names dl s
          else case NewVolume s (dl_directory dl) collection vid version of
            (Inl e, s1) \<Rightarrow> (Inl (StVolume e), dl, s1)
          | (Inr v, s1) \<Rightarrow> load_names collection version names (AddVolumeObject v dl) s1)"

text \<open>\<open>names\<close> are the entries of the directory that are not directories.\<close>

definition LoadExistingVolumes ::
  "string list \<Rightarrow> string \<Rightarrow> NeedleVersion \<Rightarrow> DiskLocation \<Rightarrow> fsys \<Rightarrow> (store_err + unit) \<times> DiskLocation \<times> fsys" where
  "LoadExistingVolumes names collection version dl s = load_names collection version names dl s"

definition AvailableVolumeCount :: "DiskLocation \<Rightarrow> int" where
  "AvailableVolumeCount dl = dl_maxVolumeCount dl - int (length (dl_volumes dl))"

definition HasSpace :: "DiskLocation \<Rightarrow> bool" where
  "HasSpace dl =
     (if dl_maxVolumeCount dl > 0 \<and> int (length (dl_volumes dl)) \<ge> dl_maxVolumeCount dl then False
      else if dl_maxSize dl = 0 then True
      else sint (dl_maxSize dl - dl_usedSize dl) \<ge> 1 * 1024 * 1024 * 1024)"

definition SetReadOnly :: "bool \<Rightarrow> DiskLocation \<Rightarrow> DiskLocation" where
  "SetReadOnly b dl = dl\<lparr>dl_isReadOnly := b\<rparr>"

definition FreeSpace :: "DiskLocation \<Rightarrow> u64" where
  "FreeSpace dl =
     (if dl_maxSize dl = 0 then 100 * 1024 * 1024 * 1024
      else if dl_maxSize dl \<le> dl_usedSize dl then 0
      else dl_maxSize dl - dl_usedSize dl)"

definition VolumeExists :: "VolumeId \<Rightarrow> DiskLocation \<Rightarrow> fsys \<Rightarrow> bool" where
  "VolumeExists vid dl s = fs_exists s (DataFileName (dl_directory dl) vid)"

definition dl_DeleteVolume :: "string list \<Rightarrow> VolumeId \<Rightarrow> DiskLocation \<Rightarrow> fsys \<Rightarrow> (store_err + unit) \<times> DiskLocation \<times> fsys" where
  "dl_DeleteVolume walk vid dl s =
     (if dl_isReadOnly dl then (Inl StReadOnly, dl, s)
      else let s1 = os_Remove (os_Remove s (DataFileName (dl_directory dl) vid)) (IndexFileName (dl_directory dl) vid) in
        (Inr (), dl\<lparr>dl_volumes := AList.delete vid (dl_volumes dl), dl_usedSize := calculateUsedSize s1 walk\<rparr>, s1))"

text \<open>The ids in the order of the map, exchanged until they ascend.\<close>

function exchange_from :: "nat \<Rightarrow> nat \<Rightarrow> 'a :: linorder list \<Rightarrow> 'a list" where
  "exchange_from i j ids =
     (if j < length ids then exchange_from i (j + 1) (if ids ! i > ids ! j then ids[i := ids ! j, j := ids ! i] else ids) else ids)"
  by auto

termination exchange_from
  by (relation "measure (\<lambda>(i, j, ids). length ids - j)") auto

function exchange_sort :: "nat \<Rightarrow> 'a :: linorder list \<Rightarrow> 'a list" where
  "exchange_sort i ids = (if i < length ids then exchange_sort (i + 1) (exchange_from i (i + 1) ids) else ids)"
  by auto

declare exchange_from.simps [simp del]

lemma length_exchange_from [simp]: "length (exchange_from i j ids) = length ids"
  by (induction i j ids rule: exchange_from.induct) (subst exchange_from.simps, simp)

termination exchange_sort
  by (relation "measure (\<lambda>(i, ids). length ids - i)") auto

declare exchange_sort.simps [simp del]

definition GetVolumes :: "DiskLocation \<Rightarrow> VolumeId list" where
  "GetVolumes dl = exchange_sort 0 (map fst (dl_volumes dl))"

definition dl_Close :: "DiskLocation \<Rightarrow> DiskLocation" where
  "dl_Close dl = dl\<lparr>dl_volumes := []\<rparr>"

section \<open>The store\<close>

type_synonym VStore = "DiskLocation list"

fun store_GetVolume :: "VolumeId \<Rightarrow> VStore \<Rightarrow> Volume option" where
  "store_GetVolume vid [] = None"
| "store_GetVolume vid (dl # dls) = (case dl_GetVolume vid dl of Some v \<Rightarrow> Some v | None \<Rightarrow> store_GetVolume vid dls)"

text \<open>The first of the locations with space that have the most room for volumes.\<close>

definition best_location :: "VStore \<Rightarrow> nat option" where
  "best_location st =
     fold (\<lambda>i best. if \<not> HasSpace (st ! i) then best
        else case best of None \<Rightarrow> Some i
             | Some b \<Rightarrow> if AvailableVolumeCount (st ! i) > AvailableVolumeCount (st ! b) then Some i else best) [0..<length st] None"

definition AllocateVolume ::
  "VolumeId \<Rightarrow> string \<Rightarrow> NeedleVersion \<Rightarrow> VStore \<Rightarrow> fsys \<Rightarrow> (store_err + unit) \<times> VStore \<times> fsys" where
  "AllocateVolume vid collection ver st s =
     (case best_location st of
        None \<Rightarrow> (Inl StNoSpace, st, s)
      | Some i \<Rightarrow>
          (case NewVolume s (dl_directory (st ! i)) collection vid ver of
             (Inl e, s1) \<Rightarrow> (Inl (StVolume e), st, s1)
           | (Inr v, s1) \<Rightarrow> (Inr (), st[i := AddVolumeObject v (st ! i)], s1)))"

text \<open>The volumes are objects that the map points to: an operation on a volume changes it in place.\<close>

fun put_volume :: "VolumeId \<Rightarrow> Volume \<Rightarrow> VStore \<Rightarrow> VStore" where
  "put_volume vid v [] = []"
| "put_volume vid v (dl # dls) =
     (if dl_GetVolume vid dl \<noteq> None then dl\<lparr>dl_volumes := AList.update vid v (dl_volumes dl)\<rparr> # dls
      else dl # put_volume vid v dls)"

text \<open>Writing sets fields of the needle, which the caller keeps.\<close>

definition WriteVolumeNeedle :: "VolumeId \<Rightarrow> Needle \<Rightarrow> VStore \<Rightarrow> fsys \<Rightarrow> (store_err + Offset \<times> u32) \<times> VStore \<times> fsys \<times> Needle" where
  "WriteVolumeNeedle vid n st s =
     (case store_GetVolume vid st of
        None \<Rightarrow> (Inl StNotFound, st, s, n)
      | Some v \<Rightarrow>
          (case WriteNeedle s v n of (r, s1, v1, n1) \<Rightarrow>
             (case r of Inl e \<Rightarrow> Inl (StVolume e) | Inr x \<Rightarrow> Inr x, put_volume vid v1 st, s1, n1)))"

definition ReadVolumeNeedle :: "VolumeId \<Rightarrow> FileId \<Rightarrow> VStore \<Rightarrow> fsys \<Rightarrow> store_err + Needle" where
  "ReadVolumeNeedle vid fid st s =
     (case store_GetVolume vid st of
        None \<Rightarrow> Inl StNotFound
      | Some v \<Rightarrow> (case ReadNeedleByFileId s v fid of Inl e \<Rightarrow> Inl (StVolume e) | Inr n \<Rightarrow> Inr n))"

definition DeleteVolumeNeedle :: "VolumeId \<Rightarrow> NeedleId \<Rightarrow> VStore \<Rightarrow> fsys \<Rightarrow> (store_err + unit) \<times> VStore \<times> fsys" where
  "DeleteVolumeNeedle vid nid st s =
     (case store_GetVolume vid st of
        None \<Rightarrow> (Inl StNotFound, st, s)
      | Some v \<Rightarrow>
          (case DeleteNeedle s v nid of (r, s1, v1) \<Rightarrow>
             (case r of Inl e \<Rightarrow> Inl (StVolume e) | Inr x \<Rightarrow> Inr x, put_volume vid v1 st, s1)))"

definition store_Close :: "VStore \<Rightarrow> VStore" where
  "store_Close st = map dl_Close st"

text \<open>\<open>ls\<close> gives the entries of a directory in the state of the file system it is asked in.\<close>

fun ReloadExistingVolumes ::
  "(string \<Rightarrow> fsys \<Rightarrow> string list) \<Rightarrow> string \<Rightarrow> NeedleVersion \<Rightarrow> VStore \<Rightarrow> fsys \<Rightarrow> (store_err + unit) \<times> VStore \<times> fsys" where
  "ReloadExistingVolumes ls collection version [] s = (Inr (), [], s)"
| "ReloadExistingVolumes ls collection version (dl # dls) s =
     (case LoadExistingVolumes (ls (dl_directory dl) s) collection version dl s of
        (Inl e, dl1, s1) \<Rightarrow> (Inl e, dl1 # dls, s1)
      | (Inr _, dl1, s1) \<Rightarrow>
          (case ReloadExistingVolumes ls collection version dls s1 of (r, dls1, s2) \<Rightarrow> (r, dl1 # dls1, s2)))"

text \<open>A configured directory with its number of volumes; the store is lost when one of them fails.\<close>

fun NewStore ::
  "(string \<Rightarrow> fsys \<Rightarrow> string list) \<Rightarrow> (string \<Rightarrow> fsys \<Rightarrow> string list) \<Rightarrow> (string \<Rightarrow> u64 option) \<Rightarrow> NeedleVersion \<Rightarrow> (string \<times> int) list \<Rightarrow> VStore \<Rightarrow> fsys \<Rightarrow>
   (store_err + VStore) \<times> fsys" where
  "NewStore ls walk diskSize version [] st s = (Inr st, s)"
| "NewStore ls walk diskSize version ((dir, maxVol) # dirs) st s =
     (case NewDiskLocation s (walk dir s) (diskSize dir) dir (if maxVol \<le> 0 then 8 else maxVol) of
        Inl e \<Rightarrow> (Inl e, s)
      | Inr dl \<Rightarrow>
          (case LoadExistingVolumes (ls dir s) [] version dl s of
             (Inl e, _, s1) \<Rightarrow> (Inl e, s1)
           | (Inr _, dl1, s1) \<Rightarrow> NewStore ls walk diskSize version dirs (st @ [dl1]) s1))"

end
