(* ===== verification/VolumeStoreProps.thy ===== *)
theory VolumeStoreProps
  imports VolumeStore VolumeTraces "HOL-Library.Multiset"
begin

text \<open>
  The store of volumes as a map from volume ids to maps of needles: what its operations do to one volume,
  that they leave the others alone, and that a store opened again on the same directories is the same.
\<close>

section \<open>Files of different volumes\<close>

lemma join_path_inj:
  assumes "filepath_Join d x = filepath_Join d' x'" "CHR ''/'' \<notin> set x" "CHR ''/'' \<notin> set x'"
  shows "d = d' \<and> x = x'"
proof -
  have last: "rev (takeWhile (\<lambda>c. c \<noteq> CHR ''/'') (rev (filepath_Join e y))) = y" if "CHR ''/'' \<notin> set y" for e y
    using that by (subst filepath_Join_def, simp, subst takeWhile_append2) auto
  have "x = x'" using last [OF assms(2), of d] last [OF assms(3), of d'] unfolding assms(1) by simp
  then show ?thesis using assms(1) by (simp add: filepath_Join_def)
qed

lemma format_no_slash: "CHR ''/'' \<notin> set (format_uint 10 n)"
proof
  assume "CHR ''/'' \<in> set (format_uint 10 n)"
  then show False using format_uint_digit [of 10 "CHR ''/''" n] by (simp add: char_digit_def)
qed

lemma format_inj: "format_uint 10 (unat (i :: VolumeId)) = format_uint 10 (unat j) \<Longrightarrow> i = j"
proof -
  assume "format_uint 10 (unat i) = format_uint 10 (unat j)"
  then have "parse_uint (format_uint 10 (unat i)) 10 32 = parse_uint (format_uint 10 (unat j)) 10 32" by simp
  then have "unat i = unat j" using unat_bound [of i] unat_bound [of j] by (simp add: parse_uint_format)
  then show "i = j" by (rule word_unat_eq_iff [THEN iffD2])
qed

lemma volume_file_names:
  "DataFileName d i = DataFileName d' i' \<longleftrightarrow> d = d' \<and> i = i'" "IndexFileName d i = IndexFileName d' i' \<longleftrightarrow> d = d' \<and> i = i'"
  "DataFileName d i \<noteq> IndexFileName d' i'"
  using join_path_inj [of d "format_uint 10 (unat i) @ ''.dat''" d' "format_uint 10 (unat i') @ ''.dat''"]
    join_path_inj [of d "format_uint 10 (unat i) @ ''.idx''" d' "format_uint 10 (unat i') @ ''.idx''"]
    join_path_inj [of d "format_uint 10 (unat i) @ ''.dat''" d' "format_uint 10 (unat i') @ ''.idx''"]
    format_no_slash [of "unat i"] format_no_slash [of "unat i'"] format_inj [of i i']
  by (auto simp: DataFileName_def IndexFileName_def)

definition files_of :: "string \<Rightarrow> VolumeId \<Rightarrow> string set" where
  "files_of dir vid = {DataFileName dir vid, IndexFileName dir vid}"

lemma files_disjoint: "p \<in> files_of d i \<Longrightarrow> i \<noteq> i' \<Longrightarrow> p \<notin> files_of d' i'"
  using volume_file_names by (auto simp: files_of_def) metis

section \<open>Frames\<close>

lemma vol_ok_frame:
  assumes "vol_ok s v A" "\<And>p. p \<in> files_of (v_dir v) (v_id v) \<Longrightarrow> fs_files s' p = fs_files s p"
  shows "vol_ok s' v A"
  using assms
  by (auto simp: vol_ok_def readable_def vol_files_def idx_synced_def idx_open_def at_end_def file_content_def files_of_def)

lemma appendEntry_frame:
  "appendEntry s db key off sz = (r, s', db') \<Longrightarrow> (\<And>f. db_file db = Some f \<Longrightarrow> q \<noteq> f_name f) \<Longrightarrow> fs_files s' q = fs_files s q"
  by (auto simp: appendEntry_def file_write_def write_at_def Let_def split: option.splits prod.splits)

lemma MemDb_Delete_frame:
  assumes "MemDb_Delete s db k = (r, s', db')" "\<And>f. db_file db = Some f \<Longrightarrow> q \<noteq> f_name f"
  shows "fs_files s' q = fs_files s q"
proof -
  have *: "fs_files s' q = fs_files s q" if "appendEntry s db1 k off sz = (r, s', db')" "db_file db1 = db_file db" for db1 off sz
    using appendEntry_frame [OF that(1)] assms(2) that(2) by simp
  show ?thesis using assms(1) by (auto simp: MemDb_Delete_def Let_def split: option.splits if_splits dest!: *)
qed

lemma WriteNeedle_other_files:
  assumes ok: "vol_ok s v A" and wf: "needle_wf n" and run: "WriteNeedle s v n = (r, s', v', n')" and p: "p \<notin> files_of (v_dir v) (v_id v)"
  shows "fs_files s' p = fs_files s p"
proof (cases "v_ReadOnly v \<or> v_noWriteOrDelete v")
  case True
  then show ?thesis using run by (auto simp: WriteNeedle_def split: if_splits)
next
  case False
  let ?dat = "DataFileName (v_dir v) (v_id v)" and ?idx = "IndexFileName (v_dir v) (v_id v)"
  obtain c db where vf: "vol_files s v c" and db: "v_nm v = Some db" and sync: "idx_synced s db ?idx"
    using ok by (auto simp: vol_ok_def readable_def)
  obtain r1 s1 v1 n1 where w: "writeNeedleUnlocked s v n = (r1, s1, v1, n1)" by (metis prod.collapse)
  obtain f where o: "v1 = v\<lparr>v_dataFile := Some f\<rparr>" "\<And>q. q \<noteq> ?dat \<Longrightarrow> fs_files s1 q = fs_files s q"
    using writeNeedleUnlocked_outcome [OF vf wf w] by metis
  have sync1: "idx_synced s1 db ?idx" using idx_synced_frame [OF sync o(2)] by simp
  have "fs_files s' p = fs_files s1 p"
    using run False w o(1) db p MemDb_Put_outcome(2) [OF sync1]
    by (auto simp: WriteNeedle_def files_of_def split: sum.splits prod.splits)
  then show ?thesis using o(2) p by (simp add: files_of_def)
qed

lemma DeleteNeedle_other_files:
  assumes ok: "vol_ok s v A" and run: "DeleteNeedle s v k = (r, s', v')" and p: "p \<notin> files_of (v_dir v) (v_id v)"
  shows "fs_files s' p = fs_files s p"
proof -
  let ?dat = "DataFileName (v_dir v) (v_id v)" and ?idx = "IndexFileName (v_dir v) (v_id v)"
  obtain c db where vf: "vol_files s v c" and db: "v_nm v = Some db" and sync: "idx_synced s db ?idx"
    using ok by (auto simp: vol_ok_def readable_def)
  obtain r1 s1 v1 n1 where w: "writeNeedleUnlocked s v (tombstone k) = (r1, s1, v1, n1)" by (metis prod.collapse)
  obtain f where o: "v1 = v\<lparr>v_dataFile := Some f\<rparr>" "\<And>q. q \<noteq> ?dat \<Longrightarrow> fs_files s1 q = fs_files s q"
    using writeNeedleUnlocked_outcome [OF vf tombstone_wf w] by metis
  have sync1: "idx_synced s1 db ?idx" using idx_synced_frame [OF sync o(2)] by simp
  have del: "fs_files s2 p = fs_files s1 p" if "MemDb_Delete s1 db k = (r2, s2, db2)" for r2 s2 db2
    using MemDb_Delete_frame [OF that, of p] p sync1 by (auto simp: idx_synced_def idx_open_def files_of_def)
  show ?thesis
    using run w o(2) p del by (auto simp: DeleteNeedle_def db files_of_def split: if_splits sum.splits prod.splits)
qed

lemma NewVolume_frame:
  assumes "NewVolume s dir coll vid ver = (r, s')" "p \<notin> files_of dir vid"
  shows "fs_files s' p = fs_files s p"
  using assms
  by (auto simp: NewVolume_def Let_def open_create_def WriteSuperBlock_def file_write_at_def write_at_def OpenIndexFile_def files_of_def
      split: if_splits sum.splits prod.splits option.splits)

section \<open>The store as a map\<close>

type_synonym store_spec = "VolumeId \<Rightarrow> (NeedleVersion \<times> (NeedleId \<Rightarrow> Needle option)) option"

definition all_volumes :: "VStore \<Rightarrow> (VolumeId \<times> Volume) list" where
  "all_volumes st = concat (map dl_volumes st)"

text \<open>A volume object at its place, showing what the specification says.\<close>

definition shows_volume :: "fsys \<Rightarrow> store_spec \<Rightarrow> string \<Rightarrow> VolumeId \<times> Volume \<Rightarrow> bool" where
  "shows_volume s A dir kv \<longleftrightarrow> v_id (snd kv) = fst kv \<and> v_dir (snd kv) = dir \<and>
     (\<exists>B. A (fst kv) = Some (sb_Version (v_SuperBlock (snd kv)), B) \<and> vol_ok s (snd kv) B)"

text \<open>A directory holds the files of the volumes of its location and no other file that looks like one.\<close>

definition tidy :: "fsys \<Rightarrow> string \<Rightarrow> VolumeId set \<Rightarrow> bool" where
  "tidy s dir ids \<longleftrightarrow>
     (\<forall>name vid. CHR ''/'' \<notin> set name \<and> fs_files s (filepath_Join dir name) \<noteq> None \<and> volume_id_of name = Some vid \<longrightarrow>
        name = format_uint 10 (unat vid) @ ''.dat'' \<and> vid \<in> ids) \<and>
     (\<forall>vid. fs_files s (IndexFileName dir vid) \<noteq> None \<longrightarrow> vid \<in> ids)"

definition location_ok :: "fsys \<Rightarrow> store_spec \<Rightarrow> DiskLocation \<Rightarrow> bool" where
  "location_ok s A dl \<longleftrightarrow> (\<forall>kv \<in> set (dl_volumes dl). shows_volume s A (dl_directory dl) kv) \<and>
     tidy s (dl_directory dl) (fst ` set (dl_volumes dl))"

definition store_ok :: "fsys \<Rightarrow> store_spec \<Rightarrow> VStore \<Rightarrow> bool" where
  "store_ok s A st \<longleftrightarrow> distinct (map dl_directory st) \<and> distinct (map fst (all_volumes st)) \<and>
     dom A = fst ` set (all_volumes st) \<and> (\<forall>dl \<in> set st. location_ok s A dl)"

lemma store_GetVolume_map_of: "store_GetVolume vid st = map_of (all_volumes st) vid"
  by (induction st) (auto simp: all_volumes_def dl_GetVolume_def map_add_def split: option.splits)

lemma map_replace_absent: "vid \<notin> fst ` set xs \<Longrightarrow> map (\<lambda>(k, x). (k, if k = vid then v else x)) xs = xs"
  by (induction xs) auto

lemma update_present:
  "vid \<in> fst ` set xs \<Longrightarrow> distinct (map fst xs) \<Longrightarrow> AList.update vid v xs = map (\<lambda>(k, x). (k, if k = vid then v else x)) xs"
proof (induction xs)
  case (Cons kv xs)
  obtain k x where kv: "kv = (k, x)" by force
  show ?case
  proof (cases "k = vid")
    case True
    then have "vid \<notin> fst ` set xs" using Cons.prems(2) kv by simp
    then show ?thesis using True kv map_replace_absent [of vid xs v] by simp
  next
    case False
    then show ?thesis using Cons kv by simp
  qed
qed simp

definition replace_in :: "VolumeId \<Rightarrow> Volume \<Rightarrow> DiskLocation \<Rightarrow> DiskLocation" where
  "replace_in vid v dl = dl\<lparr>dl_volumes := map (\<lambda>(k, x). (k, if k = vid then v else x)) (dl_volumes dl)\<rparr>"

lemma replace_absent: "vid \<notin> fst ` set (dl_volumes dl) \<Longrightarrow> replace_in vid v dl = dl"
  by (simp add: replace_in_def map_replace_absent)

lemma put_volume_map:
  "distinct (map fst (all_volumes st)) \<Longrightarrow> put_volume vid v st = map (replace_in vid v) st"
proof (induction st)
  case (Cons dl st)
  have d: "distinct (map fst (dl_volumes dl))" "distinct (map fst (all_volumes st))"
    "fst ` set (dl_volumes dl) \<inter> fst ` set (all_volumes st) = {}"
    using Cons.prems by (auto simp: all_volumes_def)
  show ?case
  proof (cases "vid \<in> fst ` set (dl_volumes dl)")
    case True
    then have "dl_GetVolume vid dl \<noteq> None" by (simp add: dl_GetVolume_def map_of_eq_None_iff)
    moreover have "map (replace_in vid v) st = st"
      using d(3) True by (intro map_idI replace_absent) (auto simp: all_volumes_def)
    moreover have "dl\<lparr>dl_volumes := AList.update vid v (dl_volumes dl)\<rparr> = replace_in vid v dl"
      using update_present [OF True d(1)] by (simp add: replace_in_def)
    ultimately show ?thesis by simp
  next
    case False
    then have "dl_GetVolume vid dl = None" by (simp add: dl_GetVolume_def map_of_eq_None_iff)
    then show ?thesis using Cons.IH d(2) replace_absent [OF False] by simp
  qed
qed simp

lemma replace_in_sel [simp]:
  "dl_directory (replace_in vid v dl) = dl_directory dl" "fst ` set (dl_volumes (replace_in vid v dl)) = fst ` set (dl_volumes dl)"
  "map fst (dl_volumes (replace_in vid v dl)) = map fst (dl_volumes dl)"
  by (auto simp: replace_in_def image_image split_beta comp_def)

lemma keys_replaced: "map fst (all_volumes (map (replace_in vid v) st)) = map fst (all_volumes st)"
  by (simp add: all_volumes_def map_concat comp_def)

text \<open>The files of one volume change, and the object with them.\<close>

lemma tidy_frame:
  assumes "tidy s dir ids" "\<And>p. fs_files s' p \<noteq> None \<Longrightarrow> fs_files s p \<noteq> None"
  shows "tidy s' dir ids"
  using assms unfolding tidy_def by blast

lemma store_volume:
  assumes "store_ok s A st" "map_of (all_volumes st) vid = Some v"
  obtains dl where "dl \<in> set st" "(vid, v) \<in> set (dl_volumes dl)" "shows_volume s A (dl_directory dl) (vid, v)"
proof -
  obtain dl where "dl \<in> set st" "(vid, v) \<in> set (dl_volumes dl)" using map_of_SomeD [OF assms(2)] by (auto simp: all_volumes_def)
  moreover then have "shows_volume s A (dl_directory dl) (vid, v)" using assms(1) unfolding store_ok_def location_ok_def by blast
  ultimately show ?thesis using that by blast
qed

lemma store_ok_replace:
  assumes ok: "store_ok s A st" and get: "map_of (all_volumes st) vid = Some v" and A: "A vid = Some (ver, B)"
    and same: "v_id v' = v_id v" "v_dir v' = v_dir v" "sb_Version (v_SuperBlock v') = ver" and new: "vol_ok s' v' B'"
    and frame: "\<And>p. p \<notin> files_of (v_dir v) (v_id v) \<Longrightarrow> fs_files s' p = fs_files s p"
    and files: "\<And>p. fs_files s' p \<noteq> None \<Longrightarrow> fs_files s p \<noteq> None"
  shows "store_ok s' (A(vid \<mapsto> (ver, B'))) (put_volume vid v' st)"
proof -
  have d: "distinct (map fst (all_volumes st))" using ok by (simp add: store_ok_def)
  have v: "shows_volume s A (dl_directory dl) (vid, x) \<Longrightarrow> x = v" if "dl \<in> set st" "(vid, x) \<in> set (dl_volumes dl)" for dl x
  proof -
    have "(vid, x) \<in> set (all_volumes st)" using that by (auto simp: all_volumes_def)
    then show "x = v" using get d by simp
  qed
  have id: "v_id v = vid" using store_volume [OF ok get] by (auto simp: shows_volume_def)
  have "location_ok s' (A(vid \<mapsto> (ver, B'))) (replace_in vid v' dl)" if dl: "dl \<in> set st" for dl
    unfolding location_ok_def
  proof (intro conjI ballI)
    have loc: "location_ok s A dl" using ok dl by (simp add: store_ok_def)
    show "tidy s' (dl_directory (replace_in vid v' dl)) (fst ` set (dl_volumes (replace_in vid v' dl)))"
      using loc tidy_frame [OF _ files] unfolding location_ok_def replace_in_sel by blast
    fix kv assume "kv \<in> set (dl_volumes (replace_in vid v' dl))"
    then obtain k x where kx: "(k, x) \<in> set (dl_volumes dl)" "kv = (k, if k = vid then v' else x)" by (auto simp: replace_in_def)
    then have sh: "shows_volume s A (dl_directory dl) (k, x)" using loc by (auto simp: location_ok_def)
    show "shows_volume s' (A(vid \<mapsto> (ver, B'))) (dl_directory (replace_in vid v' dl)) kv"
    proof (cases "k = vid")
      case True
      then have "x = v" using v dl kx(1) sh by blast
      then show ?thesis using True sh same new kx(2) by (simp add: shows_volume_def)
    next
      case False
      have "fs_files s' p = fs_files s p" if "p \<in> files_of (v_dir x) (v_id x)" for p
        using frame files_disjoint [OF that, of vid] False id sh by (simp add: shows_volume_def)
      then show ?thesis using False sh kx(2) vol_ok_frame [of s x _ s'] by (auto simp: shows_volume_def)
    qed
  qed
  moreover have "fst ` set (all_volumes (map (replace_in vid v') st)) = fst ` set (all_volumes st)"
    using keys_replaced [of vid v' st] by (metis list.set_map)
  moreover have "dom (A(vid \<mapsto> (ver, B'))) = dom A" using A by (simp add: insert_absorb domI)
  moreover have "map dl_directory (map (replace_in vid v') st) = map dl_directory st" by simp
  ultimately show ?thesis using ok unfolding put_volume_map [OF d] store_ok_def keys_replaced by (simp add: comp_def)
qed

lemma vol_ok_files: "vol_ok s v A \<Longrightarrow> p \<in> files_of (v_dir v) (v_id v) \<Longrightarrow> fs_files s p \<noteq> None"
  by (auto simp: vol_ok_def readable_def vol_files_def idx_synced_def files_of_def)

lemma store_write:
  assumes ok: "store_ok s A st" and wf: "needle_wf n" and fits: "\<And>v. store_GetVolume vid st = Some v \<Longrightarrow> UsedSize s v \<le> 2 ^ 35 - 8"
    and run: "WriteVolumeNeedle vid n st s = (Inr x, st', s', n')"
  obtains ver B where "A vid = Some (ver, B)" "store_ok s' (A(vid \<mapsto> (ver, B(n_Id n \<mapsto> n)))) st'"
proof -
  obtain v v1 n1 where v: "map_of (all_volumes st) vid = Some v" and w: "WriteNeedle s v n = (Inr x, s', v1, n1)" and st': "st' = put_volume vid v1 st"
    using run by (auto simp: WriteVolumeNeedle_def store_GetVolume_map_of split: option.splits prod.splits sum.splits)
  from store_volume [OF ok v] obtain B where B: "A vid = Some (sb_Version (v_SuperBlock v), B)" "vol_ok s v B"
    by (auto simp: shows_volume_def)
  have used: "UsedSize s v \<le> 2 ^ 35 - 8" using fits v by (simp add: store_GetVolume_map_of)
  have ok1: "vol_ok s' v1 (B(n_Id n \<mapsto> n))" using WriteNeedle_outcome [OF B(2) wf used w] by (auto split: prod.splits)
  have same: "v_id v1 = v_id v" "v_dir v1 = v_dir v" "v_SuperBlock v1 = v_SuperBlock v"
    using WriteNeedle_same [OF w] by (auto simp: same_volume_def)
  have frame: "\<And>p. p \<notin> files_of (v_dir v) (v_id v) \<Longrightarrow> fs_files s' p = fs_files s p" using WriteNeedle_other_files [OF B(2) wf w] .
  then have files: "\<And>p. fs_files s' p \<noteq> None \<Longrightarrow> fs_files s p \<noteq> None" using vol_ok_files [OF B(2)] by metis
  show ?thesis using that [OF B(1)] store_ok_replace [OF ok v B(1) same(1,2) _ ok1 frame files] same(3) st' by simp
qed

lemma store_delete:
  assumes ok: "store_ok s A st" and run: "DeleteVolumeNeedle vid k st s = (Inr (), st', s')"
  obtains ver B where "A vid = Some (ver, B)" "store_ok s' (A(vid \<mapsto> (ver, B(k := None)))) st'"
proof -
  obtain v v1 where v: "map_of (all_volumes st) vid = Some v" and w: "DeleteNeedle s v k = (Inr (), s', v1)" and st': "st' = put_volume vid v1 st"
    using run by (auto simp: DeleteVolumeNeedle_def store_GetVolume_map_of split: option.splits prod.splits sum.splits)
  from store_volume [OF ok v] obtain B where B: "A vid = Some (sb_Version (v_SuperBlock v), B)" "vol_ok s v B"
    by (auto simp: shows_volume_def)
  have ok1: "vol_ok s' v1 (B(k := None))" using DeleteNeedle_outcome [OF B(2) w] by simp
  have same: "v_id v1 = v_id v" "v_dir v1 = v_dir v" "v_SuperBlock v1 = v_SuperBlock v"
    using DeleteNeedle_same [OF w] by (auto simp: same_volume_def)
  have frame: "\<And>p. p \<notin> files_of (v_dir v) (v_id v) \<Longrightarrow> fs_files s' p = fs_files s p" using DeleteNeedle_other_files [OF B(2) w] .
  then have files: "\<And>p. fs_files s' p \<noteq> None \<Longrightarrow> fs_files s p \<noteq> None" using vol_ok_files [OF B(2)] by metis
  show ?thesis using that [OF B(1)] store_ok_replace [OF ok v B(1) same(1,2) _ ok1 frame files] same(3) st' by simp
qed

section \<open>New volumes\<close>

lemma best_location_range: "best_location st = Some i \<Longrightarrow> i < length st"
proof -
  have "fold (\<lambda>i best. if \<not> HasSpace (st ! i) then best
        else case best of None \<Rightarrow> Some i
             | Some b \<Rightarrow> if AvailableVolumeCount (st ! i) > AvailableVolumeCount (st ! b) then Some i else best) is best = Some i \<Longrightarrow>
      (\<forall>b. best = Some b \<longrightarrow> b < n) \<Longrightarrow> (\<forall>j \<in> set is. j < n) \<Longrightarrow> i < n" for "is" best n
    by (induction "is" arbitrary: best) (auto split: if_splits option.splits)
  from this [of "[0..<length st]" None "length st"] show "best_location st = Some i \<Longrightarrow> i < length st"
    by (simp add: best_location_def)
qed

lemma NewVolume_ids: "NewVolume s dir coll vid ver = (Inr v, s') \<Longrightarrow> v_id v = vid \<and> v_dir v = dir"
  by (auto simp: NewVolume_def Let_def split: sum.splits prod.splits if_splits)

lemma NewVolume_fresh_room:
  assumes "NewVolume s dir coll vid ver = (Inr v, s')" "fs_files s (DataFileName dir vid) = None"
  shows "8 \<le> fs_room s"
  using assms
  by (auto simp: NewVolume_def Let_def fs_exists_def open_create_def WriteSuperBlock_def file_write_at_def write_at_def
      split: sum.splits prod.splits if_splits)

lemma volume_id_format: "volume_id_of (format_uint 10 (unat (vid :: VolumeId)) @ ''.dat'') = Some vid"
proof -
  have "unat vid < 2 ^ 32" using unat_bound [of vid] by simp
  then show ?thesis by (simp add: volume_id_of_def has_suffix_def parse_uint_format)
qed

lemma tidy_fresh:
  assumes "tidy s dir ids" "vid \<notin> ids"
  shows "fs_files s (DataFileName dir vid) = None" "fs_files s (IndexFileName dir vid) = None"
proof -
  have "CHR ''/'' \<notin> set (format_uint 10 (unat vid) @ ''.dat'')" using format_no_slash by simp
  then show "fs_files s (DataFileName dir vid) = None"
    using assms volume_id_format [of vid] unfolding tidy_def DataFileName_def by blast
  show "fs_files s (IndexFileName dir vid) = None" using assms unfolding tidy_def by blast
qed

lemma join_is_volume_file:
  assumes "CHR ''/'' \<notin> set name" "filepath_Join dir' name \<in> files_of dir vid" "volume_id_of name = Some k"
  shows "dir' = dir \<and> name = format_uint 10 (unat vid) @ ''.dat'' \<and> k = vid"
proof -
  have slash: "CHR ''/'' \<notin> set (format_uint 10 (unat vid) @ e)" if "CHR ''/'' \<notin> set e" for e using format_no_slash that by simp
  have "volume_id_of (format_uint 10 (unat vid) @ ''.idx'') = None" by (simp add: volume_id_of_def has_suffix_def)
  then have "name \<noteq> format_uint 10 (unat vid) @ ''.idx''" using assms(3) by auto
  then have "dir' = dir" "name = format_uint 10 (unat vid) @ ''.dat''"
    using assms(2) join_path_inj [OF _ assms(1) slash [of "''.dat''"], of dir' dir] join_path_inj [OF _ assms(1) slash [of "''.idx''"], of dir' dir]
    by (auto simp: files_of_def DataFileName_def IndexFileName_def)
  then show ?thesis using assms(3) volume_id_format [of vid] by simp
qed

lemma tidy_add:
  assumes t: "tidy s dir' ids" and frame: "\<And>p. p \<notin> files_of dir vid \<Longrightarrow> fs_files s' p = fs_files s p"
  shows "tidy s' dir' (if dir' = dir then insert vid ids else ids)"
  unfolding tidy_def
proof (intro conjI allI impI)
  fix name k
  assume "CHR ''/'' \<notin> set name \<and> fs_files s' (filepath_Join dir' name) \<noteq> None \<and> volume_id_of name = Some k"
  then have n: "CHR ''/'' \<notin> set name" "fs_files s' (filepath_Join dir' name) \<noteq> None" "volume_id_of name = Some k" by blast+
  have "name = format_uint 10 (unat k) @ ''.dat'' \<and> k \<in> (if dir' = dir then insert vid ids else ids)"
  proof (cases "filepath_Join dir' name \<in> files_of dir vid")
    case True
    then show ?thesis using join_is_volume_file [OF n(1) True n(3)] by simp
  next
    case False
    then show ?thesis using t n frame unfolding tidy_def by (metis insertCI)
  qed
  then show "name = format_uint 10 (unat k) @ ''.dat''" "k \<in> (if dir' = dir then insert vid ids else ids)" by simp_all
next
  fix k assume k: "fs_files s' (IndexFileName dir' k) \<noteq> None"
  show "k \<in> (if dir' = dir then insert vid ids else ids)"
  proof (cases "IndexFileName dir' k \<in> files_of dir vid")
    case True
    then show ?thesis using volume_file_names(2) [of dir' k dir vid] volume_file_names(3) [of dir vid dir' k] by (auto simp: files_of_def)
  next
    case False
    then show ?thesis using t k frame unfolding tidy_def by (metis insertCI)
  qed
qed

lemma update_absent: "vid \<notin> fst ` set xs \<Longrightarrow> AList.update vid v xs = xs @ [(vid, v)]"
  by (induction xs) auto

lemma all_volumes_update:
  assumes "i < length st" "v_id v \<notin> fst ` set (dl_volumes (st ! i))"
  shows "mset (all_volumes (st[i := AddVolumeObject v (st ! i)])) = mset (all_volumes st) + {#(v_id v, v)#}"
proof -
  have st: "st = take i st @ st ! i # drop (Suc i) st" using assms(1) by (rule id_take_nth_drop)
  have up: "st[i := AddVolumeObject v (st ! i)] = take i st @ AddVolumeObject v (st ! i) # drop (Suc i) st"
    using assms(1) by (rule upd_conv_take_nth_drop)
  have "dl_volumes (AddVolumeObject v (st ! i)) = dl_volumes (st ! i) @ [(v_id v, v)]"
    using assms(2) by (simp add: AddVolumeObject_def update_absent)
  then have "mset (all_volumes (st[i := AddVolumeObject v (st ! i)])) =
      mset (all_volumes (take i st @ st ! i # drop (Suc i) st)) + {#(v_id v, v)#}"
    unfolding up by (simp add: all_volumes_def)
  then show ?thesis using st by simp
qed

lemma store_allocate:
  assumes ok: "store_ok s A st" and fresh: "A vid = None" and run: "AllocateVolume vid coll ver st s = (Inr (), st', s')"
  shows "store_ok s' (A(vid \<mapsto> (ver, \<lambda>_. None))) st'"
proof -
  obtain i v where i: "i < length st" and new: "NewVolume s (dl_directory (st ! i)) coll vid ver = (Inr v, s')"
    and st': "st' = st[i := AddVolumeObject v (st ! i)]"
    using run best_location_range by (auto simp: AllocateVolume_def split: option.splits prod.splits sum.splits)
  let ?dl = "st ! i" and ?dir = "dl_directory (st ! i)" and ?A = "A(vid \<mapsto> (ver, \<lambda>_. None))"
  have mem: "?dl \<in> set st" using i by simp
  have dom: "dom A = fst ` set (all_volumes st)" and loc: "\<And>dl. dl \<in> set st \<Longrightarrow> location_ok s A dl" using ok by (auto simp: store_ok_def)
  have new_id: "vid \<notin> fst ` set (all_volumes st)" using fresh dom by (metis domIff)
  then have abs: "vid \<notin> fst ` set (dl_volumes dl)" if "dl \<in> set st" for dl using that by (auto simp: all_volumes_def)
  have files: "fs_files s (DataFileName ?dir vid) = None" "fs_files s (IndexFileName ?dir vid) = None"
    using tidy_fresh [of s ?dir] loc [OF mem] abs [OF mem] unfolding location_ok_def by blast+
  have room: "8 \<le> fs_room s" using NewVolume_fresh_room [OF new files(1)] .
  have v: "vol_ok s' v (\<lambda>_. None)" "v_id v = vid" "v_dir v = ?dir" "v_SuperBlock v = SuperBlock_new ver"
    using NewVolume_fresh [OF files room, of coll ver] new by auto
  have ver: "sb_Version (SuperBlock_new ver) = ver" by (simp add: SuperBlock_new_def)
  have frame: "\<And>p. p \<notin> files_of ?dir vid \<Longrightarrow> fs_files s' p = fs_files s p" using NewVolume_frame [OF new] .
  have old: "shows_volume s' ?A (dl_directory dl) kv" if "dl \<in> set st" "kv \<in> set (dl_volumes dl)" for dl kv
  proof -
    have sh: "shows_volume s A (dl_directory dl) kv" using loc that by (simp add: location_ok_def)
    have ne: "fst kv \<noteq> vid" using abs that by force
    have "fs_files s' p = fs_files s p" if "p \<in> files_of (v_dir (snd kv)) (v_id (snd kv))" for p
      using frame files_disjoint [OF that, of vid] ne sh by (simp add: shows_volume_def)
    then show ?thesis using sh ne vol_ok_frame [of s "snd kv" _ s'] by (auto simp: shows_volume_def)
  qed
  have dist: "distinct (map dl_directory st)" using ok by (simp add: store_ok_def)
  have "location_ok s' ?A (st' ! j)" if j: "j < length st" for j
  proof -
    have t: "tidy s' (dl_directory (st ! j)) (if dl_directory (st ! j) = ?dir then insert vid (fst ` set (dl_volumes (st ! j))) else fst ` set (dl_volumes (st ! j)))"
      using tidy_add [OF _ frame] loc [of "st ! j"] j unfolding location_ok_def by simp
    show ?thesis
    proof (cases "j = i")
      case True
      have "dl_volumes (st' ! j) = dl_volumes ?dl @ [(vid, v)]" "dl_directory (st' ! j) = ?dir"
        using True j abs [OF mem] by (simp_all add: st' AddVolumeObject_def v(2) update_absent)
      moreover have "shows_volume s' ?A ?dir (vid, v)" using v ver by (simp add: shows_volume_def)
      ultimately show ?thesis using t old [OF mem] True by (auto simp: location_ok_def)
    next
      case False
      then have "dl_directory (st ! j) \<noteq> ?dir" using dist i j by (metis (mono_tags, lifting) distinct_conv_nth length_map nth_map)
      then show ?thesis using t old [of "st ! j"] j False by (simp add: location_ok_def st')
    qed
  qed
  then have locs: "\<forall>dl \<in> set st'. location_ok s' ?A dl" by (auto simp: st' in_set_conv_nth)
  have "mset (all_volumes st') = mset (all_volumes st) + {#(vid, v)#}"
    using all_volumes_update [OF i, of v] abs [OF mem] by (simp add: st' v(2))
  then have all: "set (all_volumes st') = insert (vid, v) (set (all_volumes st))" "mset (map fst (all_volumes st')) = add_mset vid (mset (map fst (all_volumes st)))"
    by (metis add_mset_add_single set_mset_add_mset_insert set_mset_mset, simp)
  have "distinct (vid # map fst (all_volumes st))" using ok new_id by (simp add: store_ok_def)
  then have "distinct (map fst (all_volumes st'))" using all(2) by (metis mset.simps(2) distinct_count_atmost_1 mset_eq_imp_distinct_iff)
  moreover have "map dl_directory st' = map dl_directory st"
    using i by (simp add: st' map_update AddVolumeObject_def list_update_same_conv)
  ultimately show ?thesis using dist locs dom all(1) by (simp add: store_ok_def)
qed

section \<open>Opening the store again\<close>

lemma NewVolume_again:
  assumes "shows_volume s A dir (k, v)"
  obtains v' where "NewVolume s dir coll k ver = (Inr v', s)" "shows_volume s A dir (k, v')"
proof -
  obtain B where B: "v_id v = k" "v_dir v = dir" "A k = Some (sb_Version (v_SuperBlock v), B)" "vol_ok s v B"
    using assms by (auto simp: shows_volume_def)
  from NewVolume_vol_ok [OF B(4), of coll ver] obtain v' where
    v': "NewVolume s dir coll k ver = (Inr v', s)" "vol_ok s v' B" "v_SuperBlock v' = v_SuperBlock v" using B(1,2) by metis
  then have "shows_volume s A dir (k, v')" using NewVolume_ids [OF v'(1)] B(3) by (simp add: shows_volume_def)
  then show ?thesis using that v'(1) by blast
qed

lemma load_names_ok:
  assumes "\<And>name k. name \<in> set names \<Longrightarrow> volume_id_of name = Some k \<Longrightarrow> \<exists>v. shows_volume s A (dl_directory dl) (k, v)"
    and "\<forall>kv \<in> set (dl_volumes dl). shows_volume s A (dl_directory dl) kv" "distinct (map fst (dl_volumes dl))"
  shows "\<exists>dl'. load_names coll ver names dl s = (Inr (), dl', s) \<and> dl_directory dl' = dl_directory dl \<and> distinct (map fst (dl_volumes dl')) \<and>
    (\<forall>kv \<in> set (dl_volumes dl'). shows_volume s A (dl_directory dl) kv) \<and>
    fst ` set (dl_volumes dl') = fst ` set (dl_volumes dl) \<union> {k. \<exists>name \<in> set names. volume_id_of name = Some k}"
  using assms
proof (induction names arbitrary: dl)
  case (Cons name names)
  have rest: "\<exists>v. shows_volume s A (dl_directory dl) (k, v)" if "n \<in> set names" "volume_id_of n = Some k" for n k
    using Cons.prems(1) [OF _ that(2)] that(1) by simp
  show ?case
  proof (cases "\<exists>k. volume_id_of name = Some k \<and> dl_GetVolume k dl = None")
    case False
    then have run: "load_names coll ver (name # names) dl s = load_names coll ver names dl s"
      by (auto simp: dl_GetVolume_def split: option.splits)
    have "volume_id_of name = Some k \<Longrightarrow> k \<in> fst ` set (dl_volumes dl)" for k
      using False by (auto simp: dl_GetVolume_def map_of_eq_None_iff)
    then have keys: "fst ` set (dl_volumes dl) \<union> {k. \<exists>n \<in> set (name # names). volume_id_of n = Some k} =
        fst ` set (dl_volumes dl) \<union> {k. \<exists>n \<in> set names. volume_id_of n = Some k}" by auto
    show ?thesis unfolding run keys by (rule Cons.IH [OF rest Cons.prems(2,3)])
  next
    case True
    then obtain k where k: "volume_id_of name = Some k" "dl_GetVolume k dl = None" by blast
    then obtain v' where v': "NewVolume s (dl_directory dl) coll k ver = (Inr v', s)" "shows_volume s A (dl_directory dl) (k, v')"
      using Cons.prems(1) [of name k] NewVolume_again by (metis list.set_intros(1))
    have id: "v_id v' = k" using v'(2) by (simp add: shows_volume_def)
    have abs: "k \<notin> fst ` set (dl_volumes dl)" using k(2) by (simp add: dl_GetVolume_def map_of_eq_None_iff)
    define dl1 where "dl1 = AddVolumeObject v' dl"
    have dl1: "dl_volumes dl1 = dl_volumes dl @ [(k, v')]" "dl_directory dl1 = dl_directory dl"
      using abs by (simp_all add: dl1_def AddVolumeObject_def id update_absent)
    have run: "load_names coll ver (name # names) dl s = load_names coll ver names dl1 s" using k v' by (simp add: dl1_def)
    have "\<exists>dl'. load_names coll ver names dl1 s = (Inr (), dl', s) \<and> dl_directory dl' = dl_directory dl1 \<and> distinct (map fst (dl_volumes dl')) \<and>
      (\<forall>kv \<in> set (dl_volumes dl'). shows_volume s A (dl_directory dl1) kv) \<and>
      fst ` set (dl_volumes dl') = fst ` set (dl_volumes dl1) \<union> {k. \<exists>name \<in> set names. volume_id_of name = Some k}"
    proof (rule Cons.IH)
      show "\<exists>v. shows_volume s A (dl_directory dl1) (k, v)" if "n \<in> set names" "volume_id_of n = Some k" for n k
        unfolding dl1(2) by (rule rest [OF that])
    qed (use Cons.prems(2,3) v'(2) abs in \<open>simp_all add: dl1\<close>)
    moreover have "fst ` set (dl_volumes dl1) \<union> {k. \<exists>name \<in> set names. volume_id_of name = Some k} =
        fst ` set (dl_volumes dl) \<union> {k. \<exists>name \<in> set (name # names). volume_id_of name = Some k}"
      using k(1) by (auto simp: dl1)
    ultimately show ?thesis unfolding run dl1(2) by (simp only:)
  qed
qed simp

text \<open>A location of the new store against the one of the old.\<close>

definition relocated :: "fsys \<Rightarrow> store_spec \<Rightarrow> DiskLocation \<Rightarrow> DiskLocation \<Rightarrow> bool" where
  "relocated s A dl dl' \<longleftrightarrow> dl_directory dl' = dl_directory dl \<and> distinct (map fst (dl_volumes dl')) \<and>
     (\<forall>kv \<in> set (dl_volumes dl'). shows_volume s A (dl_directory dl) kv) \<and> fst ` set (dl_volumes dl') = fst ` set (dl_volumes dl)"

text \<open>What \<open>os.ReadDir\<close> promises.\<close>

definition lists_files :: "(string \<Rightarrow> fsys \<Rightarrow> string list) \<Rightarrow> fsys \<Rightarrow> bool" where
  "lists_files ls s \<longleftrightarrow> (\<forall>dir. set (ls dir s) = {name. CHR ''/'' \<notin> set name \<and> fs_files s (filepath_Join dir name) \<noteq> None})"

lemma lists_filesD: "lists_files ls s \<Longrightarrow> name \<in> set (ls dir s) \<Longrightarrow> CHR ''/'' \<notin> set name \<and> fs_files s (filepath_Join dir name) \<noteq> None"
  unfolding lists_files_def by blast

lemma tidyD:
  "tidy s dir ids \<Longrightarrow> CHR ''/'' \<notin> set name \<and> fs_files s (filepath_Join dir name) \<noteq> None \<Longrightarrow> volume_id_of name = Some k \<Longrightarrow> k \<in> ids"
  unfolding tidy_def by blast

lemma location_reload:
  assumes loc: "location_ok s A dl" and ls: "lists_files ls s" and dl0: "dl_directory dl0 = dl_directory dl" "dl_volumes dl0 = []"
  shows "\<exists>dl'. LoadExistingVolumes (ls (dl_directory dl) s) coll ver dl0 s = (Inr (), dl', s) \<and> relocated s A dl dl'"
proof -
  let ?dir = "dl_directory dl" and ?ids = "fst ` set (dl_volumes dl)"
  have tidy: "tidy s ?dir ?ids" and sh: "\<And>k v. (k, v) \<in> set (dl_volumes dl) \<Longrightarrow> shows_volume s A ?dir (k, v)"
    using loc by (auto simp: location_ok_def)
  have found: "\<exists>v. shows_volume s A ?dir (k, v)" if "name \<in> set (ls ?dir s)" "volume_id_of name = Some k" for name k
  proof -
    have "k \<in> ?ids" using tidyD [OF tidy] lists_filesD [OF ls that(1)] that(2) by blast
    then show ?thesis using sh by force
  qed
  have "{k. \<exists>name \<in> set (ls ?dir s). volume_id_of name = Some k} = ?ids"
  proof
    show "{k. \<exists>name \<in> set (ls ?dir s). volume_id_of name = Some k} \<subseteq> ?ids"
      using tidyD [OF tidy] lists_filesD [OF ls] by blast
    show "?ids \<subseteq> {k. \<exists>name \<in> set (ls ?dir s). volume_id_of name = Some k}"
    proof
      fix k assume "k \<in> ?ids"
      then obtain v where "shows_volume s A ?dir (k, v)" using sh by force
      then have "fs_files s (DataFileName ?dir k) \<noteq> None" using vol_ok_files [of s v _ "DataFileName ?dir k"] by (auto simp: shows_volume_def files_of_def)
      then have "format_uint 10 (unat k) @ ''.dat'' \<in> set (ls ?dir s)"
        using ls format_no_slash [of "unat k"] by (simp add: lists_files_def DataFileName_def)
      then show "k \<in> {k. \<exists>name \<in> set (ls ?dir s). volume_id_of name = Some k}" using volume_id_format by blast
    qed
  qed
  then show ?thesis
    using load_names_ok [of "ls ?dir s" s A dl0 coll ver] found dl0 unfolding LoadExistingVolumes_def relocated_def by auto
qed

lemma NewStore_reload:
  assumes "\<And>dl. dl \<in> set sts \<Longrightarrow> location_ok s A dl" "lists_files ls s" "\<And>dir. diskSize dir \<noteq> None"
  shows "\<exists>sts'. NewStore ls walk diskSize ver (map (\<lambda>dl. (dl_directory dl, m dl)) sts) acc s = (Inr (acc @ sts'), s) \<and> list_all2 (relocated s A) sts sts'"
  using assms(1)
proof (induction sts arbitrary: acc)
  case (Cons dl sts)
  obtain dl0 where dl0: "NewDiskLocation s (walk (dl_directory dl) s) (diskSize (dl_directory dl)) (dl_directory dl) (if m dl \<le> 0 then 8 else m dl) = Inr dl0"
      "dl_directory dl0 = dl_directory dl" "dl_volumes dl0 = []"
    using assms(3) [of "dl_directory dl"] by (auto simp: NewDiskLocation_def)
  have loc: "location_ok s A dl" "\<And>x. x \<in> set sts \<Longrightarrow> location_ok s A x" using Cons.prems by simp_all
  from location_reload [OF loc(1) assms(2) dl0(2,3), of "[]" ver] obtain dl' where
    dl': "LoadExistingVolumes (ls (dl_directory dl) s) [] ver dl0 s = (Inr (), dl', s)" "relocated s A dl dl'" by blast
  from Cons.IH [OF loc(2), of "acc @ [dl']"] obtain sts' where
    "NewStore ls walk diskSize ver (map (\<lambda>dl. (dl_directory dl, m dl)) sts) (acc @ [dl']) s = (Inr ((acc @ [dl']) @ sts'), s)"
    "list_all2 (relocated s A) sts sts'" by blast
  then show ?case using dl0(1) dl' by (intro exI [of _ "dl' # sts'"]) simp
qed simp

lemma relocated_store:
  assumes "store_ok s A st" "list_all2 (relocated s A) st st'"
  shows "store_ok s A st'"
proof -
  have keys: "distinct (map fst (all_volumes ys)) \<and> fst ` set (all_volumes ys) = fst ` set (all_volumes xs)"
    if "list_all2 (relocated s A) xs ys" "distinct (map fst (all_volumes xs))" for xs ys
    using that
  proof (induction rule: list_all2_induct)
    case (Cons x xs y ys)
    have "all_volumes (z # zs) = dl_volumes z @ all_volumes zs" for z zs by (simp add: all_volumes_def)
    then show ?case using Cons by (simp add: relocated_def image_Un)
  qed (simp add: all_volumes_def)
  have dirs: "map dl_directory st' = map dl_directory st"
    using assms(2) by (induction rule: list_all2_induct) (auto simp: relocated_def)
  have "location_ok s A dl'" if mem: "dl' \<in> set st'" for dl'
  proof -
    obtain i where "i < length st'" "dl' = st' ! i" using mem unfolding in_set_conv_nth by blast
    then obtain dl where "dl \<in> set st" "relocated s A dl dl'"
      using list_all2_lengthD [OF assms(2)] list_all2_nthD2 [OF assms(2), of i] by (metis nth_mem)
    then show ?thesis using assms(1) by (simp add: store_ok_def location_ok_def relocated_def)
  qed
  then show ?thesis using assms(1) keys [OF assms(2)] dirs by (simp add: store_ok_def)
qed

section \<open>Histories\<close>

datatype store_op = SWrite VolumeId Needle | SDelete VolumeId NeedleId | SAllocate VolumeId NeedleVersion | SRestart

fun store_apply :: "store_op \<Rightarrow> store_spec \<Rightarrow> store_spec" where
  "store_apply (SWrite vid n) A = (case A vid of None \<Rightarrow> A | Some (ver, B) \<Rightarrow> A(vid \<mapsto> (ver, B(n_Id n \<mapsto> n))))"
| "store_apply (SDelete vid k) A = (case A vid of None \<Rightarrow> A | Some (ver, B) \<Rightarrow> A(vid \<mapsto> (ver, B(k := None))))"
| "store_apply (SAllocate vid ver) A = A(vid \<mapsto> (ver, \<lambda>_. None))"
| "store_apply SRestart A = A"

text \<open>Successful operations; a volume is allocated under an id that no location has. A restart opens the store on
  the directories it had, with the entries and the sizes the operating system then reports.\<close>

inductive store_trace :: "fsys \<times> VStore \<Rightarrow> store_op list \<Rightarrow> fsys \<times> VStore \<Rightarrow> bool" where
  nil: "store_trace x [] x"
| put: "\<lbrakk>store_trace x ops (s, st); needle_wf n; \<forall>v. store_GetVolume vid st = Some v \<longrightarrow> UsedSize s v \<le> 2 ^ 35 - 8;
     WriteVolumeNeedle vid n st s = (Inr r, st', s', n')\<rbrakk> \<Longrightarrow> store_trace x (ops @ [SWrite vid n]) (s', st')"
| remove: "\<lbrakk>store_trace x ops (s, st); DeleteVolumeNeedle vid k st s = (Inr (), st', s')\<rbrakk> \<Longrightarrow> store_trace x (ops @ [SDelete vid k]) (s', st')"
| allocate: "\<lbrakk>store_trace x ops (s, st); store_GetVolume vid st = None; AllocateVolume vid coll ver st s = (Inr (), st', s')\<rbrakk>
    \<Longrightarrow> store_trace x (ops @ [SAllocate vid ver]) (s', st')"
| restart: "\<lbrakk>store_trace x ops (s, st); lists_files ls s; \<forall>dir. diskSize dir \<noteq> None;
     NewStore ls walk diskSize ver (map (\<lambda>dl. (dl_directory dl, m dl)) st) [] s = (r, s'); st' = projr r\<rbrakk>
    \<Longrightarrow> store_trace x (ops @ [SRestart]) (s', st')"

lemma store_trace_ok:
  assumes "store_trace x ops y" "store_ok (fst x) A (snd x)"
  shows "store_ok (fst y) (fold store_apply ops A) (snd y)"
  using assms
proof (induction rule: store_trace.induct)
  case (put x ops s st n vid r st' s' n')
  let ?A = "fold store_apply ops A"
  have "store_ok s ?A st" using put.IH put.prems by simp
  from store_write [OF this put.hyps(2) _ put.hyps(4)] put.hyps(3) obtain ver B where
    "?A vid = Some (ver, B)" "store_ok s' (?A(vid \<mapsto> (ver, B(n_Id n \<mapsto> n)))) st'" by blast
  then show ?case by (simp add: fun_upd_def)
next
  case (remove x ops s st vid k st' s')
  let ?A = "fold store_apply ops A"
  have "store_ok s ?A st" using remove.IH remove.prems by simp
  from store_delete [OF this remove.hyps(2)] obtain ver B where
    "?A vid = Some (ver, B)" "store_ok s' (?A(vid \<mapsto> (ver, B(k := None)))) st'" by blast
  then show ?case by (simp add: fun_upd_def)
next
  case (allocate x ops s st vid coll ver st' s')
  let ?A = "fold store_apply ops A"
  have ok: "store_ok s ?A st" using allocate.IH allocate.prems by simp
  have "vid \<notin> fst ` set (all_volumes st)" using allocate.hyps(2) by (simp add: store_GetVolume_map_of map_of_eq_None_iff)
  then have "?A vid = None" using ok by (metis domIff store_ok_def)
  from store_allocate [OF ok this allocate.hyps(3)] show ?case by (simp add: fun_upd_def)
next
  case (restart x ops s st ls diskSize walk ver m r s' st')
  let ?A = "fold store_apply ops A"
  have ok: "store_ok s ?A st" using restart.IH restart.prems by simp
  from NewStore_reload [of st s ?A ls diskSize walk ver m "[]"] ok restart.hyps(2,3) obtain sts' where
    "NewStore ls walk diskSize ver (map (\<lambda>dl. (dl_directory dl, m dl)) st) [] s = (Inr sts', s)" "list_all2 (relocated s ?A) st sts'"
    by (auto simp: store_ok_def)
  then have "s' = s" "st' = sts'" "list_all2 (relocated s ?A) st sts'" using restart.hyps(4,5) by simp_all
  then show ?case using relocated_store [OF ok] by simp
qed simp

lemma store_read:
  assumes "store_ok s A st"
  shows "ReadVolumeNeedle vid fid st s = Inr m \<longleftrightarrow>
    (\<exists>ver B n. A vid = Some (ver, B) \<and> B (fid_NeedleId fid) = Some n \<and> n_Cookie n = fid_Cookie fid \<and> m = needle_view n ver)"
proof (cases "map_of (all_volumes st) vid")
  case None
  then have "A vid = None" using assms by (metis domIff map_of_eq_None_iff store_ok_def)
  then show ?thesis using None by (simp add: ReadVolumeNeedle_def store_GetVolume_map_of)
next
  case (Some v)
  from store_volume [OF assms Some] obtain B where B: "A vid = Some (sb_Version (v_SuperBlock v), B)" "vol_ok s v B"
    by (auto simp: shows_volume_def)
  have rd: "readable s v B" using B(2) by (simp add: vol_ok_def)
  have cookie: "n_Cookie (needle_view n w) = n_Cookie n" for n w by (simp add: needle_view_def)
  show ?thesis using B(1) Some
    by (cases "B (fid_NeedleId fid)")
      (auto simp: ReadVolumeNeedle_def store_GetVolume_map_of ReadNeedleByFileId_def GetNeedle_readable [OF rd] cookie split: option.splits)
qed


definition sample_location :: DiskLocation where
  "sample_location = \<lparr>dl_directory = ''d'', dl_maxVolumeCount = 8, dl_volumes = [], dl_usedSize = 0, dl_maxSize = 0, dl_isReadOnly = False\<rparr>"

lemma sample_store_ok: "store_ok sample_fs Map.empty [sample_location]"
  by (simp add: store_ok_def all_volumes_def location_ok_def sample_location_def tidy_def sample_fs_def)

lemma sample_allocated:
  "NewVolume sample_fs ''d'' [] 7 3 = (Inr v, s) \<Longrightarrow> v_id v = 7 \<Longrightarrow>
   AllocateVolume 7 [] 3 [sample_location] sample_fs = (Inr (), [sample_location\<lparr>dl_volumes := [(7, v)]\<rparr>], s)"
  by (simp add: AllocateVolume_def best_location_def HasSpace_def sample_location_def AddVolumeObject_def)


text \<open>An id that another location already has is allocated once more, in the location with the most room; which of the
  two volumes is then used depends on the order of the locations.\<close>

lemma allocate_shadows:
  assumes "dl_GetVolume vid dl1 = Some v1" "dl_maxSize dl2 = 0" "dl_maxVolumeCount dl2 - int (length (dl_volumes dl2)) > dl_maxVolumeCount dl1 - int (length (dl_volumes dl1))"
    and "int (length (dl_volumes dl2)) < dl_maxVolumeCount dl2" "NewVolume s (dl_directory dl2) coll vid ver = (Inr v2, s')"
  shows "AllocateVolume vid coll ver [dl1, dl2] s = (Inr (), [dl1, AddVolumeObject v2 dl2], s')"
    "store_GetVolume vid [dl1, AddVolumeObject v2 dl2] = Some v1"
  using assms by (auto simp: AllocateVolume_def best_location_def HasSpace_def AvailableVolumeCount_def upt_rec)

section \<open>The ids of a location\<close>

lemma exchange_from_spec:
  assumes "i < j" "i < length ids" "\<And>k. i < k \<Longrightarrow> k < j \<Longrightarrow> k < length ids \<Longrightarrow> ids ! i \<le> ids ! k"
  defines "r \<equiv> exchange_from i j ids"
  shows "mset r = mset ids" and "\<And>k. k < i \<Longrightarrow> r ! k = ids ! k" and "\<And>k. i < k \<Longrightarrow> k < length ids \<Longrightarrow> r ! i \<le> r ! k"
    and "\<And>l. i \<le> l \<Longrightarrow> l < length ids \<Longrightarrow> \<exists>l'. i \<le> l' \<and> l' < length ids \<and> r ! l = ids ! l'"
proof -
  have "mset (exchange_from i j ids) = mset ids \<and> (\<forall>k < i. exchange_from i j ids ! k = ids ! k) \<and>
      (\<forall>k. i < k \<and> k < length ids \<longrightarrow> exchange_from i j ids ! i \<le> exchange_from i j ids ! k) \<and>
      (\<forall>l. i \<le> l \<and> l < length ids \<longrightarrow> (\<exists>l'. i \<le> l' \<and> l' < length ids \<and> exchange_from i j ids ! l = ids ! l'))"
    using assms(1-3)
  proof (induction i j ids rule: exchange_from.induct)
    case (1 i j ids)
    show ?case
    proof (cases "j < length ids")
      case False
      then have "exchange_from i j ids = ids" by (subst exchange_from.simps) simp
      then show ?thesis using False 1(2-4) by (auto simp: not_less)
    next
      case True
      define t where "t = (if ids ! i > ids ! j then ids[i := ids ! j, j := ids ! i] else ids)"
      have run: "exchange_from i j ids = exchange_from i (j + 1) t" using True by (subst exchange_from.simps) (simp add: t_def)
      have len: "length t = length ids" by (simp add: t_def)
      have perm: "mset t = mset ids" using True 1(3) by (simp add: t_def mset_swap)
      have min: "t ! i \<le> t ! k" if "i < k" "k < j + 1" "k < length t" for k
        using that 1(2-4) True by (fastforce simp: t_def nth_list_update less_Suc_eq)
      have t: "k < i \<Longrightarrow> t ! k = ids ! k" for k using 1(2,3) True by (simp add: t_def)
      have t': "\<exists>l'. i \<le> l' \<and> l' < length ids \<and> t ! l = ids ! l'" if "i \<le> l" "l < length ids" for l
        using that 1(2,3) True
        by (intro exI [of _ "if ids ! i > ids ! j then if l = j then i else if l = i then j else l else l"]) (auto simp: t_def nth_list_update)
      note IH = 1(1) [OF True, folded t_def, OF _ _ min]
      show ?thesis unfolding run using IH 1(2,3) len perm t t' by (auto simp: less_Suc_eq)
    qed
  qed
  then show "mset r = mset ids" "\<And>k. k < i \<Longrightarrow> r ! k = ids ! k" "\<And>k. i < k \<Longrightarrow> k < length ids \<Longrightarrow> r ! i \<le> r ! k"
    "\<And>l. i \<le> l \<Longrightarrow> l < length ids \<Longrightarrow> \<exists>l'. i \<le> l' \<and> l' < length ids \<and> r ! l = ids ! l'"
    unfolding r_def by blast+
qed

lemma exchange_sort_spec:
  assumes "\<And>k l. k < i \<Longrightarrow> k < l \<Longrightarrow> l < length ids \<Longrightarrow> ids ! k \<le> ids ! l"
  shows "mset (exchange_sort i ids) = mset ids \<and> sorted (exchange_sort i ids)"
  using assms
proof (induction i ids rule: exchange_sort.induct)
  case (1 i ids)
  show ?case
  proof (cases "i < length ids")
    case False
    then have "exchange_sort i ids = ids" by (subst exchange_sort.simps) simp
    moreover have "ids ! k \<le> ids ! l" if "k < l" "l < length ids" for k l using 1(2) [of k l] that False by simp
    ultimately show ?thesis by (simp add: sorted_iff_nth_mono_less)
  next
    case True
    let ?r = "exchange_from i (i + 1) ids"
    have spec: "mset ?r = mset ids" "\<And>k. k < i \<Longrightarrow> ?r ! k = ids ! k" "\<And>k. i < k \<Longrightarrow> k < length ids \<Longrightarrow> ?r ! i \<le> ?r ! k"
      "\<And>l. i \<le> l \<Longrightarrow> l < length ids \<Longrightarrow> \<exists>l'. i \<le> l' \<and> l' < length ids \<and> ?r ! l = ids ! l'"
      using exchange_from_spec [of i "i + 1" ids] True by simp_all
    have "?r ! k \<le> ?r ! l" if kl: "k < i + 1" "k < l" "l < length ?r" for k l
    proof (cases "k = i")
      case True
      then show ?thesis using spec(3) kl by simp
    next
      case False
      then have k: "k < i" using kl by simp
      have "\<exists>l'. k < l' \<and> l' < length ids \<and> ?r ! l = ids ! l'"
      proof (cases "l < i")
        case True
        then show ?thesis using kl spec(2) [of l] by (intro exI [of _ l]) simp
      next
        case False
        then obtain l' where "i \<le> l'" "l' < length ids" "?r ! l = ids ! l'" using kl spec(4) [of l] by auto
        then show ?thesis using k by (intro exI [of _ l']) simp
      qed
      then obtain l' where "k < l'" "l' < length ids" "?r ! l = ids ! l'" by blast
      then show ?thesis using 1(2) [of k l'] spec(2) k by simp
    qed
    then have "mset (exchange_sort (i + 1) ?r) = mset ?r \<and> sorted (exchange_sort (i + 1) ?r)" using 1(1) [OF True] by blast
    moreover have "exchange_sort i ids = exchange_sort (i + 1) ?r" using True by (subst exchange_sort.simps) simp
    ultimately show ?thesis using spec(1) by simp
  qed
qed

lemma GetVolumes_sorted: "GetVolumes dl = sort (map fst (dl_volumes dl))"
  using exchange_sort_spec [of 0 "map fst (dl_volumes dl)"] unfolding GetVolumes_def by (intro properties_for_sort [symmetric]) simp_all

end
