(* ===== verification/LruCache.thy ===== *)
theory LruCache
  imports GoPrelude "HOL-Library.While_Combinator"
begin

text \<open>
  The cache of blob payloads (src/goblob/cache/lru.go) behind the interface of src/goblob/cache/cache.go.
  The doubly linked list and the map from keys to its elements are one list of keys and values, the most
  recent one first. The interface is a locale, interpreted on the cache.
\<close>

section \<open>The cache\<close>

record LRUCache =
  lru_capacity :: int
  lru_used :: int
  lru_ll :: "(string \<times> bytes) list"

definition NewLRUCache :: "int \<Rightarrow> LRUCache" where
  "NewLRUCache capacity = \<lparr>lru_capacity = (if capacity < 0 then 0 else capacity), lru_used = 0, lru_ll = []\<rparr>"

definition without :: "string \<Rightarrow> (string \<times> bytes) list \<Rightarrow> (string \<times> bytes) list" where
  "without key xs = filter (\<lambda>e. fst e \<noteq> key) xs"

definition lru_Get :: "string \<Rightarrow> LRUCache \<Rightarrow> bytes option \<times> LRUCache" where
  "lru_Get key c =
     (case map_of (lru_ll c) key of
        None \<Rightarrow> (None, c)
      | Some v \<Rightarrow> (Some v, c\<lparr>lru_ll := (key, v) # without key (lru_ll c)\<rparr>))"

definition removeElement :: "string \<times> bytes \<Rightarrow> LRUCache \<Rightarrow> LRUCache" where
  "removeElement e c =
     (let used = lru_used c - int (length (snd e)) in
      c\<lparr>lru_ll := without (fst e) (lru_ll c), lru_used := (if used < 0 then 0 else used)\<rparr>)"

definition removeOldest :: "LRUCache \<Rightarrow> LRUCache" where
  "removeOldest c = (if lru_ll c = [] then c else removeElement (last (lru_ll c)) c)"

definition store_value :: "string \<Rightarrow> bytes \<Rightarrow> LRUCache \<Rightarrow> LRUCache" where
  "store_value key v c =
     (case map_of (lru_ll c) key of
        Some old \<Rightarrow> c\<lparr>lru_used := lru_used c - int (length old) + int (length v), lru_ll := (key, v) # without key (lru_ll c)\<rparr>
      | None \<Rightarrow> c\<lparr>lru_used := lru_used c + int (length v), lru_ll := (key, v) # lru_ll c\<rparr>)"

text \<open>The loop that evicts the oldest values may a priori run for ever; then there is no result.\<close>

definition lru_Put :: "string \<Rightarrow> bytes \<Rightarrow> LRUCache \<Rightarrow> LRUCache option" where
  "lru_Put key v c =
     (if lru_capacity c = 0 then Some c
      else if int (length v) > lru_capacity c then
        Some (case map_of (lru_ll c) key of None \<Rightarrow> c | Some old \<Rightarrow> removeElement (key, old) c)
      else while_option (\<lambda>c. lru_used c > lru_capacity c) removeOldest (store_value key v c))"

definition lru_Invalidate :: "string \<Rightarrow> LRUCache \<Rightarrow> LRUCache" where
  "lru_Invalidate key c = (case map_of (lru_ll c) key of None \<Rightarrow> c | Some v \<Rightarrow> removeElement (key, v) c)"

section \<open>Invariant\<close>

definition total :: "(string \<times> bytes) list \<Rightarrow> int" where
  "total xs = (\<Sum>e \<leftarrow> xs. int (length (snd e)))"

definition lru_inv :: "LRUCache \<Rightarrow> bool" where
  "lru_inv c \<longleftrightarrow> distinct (map fst (lru_ll c)) \<and> lru_used c = total (lru_ll c) \<and> lru_used c \<le> lru_capacity c \<and> 0 \<le> lru_capacity c \<and>
     (lru_capacity c = 0 \<longrightarrow> lru_ll c = [])"

definition view :: "LRUCache \<Rightarrow> string \<Rightarrow> bytes option" where
  "view c = map_of (lru_ll c)"

lemma total_simps [simp]: "total [] = 0" "total (e # xs) = int (length (snd e)) + total xs" "total (xs @ ys) = total xs + total ys"
  by (simp_all add: total_def)

lemma total_nonneg: "0 \<le> total xs"
  by (induction xs) auto

lemma without_absent [simp]: "key \<notin> fst ` set xs \<Longrightarrow> without key xs = xs"
  by (induction xs) (auto simp: without_def)

lemma distinct_without [simp]: "distinct (map fst xs) \<Longrightarrow> distinct (map fst (without key xs))"
  by (induction xs) (auto simp: without_def)

lemma key_without [simp]: "key \<notin> fst ` set (without key xs)"
  by (auto simp: without_def)

lemma map_of_without: "map_of (without key xs) = (map_of xs)(key := None)"
  by (induction xs) (auto simp: without_def fun_eq_iff)

lemma total_without: "distinct (map fst xs) \<Longrightarrow> map_of xs key = Some v \<Longrightarrow> total (without key xs) = total xs - int (length v)"
proof (induction xs)
  case (Cons e xs)
  then show ?case using without_absent [of key xs] by (cases e) (auto simp: without_def)
qed simp

lemma view_Get: "view (snd (lru_Get key c)) = view c" "fst (lru_Get key c) = view c key"
  by (auto simp: lru_Get_def view_def map_of_without fun_eq_iff split: option.split)

lemma inv_Get: "lru_inv c \<Longrightarrow> lru_inv (snd (lru_Get key c))"
  using total_without [of "lru_ll c" key] by (auto simp: lru_Get_def lru_inv_def split: option.split)

text \<open>What holds while the eviction runs: the accounts agree, but may exceed the capacity.\<close>

definition accounts :: "LRUCache \<Rightarrow> bool" where
  "accounts c \<longleftrightarrow> distinct (map fst (lru_ll c)) \<and> lru_used c = total (lru_ll c) \<and> 0 \<le> lru_capacity c"

lemma removeElement_accounts:
  assumes "accounts c" "map_of (lru_ll c) key = Some v"
  shows "accounts (removeElement (key, v) c)" "view (removeElement (key, v) c) = (view c)(key := None)"
    and "lru_used (removeElement (key, v) c) = lru_used c - int (length v)" "lru_capacity (removeElement (key, v) c) = lru_capacity c"
proof -
  have "0 \<le> lru_used c - int (length v)"
    using assms total_without [of "lru_ll c" key v] total_nonneg [of "without key (lru_ll c)"] by (simp add: accounts_def)
  then show "accounts (removeElement (key, v) c)" "view (removeElement (key, v) c) = (view c)(key := None)"
    "lru_used (removeElement (key, v) c) = lru_used c - int (length v)" "lru_capacity (removeElement (key, v) c) = lru_capacity c"
    using assms total_without [of "lru_ll c" key v] by (auto simp: removeElement_def accounts_def view_def map_of_without Let_def)
qed

lemma removeElement_empty: "lru_ll c = [] \<Longrightarrow> lru_ll (removeElement e c) = []"
  by (simp add: removeElement_def without_def Let_def)

lemma store_value_accounts:
  assumes "accounts c"
  shows "accounts (store_value key v c)" "view (store_value key v c) = (view c)(key \<mapsto> v)" "lru_capacity (store_value key v c) = lru_capacity c"
    and "hd (lru_ll (store_value key v c)) = (key, v)" "lru_ll (store_value key v c) \<noteq> []"
  using assms total_without [of "lru_ll c" key]
  by (auto simp: store_value_def accounts_def view_def map_of_without map_of_eq_None_iff fun_eq_iff split: option.split)

lemma removeOldest_accounts:
  assumes "accounts c" "lru_ll c \<noteq> []"
  shows "accounts (removeOldest c)" "lru_ll (removeOldest c) = butlast (lru_ll c)" "lru_capacity (removeOldest c) = lru_capacity c"
proof -
  obtain xs k v where ll: "lru_ll c = xs @ [(k, v)]" using assms(2) by (cases "lru_ll c" rule: rev_cases) auto
  have d: "distinct (map fst xs)" "k \<notin> fst ` set xs" using assms(1) by (auto simp: accounts_def ll)
  have m: "map_of (lru_ll c) k = Some v" using d(2) by (simp add: ll map_add_def map_of_eq_None_iff [THEN iffD2])
  have "removeOldest c = removeElement (k, v) c" using assms(2) by (simp add: removeOldest_def ll)
  then show "accounts (removeOldest c)" "lru_capacity (removeOldest c) = lru_capacity c" using removeElement_accounts [OF assms(1) m] by simp_all
  have "without k (xs @ [(k, v)]) = xs" using without_absent [OF d(2)] by (simp add: without_def)
  then show "lru_ll (removeOldest c) = butlast (lru_ll c)" using assms(2) by (simp add: removeOldest_def removeElement_def ll Let_def)
qed

definition evicting :: "string \<Rightarrow> bytes \<Rightarrow> LRUCache \<Rightarrow> LRUCache \<Rightarrow> bool" where
  "evicting key v c0 c \<longleftrightarrow> accounts c \<and> lru_capacity c = lru_capacity c0 \<and> lru_ll c \<noteq> [] \<and> hd (lru_ll c) = (key, v) \<and>
     view c \<subseteq>\<^sub>m view c0"

lemma evicting_step:
  assumes "evicting key v c0 c" "lru_used c > lru_capacity c" "int (length v) \<le> lru_capacity c0"
  shows "evicting key v c0 (removeOldest c)" "length (lru_ll (removeOldest c)) < length (lru_ll c)"
proof -
  have a: "accounts c" "lru_ll c \<noteq> []" "hd (lru_ll c) = (key, v)" using assms(1) by (simp_all add: evicting_def)
  note old = removeOldest_accounts [OF a(1,2)]
  have two: "butlast (lru_ll c) \<noteq> []"
  proof
    assume "butlast (lru_ll c) = []"
    then have "lru_ll c = [(key, v)]" using a(2,3) by (cases "lru_ll c") (auto split: if_splits)
    then show False using assms a(1) by (simp add: accounts_def evicting_def)
  qed
  have "map_of (butlast (lru_ll c)) \<subseteq>\<^sub>m map_of (lru_ll c)"
    using a(1,2) map_of_append [of "butlast (lru_ll c)" "[last (lru_ll c)]"]
    by (auto simp: map_le_def accounts_def map_add_def split: option.splits)
  then have "view (removeOldest c) \<subseteq>\<^sub>m view c0"
    using assms(1) old(2) by (auto simp: view_def evicting_def intro: map_le_trans)
  then show "evicting key v c0 (removeOldest c)" using old two a assms(1) by (cases "lru_ll c") (auto simp: evicting_def)
  show "length (lru_ll (removeOldest c)) < length (lru_ll c)" using old(2) a(2) by (cases "lru_ll c") auto
qed

lemma lru_inv_accounts: "lru_inv c \<longleftrightarrow> accounts c \<and> lru_used c \<le> lru_capacity c \<and> (lru_capacity c = 0 \<longrightarrow> lru_ll c = [])"
  by (auto simp: lru_inv_def accounts_def)

lemma Put_effect:
  assumes "lru_inv c"
  shows "\<exists>c'. lru_Put key v c = Some c' \<and> lru_inv c' \<and> lru_capacity c' = lru_capacity c \<and> view c' \<subseteq>\<^sub>m (view c)(key \<mapsto> v) \<and>
    (lru_capacity c \<noteq> 0 \<and> int (length v) \<le> lru_capacity c \<longrightarrow> view c' key = Some v)"
proof -
  have acc: "accounts c" "lru_used c \<le> lru_capacity c" using assms by (simp_all add: lru_inv_accounts)
  consider "lru_capacity c = 0" | "lru_capacity c \<noteq> 0" "int (length v) > lru_capacity c" | "lru_capacity c \<noteq> 0" "int (length v) \<le> lru_capacity c"
    by linarith
  then show ?thesis
  proof cases
    case 1
    then have "view c \<subseteq>\<^sub>m (view c)(key \<mapsto> v)" using assms by (simp add: lru_inv_def view_def)
    then show ?thesis using 1 assms by (simp add: lru_Put_def)
  next
    case 2
    show ?thesis
    proof (cases "map_of (lru_ll c) key")
      case None
      then show ?thesis using 2 assms by (auto simp: lru_Put_def view_def map_le_def)
    next
      case (Some old)
      then show ?thesis using 2 removeElement_accounts [OF acc(1) Some] removeElement_empty acc by (auto simp: lru_Put_def map_le_def lru_inv_accounts)
    qed
  next
    case 3
    let ?c0 = "store_value key v c"
    note s = store_value_accounts [OF acc(1), of key v]
    have start: "evicting key v ?c0 ?c0" using s by (simp add: evicting_def)
    have small: "int (length v) \<le> lru_capacity ?c0" using 3 s(3) by simp
    obtain c' where run: "while_option (\<lambda>c. lru_used c > lru_capacity c) removeOldest ?c0 = Some c'"
      using measure_while_option_Some [of "evicting key v ?c0" "\<lambda>c. lru_used c > lru_capacity c" removeOldest "\<lambda>c. length (lru_ll c)" ?c0]
        evicting_step [OF _ _ small] start by blast
    have inv: "evicting key v ?c0 c'" using while_option_rule [of "evicting key v ?c0", OF _ run start] evicting_step(1) [OF _ _ small] by blast
    have stop: "\<not> lru_used c' > lru_capacity c'" using while_option_stop [OF run] .
    have "view c' key = Some v" using inv by (cases "lru_ll c'") (auto simp: evicting_def view_def)
    then show ?thesis using 3 run inv stop s(2,3) by (auto simp: lru_Put_def evicting_def lru_inv_accounts)
  qed
qed

lemma Invalidate_effect:
  assumes "lru_inv c"
  shows "lru_inv (lru_Invalidate key c)" "view (lru_Invalidate key c) = (view c)(key := None)" "lru_capacity (lru_Invalidate key c) = lru_capacity c"
  using assms removeElement_accounts [of c key] removeElement_empty [of c]
  by (auto simp: lru_Invalidate_def lru_inv_accounts view_def fun_eq_iff split: option.split)

section \<open>The interface\<close>

text \<open>What the users of a cache rely on: it never shows anything but the last value put under a key that was not
  invalidated since, and an operation always returns. It may forget values at any time.\<close>

locale Cache_contract =
  fixes get :: "string \<Rightarrow> 'c \<Rightarrow> bytes option \<times> 'c" and put :: "string \<Rightarrow> bytes \<Rightarrow> 'c \<Rightarrow> 'c option" and invalidate :: "string \<Rightarrow> 'c \<Rightarrow> 'c"
    and ok :: "'c \<Rightarrow> bool" and shown :: "'c \<Rightarrow> string \<Rightarrow> bytes option"
  assumes get_hit: "ok c \<Longrightarrow> fst (get k c) = shown c k" and get_keeps: "ok c \<Longrightarrow> ok (snd (get k c)) \<and> shown (snd (get k c)) \<subseteq>\<^sub>m shown c"
    and put_effect: "ok c \<Longrightarrow> \<exists>c'. put k v c = Some c' \<and> ok c' \<and> shown c' \<subseteq>\<^sub>m (shown c)(k \<mapsto> v)"
    and invalidate_effect: "ok c \<Longrightarrow> ok (invalidate k c) \<and> shown (invalidate k c) \<subseteq>\<^sub>m (shown c)(k := None)"

datatype cache_op = CGet string | CPut string bytes | CInvalidate string

fun cache_run ::
  "(string \<Rightarrow> 'c \<Rightarrow> bytes option \<times> 'c) \<Rightarrow> (string \<Rightarrow> bytes \<Rightarrow> 'c \<Rightarrow> 'c option) \<Rightarrow> (string \<Rightarrow> 'c \<Rightarrow> 'c) \<Rightarrow> cache_op list \<Rightarrow> 'c \<Rightarrow> 'c option" where
  "cache_run get put forget [] c = Some c"
| "cache_run get put forget (CGet k # ops) c = cache_run get put forget ops (snd (get k c))"
| "cache_run get put forget (CPut k v # ops) c = Option.bind (put k v c) (cache_run get put forget ops)"
| "cache_run get put forget (CInvalidate k # ops) c = cache_run get put forget ops (forget k c)"

fun cache_spec :: "cache_op \<Rightarrow> (string \<Rightarrow> bytes option) \<Rightarrow> string \<Rightarrow> bytes option" where
  "cache_spec (CGet k) M = M"
| "cache_spec (CPut k v) M = M(k \<mapsto> v)"
| "cache_spec (CInvalidate k) M = M(k := None)"

context Cache_contract
begin

lemma run_coherent:
  "ok c \<Longrightarrow> shown c \<subseteq>\<^sub>m M \<Longrightarrow> \<exists>c'. cache_run get put invalidate ops c = Some c' \<and> ok c' \<and> shown c' \<subseteq>\<^sub>m fold cache_spec ops M"
proof (induction ops arbitrary: c M)
  case (Cons op ops)
  show ?case
  proof (cases op)
    case (CGet k)
    have "shown (snd (get k c)) \<subseteq>\<^sub>m M" using get_keeps [OF Cons.prems(1)] Cons.prems(2) map_le_trans by blast
    then show ?thesis using Cons.IH [of "snd (get k c)" M] get_keeps [OF Cons.prems(1), of k] CGet by simp
  next
    case (CPut k v)
    obtain c' where c': "put k v c = Some c'" "ok c'" "shown c' \<subseteq>\<^sub>m (shown c)(k \<mapsto> v)" using put_effect [OF Cons.prems(1)] by blast
    have "shown c' \<subseteq>\<^sub>m M(k \<mapsto> v)" using c'(3) Cons.prems(2) by (meson map_le_trans map_le_upd)
    then show ?thesis using Cons.IH [OF c'(2)] c'(1) CPut by (simp add: fun_upd_def)
  next
    case (CInvalidate k)
    have "(shown c)(k := None) \<subseteq>\<^sub>m M(k := None)" using Cons.prems(2) by (auto simp: map_le_def)
    then have "shown (invalidate k c) \<subseteq>\<^sub>m M(k := None)" using invalidate_effect [OF Cons.prems(1)] map_le_trans by blast
    then show ?thesis using Cons.IH [of "invalidate k c" "M(k := None)"] invalidate_effect [OF Cons.prems(1), of k] CInvalidate
      by (simp add: fun_upd_def)
  qed
qed simp

end

interpretation lru: Cache_contract lru_Get lru_Put lru_Invalidate "\<lambda>c. lru_inv c \<and> lru_capacity c = cap" view for cap
proof
  fix c k v assume ok: "lru_inv c \<and> lru_capacity c = cap"
  then have inv: "lru_inv c" by blast
  have "lru_capacity (snd (lru_Get k c)) = lru_capacity c" by (simp add: lru_Get_def split: option.split)
  then show "fst (lru_Get k c) = view c k"
    "(lru_inv (snd (lru_Get k c)) \<and> lru_capacity (snd (lru_Get k c)) = cap) \<and> view (snd (lru_Get k c)) \<subseteq>\<^sub>m view c"
    using inv_Get [OF inv] ok by (simp_all add: view_Get)
  show "\<exists>c'. lru_Put k v c = Some c' \<and> (lru_inv c' \<and> lru_capacity c' = cap) \<and> view c' \<subseteq>\<^sub>m (view c)(k \<mapsto> v)"
    using Put_effect [OF inv, of k v] ok by blast
  show "(lru_inv (lru_Invalidate k c) \<and> lru_capacity (lru_Invalidate k c) = cap) \<and> view (lru_Invalidate k c) \<subseteq>\<^sub>m (view c)(k := None)"
    using Invalidate_effect [OF inv] ok by simp
qed

lemma New_inv: "lru_inv (NewLRUCache capacity)" "view (NewLRUCache capacity) = Map.empty" "lru_capacity (NewLRUCache capacity) = max 0 capacity"
  by (simp_all add: NewLRUCache_def lru_inv_def view_def)

text \<open>C24: the cache answers, within its capacity, and is never stale. Any sequence of operations on a new cache
  returns, in particular every eviction ends; the values it then holds take exactly the room it accounts for,
  at most the capacity, and a hit is the last value put under the key that was not invalidated since.\<close>

theorem lru_coherent:
  "\<exists>c. cache_run lru_Get lru_Put lru_Invalidate ops (NewLRUCache capacity) = Some c \<and>
     lru_used c = (\<Sum>(k, v) \<leftarrow> lru_ll c. int (length v)) \<and> lru_used c \<le> max 0 capacity \<and>
     (\<forall>k v. fst (lru_Get k c) = Some v \<longrightarrow> fold cache_spec ops Map.empty k = Some v)"
proof -
  obtain c where c: "cache_run lru_Get lru_Put lru_Invalidate ops (NewLRUCache capacity) = Some c" "lru_inv c" "lru_capacity c = max 0 capacity"
      "view c \<subseteq>\<^sub>m fold cache_spec ops Map.empty"
    using lru.run_coherent [of "NewLRUCache capacity" "max 0 capacity" Map.empty ops] New_inv [of capacity] by auto
  have "\<forall>k v. fst (lru_Get k c) = Some v \<longrightarrow> fold cache_spec ops Map.empty k = Some v"
    using c(4) unfolding view_Get by (auto simp: map_le_def dom_def)
  moreover have "total (lru_ll c) = (\<Sum>(k, v) \<leftarrow> lru_ll c. int (length v))" by (simp add: total_def case_prod_beta')
  ultimately show ?thesis using c(1-3) by (auto simp: lru_inv_def)
qed

text \<open>The second value does not fit beside the first.\<close>

lemma lru_coherent_witness:
  "\<exists>c. cache_run lru_Get lru_Put lru_Invalidate [CPut ''a'' [1, 2, 3], CPut ''b'' [4, 5]] (NewLRUCache 4) = Some c \<and>
     lru_used c \<le> 4 \<and> fst (lru_Get ''b'' c) = Some [4, 5] \<and> fst (lru_Get ''a'' c) = None"
  using lru_coherent [of "[CPut ''a'' [1, 2, 3], CPut ''b'' [4, 5]]" 4]
  by (simp add: lru_Put_def NewLRUCache_def store_value_def while_option_unfold removeOldest_def removeElement_def without_def lru_Get_def)

text \<open>The value put last is there, when it fits.\<close>

lemma Put_Get:
  "lru_inv c \<Longrightarrow> lru_capacity c \<noteq> 0 \<Longrightarrow> int (length v) \<le> lru_capacity c \<Longrightarrow> lru_Put k v c = Some c' \<Longrightarrow> fst (lru_Get k c') = Some v"
  using Put_effect [of c k v] by (auto simp: view_Get)

end
