(* ===== verification/NetAddr.thy ===== *)
theory NetAddr
  imports GoPrelude
begin

text \<open>
  What the guard of the servers uses of Go's package net: addresses and networks read from text
  (\<open>ParseIP\<close>, \<open>ParseCIDR\<close>, which use \<open>netip.ParseAddr\<close>), \<open>SplitHostPort\<close> and \<open>IPNet.Contains\<close>. An address is
  its bytes: four for IPv4, sixteen for IPv6.
\<close>

section \<open>Addresses\<close>

text \<open>A decimal field of at most 255 without leading zeros.\<close>

definition octet :: "string \<Rightarrow> byte option" where
  "octet s =
     (if s = [] \<or> (1 < length s \<and> hd s = CHR ''0'') then None
      else case parse_digits 10 0 s of None \<Rightarrow> None | Some n \<Rightarrow> if n \<le> 255 then Some (of_nat n) else None)"

definition parseIPv4 :: "string \<Rightarrow> bytes option" where
  "parseIPv4 s =
     (let fields = map octet (str_split (CHR ''.'') s) in
      if length fields = 4 \<and> None \<notin> set fields then Some (map the fields) else None)"

definition hex_char :: "char \<Rightarrow> bool" where
  "hex_char c \<longleftrightarrow> (case char_digit c of None \<Rightarrow> False | Some d \<Rightarrow> d < 16)"

text \<open>
  The loop over the groups of an IPv6 address: the bytes so far, the position of the ellipsis, and the text that is
  left. The result is the bytes, the position, and whether the whole text was used.
\<close>

function parse_groups :: "bytes \<Rightarrow> nat option \<Rightarrow> string \<Rightarrow> (bytes \<times> nat option) option" where
  "parse_groups ip ellipsis s =
     (if 16 \<le> length ip then (if s = [] then Some (ip, ellipsis) else None)
      else let ds = takeWhile hex_char s; rest = dropWhile hex_char s in
        if ds = [] \<or> 4 < length ds then None
        else if rest \<noteq> [] \<and> hd rest = CHR ''.'' then
          (if ellipsis = None \<and> length ip \<noteq> 12 \<or> 16 < length ip + 4 then None
           else case parseIPv4 s of None \<Rightarrow> None | Some v4 \<Rightarrow> Some (ip @ v4, ellipsis))
        else let ip' = ip @ put_u16 (of_nat (the (parse_digits 16 0 ds))) in
          (case rest of
             [] \<Rightarrow> Some (ip', ellipsis)
           | c # s1 \<Rightarrow>
               if c \<noteq> CHR '':'' \<or> s1 = [] then None
               else if hd s1 = CHR '':'' then
                 (if ellipsis \<noteq> None then None
                  else if tl s1 = [] then Some (ip', Some (length ip'))
                  else parse_groups ip' (Some (length ip')) (tl s1))
               else parse_groups ip' ellipsis s1))"
  by pat_completeness auto

termination parse_groups
  by (relation "measure (\<lambda>(ip, ellipsis, s). 16 - length ip)") auto

declare parse_groups.simps [simp del]

definition expand :: "bytes \<times> nat option \<Rightarrow> bytes option" where
  "expand r =
     (case r of (ip, ellipsis) \<Rightarrow>
        if length ip < 16 then
          (case ellipsis of None \<Rightarrow> None | Some k \<Rightarrow> Some (take k ip @ replicate (16 - length ip) 0 @ drop k ip))
        else if ellipsis = None then Some ip else None)"

text \<open>The text without its zone.\<close>

definition parseIPv6 :: "string \<Rightarrow> bytes option" where
  "parseIPv6 s =
     (if take 2 s = ''::'' then
        (if drop 2 s = [] then Some (replicate 16 0) else Option.bind (parse_groups [] (Some 0) (drop 2 s)) expand)
      else Option.bind (parse_groups [] None s) expand)"

text \<open>\<open>netip.ParseAddr\<close>, for the callers that refuse an address with a zone.\<close>

definition ParseAddr :: "string \<Rightarrow> bytes option" where
  "ParseAddr s =
     (case find (\<lambda>c. c \<in> {CHR ''.'', CHR '':'', CHR ''%''}) s of
        None \<Rightarrow> None
      | Some c \<Rightarrow>
          if c = CHR ''.'' then parseIPv4 s
          else if c = CHR '':'' \<and> CHR ''%'' \<notin> set s then parseIPv6 s
          else None)"

definition v4InV6Prefix :: bytes where
  "v4InV6Prefix = replicate 10 0 @ [255, 255]"

definition To4 :: "bytes \<Rightarrow> bytes option" where
  "To4 ip =
     (if length ip = 4 then Some ip
      else if length ip = 16 \<and> take 12 ip = v4InV6Prefix then Some (drop 12 ip)
      else None)"

text \<open>\<open>net.ParseIP\<close> gives sixteen bytes.\<close>

definition ParseIP :: "string \<Rightarrow> bytes option" where
  "ParseIP s = map_option (\<lambda>ip. if length ip = 4 then v4InV6Prefix @ ip else ip) (ParseAddr s)"

section \<open>Networks\<close>

text \<open>The network number and the length of the mask.\<close>

record IPNet =
  net_IP :: bytes
  net_ones :: nat

definition bits_of :: "bytes \<Rightarrow> bool list" where
  "bits_of bs = concat (map (\<lambda>b. map (\<lambda>i. bit b (7 - i)) [0..<8]) bs)"

text \<open>Sixteen bytes and a mask of 128 bits, or four bytes and a mask of 32; \<open>ParseCIDR\<close> also masks the address,
  which a comparison under the mask cannot see except in the prefix of an embedded IPv4 address.\<close>

definition mask_bytes :: "nat \<Rightarrow> bytes \<Rightarrow> bytes" where
  "mask_bytes ones ip =
     map (\<lambda>(i, b). if 8 * (i + 1) \<le> ones then b
                    else if ones \<le> 8 * i then 0
                    else push_bit (8 * (i + 1) - ones) (drop_bit (8 * (i + 1) - ones) b)) (enumerate 0 ip)"

definition ParseCIDR :: "string \<Rightarrow> IPNet option" where
  "ParseCIDR s =
     (case str_index (CHR ''/'') s of
        None \<Rightarrow> None
      | Some i \<Rightarrow>
          (let mask = drop (i + 1) s in
           case ParseAddr (take i s) of
             None \<Rightarrow> None
           | Some ip \<Rightarrow>
               if mask = [] then None
               else case parse_digits 10 0 mask of
                 None \<Rightarrow> None
               | Some n \<Rightarrow>
                   if 8 * length ip < n then None
                   else Some \<lparr>net_IP = mask_bytes n ip, net_ones = n\<rparr>))"

definition agree :: "nat \<Rightarrow> bytes \<Rightarrow> bytes \<Rightarrow> bool" where
  "agree n a b \<longleftrightarrow> take n (bits_of a) = take n (bits_of b)"

text \<open>\<open>IPNet.Contains\<close>: an embedded IPv4 network is compared in its last four bytes.\<close>

definition Contains :: "IPNet \<Rightarrow> bytes \<Rightarrow> bool" where
  "Contains net ip =
     (let x = (case To4 ip of Some v4 \<Rightarrow> v4 | None \<Rightarrow> ip) in
      case To4 (net_IP net) of
        Some nn \<Rightarrow> length x = 4 \<and> agree (if length (net_IP net) = 4 then net_ones net else net_ones net - 96) nn x
      | None \<Rightarrow> length x = 16 \<and> agree (net_ones net) (net_IP net) x)"

section \<open>Host and port\<close>

definition SplitHostPort :: "string \<Rightarrow> (string \<times> string) option" where
  "SplitHostPort s =
     (case str_last_index (CHR '':'') s of
        None \<Rightarrow> None
      | Some i \<Rightarrow>
          (let port = drop (i + 1) s in
           if hd s = CHR ''['' then
             (case str_index (CHR '']'') s of
                None \<Rightarrow> None
              | Some e \<Rightarrow>
                  if e + 1 \<noteq> i then None
                  else if CHR ''['' \<in> set (drop 1 s) \<or> CHR '']'' \<in> set (drop (e + 1) s) then None
                  else Some (take (e - 1) (drop 1 s), port))
           else if CHR '':'' \<in> set (take i s) then None
           else if CHR ''['' \<in> set s \<or> CHR '']'' \<in> set s then None
           else Some (take i s, port)))"

end
