(* ===== verification/Guard.thy ===== *)
theory Guard
  imports NetAddr Complex_Main
begin

text \<open>
  Who may talk to a server: the guard with its white list and token check (src/goblob/security/guard.go), the
  decisions of its middleware (middleware.go), the rate limiter (rate_limit.go) and the validation of names
  (validation.go). Verifying a token is the third-party library below \<open>VerifyJWT\<close>, an argument here; the numbers of
  the rate limiter, floats in the code, are rational numbers, and times are in nanoseconds.
\<close>

section \<open>Requests\<close>

record Request =
  rq_RemoteAddr :: string
  rq_Header :: "string \<Rightarrow> string"

definition TrimPrefix :: "string \<Rightarrow> string \<Rightarrow> string" where
  "TrimPrefix s p = (if take (length p) s = p then drop (length p) s else s)"

section \<open>The guard\<close>

record Guard =
  g_whiteList :: "string list"
  g_whiteNets :: "IPNet list"
  g_signingKey :: string
  g_filerKey :: string

definition ParseWhiteList :: "string \<Rightarrow> string list" where
  "ParseWhiteList s = (if s = [] then [] else filter (\<lambda>e. e \<noteq> []) (map TrimSpace (str_split (CHR '','') s)))"

definition compile_entry :: "string \<Rightarrow> IPNet option" where
  "compile_entry entry =
     (if CHR ''/'' \<in> set entry then ParseCIDR entry
      else case ParseIP entry of
        None \<Rightarrow> None
      | Some ip \<Rightarrow> ParseCIDR (entry @ (if To4 ip \<noteq> None then ''/32'' else ''/128'')))"

definition compileWhiteList :: "Guard \<Rightarrow> Guard" where
  "compileWhiteList g = g\<lparr>g_whiteNets := List.map_filter compile_entry (g_whiteList g)\<rparr>"

definition NewGuard :: "string \<Rightarrow> string \<Rightarrow> string \<Rightarrow> Guard" where
  "NewGuard whiteList signingKey filerKey =
     compileWhiteList \<lparr>g_whiteList = ParseWhiteList whiteList, g_whiteNets = [], g_signingKey = signingKey, g_filerKey = filerKey\<rparr>"

definition isIPAllowedLocked :: "string \<Rightarrow> Guard \<Rightarrow> bool" where
  "isIPAllowedLocked remoteAddr g =
     (let host = (case SplitHostPort remoteAddr of Some (h, _) \<Rightarrow> h | None \<Rightarrow> remoteAddr) in
      case ParseIP host of
        None \<Rightarrow> False
      | Some ip \<Rightarrow> g_whiteNets g = [] \<or> (\<exists>net \<in> set (g_whiteNets g). Contains net ip))"

definition token_ok :: "(string \<Rightarrow> string \<Rightarrow> bool) \<Rightarrow> string \<Rightarrow> ('a Request_scheme) \<Rightarrow> bool" where
  "token_ok VerifyJWT key r =
     (let token = rq_Header r ''Authorization'' in
      if token = [] then False else VerifyJWT (TrimPrefix token ''Bearer '') key)"

definition Allowed :: "(string \<Rightarrow> string \<Rightarrow> bool) \<Rightarrow> 'a Request_scheme \<Rightarrow> bool \<Rightarrow> Guard \<Rightarrow> bool" where
  "Allowed VerifyJWT r requiresJWT g =
     (if \<not> isIPAllowedLocked (rq_RemoteAddr r) g then False
      else if requiresJWT \<and> g_signingKey g \<noteq> [] then token_ok VerifyJWT (g_signingKey g) r
      else True)"

definition FilerAllowed :: "(string \<Rightarrow> string \<Rightarrow> bool) \<Rightarrow> 'a Request_scheme \<Rightarrow> Guard \<Rightarrow> bool" where
  "FilerAllowed VerifyJWT r g =
     (if \<not> isIPAllowedLocked (rq_RemoteAddr r) g then False
      else if g_filerKey g \<noteq> [] then token_ok VerifyJWT (g_filerKey g) r
      else True)"

definition IsWhiteListEmpty :: "Guard \<Rightarrow> bool" where
  "IsWhiteListEmpty g \<longleftrightarrow> g_whiteNets g = []"

definition WhiteListContains :: "string \<Rightarrow> Guard \<Rightarrow> bool" where
  "WhiteListContains s g =
     (case ParseIP s of None \<Rightarrow> False | Some ip \<Rightarrow> \<exists>net \<in> set (g_whiteNets g). Contains net ip)"

definition SetWhiteList :: "string \<Rightarrow> Guard \<Rightarrow> Guard" where
  "SetWhiteList whiteList g = compileWhiteList (g\<lparr>g_whiteList := ParseWhiteList whiteList\<rparr>)"

definition HasJWTSigningKey :: "Guard \<Rightarrow> bool" where
  "HasJWTSigningKey g \<longleftrightarrow> g_signingKey g \<noteq> []"

definition HasFilerKey :: "Guard \<Rightarrow> bool" where
  "HasFilerKey g \<longleftrightarrow> g_filerKey g \<noteq> []"

definition SetSigningKey :: "string \<Rightarrow> Guard \<Rightarrow> Guard" where
  "SetSigningKey key g = g\<lparr>g_signingKey := key\<rparr>"

definition SetFilerKey :: "string \<Rightarrow> Guard \<Rightarrow> Guard" where
  "SetFilerKey key g = g\<lparr>g_filerKey := key\<rparr>"

section \<open>Middleware\<close>

datatype MiddlewareType = MiddlewareDefault | MiddlewareJWT | MiddlewareWhitelist | MiddlewareFiler | MiddlewareAdmin

text \<open>The status a middleware answers with instead of calling the next handler.\<close>

definition middleware_reject :: "(string \<Rightarrow> string \<Rightarrow> bool) \<Rightarrow> Guard \<Rightarrow> MiddlewareType \<Rightarrow> 'a Request_scheme \<Rightarrow> nat option" where
  "middleware_reject VerifyJWT g mw r =
     (case mw of
        MiddlewareJWT \<Rightarrow> if Allowed VerifyJWT r True g then None else Some 401
      | MiddlewareWhitelist \<Rightarrow> if Allowed VerifyJWT r False g then None else Some 403
      | MiddlewareFiler \<Rightarrow> if FilerAllowed VerifyJWT r g then None else Some 401
      | MiddlewareAdmin \<Rightarrow> if Allowed VerifyJWT r (HasJWTSigningKey g) g then None else Some 401
      | MiddlewareDefault \<Rightarrow> if Allowed VerifyJWT r (HasJWTSigningKey g) g then None else Some 403)"

text \<open>The middlewares are applied from the last to the first, so the first is outermost.\<close>

definition ChainHTTPMiddleware ::
  "(string \<Rightarrow> string \<Rightarrow> bool) \<Rightarrow> Guard \<Rightarrow> ('a Request_scheme \<Rightarrow> nat) \<Rightarrow> MiddlewareType list \<Rightarrow> 'a Request_scheme \<Rightarrow> nat" where
  "ChainHTTPMiddleware VerifyJWT g nxt middlewares =
     foldr (\<lambda>mw h r. case middleware_reject VerifyJWT g mw r of Some code \<Rightarrow> code | None \<Rightarrow> h r) middlewares nxt"

definition GRPCInterceptor :: "Guard \<Rightarrow> string \<Rightarrow> bool" where
  "GRPCInterceptor g clientIP \<longleftrightarrow> \<not> (clientIP \<noteq> [] \<and> \<not> isIPAllowedLocked clientIP g)"

section \<open>The rate limiter\<close>

record limiterEntry =
  le_tokens :: rat
  le_last :: int
  le_lastSeen :: int

record RateLimiter =
  rl_limiters :: "string \<Rightarrow> limiterEntry option"
  rl_count :: nat
  rl_rps :: rat
  rl_burst :: rat
  rl_ttl :: int

definition NewRateLimiter :: "rat \<Rightarrow> int \<Rightarrow> RateLimiter" where
  "NewRateLimiter rps burst =
     \<lparr>rl_limiters = Map.empty, rl_count = 0, rl_rps = (if rps \<le> 0 then 100 else rps),
      rl_burst = (if burst \<le> 0 then 50 else of_int burst), rl_ttl = 10 * 60 * 10 ^ 9\<rparr>"

text \<open>The entries the clean-up removes; \<open>rl_count\<close> is the number of entries, given by \<open>order\<close>, the hosts in the order
  the map is iterated.\<close>

definition cleanupLocked :: "string list \<Rightarrow> int \<Rightarrow> RateLimiter \<Rightarrow> RateLimiter" where
  "cleanupLocked order now rl =
     fold (\<lambda>ip rl. case rl_limiters rl ip of
                     None \<Rightarrow> rl
                   | Some e \<Rightarrow> if now - le_lastSeen e > rl_ttl rl
                               then rl\<lparr>rl_limiters := (rl_limiters rl)(ip := None), rl_count := rl_count rl - 1\<rparr> else rl) order rl"

definition refill :: "RateLimiter \<Rightarrow> int \<Rightarrow> limiterEntry \<Rightarrow> rat" where
  "refill rl now e =
     (let elapsed = of_int (now - le_last e) / 10 ^ 9 in
      if elapsed > 0 then min (rl_burst rl) (le_tokens e + elapsed * rl_rps rl) else le_tokens e)"

definition rl_allow :: "string list \<Rightarrow> int \<Rightarrow> string \<Rightarrow> RateLimiter \<Rightarrow> bool \<times> RateLimiter" where
  "rl_allow order now ip rl =
     (case rl_limiters rl ip of
        None \<Rightarrow>
          (let rl1 = rl\<lparr>rl_limiters := (rl_limiters rl)(ip \<mapsto> \<lparr>le_tokens = rl_burst rl - 1, le_last = now, le_lastSeen = now\<rparr>),
                        rl_count := rl_count rl + 1\<rparr> in
           (True, if rl_count rl1 mod 128 = 0 then cleanupLocked order now rl1 else rl1))
      | Some e \<Rightarrow>
          (let tokens = refill rl now e;
               tokens1 = (if tokens < 1 then tokens else tokens - 1) in
           (\<not> tokens < 1, rl\<lparr>rl_limiters := (rl_limiters rl)(ip \<mapsto> \<lparr>le_tokens = tokens1, le_last = now, le_lastSeen = now\<rparr>)\<rparr>)))"

definition GetActualRemoteHost :: "'a Request_scheme \<Rightarrow> string" where
  "GetActualRemoteHost r =
     (let xff = TrimSpace (rq_Header r ''X-Forwarded-For'');
          xrip = TrimSpace (rq_Header r ''X-Real-Ip'') in
      if xff \<noteq> [] then TrimSpace (hd (str_split (CHR '','') xff))
      else if xrip \<noteq> [] then xrip
      else case SplitHostPort (TrimSpace (rq_RemoteAddr r)) of
        Some (host, _) \<Rightarrow> host
      | None \<Rightarrow> TrimSpace (rq_RemoteAddr r))"

section \<open>Validation\<close>

datatype validation_error = ErrInvalidVolumeId | ErrVolumeIdOutOfRange | ErrPathTraversalDetected | ErrFilenameTooLong | ErrInvalidFilename

definition ValidateVolumeId :: "string \<Rightarrow> validation_error + unit" where
  "ValidateVolumeId vid =
     (case parse_uint (TrimSpace vid) 10 32 of
        None \<Rightarrow> Inl ErrInvalidVolumeId
      | Some u \<Rightarrow> if u > 2 ^ 32 - 1 then Inl ErrVolumeIdOutOfRange else Inr ())"

text \<open>\<open>url.PathUnescape\<close>: an error gives the empty string, which the caller goes on with.\<close>

fun PathUnescape :: "string \<Rightarrow> string option" where
  "PathUnescape [] = Some []"
| "PathUnescape (c # s) =
     (if c = CHR ''%'' then
        (case s of
           h # l # s1 \<Rightarrow> if hex_char h \<and> hex_char l
                         then map_option (\<lambda>t. char_of (the (char_digit h) * 16 + the (char_digit l)) # t) (PathUnescape s1) else None
         | _ \<Rightarrow> None)
      else map_option ((#) c) (PathUnescape s))"

fun contains_dots :: "string \<Rightarrow> bool" where
  "contains_dots (a # b # s) = (a = CHR ''.'' \<and> b = CHR ''.'' \<or> contains_dots (b # s))"
| "contains_dots _ = False"

definition ValidatePath :: "string \<Rightarrow> validation_error + unit" where
  "ValidatePath p =
     (let decoded = (case PathUnescape (TrimSpace p) of None \<Rightarrow> [] | Some d \<Rightarrow> d) in
      if contains_dots decoded then Inl ErrPathTraversalDetected else Inr ())"

definition ValidateFilename :: "string \<Rightarrow> validation_error + unit" where
  "ValidateFilename name =
     (let n = TrimSpace name in
      if length n = 0 \<or> n = ''.'' \<or> n = ''..'' then Inl ErrInvalidFilename
      else if length n > 255 then Inl ErrFilenameTooLong
      else Inr ())"

end
