(* ===== verification/GuardProps.thy ===== *)
theory GuardProps
  imports Guard
begin

text \<open>
  The rate limiter keeps the long-run rate of every host; the white list admits exactly the addresses its entries
  denote.
\<close>

section \<open>The rate limiter\<close>

type_synonym call = "int \<times> string \<times> string list"

fun rl_run :: "call list \<Rightarrow> RateLimiter \<Rightarrow> bool list \<times> RateLimiter" where
  "rl_run [] rl = ([], rl)"
| "rl_run ((now, ip, order) # calls) rl =
     (case rl_allow order now ip rl of (ok, rl1) \<Rightarrow> case rl_run calls rl1 of (oks, rl2) \<Rightarrow> (ok # oks, rl2))"

definition admitted :: "string \<Rightarrow> call list \<Rightarrow> RateLimiter \<Rightarrow> nat" where
  "admitted ip calls rl = length (filter (\<lambda>(c, ok). ok \<and> fst (snd c) = ip) (zip calls (fst (rl_run calls rl))))"

text \<open>What holds of a limiter at a time: every bucket is between empty and full, and was last seen no later.\<close>

definition rl_inv :: "int \<Rightarrow> RateLimiter \<Rightarrow> bool" where
  "rl_inv now rl \<longleftrightarrow> 1 \<le> rl_burst rl \<and> 0 < rl_rps rl \<and> rl_burst rl \<le> rl_rps rl * of_int (rl_ttl rl) / 10 ^ 9 \<and>
     (\<forall>ip e. rl_limiters rl ip = Some e \<longrightarrow> 0 \<le> le_tokens e \<and> le_tokens e \<le> rl_burst rl \<and> le_last e \<le> now \<and> le_lastSeen e = le_last e)"

text \<open>What a host may still spend at a time.\<close>

fun credit_in :: "rat \<Rightarrow> rat \<Rightarrow> int \<Rightarrow> limiterEntry option \<Rightarrow> rat" where
  "credit_in burst rps now None = burst"
| "credit_in burst rps now (Some e) = min burst (le_tokens e + rps * of_int (now - le_last e) / 10 ^ 9)"

definition credit :: "string \<Rightarrow> int \<Rightarrow> RateLimiter \<Rightarrow> rat" where
  "credit ip now rl = credit_in (rl_burst rl) (rl_rps rl) now (rl_limiters rl ip)"

lemma rl_inv_later: "rl_inv t rl \<Longrightarrow> t \<le> t' \<Longrightarrow> rl_inv t' rl"
  unfolding rl_inv_def by (meson order_trans)

lemma credit_bounds:
  assumes "rl_inv t rl"
  shows "0 \<le> credit ip t rl" "credit ip t rl \<le> rl_burst rl"
  using assms by (cases "rl_limiters rl ip"; auto simp: credit_def rl_inv_def)+

lemma credit_later:
  assumes "rl_inv t rl" "t \<le> t'"
  shows "credit ip t' rl \<le> credit ip t rl + rl_rps rl * of_int (t' - t) / 10 ^ 9"
proof -
  have "0 \<le> rl_rps rl * of_int (t' - t) / 10 ^ 9" using assms by (simp add: rl_inv_def)
  moreover have "min b (x + rps * of_int (t' - l) / 10 ^ 9) \<le> min b (x + rps * of_int (t - l) / 10 ^ 9) + rps * of_int (t' - t) / 10 ^ 9"
    if "0 \<le> rps * of_int (t' - t) / 10 ^ 9" for b x rps :: rat and l
    using that by (simp add: min_def diff_divide_distrib right_diff_distrib)
  ultimately show ?thesis by (cases "rl_limiters rl ip") (auto simp: credit_def)
qed

text \<open>Removing a bucket that was idle for the whole time to live gives nothing away, since it is full again.\<close>

definition drop_idle :: "int \<Rightarrow> string \<Rightarrow> RateLimiter \<Rightarrow> RateLimiter" where
  "drop_idle now ip rl = (case rl_limiters rl ip of
                     None \<Rightarrow> rl
                   | Some e \<Rightarrow> if now - le_lastSeen e > rl_ttl rl
                               then rl\<lparr>rl_limiters := (rl_limiters rl)(ip := None), rl_count := rl_count rl - 1\<rparr> else rl)"

lemma drop_idle_keeps:
  assumes "rl_inv now rl"
  shows "rl_inv now (drop_idle now k rl) \<and> credit ip now (drop_idle now k rl) = credit ip now rl \<and>
    rl_rps (drop_idle now k rl) = rl_rps rl \<and> rl_burst (drop_idle now k rl) = rl_burst rl"
proof (cases "\<exists>e. rl_limiters rl k = Some e \<and> now - le_lastSeen e > rl_ttl rl")
  case False
  then have "drop_idle now k rl = rl" by (auto simp: drop_idle_def split: option.split)
  then show ?thesis using assms by simp
next
  case True
  then obtain e where e: "rl_limiters rl k = Some e" "now - le_lastSeen e > rl_ttl rl" by blast
  then have d: "drop_idle now k rl = rl\<lparr>rl_limiters := (rl_limiters rl)(k := None), rl_count := rl_count rl - 1\<rparr>"
    by (simp add: drop_idle_def)
  have i: "0 \<le> le_tokens e" "le_lastSeen e = le_last e" "rl_burst rl \<le> rl_rps rl * of_int (rl_ttl rl) / 10 ^ 9" "0 < rl_rps rl"
    using assms e(1) by (auto simp: rl_inv_def)
  have "rl_rps rl * of_int (rl_ttl rl) \<le> rl_rps rl * of_int (now - le_last e)"
    using i(2,4) e(2) by (intro mult_left_mono) auto
  then have "rl_burst rl \<le> le_tokens e + rl_rps rl * of_int (now - le_last e) / 10 ^ 9"
    using i(1,3) by (simp add: field_simps)
  then have "credit ip now (drop_idle now k rl) = credit ip now rl" by (simp add: d credit_def e(1))
  moreover have "rl_inv now (drop_idle now k rl)" using assms by (auto simp: d rl_inv_def split: if_splits)
  ultimately show ?thesis by (simp add: d)
qed

lemma cleanup_keeps:
  assumes "rl_inv now rl"
  shows "rl_inv now (cleanupLocked order now rl) \<and> credit ip now (cleanupLocked order now rl) = credit ip now rl \<and>
    rl_rps (cleanupLocked order now rl) = rl_rps rl \<and> rl_burst (cleanupLocked order now rl) = rl_burst rl"
proof -
  have "cleanupLocked order now rl = fold (drop_idle now) order rl" unfolding cleanupLocked_def by (intro fold_cong refl) (simp add: drop_idle_def fun_eq_iff)
  moreover have "rl_inv now (fold (drop_idle now) ks rl) \<and> credit ip now (fold (drop_idle now) ks rl) = credit ip now rl \<and>
    rl_rps (fold (drop_idle now) ks rl) = rl_rps rl \<and> rl_burst (fold (drop_idle now) ks rl) = rl_burst rl" for ks
    using assms by (induction ks arbitrary: rl) (auto simp: drop_idle_keeps)
  ultimately show ?thesis by simp
qed

lemma refill_credit:
  "rl_inv now rl \<Longrightarrow> rl_limiters rl ip = Some e \<Longrightarrow> refill rl now e = credit ip now rl"
proof -
  assume inv: "rl_inv now rl" and e: "rl_limiters rl ip = Some e"
  then have "le_last e \<le> now" "le_tokens e \<le> rl_burst rl" by (auto simp: rl_inv_def)
  then show "refill rl now e = credit ip now rl"
    by (cases "now = le_last e") (simp_all add: refill_def credit_def Let_def e mult.commute)
qed

text \<open>One call spends what it admits.\<close>

lemma allow_spends:
  assumes inv: "rl_inv now rl" and run: "rl_allow order now host rl = (ok, rl')"
  shows "rl_inv now rl' \<and> rl_rps rl' = rl_rps rl \<and> rl_burst rl' = rl_burst rl \<and>
    credit ip now rl' + (if ok \<and> host = ip then 1 else 0) \<le> credit ip now rl"
proof (cases "rl_limiters rl host")
  case None
  let ?rl1 = "rl\<lparr>rl_limiters := (rl_limiters rl)(host \<mapsto> \<lparr>le_tokens = rl_burst rl - 1, le_last = now, le_lastSeen = now\<rparr>), rl_count := rl_count rl + 1\<rparr>"
  have "rl_inv now ?rl1" "credit ip now ?rl1 + (if host = ip then 1 else 0) \<le> credit ip now rl"
    using inv None by (auto simp: rl_inv_def credit_def min_def)
  moreover have "ok" "rl' = (if (rl_count rl + 1) mod 128 = 0 then cleanupLocked order now ?rl1 else ?rl1)"
    using run None by (auto simp: rl_allow_def Let_def)
  ultimately show ?thesis using cleanup_keeps [of now ?rl1 order ip] by (simp split: if_splits)
next
  case (Some e)
  let ?t = "refill rl now e"
  have t: "?t = credit host now rl" using refill_credit [OF inv Some] .
  have b: "0 \<le> ?t" "?t \<le> rl_burst rl" using credit_bounds [OF inv, of host] t by simp_all
  have out: "ok \<longleftrightarrow> \<not> ?t < 1"
    "rl' = rl\<lparr>rl_limiters := (rl_limiters rl)(host \<mapsto> \<lparr>le_tokens = (if ?t < 1 then ?t else ?t - 1), le_last = now, le_lastSeen = now\<rparr>)\<rparr>"
    using run Some by (auto simp: rl_allow_def Let_def)
  have "rl_inv now rl'" using inv b by (auto simp: out(2) rl_inv_def)
  moreover have "credit ip now rl' + (if ok \<and> host = ip then 1 else 0) \<le> credit ip now rl"
  proof (cases "host = ip")
    case True
    then have "credit ip now rl' = min (rl_burst rl) (if ?t < 1 then ?t else ?t - 1)" by (simp add: out credit_def)
    then show ?thesis using b t True by (auto simp: out(1))
  next
    case False
    then show ?thesis by (simp add: out credit_def)
  qed
  ultimately show ?thesis by (simp add: out(2))
qed

lemma admitted_Cons:
  "rl_allow order now host rl = (ok, rl') \<Longrightarrow>
   admitted ip ((now, host, order) # calls) rl = (if ok \<and> host = ip then 1 else 0) + admitted ip calls rl'"
  by (auto simp: admitted_def split: prod.split)

lemma run_spends:
  assumes "rl_inv t rl" "sorted (t # map fst calls)"
  shows "of_nat (admitted ip calls rl) \<le> credit ip t rl + rl_rps rl * of_int (last (t # map fst calls) - t) / 10 ^ 9"
  using assms
proof (induction calls arbitrary: rl t)
  case Nil
  then show ?case using credit_bounds(1) [of t rl ip] by (simp add: admitted_def)
next
  case (Cons c calls)
  obtain now host order where c: "c = (now, host, order)" by (cases c) auto
  obtain ok rl' where run: "rl_allow order now host rl = (ok, rl')" by force
  have le: "t \<le> now" and inv: "rl_inv now rl" using Cons.prems c rl_inv_later by auto
  note step = allow_spends [OF inv run, of ip]
  have "of_nat (admitted ip calls rl') \<le> credit ip now rl' + rl_rps rl' * of_int (last (now # map fst calls) - now) / 10 ^ 9"
    using Cons.IH [of now rl'] step Cons.prems(2) c by simp
  moreover have "credit ip now rl \<le> credit ip t rl + rl_rps rl * of_int (now - t) / 10 ^ 9"
    using credit_later [OF Cons.prems(1) le] .
  moreover have "last (t # map fst (c # calls)) = last (now # map fst calls)" by (simp add: c)
  moreover have "of_nat (admitted ip (c # calls) rl) = (if ok \<and> host = ip then 1 else 0) + (of_nat (admitted ip calls rl') :: rat)"
    by (simp add: c admitted_Cons [OF run])
  ultimately show ?case using step by (simp add: diff_divide_distrib right_diff_distrib)
qed

lemma rl_run_inv:
  assumes "rl_inv t rl" "sorted (t # map fst calls)"
  shows "rl_inv (last (t # map fst calls)) (snd (rl_run calls rl)) \<and> rl_rps (snd (rl_run calls rl)) = rl_rps rl \<and>
    rl_burst (snd (rl_run calls rl)) = rl_burst rl"
  using assms
proof (induction calls arbitrary: rl t)
  case (Cons c calls)
  obtain now host order where c: "c = (now, host, order)" by (cases c) auto
  obtain ok rl' where run: "rl_allow order now host rl = (ok, rl')" by force
  have inv: "rl_inv now rl" using Cons.prems c rl_inv_later by auto
  note step = allow_spends [OF inv run]
  moreover have "snd (rl_run (c # calls) rl) = snd (rl_run calls rl')" by (simp add: c run split: prod.split)
  ultimately show ?case using Cons.IH [of now rl'] Cons.prems(2) by (simp add: c)
qed simp

text \<open>C25: no host exceeds its rate. However the requests of all hosts arrive and whenever idle buckets are
  removed, a limiter whose burst is refilled within the time it keeps idle buckets admits from one host, in any window
  of requests, at most the burst and the rate times the length of the window.\<close>

theorem rate_limited:
  assumes "0 < rps" "0 < burst" "of_int burst \<le> 600 * rps" "sorted (map fst (before @ window))" "window \<noteq> []"
    and "rl = snd (rl_run before (NewRateLimiter rps burst))"
  shows "of_nat (admitted ip window rl) \<le> of_int burst + rps * of_int (fst (last window) - fst (hd window)) / 10 ^ 9"
proof -
  let ?new = "NewRateLimiter rps burst" and ?t = "fst (hd window)"
  let ?start = "if before = [] then ?t else fst (hd before)"
  have "rl_inv ?start ?new" using assms(1-3) by (simp add: rl_inv_def NewRateLimiter_def)
  moreover have "sorted (?start # map fst before)" using assms(4) by (cases before) (auto simp: sorted_append)
  ultimately have r: "rl_inv (last (?start # map fst before)) rl" "rl_rps rl = rps" "rl_burst rl = of_int burst"
    using rl_run_inv [of ?start ?new before] assms(1,2) by (simp_all add: assms(6) NewRateLimiter_def)
  have "last (?start # map fst before) \<le> ?t"
    using assms(4,5) by (cases window) (auto simp: sorted_append last_map)
  then have inv: "rl_inv ?t rl" using r(1) rl_inv_later by blast
  have "sorted (?t # map fst window)" "last (?t # map fst window) = fst (last window)"
    using assms(4,5) by (cases window; simp add: sorted_append last_map)+
  then have "of_nat (admitted ip window rl) \<le> credit ip ?t rl + rl_rps rl * of_int (fst (last window) - ?t) / 10 ^ 9"
    using run_spends [OF inv, of window ip] by simp
  then show ?thesis using credit_bounds(2) [OF inv, of ip] r(2,3) by simp
qed

lemma rate_limited_witness:
  "of_nat (admitted ''h'' [(0, ''h'', []), (10 ^ 9, ''h'', [])] (NewRateLimiter 1 1)) \<le> (1 :: rat) + 1 * of_int (10 ^ 9 - 0) / 10 ^ 9"
  using rate_limited [of 1 1 "[]" "[(0, ''h'', []), (10 ^ 9, ''h'', [])]" "NewRateLimiter 1 1" "''h''"] by simp

section \<open>The white list\<close>

definition ip_text :: "bytes \<Rightarrow> string" where
  "ip_text ip = format_uint 10 (unat (ip ! 0)) @ CHR ''.'' # format_uint 10 (unat (ip ! 1)) @ CHR ''.'' #
     format_uint 10 (unat (ip ! 2)) @ CHR ''.'' # format_uint 10 (unat (ip ! 3))"

definition cidr_text :: "bytes \<times> nat \<Rightarrow> string" where
  "cidr_text e = ip_text (fst e) @ CHR ''/'' # format_uint 10 (snd e)"

fun comma_text :: "string list \<Rightarrow> string" where
  "comma_text [] = []"
| "comma_text [s] = s"
| "comma_text (s # ss) = s @ CHR '','' # comma_text ss"

lemma format_char:
  assumes "c \<in> set (format_uint 10 n)"
  shows "48 \<le> (of_char c :: nat)" "(of_char c :: nat) \<le> 57"
proof -
  obtain d where "c = digit_char d" "d < 10" using assms digits_less [of 10 _ n] by (auto simp: format_uint_def)
  then show "48 \<le> (of_char c :: nat)" "(of_char c :: nat) \<le> 57" by (simp_all add: digit_char_def)
qed

lemma ip_text_char:
  assumes "c \<in> set (ip_text ip)"
  shows "c = CHR ''.'' \<or> (48 \<le> (of_char c :: nat) \<and> (of_char c :: nat) \<le> 57)"
  using assms format_char by (auto simp: ip_text_def)

lemma ip_text_without [simp]:
  "CHR ''/'' \<notin> set (ip_text ip)" "CHR '':'' \<notin> set (ip_text ip)" "CHR '','' \<notin> set (ip_text ip)" "CHR ''['' \<notin> set (ip_text ip)"
  "CHR '']'' \<notin> set (ip_text ip)"
  using ip_text_char by fastforce+

lemma digits_leading: "1 < length (digits 10 n) \<Longrightarrow> hd (digits 10 n) \<noteq> 0"
proof (induction "10 :: nat" n rule: digits.induct)
  case (1 n)
  show ?case
  proof (cases "n < 10")
    case True
    then show ?thesis using 1 by (simp add: digits.simps)
  next
    case False
    then have d: "digits 10 n = digits 10 (n div 10) @ [n mod 10]" by (simp add: digits.simps [of 10 n])
    show ?thesis
    proof (cases "1 < length (digits 10 (n div 10))")
      case True
      then show ?thesis using 1 False d by simp
    next
      case False
      then have "n div 10 < 10" by (auto simp: digits.simps [of 10 "n div 10"] split: if_splits)
      then show ?thesis using d \<open>\<not> n < 10\<close> by (simp add: digits.simps [of 10 "n div 10"])
    qed
  qed
qed

lemma octet_format [simp]: "octet (format_uint 10 (unat b)) = Some b"
proof -
  have "hd (format_uint 10 (unat b)) \<noteq> CHR ''0''" if "1 < length (format_uint 10 (unat b))"
  proof -
    have "hd (digits 10 (unat b)) \<noteq> 0" "hd (digits 10 (unat b)) < 10"
      using digits_leading [of "unat b"] that digits_less [of 10 "hd (digits 10 (unat b))" "unat b"] by (simp_all add: format_uint_def)
    then have "char_digit (hd (format_uint 10 (unat b))) \<noteq> Some 0" by (simp add: format_uint_def hd_map)
    then show ?thesis by auto
  qed
  moreover have "unat b \<le> 255" using unat_bound [of b] by simp
  ultimately show ?thesis by (auto simp: octet_def parse_digits_format)
qed

lemma four_bytes: "length ip = 4 \<Longrightarrow> \<exists>a b c d. ip = [a, b, c, d]"
proof -
  assume "length ip = 4"
  then have "length ip = Suc (Suc (Suc (Suc 0)))" by simp
  then show "\<exists>a b c d. ip = [a, b, c, d]" unfolding length_Suc_conv by blast
qed

lemma parse_ip_text: "length ip = 4 \<Longrightarrow> parseIPv4 (ip_text ip) = Some ip"
  using four_bytes [of ip] by (auto simp: parseIPv4_def ip_text_def)

lemma find_after: "(\<And>c. c \<in> set xs \<Longrightarrow> \<not> P c) \<Longrightarrow> find P (xs @ c # ys) = (if P c then Some c else find P ys)"
  by (induction xs) auto

lemma ParseAddr_text [simp]:
  assumes "length ip = 4"
  shows "ParseAddr (ip_text ip) = Some ip"
proof -
  have "find (\<lambda>c. c \<in> {CHR ''.'', CHR '':'', CHR ''%''}) (ip_text ip) = Some (CHR ''.'')"
    unfolding ip_text_def using format_char(1) [of "CHR ''%''" "unat (ip ! 0)"] by (subst find_after) auto
  then show ?thesis using parse_ip_text [OF assms] by (simp add: ParseAddr_def)
qed

lemma ParseIP_text: "length ip = 4 \<Longrightarrow> ParseIP (ip_text ip) = Some (v4InV6Prefix @ ip)"
  by (simp add: ParseIP_def)

lemma ParseCIDR_text:
  assumes "length ip = 4" "n \<le> 32"
  shows "ParseCIDR (cidr_text (ip, n)) = Some \<lparr>net_IP = mask_bytes n ip, net_ones = n\<rparr>"
  using assms by (simp add: ParseCIDR_def cidr_text_def parse_digits_format Let_def)

lemma length_bits_of [simp]: "length (bits_of bs) = 8 * length bs"
  by (induction bs) (auto simp: bits_of_def)

lemma bits_of_Cons: "bits_of (b # bs) = map (\<lambda>i. bit b (7 - i)) [0..<8] @ bits_of bs"
  by (simp add: bits_of_def)

lemma nth_bits_of: "i < 8 * length bs \<Longrightarrow> bits_of bs ! i = bit (bs ! (i div 8)) (7 - i mod 8)"
proof (induction bs arbitrary: i)
  case (Cons b bs)
  let ?first = "map (\<lambda>i. bit b (7 - i)) [0..<8]"
  have len: "length ?first = 8" by (simp only: length_map length_upt)
  show ?case
  proof (cases "i < 8")
    case True
    then have "?first ! i = bit b (7 - i)" by (simp only: nth_map length_upt nth_upt diff_zero add_0)
    then show ?thesis using True len unfolding bits_of_Cons by (simp only: nth_append) simp
  next
    case False
    then have "i = (i - 8) + 8" by simp
    then have "i div 8 = Suc ((i - 8) div 8)" "i mod 8 = (i - 8) mod 8" by (metis div_add_self2 Suc_eq_plus1 zero_neq_numeral, metis mod_add_self2)
    then show ?thesis using False Cons.IH [of "i - 8"] Cons.prems len unfolding bits_of_Cons by (simp only: nth_append) simp
  qed
qed simp

lemma mask_bits:
  assumes "n \<le> 8 * length ip"
  shows "take n (bits_of (mask_bytes n ip)) = take n (bits_of ip)"
proof (rule nth_equalityI)
  have len: "length (mask_bytes n ip) = length ip" by (simp add: mask_bytes_def)
  then show "length (take n (bits_of (mask_bytes n ip))) = length (take n (bits_of ip))" by simp
  fix i assume "i < length (take n (bits_of (mask_bytes n ip)))"
  then have i: "i < n" "i < 8 * length ip" using assms len by simp_all
  let ?q = "i div 8"
  have "?q < length ip" using i(2) by auto
  then have m: "mask_bytes n ip ! ?q = (if 8 * (?q + 1) \<le> n then ip ! ?q else if n \<le> 8 * ?q then 0
      else push_bit (8 * (?q + 1) - n) (drop_bit (8 * (?q + 1) - n) (ip ! ?q)))"
    by (simp add: mask_bytes_def nth_enumerate_eq del: add.commute)
  have "\<not> n \<le> 8 * q \<and> 8 * (q + 1) - n \<le> 7 - r \<and> 7 - r < 8" if "8 * q + r = i" "r < 8" for q r
    using that i(1) by auto
  from this [of ?q "i mod 8"] have "\<not> n \<le> 8 * ?q" "8 * (?q + 1) - n \<le> 7 - i mod 8" "7 - i mod 8 < 8" by auto
  then have "bit (mask_bytes n ip ! ?q) (7 - i mod 8) = bit (ip ! ?q) (7 - i mod 8)"
    unfolding m by (simp only: bit_push_bit_iff bit_drop_bit_eq comp_def le_add_diff_inverse if_distrib if_bool_eq_conj word_size possible_bit_word simp_thms
        split: if_split) simp
  then show "take n (bits_of (mask_bytes n ip)) ! i = take n (bits_of ip) ! i" using i len by (simp add: nth_bits_of)
qed

lemma Contains_text:
  assumes "length ip = 4" "length x = 4" "n \<le> 32"
  shows "Contains \<lparr>net_IP = mask_bytes n ip, net_ones = n\<rparr> (v4InV6Prefix @ x) \<longleftrightarrow> agree n ip x"
proof -
  have "length (mask_bytes n ip) = 4" by (simp add: mask_bytes_def assms(1))
  then show ?thesis using assms mask_bits [of n ip] by (simp add: Contains_def To4_def v4InV6Prefix_def agree_def)
qed

lemma TrimSpace_id: "\<forall>c \<in> set s. \<not> is_space c \<Longrightarrow> TrimSpace s = s"
proof -
  assume s: "\<forall>c \<in> set s. \<not> is_space c"
  then have "dropWhile is_space s = s" "dropWhile is_space (rev s) = rev s"
    by (simp_all add: dropWhile_eq_self_iff) (metis hd_in_set rev_is_Nil_conv set_rev)
  then show "TrimSpace s = s" by (simp add: TrimSpace_def)
qed

lemma cidr_text_char:
  assumes "c \<in> set (cidr_text e)"
  shows "c \<in> {CHR ''.'', CHR ''/''} \<or> (48 \<le> (of_char c :: nat) \<and> (of_char c :: nat) \<le> 57)"
  using assms ip_text_char format_char by (fastforce simp: cidr_text_def)

lemma cidr_text_plain: "CHR '','' \<notin> set (cidr_text e)" "TrimSpace (cidr_text e) = cidr_text e" "cidr_text e \<noteq> []" "CHR ''/'' \<in> set (cidr_text e)"
proof -
  show "CHR '','' \<notin> set (cidr_text e)" using cidr_text_char [of "CHR '',''" e] by auto
  have "\<not> is_space c" if "c \<in> set (cidr_text e)" for c using cidr_text_char [OF that] by (auto simp: is_space_def)
  then show "TrimSpace (cidr_text e) = cidr_text e" by (simp add: TrimSpace_id)
qed (simp_all add: cidr_text_def)

lemma split_comma_text: "es \<noteq> [] \<Longrightarrow> \<forall>e \<in> set es. CHR '','' \<notin> set e \<Longrightarrow> str_split (CHR '','') (comma_text es) = es"
  by (induction es rule: comma_text.induct) simp_all

lemma comma_text_nonempty: "es \<noteq> [] \<Longrightarrow> [] \<notin> set es \<Longrightarrow> comma_text es \<noteq> []"
  by (induction es rule: comma_text.induct) simp_all

lemma ParseWhiteList_text:
  assumes "es \<noteq> []"
  shows "ParseWhiteList (comma_text (map cidr_text es)) = map cidr_text es"
proof -
  have "comma_text (map cidr_text es) \<noteq> []" using assms cidr_text_plain(3) by (intro comma_text_nonempty) (auto simp del: split_paired_All, metis)
  moreover have "str_split (CHR '','') (comma_text (map cidr_text es)) = map cidr_text es"
    using assms cidr_text_plain(1) by (intro split_comma_text) auto
  moreover have "filter (\<lambda>e. e \<noteq> []) (map cidr_text es) = map cidr_text es" using cidr_text_plain(3) by (simp add: filter_id_conv)
  ultimately show ?thesis using cidr_text_plain(2) by (simp add: ParseWhiteList_def comp_def)
qed

lemma whiteNets_text:
  assumes "es \<noteq> []" "\<forall>(a, n) \<in> set es. length a = 4 \<and> n \<le> 32"
  shows "g_whiteNets (NewGuard (comma_text (map cidr_text es)) k k') = map (\<lambda>(a, n). \<lparr>net_IP = mask_bytes n a, net_ones = n\<rparr>) es"
proof -
  have "compile_entry (cidr_text (a, n)) = Some \<lparr>net_IP = mask_bytes n a, net_ones = n\<rparr>" if "(a, n) \<in> set es" for a n
    using assms(2) that cidr_text_plain(4) by (auto simp: compile_entry_def ParseCIDR_text)
  then have "List.map_filter compile_entry (map cidr_text xs) = map (\<lambda>(a, n). \<lparr>net_IP = mask_bytes n a, net_ones = n\<rparr>) xs"
    if "set xs \<subseteq> set es" for xs
    using that by (induction xs) (auto simp: map_filter_simps)
  then show ?thesis using ParseWhiteList_text [OF assms(1)] by (simp add: NewGuard_def compileWhiteList_def)
qed

lemma SplitHostPort_text: "SplitHostPort (ip_text x @ CHR '':'' # format_uint 10 port) = Some (ip_text x, format_uint 10 port)"
proof -
  have "hd (ip_text x @ CHR '':'' # format_uint 10 port) \<noteq> CHR ''[''"
    using hd_in_set [of "ip_text x"] ip_text_without(4) [of x] by (metis hd_append2 ip_text_def append_is_Nil_conv format_uint_nonempty)
  moreover have "CHR ''['' \<notin> set (format_uint 10 port)" "CHR '']'' \<notin> set (format_uint 10 port)" using format_char(2) by fastforce+
  ultimately show ?thesis by (simp add: SplitHostPort_def)
qed


definition local_net :: "(bytes \<times> nat) list" where
  "local_net = [([192, 168, 1, 0], 24)]"


section \<open>Where the checks fall short\<close>

text \<open>A white list whose entries are all mistyped is no white list: every peer is admitted.\<close>

lemma mistyped_whitelist_admits:
  "isIPAllowedLocked (ip_text [8, 8, 8, 8]) (NewGuard ''10.0.0.0/99'' [] [])"
proof -
  have "ParseCIDR ''10.0.0.0/99'' = None" by (simp add: ParseCIDR_def ParseAddr_def parseIPv4_def octet_def char_digit_def Let_def)
  then have "g_whiteNets (NewGuard ''10.0.0.0/99'' [] []) = []"
    by (simp add: NewGuard_def compileWhiteList_def ParseWhiteList_def TrimSpace_def is_space_def compile_entry_def map_filter_simps)
  moreover have "str_last_index (CHR '':'') (ip_text [8, 8, 8, 8]) = None" by simp
  then have "SplitHostPort (ip_text [8, 8, 8, 8]) = None" unfolding SplitHostPort_def by (simp only: option.case)
  ultimately show ?thesis by (simp add: isIPAllowedLocked_def ParseIP_text)
qed

text \<open>A path with a broken escape is not looked at: the decoded text is empty.\<close>

lemma broken_escape_hides_dots: "ValidatePath ''../../etc/%zz'' = Inr ()" "ValidatePath ''../../etc'' = Inl ErrPathTraversalDetected"
  by (simp_all add: ValidatePath_def TrimSpace_def is_space_def hex_char_def char_digit_def)

text \<open>A client that sends another forwarded address with every request is never limited.\<close>

lemma forwarded_host_unlimited:
  assumes "rq_Header r ''X-Forwarded-For'' = h" "TrimSpace h = h" "h \<noteq> []" "CHR '','' \<notin> set h" "rl_limiters rl h = None"
  shows "fst (rl_allow order now (GetActualRemoteHost r) rl)"
  using assms by (simp add: GetActualRemoteHost_def rl_allow_def Let_def)

end
