(* ===== verification/VolumeServer.thy ===== *)
theory VolumeServer
  imports VolumeStore Compact LruCache Guard TopologyNodes
begin

text \<open>
  The volume server: its HTTP handlers and heartbeat (src/goblob/server/volume_server.go), the replication of writes
  (src/goblob/replication/replicator.go, replica_locations.go) and its gRPC service
  (src/goblob/server/volume_grpc_server.go). The digest of a payload, clock readings, the answers of replicas and the
  success of sending on a stream are arguments. A handler that panics answers nothing.
\<close>

section \<open>State\<close>

record DiskDirectoryConfig =
  dd_Path :: string
  dd_MaxVolumeCount :: "32 word"
  dd_DiskType :: string

record VolumeServerOption =
  vo_Host :: string
  vo_Port :: int
  vo_GRPCPort :: int
  vo_PublicUrl :: string
  vo_Masters :: "string list"
  vo_DataCenter :: string
  vo_Rack :: string
  vo_Directories :: "DiskDirectoryConfig list"
  vo_FileSizeLimitMB :: int
  vo_CacheMaxEntries :: int

type_synonym ReplicaLocations = "VolumeId \<Rightarrow> string list"

definition NewReplicaLocations :: ReplicaLocations where
  "NewReplicaLocations = (\<lambda>_. [])"

definition ReplicaLocations_Update :: "VolumeId \<Rightarrow> string list \<Rightarrow> ReplicaLocations \<Rightarrow> ReplicaLocations" where
  "ReplicaLocations_Update vid addrs rl = rl(vid := addrs)"

record VolumeServer =
  vs_option :: VolumeServerOption
  vs_store :: "VStore option"
  vs_fs :: fsys
  vs_guard :: Guard
  vs_replicaLocations :: ReplicaLocations
  vs_currentMaster :: string
  vs_blobCache :: "LRUCache option"

definition NewVolumeServer ::
  "(string \<Rightarrow> fsys \<Rightarrow> string list) \<Rightarrow> (string \<Rightarrow> fsys \<Rightarrow> string list) \<Rightarrow> (string \<Rightarrow> u64 option) \<Rightarrow> VolumeServerOption \<Rightarrow> fsys \<Rightarrow> store_err + VolumeServer" where
  "NewVolumeServer ls walk diskSize opt s =
     (case NewStore ls walk diskSize CurrentNeedleVersion (map (\<lambda>d. (dd_Path d, sint (dd_MaxVolumeCount d))) (vo_Directories opt)) [] s of
        (Inl e, _) \<Rightarrow> Inl e
      | (Inr st, s1) \<Rightarrow>
          Inr \<lparr>vs_option = opt, vs_store = Some st, vs_fs = s1, vs_guard = NewGuard [] [] [], vs_replicaLocations = NewReplicaLocations,
               vs_currentMaster = [],
               vs_blobCache = (if vo_CacheMaxEntries opt > 0 then Some (NewLRUCache (vo_CacheMaxEntries opt)) else None)\<rparr>)"

section \<open>Uploads\<close>

text \<open>A body delivers bytes and then ends or fails. A multipart body has its parts, may fail after them, and leaves a
  rest that the multipart reader did not take.\<close>

type_synonym reader = "bytes \<times> bool"

record upload_part =
  up_FileName :: string
  up_FormName :: string
  up_ContentType :: string
  up_reader :: reader

datatype upload_body = RawBody reader | MultipartBody "upload_part list" bool reader

record VsRequest = Request +
  rq_Path :: string
  rq_Body :: upload_body

text \<open>\<open>io.ReadAll(io.LimitReader(r, n))\<close>\<close>

definition read_limited :: "int \<Rightarrow> reader \<Rightarrow> bytes option" where
  "read_limited n r =
     (case r of (bs, fails) \<Rightarrow>
        if n \<le> 0 then Some []
        else if n \<le> int (length bs) then Some (take (nat n) bs)
        else if fails then None else Some bs)"

datatype upload_error = PayloadTooLarge | BadPayload

definition octet_stream :: string where
  "octet_stream = ''application/octet-stream''"

definition limited_payload :: "int \<Rightarrow> reader \<Rightarrow> upload_error + bytes" where
  "limited_payload limit r =
     (case read_limited (wrap64 (limit + 1)) r of
        None \<Rightarrow> Inl BadPayload
      | Some data \<Rightarrow> if int (length data) > limit then Inl PayloadTooLarge else Inr data)"

definition raw_payload :: "int \<Rightarrow> string \<Rightarrow> reader \<Rightarrow> upload_error + bytes \<times> string \<times> string" where
  "raw_payload limit contentType r =
     ebind (limited_payload limit r) (\<lambda>data. Inr (data, [], if contentType = [] then octet_stream else contentType))"

fun part_payload :: "int \<Rightarrow> string \<Rightarrow> bool \<Rightarrow> reader \<Rightarrow> upload_part list \<Rightarrow> upload_error + bytes \<times> string \<times> string" where
  "part_payload limit contentType fails rest [] = (if fails then Inl BadPayload else raw_payload limit contentType rest)"
| "part_payload limit contentType fails rest (part # parts) =
     (if up_FileName part = [] \<and> up_FormName part \<noteq> ''file'' then part_payload limit contentType fails rest parts
      else ebind (limited_payload limit (up_reader part)) (\<lambda>data.
        Inr (data, up_FileName part, if up_ContentType part = [] then octet_stream else up_ContentType part)))"

definition readUploadPayload :: "VsRequest \<Rightarrow> int \<Rightarrow> upload_error + bytes \<times> string \<times> string" where
  "readUploadPayload r limit =
     (let contentType = rq_Header r ''Content-Type'' in
      case rq_Body r of
        RawBody rd \<Rightarrow> raw_payload limit contentType rd
      | MultipartBody parts fails rest \<Rightarrow> part_payload limit contentType fails rest parts)"

text \<open>\<open>sec\<close> and \<open>ns\<close> are readings of the clock.\<close>

definition buildNeedleFromRequest :: "u64 \<Rightarrow> u64 \<Rightarrow> VsRequest \<Rightarrow> FileId \<Rightarrow> int \<Rightarrow> upload_error + Needle" where
  "buildNeedleFromRequest sec ns r fid maxFileSizeMB =
     (let limit = wrap64 (maxFileSizeMB * 1024 * 1024);
          limit = (if limit \<le> 0 then 4 * 1024 * 1024 else limit) in
      ebind (readUploadPayload r limit) (\<lambda>(data, filename, mimeType).
        let n = Needle_zero\<lparr>n_Id := fid_NeedleId fid, n_Cookie := fid_Cookie fid, n_Data := data, n_DataSize := of_nat (length data)\<rparr>;
            n = (if filename \<noteq> [] then SetName (to_bytes filename) n else n);
            n = (if mimeType \<noteq> [] then SetMime (to_bytes mimeType) n else n) in
        Inr ((SetLastModified sec n)\<lparr>n_AppendAtNs := ns\<rparr>)))"

section \<open>Replication of writes\<close>

record ReplicateRequest =
  rr_VolumeId :: VolumeId
  rr_NeedleId :: NeedleId
  rr_NeedleBytes :: bytes
  rr_JWTToken :: string

definition replica_path :: "ReplicateRequest \<Rightarrow> string" where
  "replica_path req = ''/'' @ format_uint 10 (unat (rr_VolumeId req)) @ '','' @ pad_zero 16 (format_uint 16 (unat (rr_NeedleId req)))"

definition replica_header :: "ReplicateRequest \<Rightarrow> string \<Rightarrow> string" where
  "replica_header req =
     (let h = (\<lambda>_. [])(''X-Replication'' := ''true'') in
      if rr_JWTToken req \<noteq> [] then h(''Authorization'' := ''Bearer '' @ rr_JWTToken req) else h)"

text \<open>\<open>send addr path header body\<close> is the status of the answer, if there is one.\<close>

type_synonym sender = "string \<Rightarrow> string \<Rightarrow> (string \<Rightarrow> string) \<Rightarrow> bytes \<Rightarrow> nat option"

definition writeToReplica :: "sender \<Rightarrow> string \<Rightarrow> ReplicateRequest \<Rightarrow> bool" where
  "writeToReplica send addr req \<longleftrightarrow> send addr (replica_path req) (replica_header req) (rr_NeedleBytes req) = Some 201"

definition ReplicatedWrite :: "sender \<Rightarrow> ReplicateRequest \<Rightarrow> string list \<Rightarrow> bool" where
  "ReplicatedWrite send req replicaAddrs \<longleftrightarrow> (\<forall>addr \<in> set replicaAddrs. writeToReplica send addr req)"

definition parseBearerToken :: "string \<Rightarrow> string" where
  "parseBearerToken header =
     (if length header > 7 \<and> take 7 header = ''Bearer '' then drop 7 header else [])"

definition other_replicas :: "VolumeServer \<Rightarrow> VolumeId \<Rightarrow> string list" where
  "other_replicas vs vid =
     (let self = vo_Host (vs_option vs) @ '':'' @
          (if vo_Port (vs_option vs) < 0 then ''-'' else []) @ format_uint 10 (nat \<bar>vo_Port (vs_option vs)\<bar>) in
      filter (\<lambda>addr. \<not> (addr = self \<or> addr = vo_PublicUrl (vs_option vs))) (vs_replicaLocations vs vid))"

section \<open>HTTP handlers\<close>

datatype reply_body =
    EmptyBody
  | ErrorBody
  | WrittenBody nat string
  | BlobBody string string bytes
  | DeletedBody
  | StatusBody nat int

datatype http_out = Aborted | Reply nat reply_body

definition store_panic :: "store_err \<Rightarrow> bool" where
  "store_panic e \<longleftrightarrow> e = StVolume VolPanic"

text \<open>What follows a successful write: the other replicas get the serialized needle.\<close>

definition replicate_write :: "sender \<Rightarrow> VsRequest \<Rightarrow> FileId \<Rightarrow> Needle \<Rightarrow> VolumeServer \<Rightarrow> (needle_error + bool)" where
  "replicate_write send r fid n vs =
     (if rq_Header r ''X-Replication'' = ''true'' then Inr True
      else case WriteTo (\<lambda>w bs. (w @ bs, True)) [] n CurrentNeedleVersion of
        (Inl e, _, _) \<Rightarrow> if e = NeedlePanic then Inl e else Inr True
      | (Inr _, buf, _) \<Rightarrow>
          Inr (ReplicatedWrite send
            \<lparr>rr_VolumeId = fid_VolumeId fid, rr_NeedleId = fid_NeedleId fid, rr_NeedleBytes = buf,
             rr_JWTToken = parseBearerToken (rq_Header r ''Authorization'')\<rparr> (other_replicas vs (fid_VolumeId fid))))"

definition handleWrite ::
  "(string \<Rightarrow> string \<Rightarrow> bool) \<Rightarrow> (bytes \<Rightarrow> string) \<Rightarrow> u64 \<Rightarrow> u64 \<Rightarrow> sender \<Rightarrow> VsRequest \<Rightarrow> VolumeServer \<Rightarrow> http_out \<times> VolumeServer" where
  "handleWrite VerifyJWT md5 sec ns send r vs =
     (if \<not> Allowed VerifyJWT r True (vs_guard vs) then (Reply 401 EmptyBody, vs)
      else case ParseFileId (drop 1 (rq_Path r)) of
        Inl _ \<Rightarrow> (Reply 400 ErrorBody, vs)
      | Inr fid \<Rightarrow>
      (case vs_store vs of
        None \<Rightarrow> (Reply 500 ErrorBody, vs)
      | Some st \<Rightarrow>
      (case buildNeedleFromRequest sec ns r fid (vo_FileSizeLimitMB (vs_option vs)) of
        Inl e \<Rightarrow> (Reply (if e = PayloadTooLarge then 413 else 400) ErrorBody, vs)
      | Inr n \<Rightarrow>
      (case WriteVolumeNeedle (fid_VolumeId fid) n st (vs_fs vs) of
        (res, st1, s1, n1) \<Rightarrow>
          let vs1 = vs\<lparr>vs_store := Some st1, vs_fs := s1\<rparr> in
          (case res of
             Inl e \<Rightarrow> (if store_panic e then Aborted else Reply 500 ErrorBody, vs1)
           | Inr _ \<Rightarrow>
               (case replicate_write send r fid n1 vs1 of
                  Inl _ \<Rightarrow> (Aborted, vs1)
                | Inr ok \<Rightarrow> (if ok then Reply 201 (WrittenBody (length (n_Data n1)) (md5 (n_Data n))) else Reply 500 ErrorBody, vs1)))))))"

text \<open>The eviction of the cache may a priori run for ever; then there is no answer.\<close>

definition handleRead ::
  "(string \<Rightarrow> string \<Rightarrow> bool) \<Rightarrow> (bytes \<Rightarrow> string) \<Rightarrow> VsRequest \<Rightarrow> VolumeServer \<Rightarrow> (http_out \<times> VolumeServer) option" where
  "handleRead VerifyJWT md5 r vs =
     (if \<not> Allowed VerifyJWT r False (vs_guard vs) then Some (Reply 401 EmptyBody, vs)
      else let cacheKey = drop 1 (rq_Path r) in
      case ParseFileId cacheKey of
        Inl _ \<Rightarrow> Some (Reply 400 ErrorBody, vs)
      | Inr fid \<Rightarrow>
      (case vs_store vs of
        None \<Rightarrow> Some (Reply 500 EmptyBody, vs)
      | Some st \<Rightarrow>
      (case map_option (lru_Get cacheKey) (vs_blobCache vs) of
        Some (Some cached, c) \<Rightarrow> Some (Reply 200 (BlobBody octet_stream (md5 cached) cached), vs\<lparr>vs_blobCache := Some c\<rparr>)
      | _ \<Rightarrow>
      (case ReadVolumeNeedle (fid_VolumeId fid) fid st (vs_fs vs) of
        Inl e \<Rightarrow> Some (if store_panic e then Aborted else Reply 404 EmptyBody, vs)
      | Inr n \<Rightarrow>
          let mimeType = (if GetMime n = [] then octet_stream else of_bytes (GetMime n));
              answer = Reply 200 (BlobBody mimeType (md5 (n_Data n)) (n_Data n)) in
          (case vs_blobCache vs of
             None \<Rightarrow> Some (answer, vs)
           | Some c \<Rightarrow> map_option (\<lambda>c1. (answer, vs\<lparr>vs_blobCache := Some c1\<rparr>)) (lru_Put cacheKey (n_Data n) c))))))"

definition handleDelete :: "(string \<Rightarrow> string \<Rightarrow> bool) \<Rightarrow> VsRequest \<Rightarrow> VolumeServer \<Rightarrow> http_out \<times> VolumeServer" where
  "handleDelete VerifyJWT r vs =
     (if \<not> Allowed VerifyJWT r True (vs_guard vs) then (Reply 401 EmptyBody, vs)
      else let path = drop 1 (rq_Path r) in
      case ParseFileId path of
        Inl _ \<Rightarrow> (Reply 400 ErrorBody, vs)
      | Inr fid \<Rightarrow>
      (case vs_store vs of
        None \<Rightarrow> (Reply 500 ErrorBody, vs)
      | Some st \<Rightarrow>
      (case DeleteVolumeNeedle (fid_VolumeId fid) (fid_NeedleId fid) st (vs_fs vs) of
        (res, st1, s1) \<Rightarrow>
          let vs1 = vs\<lparr>vs_store := Some st1, vs_fs := s1\<rparr> in
          (case res of
             Inl e \<Rightarrow> (if store_panic e then Aborted else Reply 404 ErrorBody, vs1)
           | Inr _ \<Rightarrow> (Reply 202 DeletedBody, vs1\<lparr>vs_blobCache := map_option (lru_Invalidate path) (vs_blobCache vs1)\<rparr>)))))"

definition handleStatus :: "VolumeServer \<Rightarrow> http_out" where
  "handleStatus vs =
     Reply 200 (StatusBody (case vs_store vs of None \<Rightarrow> 0 | Some st \<Rightarrow> \<Sum>dl \<leftarrow> st. length (dl_volumes dl)) (vo_FileSizeLimitMB (vs_option vs)))"

definition handleReady :: "VolumeServer \<Rightarrow> http_out" where
  "handleReady vs = Reply (if vs_store vs = None then 503 else 200) EmptyBody"

definition ReloadSecurityConfig :: "string \<Rightarrow> string \<Rightarrow> VolumeServer \<Rightarrow> VolumeServer" where
  "ReloadSecurityConfig whiteList key vs = vs\<lparr>vs_guard := SetSigningKey key (SetWhiteList whiteList (vs_guard vs))\<rparr>"

definition LoadNewVolumes :: "(string \<Rightarrow> fsys \<Rightarrow> string list) \<Rightarrow> VolumeServer \<Rightarrow> (store_err + unit) option \<times> VolumeServer" where
  "LoadNewVolumes ls vs =
     (case vs_store vs of
        None \<Rightarrow> (None, vs)
      | Some st \<Rightarrow>
          (case ReloadExistingVolumes ls [] CurrentNeedleVersion st (vs_fs vs) of
             (r, st1, s1) \<Rightarrow> (Some r, vs\<lparr>vs_store := Some st1, vs_fs := s1\<rparr>)))"

section \<open>Heartbeats\<close>

definition volume_info :: "VolumeId \<times> Volume \<Rightarrow> VolumeInformation" where
  "volume_info kv =
     \<lparr>vi_Id = fst kv, vi_Collection = v_collection (snd kv), vi_ReplicaPlacement = 0, vi_Ttl = [], vi_DiskType = [], vi_ReadOnly = v_ReadOnly (snd kv)\<rparr>"

definition location_infos :: "VStore \<Rightarrow> DiskLocation \<Rightarrow> VolumeInformation list" where
  "location_infos st dl =
     List.map_filter (\<lambda>vid. map_option (\<lambda>v. volume_info (vid, v)) (store_GetVolume vid st)) (GetVolumes dl)"

definition BuildHeartbeat :: "VolumeServer \<Rightarrow> Heartbeat" where
  "BuildHeartbeat vs =
     (let opt = vs_option vs in
      \<lparr>hb_Ip = vo_Host opt, hb_Port = of_int (vo_Port opt), hb_PublicUrl = vo_PublicUrl opt, hb_GrpcPort = of_int (vo_GRPCPort opt),
       hb_DataCenter = vo_DataCenter opt, hb_Rack = vo_Rack opt,
       hb_Volumes = (case vs_store vs of None \<Rightarrow> [] | Some st \<Rightarrow> concat (map (location_infos st) st)),
       hb_DeletedVids = [],
       hb_MaxVolumeCounts = map (\<lambda>d. \<lparr>mc_DiskType = dd_DiskType d, mc_MaxCount = dd_MaxVolumeCount d\<rparr>) (vo_Directories opt)\<rparr>)"

text \<open>\<open>answer addr hb\<close> is the leader that the master names, if it answers.\<close>

definition sendHeartbeat :: "(string \<Rightarrow> Heartbeat \<Rightarrow> string option) \<Rightarrow> VolumeServer \<Rightarrow> VolumeServer" where
  "sendHeartbeat answer vs =
     (case vo_Masters (vs_option vs) of
        [] \<Rightarrow> vs
      | m # _ \<Rightarrow>
          let masterAddr = (if vs_currentMaster vs = [] then ToGrpcAddress m else vs_currentMaster vs) in
          (case answer masterAddr (BuildHeartbeat vs) of
             None \<Rightarrow> vs
           | Some leader \<Rightarrow> if leader \<noteq> [] then vs\<lparr>vs_currentMaster := ToGrpcAddress leader\<rparr> else vs))"

end
