(* ===== verification/VolumeGrpc.thy ===== *)
theory VolumeGrpc
  imports VolumeServer
begin

text \<open>
  The gRPC service of a volume server (src/goblob/server/volume_grpc_server.go). A reply carries an error text or
  nothing; a status error ends the call. What a stream can still send and what the source of a copy sends are
  arguments, and so are the orders in which maps are iterated. The percentage of a copy, a float, is a rational number.
\<close>

datatype vgrpc_status = Unavailable | InvalidArgument | AlreadyExists | ResourceExhausted | InternalError | NotFoundStatus | SendFailed

datatype reply_error = InvalidVolumeId | VolumeMissing | StoreError store_err | VolumeErr volume_error

type_synonym 'a grpc_reply = "vgrpc_status + reply_error + 'a"

definition vgrpc_AllocateVolume :: "u32 \<Rightarrow> string \<Rightarrow> VolumeServer \<Rightarrow> unit grpc_reply \<times> VolumeServer" where
  "vgrpc_AllocateVolume vid collection vs =
     (case vs_store vs of
        None \<Rightarrow> (Inl Unavailable, vs)
      | Some st \<Rightarrow>
          if vid = 0 then (Inr (Inl InvalidVolumeId), vs)
          else case AllocateVolume vid collection CurrentNeedleVersion st (vs_fs vs) of
            (r, st1, s1) \<Rightarrow>
              (Inr (case r of Inl e \<Rightarrow> Inl (StoreError e) | Inr _ \<Rightarrow> Inr ()), vs\<lparr>vs_store := Some st1, vs_fs := s1\<rparr>))"

fun deleteVolume :: "(string \<Rightarrow> fsys \<Rightarrow> string list) \<Rightarrow> VolumeId \<Rightarrow> VStore \<Rightarrow> fsys \<Rightarrow> (store_err + unit) \<times> VStore \<times> fsys" where
  "deleteVolume walk vid [] s = (Inl StNotFound, [], s)"
| "deleteVolume walk vid (dl # dls) s =
     (if dl_GetVolume vid dl \<noteq> None then
        (let s1 = os_Remove (os_Remove s (DataFileName (dl_directory dl) vid)) (IndexFileName (dl_directory dl) vid) in
         case dl_DeleteVolume (walk (dl_directory dl) s1) vid dl s of (r, dl1, s2) \<Rightarrow> (r, dl1 # dls, s2))
      else case deleteVolume walk vid dls s of (r, dls1, s1) \<Rightarrow> (r, dl # dls1, s1))"

definition VolumeDelete :: "(string \<Rightarrow> fsys \<Rightarrow> string list) \<Rightarrow> u32 \<Rightarrow> VolumeServer \<Rightarrow> unit grpc_reply \<times> VolumeServer" where
  "VolumeDelete walk vid vs =
     (case vs_store vs of
        None \<Rightarrow> (Inl Unavailable, vs)
      | Some st \<Rightarrow>
          (case deleteVolume walk vid st (vs_fs vs) of
             (r, st1, s1) \<Rightarrow>
               (Inr (case r of Inl e \<Rightarrow> Inl (StoreError e) | Inr _ \<Rightarrow> Inr ()), vs\<lparr>vs_store := Some st1, vs_fs := s1\<rparr>)))"

definition VolumeCompact :: "NeedleId list \<Rightarrow> u64 \<Rightarrow> u32 \<Rightarrow> rat \<Rightarrow> VolumeServer \<Rightarrow> unit grpc_reply \<times> VolumeServer" where
  "VolumeCompact order now vid threshold vs =
     (case vs_store vs of
        None \<Rightarrow> (Inl Unavailable, vs)
      | Some st \<Rightarrow>
          (case store_GetVolume vid st of
             None \<Rightarrow> (Inr (Inl VolumeMissing), vs)
           | Some v \<Rightarrow>
               (case CompactVolume order now (vs_fs vs) v threshold of
                  (r, s1, v1) \<Rightarrow>
                    (Inr (case r of Inl e \<Rightarrow> Inl (VolumeErr e) | Inr _ \<Rightarrow> Inr ()),
                     vs\<lparr>vs_store := Some (put_volume vid v1 st), vs_fs := s1\<rparr>))))"

definition VolumeMarkReadonly :: "u32 \<Rightarrow> bool \<Rightarrow> VolumeServer \<Rightarrow> unit grpc_reply \<times> VolumeServer" where
  "VolumeMarkReadonly vid readonly vs =
     (case vs_store vs of
        None \<Rightarrow> (Inl Unavailable, vs)
      | Some st \<Rightarrow>
          (case store_GetVolume vid st of
             None \<Rightarrow> (Inr (Inl VolumeMissing), vs)
           | Some v \<Rightarrow> (Inr (Inr ()), vs\<lparr>vs_store := Some (put_volume vid (v\<lparr>v_ReadOnly := readonly\<rparr>) st)\<rparr>)))"

definition VolumeStatus :: "u32 \<Rightarrow> VolumeServer \<Rightarrow> (bool \<times> u64) grpc_reply" where
  "VolumeStatus vid vs =
     (case vs_store vs of
        None \<Rightarrow> Inl Unavailable
      | Some st \<Rightarrow>
          Inr (case store_GetVolume vid st of
                 None \<Rightarrow> Inl VolumeMissing
               | Some v \<Rightarrow> Inr (v_ReadOnly v, of_nat (UsedSize (vs_fs vs) v))))"

definition VolumeCommitCompact :: "u32 \<Rightarrow> VolumeServer \<Rightarrow> unit grpc_reply" where
  "VolumeCommitCompact vid vs =
     (case vs_store vs of
        None \<Rightarrow> Inl Unavailable
      | Some st \<Rightarrow> Inr (if store_GetVolume vid st = None then Inl VolumeMissing else Inr ()))"

section \<open>Reading a whole volume\<close>

record NeedleItem =
  it_NeedleId :: NeedleId
  it_Cookie :: Cookie
  it_Offset :: u64
  it_Size :: u32
  it_Data :: bytes
  it_Mime :: bytes
  it_FileName :: bytes
  it_IsDeleted :: bool

definition needle_item :: "NeedleId \<times> Offset \<times> Size \<Rightarrow> Needle \<Rightarrow> NeedleItem" where
  "needle_item entry n =
     \<lparr>it_NeedleId = fst entry, it_Cookie = n_Cookie n, it_Offset = ucast (fst (snd entry)), it_Size = ucast (snd (snd entry)),
      it_Data = n_Data n, it_Mime = GetMime n, it_FileName = GetName n, it_IsDeleted = Needle_IsDeleted n\<rparr>"

text \<open>The items sent, and the error that ended the call, if any.\<close>

fun send_needles :: "(NeedleItem \<Rightarrow> bool) \<Rightarrow> fsys \<Rightarrow> Volume \<Rightarrow> (NeedleId \<times> Offset \<times> Size) list \<Rightarrow> NeedleItem list \<times> (vgrpc_status + unit)" where
  "send_needles send s v [] = ([], Inr ())"
| "send_needles send s v (entry # entries) =
     (case GetNeedle s v (fst entry) of
        Inl e \<Rightarrow> ([], Inl InternalError)
      | Inr n \<Rightarrow>
          let item = needle_item entry n in
          if send item then (case send_needles send s v entries of (items, r) \<Rightarrow> (item # items, r)) else ([], Inl SendFailed))"

definition ReadAllNeedles :: "NeedleId list \<Rightarrow> (NeedleItem \<Rightarrow> bool) \<Rightarrow> u32 \<Rightarrow> VolumeServer \<Rightarrow> NeedleItem list \<times> (vgrpc_status + unit)" where
  "ReadAllNeedles order send vid vs =
     (case vs_store vs of
        None \<Rightarrow> ([], Inl Unavailable)
      | Some st \<Rightarrow>
          (case store_GetVolume vid st of
             None \<Rightarrow> ([], Inl NotFoundStatus)
           | Some v \<Rightarrow> send_needles send (vs_fs vs) v (SnapshotLiveNeedleEntries order v)))"

section \<open>Copying a volume\<close>

definition copyProgressPercent :: "u64 \<Rightarrow> u64 \<Rightarrow> rat" where
  "copyProgressPercent processed tot =
     (if tot = 0 then 0
      else let pct = of_nat (unat processed) * 100 / of_nat (unat tot) in
        if pct < 0 then 0 else if pct > 100 then 100 else pct)"

record VolumeCopyResponse =
  cp_ProcessedBytes :: u64
  cp_ProcessPercent :: rat

definition copied_needle :: "NeedleItem \<Rightarrow> Needle" where
  "copied_needle item =
     (let n = Needle_zero\<lparr>n_Id := it_NeedleId item, n_Cookie := it_Cookie item, n_Data := it_Data item, n_DataSize := of_nat (length (it_Data item))\<rparr>;
          n = (if it_FileName item \<noteq> [] then SetName (it_FileName item) n else n)
      in if it_Mime item \<noteq> [] then SetMime (it_Mime item) n else n)"

datatype copy_error = CopyReceive | CopyWrite store_err | CopySend

text \<open>The items received from the source, and whether the stream then fails. The result is the error or the number of
  bytes, and the store.\<close>

fun copy_items ::
  "(VolumeCopyResponse \<Rightarrow> bool) \<Rightarrow> VolumeId \<Rightarrow> u64 \<Rightarrow> NeedleItem list \<times> bool \<Rightarrow> u64 \<Rightarrow> rat \<Rightarrow> VStore \<Rightarrow> fsys \<Rightarrow> (copy_error + u64) \<times> VStore \<times> fsys" where
  "copy_items send vid srcSize ([], fails) processed lastProgress st s = (if fails then Inl CopyReceive else Inr processed, st, s)"
| "copy_items send vid srcSize (item # items, fails) processed lastProgress st s =
     (if it_IsDeleted item then
        (case DeleteVolumeNeedle vid (it_NeedleId item) st s of
           (_, st1, s1) \<Rightarrow> copy_items send vid srcSize (items, fails) processed lastProgress st1 s1)
      else case WriteVolumeNeedle vid (copied_needle item) st s of
        (Inl e, st1, s1, _) \<Rightarrow> (Inl (CopyWrite e), st1, s1)
      | (Inr _, st1, s1, _) \<Rightarrow>
          let processed1 = processed + ucast (it_Size item);
              progress = copyProgressPercent processed1 srcSize in
          if progress \<ge> lastProgress + 5 \<or> progress = 100 then
            (if send \<lparr>cp_ProcessedBytes = processed1, cp_ProcessPercent = progress\<rparr>
             then copy_items send vid srcSize (items, fails) processed1 progress st1 s1
             else (Inl CopySend, st1, s1))
          else copy_items send vid srcSize (items, fails) processed1 lastProgress st1 s1)"

text \<open>\<open>srcSize\<close> and \<open>src\<close> are what the source answers: its status and its needles; \<open>None\<close> when the call fails.\<close>

definition VolumeCopy ::
  "(string \<Rightarrow> fsys \<Rightarrow> string list) \<Rightarrow> (VolumeCopyResponse \<Rightarrow> bool) \<Rightarrow> u64 \<Rightarrow> (NeedleItem list \<times> bool) option \<Rightarrow> u32 \<Rightarrow> string \<Rightarrow> string \<Rightarrow> VolumeServer \<Rightarrow>
   (vgrpc_status + unit) \<times> VolumeServer" where
  "VolumeCopy walk send srcSize src vid collection sourceDataNode vs =
     (case vs_store vs of
        None \<Rightarrow> (Inl Unavailable, vs)
      | Some st \<Rightarrow>
          if vid = 0 \<or> sourceDataNode = [] then (Inl InvalidArgument, vs)
          else if store_GetVolume vid st \<noteq> None then (Inl AlreadyExists, vs)
          else case AllocateVolume vid collection CurrentNeedleVersion st (vs_fs vs) of
            (Inl e, st1, s1) \<Rightarrow> (Inl ResourceExhausted, vs\<lparr>vs_store := Some st1, vs_fs := s1\<rparr>)
          | (Inr _, st1, s1) \<Rightarrow>
              let cleanup = (\<lambda>status st s. case deleteVolume walk vid st s of (_, st', s') \<Rightarrow> (Inl status, vs\<lparr>vs_store := Some st', vs_fs := s'\<rparr>)) in
              if \<not> send \<lparr>cp_ProcessedBytes = 0, cp_ProcessPercent = 0\<rparr> then cleanup SendFailed st1 s1
              else case src of
                None \<Rightarrow> cleanup InternalError st1 s1
              | Some stream \<Rightarrow>
                  (case copy_items send vid srcSize stream 0 0 st1 s1 of
                     (Inl e, st2, s2) \<Rightarrow> cleanup InternalError st2 s2
                   | (Inr processed, st2, s2) \<Rightarrow>
                       (if send \<lparr>cp_ProcessedBytes = processed, cp_ProcessPercent = 100\<rparr> then Inr () else Inl SendFailed,
                        vs\<lparr>vs_store := Some st2, vs_fs := s2\<rparr>)))"

end
