(* ===== verification/VolumeServerProps.thy ===== *)
theory VolumeServerProps
  imports VolumeGrpc VolumeStoreProps TopologyProps GuardProps
begin

text \<open>
  The volume server as its clients see it: a blob that was written is read back, the master learns exactly the
  volumes of the store, and a copied volume shows the needles of its source.
\<close>

section \<open>Writing and reading\<close>

definition size_limit :: "VolumeServer \<Rightarrow> int" where
  "size_limit vs =
     (let limit = wrap64 (vo_FileSizeLimitMB (vs_option vs) * 1024 * 1024) in if limit \<le> 0 then 4 * 1024 * 1024 else limit)"

lemma read_payload_bound: "readUploadPayload r limit = Inr (data, filename, mimeType) \<Longrightarrow> int (length data) \<le> limit \<and> mimeType \<noteq> []"
proof -
  have raw: "int (length data) \<le> limit \<and> mimeType \<noteq> []" if "raw_payload limit ct rd = Inr (data, filename, mimeType)" for ct rd
    using that by (auto simp: raw_payload_def limited_payload_def ebind_eq_Inr octet_stream_def split: option.splits if_splits)
  moreover have "int (length data) \<le> limit \<and> mimeType \<noteq> []" if "part_payload limit ct fails rest parts = Inr (data, filename, mimeType)" for ct fails rest parts
    using that raw by (induction parts) (auto simp: limited_payload_def ebind_eq_Inr octet_stream_def split: option.splits if_splits)
  ultimately show "readUploadPayload r limit = Inr (data, filename, mimeType) \<Longrightarrow> int (length data) \<le> limit \<and> mimeType \<noteq> []"
    by (auto simp: readUploadPayload_def Let_def split: upload_body.splits)
qed

text \<open>The needle that a payload with a name and a type makes; a copy makes it too.\<close>

definition plain_needle :: "NeedleId \<Rightarrow> Cookie \<Rightarrow> bytes \<Rightarrow> bytes \<Rightarrow> bytes \<Rightarrow> Needle" where
  "plain_needle nid cookie data name mime =
     Needle_zero\<lparr>n_Id := nid, n_Cookie := cookie, n_Data := data, n_DataSize := of_nat (length data), n_Name := take 255 name, n_Mime := take 255 mime,
       n_Flags := (if name = [] then 0 else FlagHasName) OR (if mime = [] then 0 else FlagHasMime)\<rparr>"

definition dated :: "u64 \<Rightarrow> u64 \<Rightarrow> Needle \<Rightarrow> Needle" where
  "dated sec ns n = (SetLastModified sec n)\<lparr>n_AppendAtNs := ns\<rparr>"

lemmas flag_simps =
  HasName_def HasMime_def HasPairs_def HasLastModified_def HasTtl_def FlagHasName_def FlagHasMime_def FlagHasPairs_def
  FlagHasLastModified_def FlagHasTtl_def

lemma copied_needle_plain: "copied_needle item = plain_needle (it_NeedleId item) (it_Cookie item) (it_Data item) (it_FileName item) (it_Mime item)"
  by (simp add: copied_needle_def plain_needle_def SetName_def SetMime_def MaxNeedleNameSize_def MaxNeedleMimeSize_def Needle_zero_def Let_def)

lemma to_bytes_empty [simp]: "to_bytes s = [] \<longleftrightarrow> s = []" "to_bytes [] = []"
  by (simp_all add: to_bytes_def)

lemma build_plain:
  "buildNeedleFromRequest sec ns r fid mb = Inr n \<longleftrightarrow>
   (\<exists>data filename mimeType. readUploadPayload r (let limit = wrap64 (mb * 1024 * 1024) in if limit \<le> 0 then 4 * 1024 * 1024 else limit) = Inr (data, filename, mimeType) \<and>
      n = dated sec ns (plain_needle (fid_NeedleId fid) (fid_Cookie fid) data (to_bytes filename) (to_bytes mimeType)))"
proof -
  have "(SetLastModified sec (let n = Needle_zero\<lparr>n_Id := fid_NeedleId fid, n_Cookie := fid_Cookie fid, n_Data := data, n_DataSize := of_nat (length data)\<rparr>;
            n = (if filename \<noteq> [] then SetName (to_bytes filename) n else n) in
            (if mimeType \<noteq> [] then SetMime (to_bytes mimeType) n else n)))\<lparr>n_AppendAtNs := ns\<rparr> =
      dated sec ns (plain_needle (fid_NeedleId fid) (fid_Cookie fid) data (to_bytes filename) (to_bytes mimeType))" for data filename mimeType
    by (simp add: dated_def plain_needle_def SetName_def SetMime_def MaxNeedleNameSize_def MaxNeedleMimeSize_def Needle_zero_def Let_def)
  then show ?thesis by (auto simp: buildNeedleFromRequest_def ebind_eq_Inr Let_def)
qed

lemma plain_sel [simp]:
  "n_Id (plain_needle i c d nm mi) = i" "n_Cookie (plain_needle i c d nm mi) = c" "n_Data (plain_needle i c d nm mi) = d"
  "n_DataSize (plain_needle i c d nm mi) = of_nat (length d)"
  by (simp_all add: plain_needle_def)

lemma plain_get [simp]:
  "GetName (plain_needle i c d nm mi) = take 255 nm" "GetMime (plain_needle i c d nm mi) = take 255 mi"
  by (simp_all add: plain_needle_def GetName_def GetMime_def flag_simps Needle_zero_def)

lemma dated_sel [simp]:
  "n_Id (dated sec ns n) = n_Id n" "n_Cookie (dated sec ns n) = n_Cookie n" "n_Data (dated sec ns n) = n_Data n"
  "n_DataSize (dated sec ns n) = n_DataSize n"
  by (simp_all add: dated_def SetLastModified_def)

lemma dated_mime [simp]: "GetMime (dated sec ns (plain_needle i c d nm mi)) = take 255 mi"
  by (simp add: dated_def SetLastModified_def plain_needle_def GetMime_def flag_simps Needle_zero_def)

lemma plain_wf:
  assumes "length d + 600 < 2 ^ 32"
  shows "needle_wf (plain_needle i c d nm mi)"
  using assms by (simp add: needle_wf_def plain_needle_def Needle_zero_def flag_simps length_bodyBytes unat_of_nat_u32
      MaxNeedleNameSize_def MaxNeedleMimeSize_def) (auto simp: min_def)

lemma dated_wf:
  assumes "length d + 600 < 2 ^ 32" "unat sec < 2 ^ 40"
  shows "needle_wf (dated sec ns (plain_needle i c d nm mi))"
  using assms by (simp add: needle_wf_def dated_def SetLastModified_def plain_needle_def Needle_zero_def flag_simps length_bodyBytes unat_of_nat_u32
      MaxNeedleNameSize_def MaxNeedleMimeSize_def) (auto simp: min_def)

lemma size_limit_bound: "vo_FileSizeLimitMB (vs_option vs) \<le> 4000 \<Longrightarrow> - (2 ^ 40) \<le> vo_FileSizeLimitMB (vs_option vs) \<Longrightarrow> size_limit vs \<le> 4000 * 2 ^ 20"
  by (simp add: size_limit_def Let_def)

lemma of_bytes_take: "of_bytes (take k (to_bytes s)) = take k s"
  by (metis of_bytes_def of_to_bytes take_map)

lemma view_get [simp]:
  "GetMime (needle_view n ver) = GetMime n" "GetName (needle_view n ver) = GetName n" "n_Data (needle_view n ver) = n_Data n"
  "n_Cookie (needle_view n ver) = n_Cookie n" "n_DataSize (needle_view n ver) = n_DataSize n" "n_Id (needle_view n ver) = n_Id n"
  by (simp_all add: needle_view_def GetMime_def HasMime_def GetName_def HasName_def)

text \<open>A write that answers 201 stored the needle of its payload.\<close>

lemma handleWrite_created:
  assumes st: "vs_store vs = Some st" "store_ok (vs_fs vs) A st" and fid: "ParseFileId (drop 1 (rq_Path r)) = Inr fid"
    and lim: "- (2 ^ 40) \<le> vo_FileSizeLimitMB (vs_option vs)" "vo_FileSizeLimitMB (vs_option vs) \<le> 4000" and sec: "unat sec < 2 ^ 40"
    and fits: "\<And>v. store_GetVolume (fid_VolumeId fid) st = Some v \<Longrightarrow> UsedSize (vs_fs vs) v \<le> 2 ^ 35 - 8"
    and run: "handleWrite VerifyJWT md5 sec ns send r vs = (Reply 201 b, vs')"
  obtains data filename mimeType st' ver B where "readUploadPayload r (size_limit vs) = Inr (data, filename, mimeType)"
    "Allowed VerifyJWT r True (vs_guard vs)" "A (fid_VolumeId fid) = Some (ver, B)"
    "vs' = vs\<lparr>vs_store := Some st', vs_fs := vs_fs vs'\<rparr>"
    "store_ok (vs_fs vs') (A(fid_VolumeId fid \<mapsto> (ver, B(fid_NeedleId fid \<mapsto>
        dated sec ns (plain_needle (fid_NeedleId fid) (fid_Cookie fid) data (to_bytes filename) (to_bytes mimeType)))))) st'"
proof -
  obtain n st1 s1 n1 x where n: "buildNeedleFromRequest sec ns r fid (vo_FileSizeLimitMB (vs_option vs)) = Inr n"
    and w: "WriteVolumeNeedle (fid_VolumeId fid) n st (vs_fs vs) = (Inr x, st1, s1, n1)" and vs': "vs' = vs\<lparr>vs_store := Some st1, vs_fs := s1\<rparr>"
    and allowed: "Allowed VerifyJWT r True (vs_guard vs)"
    using run st(1) fid by (auto simp: handleWrite_def Let_def split: if_splits sum.splits prod.splits)
  obtain data filename mimeType where p: "readUploadPayload r (size_limit vs) = Inr (data, filename, mimeType)"
    and n_eq: "n = dated sec ns (plain_needle (fid_NeedleId fid) (fid_Cookie fid) data (to_bytes filename) (to_bytes mimeType))"
    using n by (auto simp: build_plain size_limit_def Let_def)
  have "int (length data) \<le> 4000 * 2 ^ 20" using read_payload_bound [OF p] size_limit_bound [OF lim(2,1)] by simp
  then have "length data + 600 < 2 ^ 32" by simp
  then have wf: "needle_wf n" unfolding n_eq using sec by (rule dated_wf)
  obtain ver B where "A (fid_VolumeId fid) = Some (ver, B)" "store_ok s1 (A(fid_VolumeId fid \<mapsto> (ver, B(n_Id n \<mapsto> n)))) st1"
    using store_write [OF st(2) wf fits w] by blast
  then show ?thesis using that [OF p allowed, of ver B st1] vs' n_eq by simp
qed

text \<open>C12: a blob that was written is read back. When a write answers that the blob is created, a read of the same
  file id by a peer the guard admits, while the cache has nothing under it, answers with the bytes of the payload,
  their digest and the content type that came with them, cut to the length a needle can hold.\<close>

theorem put_then_get:
  assumes "vs_store vs = Some st" "store_ok (vs_fs vs) A st" "ParseFileId (drop 1 (rq_Path r)) = Inr fid"
    and "- (2 ^ 40) \<le> vo_FileSizeLimitMB (vs_option vs)" "vo_FileSizeLimitMB (vs_option vs) \<le> 4000" "unat sec < 2 ^ 40"
    and "\<And>v. store_GetVolume (fid_VolumeId fid) st = Some v \<Longrightarrow> UsedSize (vs_fs vs) v \<le> 2 ^ 35 - 8"
    and "handleWrite VerifyJWT md5 sec ns send r vs = (Reply 201 b, vs')"
    and "rq_Path r' = rq_Path r" "Allowed VerifyJWT r' False (vs_guard vs)"
    and "\<And>c. vs_blobCache vs = Some c \<Longrightarrow> lru_inv c \<and> fst (lru_Get (drop 1 (rq_Path r)) c) = None"
  shows "\<exists>data filename mimeType vs''. readUploadPayload r (size_limit vs) = Inr (data, filename, mimeType) \<and>
    handleRead VerifyJWT md5 r' vs' = Some (Reply 200 (BlobBody (take 255 mimeType) (md5 data) data), vs'')"
proof -
  obtain data filename mimeType st' ver B where p: "readUploadPayload r (size_limit vs) = Inr (data, filename, mimeType)"
    and _: "Allowed VerifyJWT r True (vs_guard vs)" and _: "A (fid_VolumeId fid) = Some (ver, B)"
    and vs': "vs' = vs\<lparr>vs_store := Some st', vs_fs := vs_fs vs'\<rparr>"
    and ok: "store_ok (vs_fs vs') (A(fid_VolumeId fid \<mapsto> (ver, B(fid_NeedleId fid \<mapsto>
        dated sec ns (plain_needle (fid_NeedleId fid) (fid_Cookie fid) data (to_bytes filename) (to_bytes mimeType)))))) st'"
    by (rule handleWrite_created [OF assms(1-8)])
  let ?n = "dated sec ns (plain_needle (fid_NeedleId fid) (fid_Cookie fid) data (to_bytes filename) (to_bytes mimeType))"
  have read: "ReadVolumeNeedle (fid_VolumeId fid) fid st' (vs_fs vs') = Inr (needle_view ?n ver)"
    unfolding store_read [OF ok] by simp
  have m: "n_Data (needle_view ?n ver) = data" "GetMime (needle_view ?n ver) = take 255 (to_bytes mimeType)" "mimeType \<noteq> []"
    using read_payload_bound [OF p] by simp_all
  have c: "vs_store vs' = Some st'" "vs_guard vs' = vs_guard vs" "vs_blobCache vs' = vs_blobCache vs" using arg_cong [OF vs', of vs_store] arg_cong [OF vs', of vs_guard] arg_cong [OF vs', of vs_blobCache] by simp_all
  show ?thesis
  proof (cases "vs_blobCache vs")
    case None
    then show ?thesis using p c assms(3,9,10) read m by (simp add: handleRead_def Let_def of_bytes_take)
  next
    case (Some cache)
    obtain cache' where "lru_Put (drop 1 (rq_Path r)) data cache = Some cache'"
      using Put_effect [of cache "drop 1 (rq_Path r)" data] assms(11) [OF Some] by blast
    moreover obtain c2 where "lru_Get (drop 1 (rq_Path r)) cache = (None, c2)" using assms(11) [OF Some] by (metis prod.collapse)
    ultimately show ?thesis using p c assms(3,9,10) read m Some by (simp add: handleRead_def Let_def of_bytes_take)
  qed
qed

lemma handleWrite_ok:
  assumes "Allowed VerifyJWT r True (vs_guard vs)" "ParseFileId (drop 1 (rq_Path r)) = Inr fid" "vs_store vs = Some st"
    and "buildNeedleFromRequest sec ns r fid (vo_FileSizeLimitMB (vs_option vs)) = Inr n"
    and "WriteVolumeNeedle (fid_VolumeId fid) n st (vs_fs vs) = (Inr x, st1, s1, n1)"
    and "replicate_write send r fid n1 (vs\<lparr>vs_store := Some st1, vs_fs := s1\<rparr>) = Inr True"
  shows "handleWrite VerifyJWT md5 sec ns send r vs =
    (Reply 201 (WrittenBody (length (n_Data n1)) (md5 (n_Data n))), vs\<lparr>vs_store := Some st1, vs_fs := s1\<rparr>)"
  unfolding handleWrite_def assms(2-5) sum.case option.case prod.case Let_def assms(6) using assms(1) by simp

text \<open>A server with one empty volume, and a blob of three bytes.\<close>

definition sample_option :: VolumeServerOption where
  "sample_option = \<lparr>vo_Host = ''h'', vo_Port = 80, vo_GRPCPort = 0, vo_PublicUrl = [], vo_Masters = [], vo_DataCenter = ''d'', vo_Rack = ''r'',
     vo_Directories = [], vo_FileSizeLimitMB = 1, vo_CacheMaxEntries = 0\<rparr>"

definition sample_server :: "Volume \<Rightarrow> fsys \<Rightarrow> VolumeServer" where
  "sample_server v s = \<lparr>vs_option = sample_option, vs_store = Some [sample_location\<lparr>dl_volumes := [(7, v)]\<rparr>], vs_fs = s, vs_guard = NewGuard [] [] [],
     vs_replicaLocations = NewReplicaLocations, vs_currentMaster = [], vs_blobCache = None\<rparr>"

definition sample_put :: VsRequest where
  "sample_put = \<lparr>rq_RemoteAddr = ip_text [127, 0, 0, 1] @ CHR '':'' # format_uint 10 4711, rq_Header = (\<lambda>_. [])(''X-Replication'' := ''true''),
     rq_Path = ''/7,000000000000000100000009'', rq_Body = RawBody ([1, 2, 3], False)\<rparr>"

lemma sample_put_fid: "ParseFileId (drop 1 (rq_Path sample_put)) = Inr \<lparr>fid_VolumeId = 7, fid_NeedleId = 1, fid_Cookie = 9\<rparr>"
  by (simp add: sample_put_def ParseFileId_def parse_uint_def char_digit_def)

lemma sample_put_allowed: "Allowed V sample_put b (NewGuard [] [] [])"
  by (simp add: Allowed_def isIPAllowedLocked_def sample_put_def SplitHostPort_text ParseIP_text NewGuard_def compileWhiteList_def ParseWhiteList_def
      map_filter_simps)

definition sample_blob :: Needle where
  "sample_blob = dated 0 0 (plain_needle 1 9 [1, 2, 3] [] (to_bytes octet_stream))"

lemma sample_put_build: "buildNeedleFromRequest 0 0 sample_put \<lparr>fid_VolumeId = 7, fid_NeedleId = 1, fid_Cookie = 9\<rparr> 1 = Inr sample_blob"
  unfolding build_plain sample_blob_def
  by (simp add: readUploadPayload_def sample_put_def raw_payload_def limited_payload_def read_limited_def)

lemma sample_blob_space: "write_space sample_blob 3 \<le> 900"
proof -
  have "length (bodyBytes sample_blob) \<le> 100"
    by (simp add: sample_blob_def dated_def SetLastModified_def plain_needle_def Needle_zero_def flag_simps length_bodyBytes octet_stream_def)
  then show ?thesis
    using NeedleAlignPadding_less [of "length (needle_raw sample_blob 3)"] footerSize_bounds [of 3]
    by (simp add: write_space_def needle_encode_def length_needle_raw)
qed

lemma sample_server_ok:
  obtains s v where "store_ok s [7 \<mapsto> (3, \<lambda>_. None)] [sample_location\<lparr>dl_volumes := [(7, v)]\<rparr>]" "UsedSize s v \<le> 2 ^ 35 - 8"
    "v_id v = 7" "\<forall>n. needle_wf n \<longrightarrow> write_space n 3 \<le> 900 \<longrightarrow> (\<exists>x s' v'. WriteNeedle s v n = (Inr x, s', v', needle_stored n 3))"
    "AllocateVolume 7 [] 3 [sample_location] sample_fs = (Inr (), [sample_location\<lparr>dl_volumes := [(7, v)]\<rparr>], s)"
proof -
  obtain v s where v: "NewVolume sample_fs ''d'' [] 7 3 = (Inr v, s)" "vol_ok s v (\<lambda>_. None)"
    "fs_room s = fs_room sample_fs - 8" "\<not> v_ReadOnly v" "\<not> v_noWriteOrDelete v"
    "v_SuperBlock v = SuperBlock_new 3" "v_dir v = ''d''" "v_id v = 7" "UsedSize s v = 8"
    "map_option db_m (v_nm v) = Some (\<lambda>_. None)"
    by (rule NewVolume_fresh [of sample_fs "''d''" 7 "[]" 3]) (simp_all add: sample_fs_def)
  have ver: "sb_Version (v_SuperBlock v) = 3" using v(6) by (simp add: SuperBlock_new_def)
  have "store_ok s (Map.empty(7 \<mapsto> (3, \<lambda>_. None))) [sample_location\<lparr>dl_volumes := [(7, v)]\<rparr>]"
    by (rule store_allocate [OF sample_store_ok _ sample_allocated [OF v(1,8)]]) simp
  moreover have "\<exists>x s' v'. WriteNeedle s v n = (Inr x, s', v', needle_stored n 3)" if n: "needle_wf n" "write_space n 3 \<le> 900" for n
  proof -
    have "write_space n (sb_Version (v_SuperBlock v)) \<le> fs_room s" using n(2) v(3) ver by (simp add: sample_fs_def)
    then obtain x s' v' n' where w: "WriteNeedle s v n = (Inr x, s', v', n')"
      using WriteNeedle_fits [OF v(2) n(1) v(4,5)] by (metis prod.collapse)
    then show ?thesis using WriteNeedle_outcome [OF v(2) n(1) _ w] v(9) ver by (auto split: prod.splits)
  qed
  ultimately show ?thesis using that [of s v] v(8,9) sample_allocated [OF v(1,8)] by simp
qed

lemma put_then_get_witness:
  "\<exists>v s vs' vs''. handleWrite (\<lambda>_ _. False) (\<lambda>_. ''digest'') 0 0 (\<lambda>_ _ _ _. None) sample_put (sample_server v s) = (Reply 201 (WrittenBody 3 ''digest''), vs') \<and>
     handleRead (\<lambda>_ _. False) (\<lambda>_. ''digest'') sample_put vs' = Some (Reply 200 (BlobBody octet_stream ''digest'' [1, 2, 3]), vs'')"
proof -
  let ?V = "\<lambda>_ _. False" and ?md = "\<lambda>_. ''digest''" and ?send = "\<lambda>_ _ _ _. None"
  obtain s v where v: "store_ok s [7 \<mapsto> (3, \<lambda>_. None)] [sample_location\<lparr>dl_volumes := [(7, v)]\<rparr>]" "UsedSize s v \<le> 2 ^ 35 - 8" "v_id v = 7"
    and fits: "\<forall>n. needle_wf n \<longrightarrow> write_space n 3 \<le> 900 \<longrightarrow> (\<exists>x s' v'. WriteNeedle s v n = (Inr x, s', v', needle_stored n 3))"
    and "AllocateVolume 7 [] 3 [sample_location] sample_fs = (Inr (), [sample_location\<lparr>dl_volumes := [(7, v)]\<rparr>], s)"
    by (rule sample_server_ok)
  have "needle_wf sample_blob" unfolding sample_blob_def by (rule dated_wf) simp_all
  then obtain x s' v' where w: "WriteNeedle s v sample_blob = (Inr x, s', v', needle_stored sample_blob 3)" using fits sample_blob_space by blast
  have n': "n_Data (needle_stored sample_blob 3) = [1, 2, 3]" by (simp add: sample_blob_def needle_stored_def)
  let ?vs = "sample_server v s" and ?fid = "\<lparr>fid_VolumeId = 7, fid_NeedleId = 1, fid_Cookie = 9\<rparr>"
  have vs: "vs_guard ?vs = NewGuard [] [] []" "vs_store ?vs = Some [sample_location\<lparr>dl_volumes := [(7, v)]\<rparr>]" "vs_fs ?vs = s"
    "vs_blobCache ?vs = None" "vo_FileSizeLimitMB (vs_option ?vs) = 1" by (simp_all add: sample_server_def sample_option_def)
  have get: "store_GetVolume 7 [sample_location\<lparr>dl_volumes := [(7, v)]\<rparr>] = Some v" by (simp add: dl_GetVolume_def)
  have rep: "replicate_write ?send sample_put fid m x = Inr True" for fid m x by (simp add: replicate_write_def sample_put_def)
  have "WriteVolumeNeedle 7 sample_blob [sample_location\<lparr>dl_volumes := [(7, v)]\<rparr>] s =
      (Inr x, put_volume 7 v' [sample_location\<lparr>dl_volumes := [(7, v)]\<rparr>], s', needle_stored sample_blob 3)"
    unfolding WriteVolumeNeedle_def get option.case w by simp
  then have "WriteVolumeNeedle (fid_VolumeId ?fid) sample_blob [sample_location\<lparr>dl_volumes := [(7, v)]\<rparr>] (vs_fs ?vs) =
      (Inr x, put_volume 7 v' [sample_location\<lparr>dl_volumes := [(7, v)]\<rparr>], s', needle_stored sample_blob 3)"
    unfolding vs(3) FileId.select_convs .
  moreover have "buildNeedleFromRequest 0 0 sample_put ?fid (vo_FileSizeLimitMB (vs_option ?vs)) = Inr sample_blob"
    unfolding vs(5) by (rule sample_put_build)
  ultimately have "handleWrite ?V ?md 0 0 ?send sample_put ?vs =
      (Reply 201 (WrittenBody (length (n_Data (needle_stored sample_blob 3))) ''digest''),
       ?vs\<lparr>vs_store := Some (put_volume 7 v' [sample_location\<lparr>dl_volumes := [(7, v)]\<rparr>]), vs_fs := s'\<rparr>)"
    using handleWrite_ok [OF _ sample_put_fid vs(2) _ _ rep, of ?V 0 0 sample_blob x "put_volume 7 v' [sample_location\<lparr>dl_volumes := [(7, v)]\<rparr>]" s'
        "needle_stored sample_blob 3" ?md] sample_put_allowed [of ?V True] unfolding vs(1) by blast
  then obtain vs' where put: "handleWrite ?V ?md 0 0 ?send sample_put ?vs = (Reply 201 (WrittenBody 3 ''digest''), vs')" unfolding n' by simp
  have "readUploadPayload sample_put (size_limit ?vs) = Inr ([1, 2, 3], [], octet_stream)"
    by (simp add: readUploadPayload_def size_limit_def vs(5) sample_put_def raw_payload_def limited_payload_def read_limited_def)
  moreover have "\<exists>data filename mimeType vs''. readUploadPayload sample_put (size_limit ?vs) = Inr (data, filename, mimeType) \<and>
    handleRead ?V ?md sample_put vs' = Some (Reply 200 (BlobBody (take 255 mimeType) (?md data) data), vs'')"
  proof (rule put_then_get [OF vs(2) _ sample_put_fid _ _ _ _ put refl])
    show "store_ok (vs_fs ?vs) [7 \<mapsto> (3, \<lambda>_. None)] [sample_location\<lparr>dl_volumes := [(7, v)]\<rparr>]" unfolding vs(3) by (rule v(1))
    show "Allowed ?V sample_put False (vs_guard ?vs)" unfolding vs(1) by (rule sample_put_allowed)
    fix v1 assume "store_GetVolume (fid_VolumeId ?fid) [sample_location\<lparr>dl_volumes := [(7, v)]\<rparr>] = Some v1"
    then show "UsedSize (vs_fs ?vs) v1 \<le> 2 ^ 35 - 8" using v(2) get unfolding vs(3) by simp
  qed (simp_all add: vs)
  moreover have "take 255 octet_stream = octet_stream" by (simp add: octet_stream_def)
  ultimately show ?thesis using put by auto
qed

section \<open>What the master learns\<close>

lemma heartbeat_ids:
  assumes "vs_store vs = Some st"
  shows "reported (BuildHeartbeat vs) = {vid. store_GetVolume vid st \<noteq> None}"
proof -
  have loc: "vi_Id ` set (location_infos st dl) = {vid \<in> fst ` set (dl_volumes dl). store_GetVolume vid st \<noteq> None}" for dl
    by (force simp: location_infos_def GetVolumes_sorted map_filter_def volume_info_def)
  have "reported (BuildHeartbeat vs) = (\<Union>dl \<in> set st. vi_Id ` set (location_infos st dl))"
    by (simp add: reported_def BuildHeartbeat_def Let_def assms image_Union)
  also have "\<dots> = {vid \<in> fst ` set (all_volumes st). store_GetVolume vid st \<noteq> None}" unfolding loc by (auto simp: all_volumes_def)
  finally show ?thesis by (auto simp: store_GetVolume_map_of map_of_eq_None_iff)
qed

text \<open>C14: the master knows what the store has. In a cluster whose master has processed any heartbeats of servers
  at fixed places, processing the heartbeat that a volume server builds makes the layouts list this server for
  exactly the volumes its store can find, and changes what they list for no other server.\<close>

theorem heartbeat_truth:
  assumes "hb_run place t rep" "vs_store vs = Some st"
    and "place (NodeIDFromHeartbeat (BuildHeartbeat vs)) = (vo_DataCenter (vs_option vs), vo_Rack (vs_option vs))"
    and "set known = known_volumes t (BuildHeartbeat vs)" "t' = ProcessJoinMessage now known (BuildHeartbeat vs) t"
  shows "located t' i v \<longleftrightarrow>
    (if i = NodeIDFromHeartbeat (BuildHeartbeat vs) then store_GetVolume v st \<noteq> None \<and> v \<noteq> 0 else located t i v)"
proof -
  let ?hb = "BuildHeartbeat vs"
  have "(hb_DataCenter ?hb, hb_Rack ?hb) = (vo_DataCenter (vs_option vs), vo_Rack (vs_option vs))" by (simp add: BuildHeartbeat_def Let_def)
  then have "view_ok place t' (rep(NodeIDFromHeartbeat ?hb := reported ?hb))"
    using view_ok_beat [OF hb_run_view_ok [OF assms(1)] _ assms(4), of now] assms(3,5) by simp
  then show ?thesis
    using hb_run_view_ok [OF assms(1)] heartbeat_ids [OF assms(2)] unfolding view_ok_def by simp
qed

lemma heartbeat_truth_witness:
  "\<exists>v s. let vs = sample_server v s; t = ProcessJoinMessage 0 [] (BuildHeartbeat vs) NewTopology in
     located t (NodeIDFromHeartbeat (BuildHeartbeat vs)) 7 \<and> \<not> located t (NodeIDFromHeartbeat (BuildHeartbeat vs)) 8"
proof -
  fix v s
  let ?vs = "sample_server v s"
  let ?t = "ProcessJoinMessage 0 [] (BuildHeartbeat ?vs) NewTopology"
  have st: "vs_store ?vs = Some [sample_location\<lparr>dl_volumes := [(7, v)]\<rparr>]" by (simp add: sample_server_def)
  have k: "set [] = known_volumes NewTopology (BuildHeartbeat ?vs)" by (simp add: known_volumes_def node_at_def NewTopology_def)
  have "located ?t (NodeIDFromHeartbeat (BuildHeartbeat ?vs)) x \<longleftrightarrow> store_GetVolume x [sample_location\<lparr>dl_volumes := [(7, v)]\<rparr>] \<noteq> None \<and> x \<noteq> 0" for x
    using heartbeat_truth [OF hb_run.start st, of "\<lambda>_. (vo_DataCenter sample_option, vo_Rack sample_option)" "[]" ?t 0 "NodeIDFromHeartbeat (BuildHeartbeat ?vs)" x] k
    by (simp add: sample_server_def del: store_GetVolume.simps)
  then show ?thesis by (intro exI [of _ v] exI [of _ s]) (simp add: dl_GetVolume_def Let_def)
qed

section \<open>Where the server departs from what it means to do\<close>

text \<open>A write does not touch the cache, and a hit does not look at the store: after the blob is replaced, the old one
  is served as long as it stays in the cache. The type of the blob is lost as well.\<close>

lemma write_keeps_cache: "vs_blobCache (snd (handleWrite VerifyJWT md5 sec ns send r vs)) = vs_blobCache vs"
  by (auto simp: handleWrite_def Let_def split: sum.splits option.splits prod.splits if_splits)

lemma stale_read:
  assumes "Allowed VerifyJWT r False (vs_guard vs)" "ParseFileId (drop 1 (rq_Path r)) = Inr fid" "vs_store vs = Some st"
    and "vs_blobCache vs = Some c" "lru_Get (drop 1 (rq_Path r)) c = (Some old, c')"
  shows "handleRead VerifyJWT md5 r vs = Some (Reply 200 (BlobBody octet_stream (md5 old) old), vs\<lparr>vs_blobCache := Some c'\<rparr>)"
  using assms by (simp add: handleRead_def Let_def)

text \<open>A delete does not ask for the cookie: file ids that differ in it only are deleted alike.\<close>

lemma delete_ignores_cookie:
  assumes "ParseFileId (drop 1 (rq_Path r1)) = Inr fid" "ParseFileId (drop 1 (rq_Path r2)) = Inr (fid\<lparr>fid_Cookie := c\<rparr>)"
    and "Allowed VerifyJWT r1 True (vs_guard vs)" "Allowed VerifyJWT r2 True (vs_guard vs)" "vs_blobCache vs = None"
  shows "handleDelete VerifyJWT r1 vs = handleDelete VerifyJWT r2 vs"
  unfolding handleDelete_def Let_def assms(1,2) using assms(3-5)
  by (auto split: option.splits prod.splits sum.splits)

text \<open>The path a replica gets has no cookie, so the replica reads the lower half of the needle id as the cookie and the
  upper half as the id: all blobs with ids below \<open>2 ^ 32\<close> are written to one needle there.\<close>

lemma replica_path_fid:
  assumes "unat (rr_NeedleId req) < 2 ^ 32"
  shows "ParseFileId (drop 1 (replica_path req)) =
     Inr \<lparr>fid_VolumeId = rr_VolumeId req, fid_NeedleId = 0, fid_Cookie = of_nat (unat (rr_NeedleId req))\<rparr>"
proof -
  let ?v = "format_uint 10 (unat (rr_VolumeId req))" and ?n = "format_uint 16 (unat (rr_NeedleId req))"
  have "length ?n \<le> 8" using length_digits_le [of 16 "unat (rr_NeedleId req)" 8] assms by (simp add: format_uint_def)
  then have "16 - length ?n = 8 + (8 - length ?n)" by simp
  then have split: "pad_zero 16 ?n = replicate 8 (CHR ''0'') @ pad_zero 8 ?n" by (simp only: pad_zero_def replicate_add append_assoc)
  have len: "length (pad_zero 8 ?n) = 8" using length_pad_zero [of 16 "unat (rr_NeedleId req)" 8] assms by simp
  have "unat (rr_VolumeId req) < 2 ^ 32" using unat_bound [of "rr_VolumeId req"] by simp
  then have parsed: "parse_uint ?v 10 32 = Some (unat (rr_VolumeId req))" "parse_uint (pad_zero 8 ?n) 16 32 = Some (unat (rr_NeedleId req))"
    using assms by (simp_all add: parse_uint_format parse_uint_pad_zero)
  have zeros: "parse_uint (replicate 8 (CHR ''0'')) 16 64 = Some 0"
    using parse_digits_zeros [of 16 8 "[]"] by (simp add: parse_uint_def)
  have "drop 1 (replica_path req) = ?v @ CHR '','' # replicate 8 (CHR ''0'') @ pad_zero 8 ?n" by (simp add: replica_path_def split)
  moreover have "parse_uint (replicate 0 x @ y) b k = parse_uint y b k" for x y b k by simp
  ultimately show ?thesis using parsed len zeros by (simp add: ParseFileId_def Let_def del: replicate.simps)
qed

text \<open>A heartbeat names neither the replica placement nor the time to live of a volume.\<close>

lemma heartbeat_forgets_placement: "vi \<in> set (hb_Volumes (BuildHeartbeat vs)) \<Longrightarrow> vi_ReplicaPlacement vi = 0 \<and> vi_Ttl vi = []"
  by (auto simp: BuildHeartbeat_def Let_def location_infos_def map_filter_def volume_info_def split: option.splits)

end
