(* ===== verification/VolumeCopyProps.thy ===== *)
theory VolumeCopyProps
  imports VolumeServerProps
begin

text \<open>Copying a volume from one server to another: what the source sends and what the target then shows.\<close>

section \<open>The source\<close>

lemma send_all:
  assumes "\<forall>entry \<in> set entries. \<exists>n. B (fst entry) = Some n" "readable s v B"
  shows "send_needles (\<lambda>_. True) s v entries =
    (map (\<lambda>entry. needle_item entry (needle_view (the (B (fst entry))) (sb_Version (v_SuperBlock v)))) entries, Inr ())"
  using assms(1) by (induction entries) (auto simp: GetNeedle_readable [OF assms(2)])

lemma index_live:
  assumes "vol_ok s v B" "v_nm v = Some db"
  shows "live_only (db_m db) k = None \<longleftrightarrow> B k = None"
proof -
  obtain c where "index_ok c (sb_Version (v_SuperBlock v)) (db_m db) B" using assms by (auto simp: vol_ok_def readable_def)
  from index_okD [OF this, of k] show ?thesis
    by (cases "db_m db k") (auto simp: live_only_def entry_ok_def split: if_splits)
qed

lemma snapshot_entries:
  assumes ok: "vol_ok s v B" and db: "v_nm v = Some db" and order: "distinct order" "dom (db_m db) \<subseteq> set order"
  shows "distinct (map fst (SnapshotLiveNeedleEntries order v))" "fst ` set (SnapshotLiveNeedleEntries order v) = dom B"
proof -
  let ?es = "filter (\<lambda>(k, off, sz). sz \<noteq> TombstoneFileSize) (MemDb_Iterate order db)"
  have snap: "SnapshotLiveNeedleEntries order v = sort_key (\<lambda>(_, off, _). ToActualOffset off) ?es"
    by (simp add: SnapshotLiveNeedleEntries_def db)
  have "distinct (map fst ?es)" using distinct_Iterate [OF order(1)] by (rule distinct_map_fst_filter)
  moreover have "mset (map fst (SnapshotLiveNeedleEntries order v)) = mset (map fst ?es)" by (simp add: snap)
  ultimately show "distinct (map fst (SnapshotLiveNeedleEntries order v))" by (metis mset_eq_imp_distinct_iff)
  have "fst ` set (SnapshotLiveNeedleEntries order v) = fst ` set ?es" by (simp add: snap)
  also have "\<dots> = {k. map_of ?es k \<noteq> None}" by (auto simp: map_of_eq_None_iff)
  also have "\<dots> = dom B" using index_live [OF ok db] unfolding map_of_Iterate [OF order(2)] by (auto simp: dom_def)
  finally show "fst ` set (SnapshotLiveNeedleEntries order v) = dom B" .
qed

section \<open>The target\<close>

lemma WriteNeedle_size:
  assumes ok: "vol_ok s v A" and wf: "needle_wf n" and run: "WriteNeedle s v n = (Inr x, s', v', n')"
  shows "UsedSize s' v' \<le> UsedSize s v + 7 + length (needle_encode n (sb_Version (v_SuperBlock v)))"
proof -
  let ?dat = "DataFileName (v_dir v) (v_id v)"
  obtain c db where vf: "vol_files s v c" and db: "v_nm v = Some db" and sync: "idx_synced s db (IndexFileName (v_dir v) (v_id v))"
    using ok by (auto simp: vol_ok_def readable_def)
  obtain r1 s1 v1 n1 where w: "writeNeedleUnlocked s v n = (r1, s1, v1, n1)" by (metis prod.collapse)
  obtain t f where t: "vol_files s1 v1 (c @ t)" "v1 = v\<lparr>v_dataFile := Some f\<rparr>"
    "\<And>q. q \<noteq> ?dat \<Longrightarrow> fs_files s1 q = fs_files s q"
    "case r1 of
       Inl e \<Rightarrow> e \<noteq> VolPanic
     | Inr (off, written) \<Rightarrow>
         t = replicate (NeedleAlignPadding (length c)) 0 @ needle_encode n (sb_Version (v_SuperBlock v)) \<and>
         off = ToEncoded (int (length c + NeedleAlignPadding (length c))) \<and>
         written = length (needle_encode n (sb_Version (v_SuperBlock v))) \<and>
         n1 = needle_stored n (sb_Version (v_SuperBlock v))"
    using writeNeedleUnlocked_outcome [OF vf wf w] by metis
  have sync1: "idx_synced s1 db (IndexFileName (v_dir v) (v_id v))" using idx_synced_frame [OF sync t(3)] by simp
  obtain off written s2 db' where r1: "r1 = Inr (off, written)" and p: "MemDb_Put s1 db (n_Id n1) off (of_nat written) = (Inr (), s2, db')"
    and out: "s' = s2" "v' = v1\<lparr>v_nm := Some db'\<rparr>"
    using run w db t(2) by (auto simp: WriteNeedle_def split: if_splits sum.splits prod.splits)
  have "fs_files s2 ?dat = fs_files s1 ?dat" using MemDb_Put_outcome(2) [OF sync1 p] by simp
  then have "UsedSize s' v' = length (c @ t)" using t(1,2) by (auto simp: UsedSize_def vol_files_def file_size_def out)
  moreover have "UsedSize s v = length c" using vf by (auto simp: UsedSize_def vol_files_def file_size_def)
  moreover have "NeedleAlignPadding (length c) \<le> 7" using NeedleAlignPadding_less [of "length c"] by simp
  ultimately show ?thesis using t(4) r1 by simp
qed

lemma put_volume_same:
  assumes "distinct (map fst (all_volumes st))" "map_of (all_volumes st) vid = Some v"
  shows "put_volume vid v st = st"
proof -
  have "replace_in vid v dl = dl" if "dl \<in> set st" for dl
  proof -
    have "x = v" if "(vid, x) \<in> set (dl_volumes dl)" for x
    proof -
      have "(vid, x) \<in> set (all_volumes st)" using \<open>dl \<in> set st\<close> that by (auto simp: all_volumes_def)
      then show ?thesis using assms by simp
    qed
    then have "map (\<lambda>(k, x). (k, if k = vid then v else x)) (dl_volumes dl) = dl_volumes dl" by (intro map_idI) auto
    then show ?thesis by (simp add: replace_in_def)
  qed
  then show ?thesis unfolding put_volume_map [OF assms(1)] by (simp add: map_idI)
qed

lemma get_put_volume:
  assumes "distinct (map fst (all_volumes st))" "map_of (all_volumes st) vid = Some v"
  shows "map_of (all_volumes (put_volume vid v' st)) vid = Some v'"
proof -
  have "all_volumes (map (replace_in vid v') st) = map (\<lambda>(k, x). (k, if k = vid then v' else x)) (all_volumes st)"
    by (simp add: all_volumes_def map_concat replace_in_def comp_def)
  moreover have "map_of (map (\<lambda>(k, x). (k, if k = vid then v' else x)) xs) vid = Some v'" if "vid \<in> fst ` set xs" for xs :: "(VolumeId \<times> Volume) list"
    using that by (induction xs) auto
  moreover have "vid \<in> fst ` set (all_volumes st)" using assms(2) by (metis map_of_eq_None_iff option.distinct(1))
  ultimately show ?thesis unfolding put_volume_map [OF assms(1)] by simp
qed

lemma delete_absent:
  assumes ok: "store_ok s A st" and get: "store_GetVolume vid st = Some v" and A: "A vid = Some (ver, B)" "B k = None"
  shows "\<exists>e. DeleteVolumeNeedle vid k st s = (Inl e, st, s)"
proof -
  have d: "distinct (map fst (all_volumes st))" using ok by (simp add: store_ok_def)
  have v: "map_of (all_volumes st) vid = Some v" using get by (simp add: store_GetVolume_map_of)
  have B: "vol_ok s v B" using store_volume [OF ok v] A(1) by (auto simp: shows_volume_def)
  then obtain c db where db: "v_nm v = Some db" and ix: "index_ok c (sb_Version (v_SuperBlock v)) (db_m db) B"
    by (auto simp: vol_ok_def readable_def)
  have "\<exists>e. MemDb_Get db k = Inl e"
    using index_okD [OF ix, of k] A(2) by (cases "db_m db k") (auto simp: MemDb_Get_def entry_ok_def split: if_splits)
  then have "\<exists>e. DeleteNeedle s v k = (Inl e, s, v)" by (auto simp: DeleteNeedle_def db)
  then obtain e where "DeleteNeedle s v k = (Inl e, s, v)" by blast
  then show ?thesis using put_volume_same [OF d v] by (simp add: DeleteVolumeNeedle_def get)
qed

definition copied :: "NeedleItem list \<Rightarrow> NeedleId \<Rightarrow> Needle option" where
  "copied items = map_of (map (\<lambda>it. (it_NeedleId it, copied_needle it)) (filter (\<lambda>it. \<not> it_IsDeleted it) items))"

definition copy_cost :: "NeedleItem list \<Rightarrow> nat" where
  "copy_cost items = (\<Sum>it \<leftarrow> items. 7 + length (needle_encode (copied_needle it) CurrentNeedleVersion))"

lemma write_step:
  assumes ok: "store_ok s A st" and get: "store_GetVolume vid st = Some v" and A: "A vid = Some (ver, B)" and wf: "needle_wf n"
    and fits: "UsedSize s v \<le> 2 ^ 35 - 8" and run: "WriteVolumeNeedle vid n st s = (Inr x, st', s', n')"
  obtains v' where "store_ok s' (A(vid \<mapsto> (ver, B(n_Id n \<mapsto> n)))) st'" "store_GetVolume vid st' = Some v'"
    "UsedSize s' v' \<le> UsedSize s v + 7 + length (needle_encode n ver)"
proof -
  have d: "distinct (map fst (all_volumes st))" using ok by (simp add: store_ok_def)
  have v: "map_of (all_volumes st) vid = Some v" using get by (simp add: store_GetVolume_map_of)
  have B: "vol_ok s v B" "sb_Version (v_SuperBlock v) = ver" using store_volume [OF ok v] A by (auto simp: shows_volume_def)
  obtain v1 n1 where w: "WriteNeedle s v n = (Inr x, s', v1, n1)" and st': "st' = put_volume vid v1 st"
    using run get by (auto simp: WriteVolumeNeedle_def split: prod.splits sum.splits)
  obtain ver' B' where s: "A vid = Some (ver', B')" "store_ok s' (A(vid \<mapsto> (ver', B'(n_Id n \<mapsto> n)))) st'"
    using store_write [OF ok wf _ run] get fits by (metis option.inject)
  have "store_GetVolume vid st' = Some v1" using get_put_volume [OF d v] by (simp add: st' store_GetVolume_map_of)
  then show ?thesis using that s A WriteNeedle_size [OF B(1) wf w] B(2) by auto
qed

lemma copy_items_ok:
  assumes "copy_items send vid srcSize (items, False) processed lastP st s = (Inr p, st', s')"
    and "store_ok s A st" "A vid = Some (CurrentNeedleVersion, B)" "store_GetVolume vid st = Some v" "UsedSize s v + copy_cost items \<le> 2 ^ 35 - 8"
    and "distinct (map it_NeedleId items)" "\<forall>it \<in> set items. B (it_NeedleId it) = None \<and> needle_wf (copied_needle it)"
  shows "store_ok s' (A(vid \<mapsto> (CurrentNeedleVersion, B ++ copied items))) st'"
  using assms
proof (induction items arbitrary: processed lastP st s A B v)
  case Nil
  then have "A(vid \<mapsto> (CurrentNeedleVersion, B)) = A" by auto
  then show ?case using Nil by (simp add: copied_def)
next
  case (Cons it items)
  have rest: "distinct (map it_NeedleId items)" "it_NeedleId it \<notin> it_NeedleId ` set items" using Cons.prems(6) by auto
  have cost: "copy_cost (it # items) = 7 + length (needle_encode (copied_needle it) CurrentNeedleVersion) + copy_cost items"
    by (simp add: copy_cost_def)
  show ?case
  proof (cases "it_IsDeleted it")
    case True
    obtain e where "DeleteVolumeNeedle vid (it_NeedleId it) st s = (Inl e, st, s)"
      using delete_absent [OF Cons.prems(2,4,3)] Cons.prems(7) by auto
    then have "copy_items send vid srcSize (items, False) processed lastP st s = (Inr p, st', s')" using Cons.prems(1) True by simp
    moreover have "copied (it # items) = copied items" using True by (simp add: copied_def)
    ultimately show ?thesis using Cons.IH [OF _ Cons.prems(2,3,4) _ rest(1)] Cons.prems(5,7) cost by simp
  next
    case False
    let ?n = "copied_needle it"
    obtain x st1 s1 n1 pr1 l1 where w: "WriteVolumeNeedle vid ?n st s = (Inr x, st1, s1, n1)"
      and run: "copy_items send vid srcSize (items, False) pr1 l1 st1 s1 = (Inr p, st', s')"
      using Cons.prems(1) False by (auto simp: Let_def split: prod.splits sum.splits if_splits)
    have wf: "needle_wf ?n" and fits: "UsedSize s v \<le> 2 ^ 35 - 8" using Cons.prems(5,7) by auto
    obtain v1 where v1: "store_ok s1 (A(vid \<mapsto> (CurrentNeedleVersion, B(n_Id ?n \<mapsto> ?n)))) st1" "store_GetVolume vid st1 = Some v1"
      "UsedSize s1 v1 \<le> UsedSize s v + 7 + length (needle_encode ?n CurrentNeedleVersion)"
      using write_step [OF Cons.prems(2,4,3) wf fits w] by blast
    have id: "n_Id ?n = it_NeedleId it" by (simp add: copied_needle_plain)
    let ?B = "B(n_Id ?n \<mapsto> ?n)"
    have none: "\<forall>i \<in> set items. ?B (it_NeedleId i) = None \<and> needle_wf (copied_needle i)" using Cons.prems(7) rest(2) id by (auto simp: rev_image_eqI)
    have size: "UsedSize s1 v1 + copy_cost items \<le> 2 ^ 35 - 8" using v1(3) Cons.prems(5) cost by simp
    have "store_ok s' (A(vid \<mapsto> (CurrentNeedleVersion, ?B), vid \<mapsto> (CurrentNeedleVersion, ?B ++ copied items))) st'"
      by (rule Cons.IH [OF run v1(1) _ v1(2) size rest(1) none]) (rule fun_upd_same)
    then have "store_ok s' (A(vid \<mapsto> (CurrentNeedleVersion, ?B ++ copied items))) st'" unfolding fun_upd_upd .
    moreover have "B(n_Id ?n \<mapsto> ?n) ++ copied items = B ++ copied (it # items)"
    proof -
      have "it_NeedleId it \<notin> dom (copied items)" using rest(2) by (auto simp: copied_def dom_map_of_conv_image_fst)
      then show ?thesis using False by (auto simp: copied_def id map_add_def fun_eq_iff split: option.splits)
    qed
    ultimately show ?thesis by argo
  qed
qed

lemma allocated_size:
  assumes ok: "store_ok s A st" and fresh: "A vid = None" and run: "AllocateVolume vid coll ver st s = (Inr (), st', s')"
  obtains v where "store_GetVolume vid st' = Some v" "UsedSize s' v = 8"
proof -
  obtain i v where i: "i < length st" and new: "NewVolume s (dl_directory (st ! i)) coll vid ver = (Inr v, s')"
    and st': "st' = st[i := AddVolumeObject v (st ! i)]"
    using run best_location_range by (auto simp: AllocateVolume_def split: option.splits prod.splits sum.splits)
  let ?dl = "st ! i"
  have mem: "?dl \<in> set st" using i by simp
  have "vid \<notin> fst ` set (all_volumes st)" using ok fresh unfolding store_ok_def by (metis domIff)
  then have abs: "vid \<notin> fst ` set (dl_volumes ?dl)" using mem by (auto simp: all_volumes_def)
  have loc: "tidy s (dl_directory ?dl) (fst ` set (dl_volumes ?dl))" using ok mem by (simp add: store_ok_def location_ok_def)
  have files: "fs_files s (DataFileName (dl_directory ?dl) vid) = None" "fs_files s (IndexFileName (dl_directory ?dl) vid) = None"
    using tidy_fresh [OF loc abs] by blast+
  have v: "v_id v = vid" "UsedSize s' v = 8" using NewVolume_fresh [OF files NewVolume_fresh_room [OF new files(1)], of coll ver] new by auto
  have "dl_volumes (st' ! i) = dl_volumes ?dl @ [(vid, v)]" using i abs by (simp add: st' AddVolumeObject_def v(1) update_absent)
  moreover have "st' ! i \<in> set st'" using i by (intro nth_mem) (simp add: st')
  ultimately have "(vid, v) \<in> set (all_volumes st')" unfolding all_volumes_def by force
  moreover have "distinct (map fst (all_volumes st'))" using store_allocate [OF ok fresh run] by (simp add: store_ok_def)
  ultimately have "store_GetVolume vid st' = Some v" by (simp add: store_GetVolume_map_of)
  then show ?thesis using that v(2) by blast
qed

section \<open>Source to target\<close>

lemma map_of_keyed:
  "map_of (map (\<lambda>e. (fst e, g (fst e))) (filter (\<lambda>e. P (fst e)) es)) k = (if k \<in> fst ` set es \<and> P k then Some (g k) else None)"
  by (induction es) auto

lemma copied_live:
  assumes "fst ` set es = dom B"
  shows "copied (map (\<lambda>e. needle_item e (needle_view (the (B (fst e))) ver)) es) k =
    (case B k of
       None \<Rightarrow> None
     | Some n \<Rightarrow> if n_DataSize n = 0 then None else Some (plain_needle k (n_Cookie n) (n_Data n) (GetName n) (GetMime n)))"
proof -
  let ?n = "\<lambda>k. the (B k)"
  have "copied (map (\<lambda>e. needle_item e (needle_view (the (B (fst e))) ver)) es) =
      map_of (map (\<lambda>e. (fst e, plain_needle (fst e) (n_Cookie (?n (fst e))) (n_Data (?n (fst e))) (GetName (?n (fst e))) (GetMime (?n (fst e)))))
        (filter (\<lambda>e. n_DataSize (?n (fst e)) \<noteq> 0) es))"
    by (simp add: copied_def filter_map comp_def needle_item_def copied_needle_plain Needle_IsDeleted_def)
  then show ?thesis
    using assms map_of_keyed [of "\<lambda>k. plain_needle k (n_Cookie (?n k)) (n_Data (?n k)) (GetName (?n k)) (GetMime (?n k))" "\<lambda>k. n_DataSize (?n k) \<noteq> 0" es k]
    by (auto split: option.splits)
qed

text \<open>C13: A volume copied from one server to another reads the same there. When the source sends the needles of its
  volume, every needle is sent without an error, in whatever order its index is walked; when the target's copy succeeds,
  a file id of that volume reads on the target exactly when it reads on the source with a non-empty blob, and what it
  reads has the source's id, cookie, data, name and mime type; the file ids of the target's other volumes read as
  before. The hypotheses: both stores are sound, the blobs are within the size of one needle and the copy is within the
  largest volume.\<close>

theorem volume_copied:
  assumes src: "vs_store src = Some sst" "store_ok (vs_fs src) A sst" "store_GetVolume vid sst = Some v" "v_nm v = Some db"
    and order: "distinct order" "dom (db_m db) \<subseteq> set order"
    and tgt: "vs_store tgt = Some tst" "store_ok (vs_fs tgt) A' tst"
    and sent: "ReadAllNeedles order (\<lambda>_. True) vid src = (items, res)"
    and size: "\<forall>it \<in> set items. length (it_Data it) + 600 < 2 ^ 32" "copy_cost items \<le> 2 ^ 35 - 16"
    and copy: "VolumeCopy walk send srcSize (Some (items, False)) vid coll node tgt = (Inr (), tgt')"
  shows "res = Inr () \<and>
    (\<exists>tst'. vs_store tgt' = Some tst' \<and>
      (\<forall>w fid m. ReadVolumeNeedle w fid tst' (vs_fs tgt') = Inr m \<longleftrightarrow>
        (if w = vid
         then \<exists>n. ReadVolumeNeedle vid fid sst (vs_fs src) = Inr n \<and> n_DataSize n \<noteq> 0 \<and>
                m = needle_view (plain_needle (fid_NeedleId fid) (fid_Cookie fid) (n_Data n) (GetName n) (GetMime n)) CurrentNeedleVersion
         else ReadVolumeNeedle w fid tst (vs_fs tgt) = Inr m)))"
proof -
  let ?es = "SnapshotLiveNeedleEntries order v"
  have mo: "map_of (all_volumes sst) vid = Some v" using src(3) by (simp add: store_GetVolume_map_of)
  obtain dl where "dl \<in> set sst" "(vid, v) \<in> set (dl_volumes dl)" and sh: "shows_volume (vs_fs src) A (dl_directory dl) (vid, v)"
    by (rule store_volume [OF src(2) mo])
  from sh obtain ver B where B: "A vid = Some (ver, B)" "vol_ok (vs_fs src) v B" "sb_Version (v_SuperBlock v) = ver" by (auto simp: shows_volume_def)
  note es = snapshot_entries [OF B(2) src(4) order]
  have rd: "readable (vs_fs src) v B" using B(2) by (simp add: vol_ok_def)
  have "\<forall>e \<in> set ?es. \<exists>n. B (fst e) = Some n" using es(2) by auto
  then have items: "items = map (\<lambda>e. needle_item e (needle_view (the (B (fst e))) ver)) ?es" "res = Inr ()"
    using sent send_all [OF _ rd, of ?es] by (simp_all add: ReadAllNeedles_def src(1,3) B(3))
  have absent: "store_GetVolume vid tst = None" using copy tgt(1) by (auto simp: VolumeCopy_def split: if_splits)
  then have fresh: "A' vid = None" using tgt(2) unfolding store_ok_def store_GetVolume_map_of by (metis domIff map_of_eq_None_iff)
  obtain p st1 s1 tst' s' where alloc: "AllocateVolume vid coll CurrentNeedleVersion tst (vs_fs tgt) = (Inr (), st1, s1)"
    and loop: "copy_items send vid srcSize (items, False) 0 0 st1 s1 = (Inr p, tst', s')"
    and tgt': "vs_store tgt' = Some tst'" "vs_fs tgt' = s'"
    using copy tgt(1) by (auto simp: VolumeCopy_def Let_def split: if_splits sum.splits prod.splits)
  obtain v1 where v1: "store_GetVolume vid st1 = Some v1" "UsedSize s1 v1 = 8" by (rule allocated_size [OF tgt(2) fresh alloc])
  have distinct: "distinct (map it_NeedleId items)" using es(1) by (simp add: items(1) comp_def needle_item_def)
  have wf: "\<forall>it \<in> set items. (\<lambda>_. None) (it_NeedleId it) = None \<and> needle_wf (copied_needle it)" using size(1) plain_wf by (simp add: copied_needle_plain)
  have "store_ok s' (A'(vid \<mapsto> (CurrentNeedleVersion, \<lambda>_. None), vid \<mapsto> (CurrentNeedleVersion, (\<lambda>_. None) ++ copied items))) tst'"
    by (rule copy_items_ok [OF loop store_allocate [OF tgt(2) fresh alloc] _ v1(1) _ distinct wf]) (use size(2) v1(2) in simp_all)
  then have ok': "store_ok s' (A'(vid \<mapsto> (CurrentNeedleVersion, copied items))) tst'" by simp
  have "ReadVolumeNeedle w fid tst' s' = Inr m \<longleftrightarrow>
      (if w = vid
       then \<exists>n. ReadVolumeNeedle vid fid sst (vs_fs src) = Inr n \<and> n_DataSize n \<noteq> 0 \<and>
              m = needle_view (plain_needle (fid_NeedleId fid) (fid_Cookie fid) (n_Data n) (GetName n) (GetMime n)) CurrentNeedleVersion
       else ReadVolumeNeedle w fid tst (vs_fs tgt) = Inr m)" for w fid m
    using copied_live [OF es(2), of ver "fid_NeedleId fid"]
    by (auto simp: store_read [OF ok'] store_read [OF tgt(2)] store_read [OF src(2)] B(1) items(1) split: option.splits if_splits)
  then show ?thesis using items(2) tgt' by auto
qed

text \<open>A source whose volume holds one blob, and an empty target.\<close>

lemma sample_location_put:
  "put_volume 7 v' [sample_location\<lparr>dl_volumes := [(7, v)]\<rparr>] = [sample_location\<lparr>dl_volumes := [(7, v')]\<rparr>]"
  by (simp add: dl_GetVolume_def sample_location_def)

lemma sample_location_write:
  assumes "WriteNeedle s v n = (Inr x, s', v', n')"
  shows "WriteVolumeNeedle 7 n [sample_location\<lparr>dl_volumes := [(7, v)]\<rparr>] s = (Inr x, [sample_location\<lparr>dl_volumes := [(7, v')]\<rparr>], s', n')"
proof -
  have get: "store_GetVolume 7 [sample_location\<lparr>dl_volumes := [(7, v)]\<rparr>] = Some v" by (simp add: dl_GetVolume_def)
  show ?thesis unfolding WriteVolumeNeedle_def get option.case assms prod.case sum.case sample_location_put ..
qed

lemma sample_source:
  assumes v: "store_ok s [7 \<mapsto> (3, \<lambda>_. None)] [sample_location\<lparr>dl_volumes := [(7, v)]\<rparr>]" "UsedSize s v \<le> 2 ^ 35 - 8"
    and w: "WriteNeedle s v sample_blob = (Inr x, s', v', n')"
  shows "store_ok s' [7 \<mapsto> (3, [1 \<mapsto> sample_blob])] [sample_location\<lparr>dl_volumes := [(7, v')]\<rparr>]"
proof -
  have wf: "needle_wf sample_blob" unfolding sample_blob_def by (rule dated_wf) simp_all
  have get: "store_GetVolume 7 [sample_location\<lparr>dl_volumes := [(7, v)]\<rparr>] = Some v" by (simp add: dl_GetVolume_def)
  have A: "[7 \<mapsto> (3, \<lambda>_. None)] 7 = Some (3 :: NeedleVersion, (\<lambda>_. None) :: NeedleId \<Rightarrow> Needle option)" by simp
  obtain v2 where "store_ok s' ([7 \<mapsto> (3, \<lambda>_. None), 7 \<mapsto> (3, [n_Id sample_blob \<mapsto> sample_blob])]) [sample_location\<lparr>dl_volumes := [(7, v')]\<rparr>]"
    "store_GetVolume 7 [sample_location\<lparr>dl_volumes := [(7, v')]\<rparr>] = Some v2"
    "UsedSize s' v2 \<le> UsedSize s v + 7 + length (needle_encode sample_blob 3)"
    by (rule write_step [OF v(1) get A wf v(2) sample_location_write [OF w]])
  moreover have "n_Id sample_blob = 1" by (simp add: sample_blob_def)
  ultimately show ?thesis unfolding fun_upd_upd by metis
qed

definition copy_of_blob :: Needle where
  "copy_of_blob = plain_needle 1 9 [1, 2, 3] [] (to_bytes octet_stream)"

lemma copy_of_blob_space: "write_space copy_of_blob 3 \<le> 900" "length (needle_encode copy_of_blob 3) \<le> 900" "needle_wf copy_of_blob"
proof -
  have "length (bodyBytes copy_of_blob) \<le> 100"
    by (simp add: copy_of_blob_def plain_needle_def Needle_zero_def flag_simps length_bodyBytes octet_stream_def)
  then show "write_space copy_of_blob 3 \<le> 900" "length (needle_encode copy_of_blob 3) \<le> 900"
    using NeedleAlignPadding_less [of "length (needle_raw copy_of_blob 3)"] footerSize_bounds [of 3]
    by (simp_all add: write_space_def needle_encode_def length_needle_raw)
  show "needle_wf copy_of_blob" unfolding copy_of_blob_def by (rule plain_wf) simp
qed

lemma dated_name: "GetName (dated sec ns (plain_needle i c d nm mi)) = take 255 nm"
  by (simp add: dated_def SetLastModified_def plain_needle_def GetName_def flag_simps Needle_zero_def)

lemma sample_volume_ok:
  assumes ok: "store_ok s [7 \<mapsto> (3, B)] [sample_location\<lparr>dl_volumes := [(7, v)]\<rparr>]"
  shows "vol_ok s v B \<and> sb_Version (v_SuperBlock v) = 3"
proof -
  let ?st = "[sample_location\<lparr>dl_volumes := [(7, v)]\<rparr>]"
  have "store_GetVolume 7 ?st = Some v" by (simp add: dl_GetVolume_def)
  then have mo: "map_of (all_volumes ?st) 7 = Some v" by (simp only: store_GetVolume_map_of)
  obtain dl where "dl \<in> set ?st" "(7, v) \<in> set (dl_volumes dl)" and "shows_volume s [7 \<mapsto> (3, B)] (dl_directory dl) (7, v)"
    by (rule store_volume [OF ok mo])
  then show ?thesis by (auto simp: shows_volume_def)
qed

lemma sample_sent:
  assumes ok: "store_ok s [7 \<mapsto> (3, [1 \<mapsto> sample_blob])] [sample_location\<lparr>dl_volumes := [(7, v)]\<rparr>]" and nm: "v_nm v = Some db"
    and order: "distinct order" "dom (db_m db) \<subseteq> set order"
  obtains it where "ReadAllNeedles order (\<lambda>_. True) 7 (sample_server v s) = ([it], Inr ())" "copied_needle it = copy_of_blob"
    "\<not> it_IsDeleted it" "it_Data it = [1, 2, 3]"
proof -
  let ?st = "[sample_location\<lparr>dl_volumes := [(7, v)]\<rparr>]" and ?B = "[1 \<mapsto> sample_blob]"
  have get: "store_GetVolume 7 ?st = Some v" by (simp add: dl_GetVolume_def)
  have B: "vol_ok s v ?B" "sb_Version (v_SuperBlock v) = 3" using sample_volume_ok [OF ok] by simp_all
  note es = snapshot_entries [OF B(1) nm order]
  have "length (SnapshotLiveNeedleEntries order v) = card (fst ` set (SnapshotLiveNeedleEntries order v))"
    using distinct_card [OF es(1)] by simp
  then have "length (SnapshotLiveNeedleEntries order v) = 1" using es(2) by simp
  then obtain e where e: "SnapshotLiveNeedleEntries order v = [e]" by (auto simp: length_Suc_conv)
  then have "fst e = 1" using es(2) by simp
  let ?it = "needle_item e (needle_view sample_blob 3)"
  have rd: "readable s v ?B" using B(1) by (simp add: vol_ok_def)
  have "send_needles (\<lambda>_. True) s v [e] = ([?it], Inr ())" using send_all [OF _ rd, of "[e]"] \<open>fst e = 1\<close> B(2) by simp
  then have "ReadAllNeedles order (\<lambda>_. True) 7 (sample_server v s) = ([?it], Inr ())"
    by (simp add: ReadAllNeedles_def sample_server_def e get del: store_GetVolume.simps send_needles.simps)
  moreover have mime: "take 255 (to_bytes octet_stream) = to_bytes octet_stream" by (simp add: octet_stream_def to_bytes_def)
  then have "copied_needle ?it = copy_of_blob" "\<not> it_IsDeleted ?it" "it_Data ?it = [1, 2, 3]"
    using \<open>fst e = 1\<close> mime
    by (simp_all add: copied_needle_plain copy_of_blob_def needle_item_def Needle_IsDeleted_def sample_blob_def dated_name)
  ultimately show ?thesis using that by blast
qed

lemma volume_copied_witness:
  "\<exists>order items src tgt tgt' st m. ReadAllNeedles order (\<lambda>_. True) 7 src = (items, Inr ()) \<and>
     VolumeCopy (\<lambda>_ _. []) (\<lambda>_. True) 0 (Some (items, False)) 7 [] ''node'' tgt = (Inr (), tgt') \<and>
     vs_store tgt' = Some st \<and> ReadVolumeNeedle 7 \<lparr>fid_VolumeId = 7, fid_NeedleId = 1, fid_Cookie = 9\<rparr> st (vs_fs tgt') = Inr m \<and> n_Data m = [1, 2, 3]"
proof -
  let ?fid = "\<lparr>fid_VolumeId = 7, fid_NeedleId = 1, fid_Cookie = 9\<rparr>"
  obtain s v where v: "store_ok s [7 \<mapsto> (3, \<lambda>_. None)] [sample_location\<lparr>dl_volumes := [(7, v)]\<rparr>]" "UsedSize s v \<le> 2 ^ 35 - 8" "v_id v = 7"
    and fits: "\<forall>n. needle_wf n \<longrightarrow> write_space n 3 \<le> 900 \<longrightarrow> (\<exists>x s' v'. WriteNeedle s v n = (Inr x, s', v', needle_stored n 3))"
    and alloc: "AllocateVolume 7 [] 3 [sample_location] sample_fs = (Inr (), [sample_location\<lparr>dl_volumes := [(7, v)]\<rparr>], s)"
    by (rule sample_server_ok)
  have wf: "needle_wf sample_blob" unfolding sample_blob_def by (rule dated_wf) simp_all
  then obtain x s1 v1 where w: "WriteNeedle s v sample_blob = (Inr x, s1, v1, needle_stored sample_blob 3)" using fits sample_blob_space by blast
  note ok = sample_source [OF v(1,2) w]
  let ?src = "sample_server v1 s1" and ?sst = "[sample_location\<lparr>dl_volumes := [(7, v1)]\<rparr>]"
  let ?tgt = "?src\<lparr>vs_store := Some [sample_location], vs_fs := sample_fs\<rparr>"
  have get: "store_GetVolume 7 ?sst = Some v1" by (simp add: dl_GetVolume_def)
  obtain db where db: "v_nm v1 = Some db" using sample_volume_ok [OF ok] by (auto simp: vol_ok_def readable_def)
  obtain order where order: "set order = (UNIV :: NeedleId set)" "distinct order" using finite_distinct_list [OF finite [of UNIV]] by blast
  then have cover: "dom (db_m db) \<subseteq> set order" by simp
  obtain it where it: "ReadAllNeedles order (\<lambda>_. True) 7 ?src = ([it], Inr ())" "copied_needle it = copy_of_blob" "\<not> it_IsDeleted it" "it_Data it = [1, 2, 3]"
    by (rule sample_sent [OF ok db order(2) cover])
  obtain y s2 v2 where w2: "WriteNeedle s v copy_of_blob = (Inr y, s2, v2, needle_stored copy_of_blob 3)" using fits copy_of_blob_space by blast
  have "\<exists>p. copy_items (\<lambda>_. True) 7 0 ([it], False) 0 0 [sample_location\<lparr>dl_volumes := [(7, v)]\<rparr>] s = (Inr p, [sample_location\<lparr>dl_volumes := [(7, v2)]\<rparr>], s2)"
    using it(2,3) sample_location_write [OF w2] by (simp add: Let_def)
  moreover have none: "store_GetVolume 7 [sample_location] = None" by (simp add: dl_GetVolume_def sample_location_def)
  ultimately obtain tgt' where copy: "VolumeCopy (\<lambda>_ _. []) (\<lambda>_. True) 0 (Some ([it], False)) 7 [] ''node'' ?tgt = (Inr (), tgt')"
    using alloc none by (auto simp: VolumeCopy_def CurrentNeedleVersion_def NeedleVersionV3_def simp del: store_GetVolume.simps copy_items.simps)
  have sst: "vs_store ?src = Some ?sst" "store_ok (vs_fs ?src) [7 \<mapsto> (3, [1 \<mapsto> sample_blob])] ?sst" using ok by (simp_all add: sample_server_def)
  have tst: "vs_store ?tgt = Some [sample_location]" "store_ok (vs_fs ?tgt) Map.empty [sample_location]" using sample_store_ok by simp_all
  have cost: "copy_cost [it] \<le> 2 ^ 35 - 16" using it(2) copy_of_blob_space(2) by (simp add: copy_cost_def CurrentNeedleVersion_def NeedleVersionV3_def)
  obtain st where st: "vs_store tgt' = Some st" and reads: "\<forall>w fid m. ReadVolumeNeedle w fid st (vs_fs tgt') = Inr m \<longleftrightarrow>
        (if w = 7
         then \<exists>n. ReadVolumeNeedle 7 fid ?sst (vs_fs ?src) = Inr n \<and> n_DataSize n \<noteq> 0 \<and>
                m = needle_view (plain_needle (fid_NeedleId fid) (fid_Cookie fid) (n_Data n) (GetName n) (GetMime n)) CurrentNeedleVersion
         else ReadVolumeNeedle w fid [sample_location] (vs_fs ?tgt) = Inr m)"
    using volume_copied [OF sst get db order(2) cover tst it(1) _ cost copy] it(4) by auto
  have "ReadVolumeNeedle 7 ?fid ?sst (vs_fs ?src) = Inr (needle_view sample_blob 3)" by (simp add: store_read [OF sst(2)] sample_blob_def)
  then have "\<exists>m. ReadVolumeNeedle 7 ?fid st (vs_fs tgt') = Inr m \<and> n_Data m = [1, 2, 3]"
    using reads by (simp add: sample_blob_def)
  then show ?thesis using it(1) copy st by blast
qed

end
