(* ===== verification/GoPath.thy ===== *)
theory GoPath
  imports GoPrelude
begin

text \<open>
  Slash-separated paths: joining and splitting segments, and \<open>path.Clean\<close> of Go's library, with the
  canonical absolute paths that it yields. The repository's own helpers are in src/goblob/util/full_path.go.
\<close>

section \<open>Segments\<close>

fun join_segs :: "string list \<Rightarrow> string" where
  "join_segs [] = []"
| "join_segs [s] = s"
| "join_segs (s # t # ss) = s @ ''/'' @ join_segs (t # ss)"

definition path_of :: "string list \<Rightarrow> string" where
  "path_of segs = ''/'' @ join_segs segs"

definition seg_ok :: "string \<Rightarrow> bool" where
  "seg_ok s \<longleftrightarrow> s \<noteq> [] \<and> s \<noteq> ''.'' \<and> s \<noteq> ''..'' \<and> CHR ''/'' \<notin> set s"

text \<open>\<open>path.Clean\<close>: empty and dot segments vanish, a dot-dot segment removes the one before it; at the
  root it vanishes and elsewhere it stays.\<close>

fun clean_segs :: "bool \<Rightarrow> string list \<Rightarrow> string list \<Rightarrow> string list" where
  "clean_segs rooted acc [] = rev acc"
| "clean_segs rooted acc (s # ss) =
     (if s = [] \<or> s = ''.'' then clean_segs rooted acc ss
      else if s = ''..'' then
        (case acc of
           [] \<Rightarrow> if rooted then clean_segs rooted [] ss else clean_segs rooted [s] ss
         | a # as \<Rightarrow> if a = ''..'' then clean_segs rooted (s # acc) ss else clean_segs rooted as ss)
      else clean_segs rooted (s # acc) ss)"

definition path_Clean :: "string \<Rightarrow> string" where
  "path_Clean p =
     (if p = [] then ''.''
      else let rooted = (hd p = CHR ''/'');
               out = join_segs (clean_segs rooted [] (str_split (CHR ''/'') p))
           in if rooted then ''/'' @ out else if out = [] then ''.'' else out)"

definition path_Join :: "string \<Rightarrow> string \<Rightarrow> string" where
  "path_Join a b =
     (if a = [] \<and> b = [] then [] else if a = [] then path_Clean b else if b = [] then path_Clean a else path_Clean (a @ ''/'' @ b))"

text \<open>The directory part of \<open>path.Dir\<close> and \<open>path.Base\<close>.\<close>

definition path_Dir :: "string \<Rightarrow> string" where
  "path_Dir p = path_Clean (case str_last_index (CHR ''/'') p of None \<Rightarrow> [] | Some i \<Rightarrow> take (i + 1) p)"

definition path_Base :: "string \<Rightarrow> string" where
  "path_Base p =
     (if p = [] then ''.''
      else let q = rev (dropWhile (\<lambda>c. c = CHR ''/'') (rev p));
               b = (case str_last_index (CHR ''/'') q of None \<Rightarrow> q | Some i \<Rightarrow> drop (i + 1) q)
           in if b = [] then ''/'' else b)"

section \<open>The helpers of the repository\<close>

definition FullPath_Dir :: "string \<Rightarrow> string" where
  "FullPath_Dir p = (let dir = path_Dir p in if dir = ''.'' then ''/'' else dir)"

definition FullPath_Name :: "string \<Rightarrow> string" where
  "FullPath_Name p = path_Base p"

definition FullPath_Child :: "string \<Rightarrow> string \<Rightarrow> string" where
  "FullPath_Child p name = path_Join p name"

definition NewFullPath :: "string \<Rightarrow> string" where
  "NewFullPath s = (if s = [] then ''/'' else if hd s \<noteq> CHR ''/'' then ''/'' @ s else s)"

section \<open>Canonical paths\<close>

lemma str_split_not_Nil [simp]: "str_split c xs \<noteq> []"
  by (induction c xs rule: str_split.induct) (auto split: list.splits)

lemma str_split_no_sep: "s \<in> set (str_split c xs) \<Longrightarrow> c \<notin> set s"
proof (induction c xs arbitrary: s rule: str_split.induct)
  case (2 c x xs)
  then show ?case by (cases "str_split c xs") (auto split: if_splits)
qed simp

lemma join_segs_Cons: "ss \<noteq> [] \<Longrightarrow> join_segs (s # ss) = s @ CHR ''/'' # join_segs ss"
  by (cases ss) simp_all

lemma join_segs_snoc: "join_segs (ss @ [s]) = (if ss = [] then s else join_segs ss @ CHR ''/'' # s)"
  by (induction ss rule: join_segs.induct) simp_all

lemma split_join: "ss \<noteq> [] \<Longrightarrow> \<forall>s \<in> set ss. CHR ''/'' \<notin> set s \<Longrightarrow> str_split (CHR ''/'') (join_segs ss) = ss"
  by (induction ss rule: join_segs.induct) simp_all

lemma clean_segs_ok:
  "\<forall>s \<in> set acc. seg_ok s \<Longrightarrow> \<forall>s \<in> set ss. CHR ''/'' \<notin> set s \<Longrightarrow> \<forall>s \<in> set (clean_segs True acc ss). seg_ok s"
proof (induction ss arbitrary: acc)
  case (Cons s ss)
  have rest: "\<forall>s \<in> set ss. CHR ''/'' \<notin> set s" using Cons.prems(2) by auto
  consider (skip) "s = [] \<or> s = ''.''" | (up) "s = ''..''" | (plain) "seg_ok s"
    using Cons.prems(2) by (auto simp: seg_ok_def)
  then show ?case
  proof cases
    case skip
    then have "clean_segs True acc (s # ss) = clean_segs True acc ss" by (simp only: clean_segs.simps if_True)
    then show ?thesis using Cons.IH [OF Cons.prems(1) rest] by (simp only:)
  next
    case up
    have "acc \<noteq> [] \<Longrightarrow> hd acc \<noteq> ''..''" using Cons.prems(1) by (cases acc) (simp_all add: seg_ok_def)
    then have "clean_segs True acc (s # ss) = clean_segs True (tl acc) ss" using up by (cases acc) auto
    moreover have "\<forall>s \<in> set (tl acc). seg_ok s" using Cons.prems(1) by (cases acc) simp_all
    ultimately show ?thesis using Cons.IH [OF _ rest] by (simp only:)
  next
    case plain
    then have "clean_segs True acc (s # ss) = clean_segs True (s # acc) ss" by (simp add: seg_ok_def)
    moreover have "\<forall>s \<in> set (s # acc). seg_ok s" using Cons.prems(1) plain by simp
    ultimately show ?thesis using Cons.IH [OF _ rest] by (simp only:)
  qed
qed simp

lemma clean_segs_id: "\<forall>s \<in> set ss. seg_ok s \<Longrightarrow> clean_segs r acc ss = rev acc @ ss"
  by (induction ss arbitrary: acc) (auto simp: seg_ok_def)

definition canonical :: "string \<Rightarrow> bool" where
  "canonical p \<longleftrightarrow> (\<exists>segs. (\<forall>s \<in> set segs. seg_ok s) \<and> p = path_of segs)"

lemma Clean_canonical:
  assumes "p \<noteq> []" "hd p = CHR ''/''"
  shows "canonical (path_Clean p)"
proof -
  have "\<forall>s \<in> set (clean_segs True [] (str_split (CHR ''/'') p)). seg_ok s"
    using clean_segs_ok [of "[]" "str_split (CHR ''/'') p"] str_split_no_sep by auto
  then show ?thesis using assms by (auto simp: canonical_def path_Clean_def path_of_def Let_def)
qed

lemma split_path_of: "\<forall>s \<in> set segs. seg_ok s \<Longrightarrow> str_split (CHR ''/'') (path_of segs) = (if segs = [] then [[], []] else [] # segs)"
  by (cases "segs = []") (auto simp: path_of_def split_join seg_ok_def)

lemma Clean_path_of [simp]:
  assumes "\<forall>s \<in> set segs. seg_ok s"
  shows "path_Clean (path_of segs) = path_of segs"
proof -
  have "clean_segs True [] (str_split (CHR ''/'') (path_of segs)) = segs"
    using assms by (simp add: split_path_of clean_segs_id)
  moreover have "path_of segs = CHR ''/'' # join_segs segs" by (simp add: path_of_def)
  ultimately show ?thesis by (simp add: path_Clean_def)
qed

lemma path_of_inj:
  assumes "\<forall>s \<in> set xs. seg_ok s" "\<forall>s \<in> set ys. seg_ok s" "path_of xs = path_of ys"
  shows "xs = ys"
proof -
  have "\<not> seg_ok []" by (simp add: seg_ok_def)
  moreover have "(if xs = [] then [[], []] else [] # xs) = (if ys = [] then [[], []] else [] # ys)"
    using split_path_of [OF assms(1)] split_path_of [OF assms(2)] assms(3) by (simp only:)
  ultimately show ?thesis using assms(1,2) by (cases "xs = []"; cases "ys = []") auto
qed

lemma path_of_snoc: "path_of (segs @ [s]) = (if segs = [] then [] else path_of segs) @ CHR ''/'' # s"
  by (simp add: path_of_def join_segs_snoc)

lemma path_of_Nil [simp]: "path_of [] = ''/''"
  by (simp add: path_of_def)

lemma path_of_root: "\<forall>s \<in> set segs. seg_ok s \<Longrightarrow> path_of segs = ''/'' \<longleftrightarrow> segs = []"
  using path_of_inj [of segs "[]"] by auto

lemma Clean_idem: "canonical p \<Longrightarrow> path_Clean p = p"
  by (auto simp: canonical_def)

text \<open>A plain name below a canonical directory.\<close>

lemma Clean_child:
  assumes "\<forall>s \<in> set segs. seg_ok s" "seg_ok n"
  shows "path_Clean (path_of segs @ ''/'' @ n) = path_of (segs @ [n])"
proof -
  have ok: "\<forall>s \<in> set (segs @ [n]). seg_ok s" using assms by auto
  have "str_split (CHR ''/'') (path_of segs @ CHR ''/'' # n) = (if segs = [] then [[], [], n] else [] # segs @ [n])"
  proof (cases "segs = []")
    case True
    then show ?thesis using assms by (simp add: seg_ok_def)
  next
    case False
    then have "path_of segs @ CHR ''/'' # n = path_of (segs @ [n])" by (simp add: path_of_snoc)
    then show ?thesis using split_path_of [OF ok] False by simp
  qed
  then have "clean_segs True [] (str_split (CHR ''/'') (path_of segs @ CHR ''/'' # n)) = segs @ [n]"
    using ok assms by (cases "segs = []") (simp_all add: clean_segs_id, simp_all add: seg_ok_def)
  then show ?thesis by (simp add: path_Clean_def path_of_def Let_def)
qed

lemma hd_path_of [simp]: "hd (path_of segs) = CHR ''/''" "path_of segs \<noteq> []"
  by (simp_all add: path_of_def)

end
