(* ===== verification/FilerStore.thy ===== *)
theory FilerStore
  imports MasterFsm GoPath "HOL-Library.List_Lexorder" "HOL-Library.Char_ord"
begin

text \<open>
  The metadata store of the filer: paths and entries (src/goblob/filer/entry.go), the store interface
  (src/goblob/filer/filer_store.go) as a record of operations with the locale of what its clients rely
  on, and the in-memory store (src/goblob/filer/memory/memory_store.go). Entries are values, so the deep
  copies the store makes are the entries themselves. A value of the key-value part is a JSON document,
  or bytes that are none.
\<close>

section \<open>Paths and entries\<close>

type_synonym FullPath = string

definition DirAndName :: "FullPath \<Rightarrow> FullPath \<times> string" where
  "DirAndName s =
     (case str_last_index (CHR ''/'') s of
        None \<Rightarrow> (''/'', s)
      | Some i \<Rightarrow> if i = 0 then (''/'', drop 1 s) else (take i s, drop (i + 1) s))"

record Attr =
  at_Mode :: u32
  at_Uid :: u32
  at_Gid :: u32
  at_Mtime :: int
  at_Crtime :: int
  at_Mime :: string
  at_Replication :: string
  at_Collection :: string
  at_TtlSec :: int
  at_DiskType :: string
  at_FileSize :: u64
  at_INode :: u64
  at_SymlinkTarget :: string

record FileChunk =
  ck_FileId :: string
  ck_Offset :: int
  ck_Size :: int
  ck_ModifiedTsNs :: int
  ck_ETag :: string
  ck_IsCompressed :: bool

record RemoteEntry =
  re_StorageName :: string
  re_Key :: string
  re_ETag :: string
  re_StoredName :: string

record Entry =
  e_FullPath :: FullPath
  e_Attr :: Attr
  e_Chunks :: "FileChunk option list"
  e_Content :: bytes
  e_Extended :: "string \<Rightarrow> bytes option"
  e_HardLinkId :: bytes
  e_HardLinkCounter :: int
  e_Remote :: "RemoteEntry option"

definition ModeDir :: u32 where "ModeDir = push_bit 31 1"

definition IsDirectory :: "Entry \<Rightarrow> bool" where
  "IsDirectory e \<longleftrightarrow> and (at_Mode (e_Attr e)) ModeDir \<noteq> 0"

section \<open>The store interface\<close>

datatype store_error = ErrNotFound | ErrStore string

datatype kv_value = KvJson json | KvBytes bytes

text \<open>The callback of a listing carries a state of its own.\<close>

type_synonym ('s, 'a) lister =
  "'s \<Rightarrow> FullPath \<Rightarrow> string \<Rightarrow> bool \<Rightarrow> int \<Rightarrow> string \<Rightarrow> (Entry \<Rightarrow> 'a \<Rightarrow> bool \<times> 'a) \<Rightarrow> 'a \<Rightarrow> (store_error + string) \<times> 'a"

record 's FilerStore =
  InsertEntry :: "'s \<Rightarrow> Entry \<Rightarrow> (store_error + unit) \<times> 's"
  UpdateEntry :: "'s \<Rightarrow> Entry \<Rightarrow> (store_error + unit) \<times> 's"
  FindEntry :: "'s \<Rightarrow> FullPath \<Rightarrow> store_error + Entry"
  DeleteEntry :: "'s \<Rightarrow> FullPath \<Rightarrow> (store_error + unit) \<times> 's"
  DeleteFolderChildren :: "'s \<Rightarrow> FullPath \<Rightarrow> (store_error + unit) \<times> 's"
  ListEntries :: "('s, Entry list) lister"
  KvPut :: "'s \<Rightarrow> string \<Rightarrow> kv_value \<Rightarrow> (store_error + unit) \<times> 's"
  KvGet :: "'s \<Rightarrow> string \<Rightarrow> store_error + kv_value"
  KvDelete :: "'s \<Rightarrow> string \<Rightarrow> (store_error + unit) \<times> 's"

section \<open>The memory store\<close>

record Store =
  ms_name :: string
  ms_entries :: "string \<Rightarrow> Entry option"
  ms_kv :: "string \<Rightarrow> kv_value option"

definition mem_New :: "string \<Rightarrow> Store" where
  "mem_New name = \<lparr>ms_name = (if TrimSpace name = [] then ''memory'' else name), ms_entries = (\<lambda>_. None), ms_kv = (\<lambda>_. None)\<rparr>"

definition mem_upsert :: "Store \<Rightarrow> Entry \<Rightarrow> (store_error + unit) \<times> Store" where
  "mem_upsert s e = (Inr (), s\<lparr>ms_entries := (ms_entries s)(e_FullPath e \<mapsto> e)\<rparr>)"

definition mem_FindEntry :: "Store \<Rightarrow> FullPath \<Rightarrow> store_error + Entry" where
  "mem_FindEntry s fp = (case ms_entries s fp of None \<Rightarrow> Inl ErrNotFound | Some e \<Rightarrow> Inr e)"

definition mem_DeleteEntry :: "Store \<Rightarrow> FullPath \<Rightarrow> (store_error + unit) \<times> Store" where
  "mem_DeleteEntry s fp = (Inr (), s\<lparr>ms_entries := (ms_entries s)(fp := None)\<rparr>)"

definition HasPrefix :: "string \<Rightarrow> string \<Rightarrow> bool" where
  "HasPrefix s p \<longleftrightarrow> length p \<le> length s \<and> take (length p) s = p"

definition HasSuffix :: "string \<Rightarrow> string \<Rightarrow> bool" where
  "HasSuffix s p \<longleftrightarrow> length p \<le> length s \<and> drop (length s - length p) s = p"

definition mem_DeleteFolderChildren :: "Store \<Rightarrow> FullPath \<Rightarrow> (store_error + unit) \<times> Store" where
  "mem_DeleteFolderChildren s fp =
     (let prefix = (if HasSuffix fp ''/'' then fp else fp @ ''/'') in
      (Inr (), s\<lparr>ms_entries := (\<lambda>k. if HasPrefix k prefix then None else ms_entries s k)\<rparr>))"

definition named_children :: "Entry list \<Rightarrow> FullPath \<Rightarrow> string \<Rightarrow> (string \<times> Entry) list" where
  "named_children es dirPath prefix =
     List.map_filter (\<lambda>e. case DirAndName (e_FullPath e) of
        (dir, name) \<Rightarrow> if dir \<noteq> dirPath then None
                       else if prefix \<noteq> [] \<and> \<not> HasPrefix name prefix then None
                       else Some (name, e)) es"

fun list_loop ::
  "string \<Rightarrow> bool \<Rightarrow> int \<Rightarrow> (Entry \<Rightarrow> 'a \<Rightarrow> bool \<times> 'a) \<Rightarrow> (string \<times> Entry) list \<Rightarrow> string \<Rightarrow> int \<Rightarrow> 'a \<Rightarrow> string \<times> 'a" where
  "list_loop start incl limit fn [] cur count acc = (cur, acc)"
| "list_loop start incl limit fn ((name, e) # rest) cur count acc =
     (if start \<noteq> [] \<and> (if incl then name < start else name \<le> start) then list_loop start incl limit fn rest cur count acc
      else case fn e acc of
        (False, acc1) \<Rightarrow> (name, acc1)
      | (True, acc1) \<Rightarrow>
          if limit > 0 \<and> count + 1 \<ge> limit then (name, acc1)
          else list_loop start incl limit fn rest name (count + 1) acc1)"

text \<open>\<open>order\<close> is the order in which the map of entries is iterated.\<close>

definition mem_listEntries :: "(Store \<Rightarrow> string list) \<Rightarrow> (Store, 'a) lister" where
  "mem_listEntries order s dirPath start incl limit prefix fn acc =
     (let arr = sort_key fst (named_children (List.map_filter (ms_entries s) (order s)) dirPath prefix) in
      case list_loop start incl limit fn arr [] 0 acc of (cur, acc1) \<Rightarrow> (Inr cur, acc1))"

definition mem_KvPut :: "Store \<Rightarrow> string \<Rightarrow> kv_value \<Rightarrow> (store_error + unit) \<times> Store" where
  "mem_KvPut s k v = (Inr (), s\<lparr>ms_kv := (ms_kv s)(k \<mapsto> v)\<rparr>)"

definition mem_KvGet :: "Store \<Rightarrow> string \<Rightarrow> store_error + kv_value" where
  "mem_KvGet s k = (case ms_kv s k of None \<Rightarrow> Inl ErrNotFound | Some v \<Rightarrow> Inr v)"

definition mem_KvDelete :: "Store \<Rightarrow> string \<Rightarrow> (store_error + unit) \<times> Store" where
  "mem_KvDelete s k = (Inr (), s\<lparr>ms_kv := (ms_kv s)(k := None)\<rparr>)"

definition mem_ops :: "(Store \<Rightarrow> string list) \<Rightarrow> Store FilerStore" where
  "mem_ops order = \<lparr>InsertEntry = mem_upsert, UpdateEntry = mem_upsert, FindEntry = mem_FindEntry, DeleteEntry = mem_DeleteEntry,
     DeleteFolderChildren = mem_DeleteFolderChildren, ListEntries = mem_listEntries order,
     KvPut = mem_KvPut, KvGet = mem_KvGet, KvDelete = mem_KvDelete\<rparr>"

section \<open>What clients rely on\<close>

text \<open>The entries of a store as a map from paths. A store may fail; then it changes nothing, and a lookup
  that fails otherwise than by \<open>ErrNotFound\<close> says nothing.\<close>

locale entry_store =
  fixes ops :: "'s FilerStore" and entries :: "'s \<Rightarrow> FullPath \<Rightarrow> Entry option"
  assumes find_Inr: "FindEntry ops s fp = Inr e \<Longrightarrow> entries s fp = Some e"
    and find_missing: "FindEntry ops s fp = Inl ErrNotFound \<Longrightarrow> entries s fp = None"
    and insert_ok: "InsertEntry ops s e = (Inr (), s') \<Longrightarrow> entries s' = (entries s)(e_FullPath e \<mapsto> e)"
    and insert_err: "InsertEntry ops s e = (Inl er, s') \<Longrightarrow> entries s' = entries s"
    and update_ok: "UpdateEntry ops s e = (Inr (), s') \<Longrightarrow> entries s' = (entries s)(e_FullPath e \<mapsto> e)"
    and update_err: "UpdateEntry ops s e = (Inl er, s') \<Longrightarrow> entries s' = entries s"
    and delete_ok: "DeleteEntry ops s fp = (Inr (), s') \<Longrightarrow> entries s' = (entries s)(fp := None)"
    and delete_err: "DeleteEntry ops s fp = (Inl er, s') \<Longrightarrow> entries s' = entries s"

text \<open>The key-value part.\<close>

locale kv_store =
  fixes ops :: "'s FilerStore" and kv :: "'s \<Rightarrow> string \<Rightarrow> kv_value option"
  assumes get_Inr: "KvGet ops s k = Inr v \<Longrightarrow> kv s k = Some v"
    and get_missing: "KvGet ops s k = Inl ErrNotFound \<Longrightarrow> kv s k = None"
    and put_ok: "KvPut ops s k v = (Inr (), s') \<Longrightarrow> kv s' = (kv s)(k \<mapsto> v)"
    and put_err: "KvPut ops s k v = (Inl er, s') \<Longrightarrow> kv s' = kv s"
    and del_ok: "KvDelete ops s k = (Inr (), s') \<Longrightarrow> kv s' = (kv s)(k := None)"
    and del_err: "KvDelete ops s k = (Inl er, s') \<Longrightarrow> kv s' = kv s"

lemma mem_ops_sel [simp]:
  "InsertEntry (mem_ops order) = mem_upsert" "UpdateEntry (mem_ops order) = mem_upsert" "FindEntry (mem_ops order) = mem_FindEntry"
  "DeleteEntry (mem_ops order) = mem_DeleteEntry" "DeleteFolderChildren (mem_ops order) = mem_DeleteFolderChildren"
  "ListEntries (mem_ops order) = mem_listEntries order" "KvPut (mem_ops order) = mem_KvPut" "KvGet (mem_ops order) = mem_KvGet"
  "KvDelete (mem_ops order) = mem_KvDelete"
  by (simp_all add: mem_ops_def)

interpretation mem: entry_store "mem_ops order" ms_entries for order
  by unfold_locales (auto simp: mem_FindEntry_def mem_upsert_def mem_DeleteEntry_def split: option.splits)

interpretation mem_kv: kv_store "mem_ops order" ms_kv for order
  by unfold_locales (auto simp: mem_KvGet_def mem_KvPut_def mem_KvDelete_def split: option.splits)

section \<open>Directories of canonical paths\<close>

lemma DirAndName_snoc [simp]:
  assumes "CHR ''/'' \<notin> set s"
  shows "DirAndName (path_of (segs @ [s])) = (path_of segs, s)"
proof -
  have i: "str_last_index (CHR ''/'') (path_of (segs @ [s])) = Some (if segs = [] then 0 else length (path_of segs))"
    using assms by (simp add: path_of_snoc)
  show ?thesis unfolding DirAndName_def i by (simp add: path_of_snoc path_of_def join_segs_snoc)
qed

lemma DirAndName_root [simp]: "DirAndName ''/'' = (''/'', [])"
  by (simp add: DirAndName_def)

lemma DirAndName_canonical_inj:
  assumes "canonical p" "canonical q" "DirAndName p = DirAndName q"
  shows "p = q"
proof -
  obtain xs ys where x: "\<forall>s \<in> set xs. seg_ok s" "p = path_of xs" and y: "\<forall>s \<in> set ys. seg_ok s" "q = path_of ys"
    using assms(1,2) by (auto simp: canonical_def)
  have d: "DirAndName (path_of zs) = (if zs = [] then (''/'', []) else (path_of (butlast zs), last zs))"
    if "\<forall>s \<in> set zs. seg_ok s" for zs
  proof (cases zs rule: rev_cases)
    case (snoc us u)
    then have "CHR ''/'' \<notin> set u" using that by (simp add: seg_ok_def)
    then show ?thesis using snoc by simp
  qed simp
  have ne: "zs \<noteq> [] \<Longrightarrow> last zs \<noteq> []" if "\<forall>s \<in> set zs. seg_ok s" for zs
    using that last_in_set [of zs] unfolding seg_ok_def by blast
  show ?thesis
  proof (cases "xs = [] \<or> ys = []")
    case True
    then show ?thesis using assms(3) d [OF x(1)] d [OF y(1)] ne [OF x(1)] ne [OF y(1)] x(2) y(2) by (auto split: if_splits)
  next
    case False
    then have *: "path_of (butlast xs) = path_of (butlast ys)" "last xs = last ys"
      using assms(3) d [OF x(1)] d [OF y(1)] x(2) y(2) by auto
    have "butlast xs = butlast ys" using path_of_inj [OF _ _ *(1)] x(1) y(1) by (meson in_set_butlastD)
    then show ?thesis using * False x(2) y(2) append_butlast_last_id by metis
  qed
qed

end
