(* ===== verification/Operation.thy ===== *)
theory Operation
  imports VolumeServer MasterFsm FilerStore
begin

text \<open>The client operations (src/goblob/operation, wdclient): assigning file ids, uploading with retries, deleting, looking
  volumes up through a cache. A call over HTTP changes the world it is sent to and gives an answer: none when the
  connection fails, else a status and the JSON document of the body, if it is one.\<close>

datatype http_answer = NoAnswer | Answer nat "json option"

datatype op_error = OpMasterRequired | OpRequest | OpStatus nat | OpNoWritableVolumes | OpDecode | OpRemote string | OpVolumeNotFound

section \<open>Options\<close>

record UploadOption =
  uo_Master :: string
  uo_Collection :: string
  uo_Replication :: string
  uo_Ttl :: string
  uo_DataCenter :: string
  uo_Rack :: string
  uo_DiskType :: string
  uo_Count :: u64
  uo_Preallocate :: int

definition zero_option :: UploadOption where
  "zero_option = \<lparr>uo_Master = [], uo_Collection = [], uo_Replication = [], uo_Ttl = [], uo_DataCenter = [], uo_Rack = [], uo_DiskType = [],
     uo_Count = 0, uo_Preallocate = 0\<rparr>"

definition NewUploadOption :: "string \<Rightarrow> (UploadOption \<Rightarrow> UploadOption) option list \<Rightarrow> UploadOption" where
  "NewUploadOption master fns = fold (\<lambda>fn opt. case fn of None \<Rightarrow> opt | Some f \<Rightarrow> f opt) fns (zero_option\<lparr>uo_Master := master, uo_Count := 1\<rparr>)"

definition WithCount :: "u64 \<Rightarrow> UploadOption \<Rightarrow> UploadOption" where
  "WithCount count opt = (if count > 0 then opt\<lparr>uo_Count := count\<rparr> else opt)"

definition normalizeUploadOption :: "UploadOption option \<Rightarrow> UploadOption" where
  "normalizeUploadOption opt =
     (case opt of
        None \<Rightarrow> zero_option\<lparr>uo_Count := 1\<rparr>
      | Some out \<Rightarrow> if uo_Count out = 0 then out\<lparr>uo_Count := 1\<rparr> else out)"

definition ensureHTTPPrefix :: "string \<Rightarrow> string" where
  "ensureHTTPPrefix addr = (if HasPrefix addr ''http://'' \<or> HasPrefix addr ''https://'' then addr else ''http://'' @ addr)"

section \<open>Assign\<close>

record AssignedFileId =
  af_Fid :: string
  af_Url :: string
  af_PublicUrl :: string
  af_Count :: u64
  af_Auth :: string
  af_Error :: string

definition json_text :: "string \<Rightarrow> json \<Rightarrow> string option" where
  "json_text key j = Option.bind (json_field key j) json_string"

definition AssignedFileId_UnmarshalJSON :: "json \<Rightarrow> AssignedFileId option" where
  "AssignedFileId_UnmarshalJSON j =
     (case (json_text ''fid'' j, json_text ''url'' j, json_text ''publicUrl'' j, Option.bind (json_field ''count'' j) (json_uint 64),
            json_text ''auth'' j, json_text ''error'' j, json_text ''public_url'' j) of
        (Some fid, Some url, Some publicUrl, Some count, Some auth, Some err, Some alt) \<Rightarrow>
          if fid = [] \<and> err = [] then None
          else Some \<lparr>af_Fid = fid, af_Url = url, af_PublicUrl = (if publicUrl = [] then alt else publicUrl), af_Count = of_nat count,
                     af_Auth = auth, af_Error = err\<rparr>
      | _ \<Rightarrow> None)"

text \<open>The query, in the order in which it is encoded.\<close>

definition assign_query :: "UploadOption \<Rightarrow> (string \<times> string) list" where
  "assign_query opt =
     filter (\<lambda>(k, v). v \<noteq> [])
       [(''collection'', uo_Collection opt), (''count'', if uo_Count opt > 0 then format_uint 10 (unat (uo_Count opt)) else []),
        (''dataCenter'', uo_DataCenter opt), (''diskType'', uo_DiskType opt),
        (''preallocate'', if uo_Preallocate opt > 0 then format_uint 10 (nat (uo_Preallocate opt)) else []),
        (''rack'', uo_Rack opt), (''replication'', uo_Replication opt), (''ttl'', uo_Ttl opt)]"

definition Assign :: "(string \<Rightarrow> (string \<times> string) list \<Rightarrow> 'w \<Rightarrow> http_answer \<times> 'w) \<Rightarrow> string \<Rightarrow> UploadOption option \<Rightarrow> 'w \<Rightarrow> (op_error + AssignedFileId) \<times> 'w" where
  "Assign post masterAddr opt w =
     (let normalized = normalizeUploadOption opt;
          master = (if masterAddr = [] then uo_Master normalized else masterAddr) in
      if master = [] then (Inl OpMasterRequired, w)
      else case post (ensureHTTPPrefix master @ ''/dir/assign'') (assign_query normalized) w of
        (NoAnswer, w1) \<Rightarrow> (Inl OpRequest, w1)
      | (Answer code body, w1) \<Rightarrow>
          (if code = 503 then Inl OpNoWritableVolumes
           else if code < 200 \<or> code \<ge> 300 then Inl (OpStatus code)
           else case Option.bind body AssignedFileId_UnmarshalJSON of
             None \<Rightarrow> Inl OpDecode
           | Some result \<Rightarrow> if af_Error result \<noteq> [] then Inl (OpRemote (af_Error result)) else Inr result, w1))"

section \<open>Upload\<close>

record UploadResult =
  ur_Name :: string
  ur_Size :: u32
  ur_ETag :: string
  ur_Mime :: string
  ur_Fid :: string
  ur_Error :: string

definition UploadResult_of :: "json \<Rightarrow> UploadResult option" where
  "UploadResult_of j =
     (case (json_text ''name'' j, Option.bind (json_field ''size'' j) (json_uint 32), json_text ''eTag'' j, json_text ''mime'' j,
            json_text ''fid'' j, json_text ''error'' j) of
        (Some name, Some sz, Some eTag, Some mime, Some fid, Some err) \<Rightarrow>
          Some \<lparr>ur_Name = name, ur_Size = of_nat sz, ur_ETag = eTag, ur_Mime = mime, ur_Fid = fid, ur_Error = err\<rparr>
      | _ \<Rightarrow> None)"

text \<open>The request that a volume server gets: one part of a multipart form. The form writer gives every file the type
  of a byte stream.\<close>

definition upload_headers :: "string \<Rightarrow> string \<Rightarrow> string \<Rightarrow> string" where
  "upload_headers mimeType jwt =
     (\<lambda>_. [])(''Content-Type'' := ''multipart/form-data'', ''X-Upload-Content-Type'' := mimeType,
              ''Authorization'' := if jwt = [] then [] else ''Bearer '' @ jwt)"

definition upload_form :: "string \<Rightarrow> bytes \<Rightarrow> upload_body" where
  "upload_form filename data =
     MultipartBody [\<lparr>up_FileName = (if filename = [] then ''blob.bin'' else filename), up_FormName = ''file'', up_ContentType = octet_stream,
       up_reader = (data, False)\<rparr>] False ([], False)"

type_synonym 'w put = "string \<Rightarrow> (string \<Rightarrow> string) \<Rightarrow> upload_body \<Rightarrow> 'w \<Rightarrow> http_answer \<times> 'w"

text \<open>The path of an absolute URL with a valid host, as the URL library decodes it.\<close>

definition url_path :: "string \<Rightarrow> string option" where
  "url_path url =
     (let rest = (if HasPrefix url ''https://'' then drop 8 url else drop 7 url);
          path = dropWhile (\<lambda>c. c \<noteq> CHR ''/'') (takeWhile (\<lambda>c. c \<noteq> CHR ''?'' \<and> c \<noteq> CHR 0x23) rest) in
      PathUnescape path)"

definition parseFidFromUploadURL :: "string \<Rightarrow> string" where
  "parseFidFromUploadURL uploadURL =
     (case url_path (ensureHTTPPrefix uploadURL) of
        None \<Rightarrow> []
      | Some p \<Rightarrow>
          let last = path_Base (if HasSuffix p ''/'' then take (length p - 1) p else p) in
          if last = ''.'' \<or> last = ''/'' then [] else last)"

definition Upload ::
  "'w put \<Rightarrow> string \<Rightarrow> string \<Rightarrow> bytes \<Rightarrow> string \<Rightarrow> string \<Rightarrow> 'w \<Rightarrow> (op_error + UploadResult) \<times> 'w" where
  "Upload put uploadURL filename data mimeType jwt w =
     (case put (ensureHTTPPrefix uploadURL) (upload_headers mimeType jwt) (upload_form filename data) w of
        (NoAnswer, w1) \<Rightarrow> (Inl OpRequest, w1)
      | (Answer code body, w1) \<Rightarrow>
          (if code < 200 \<or> code \<ge> 300 then Inl (OpStatus code)
           else case Option.bind body UploadResult_of of
             None \<Rightarrow> Inl OpDecode
           | Some result \<Rightarrow>
               if ur_Error result \<noteq> [] then Inl (OpRemote (ur_Error result))
               else Inr (if ur_Fid result = [] then result\<lparr>ur_Fid := parseFidFromUploadURL uploadURL\<rparr> else result), w1))"

definition isRetryable :: "op_error \<Rightarrow> bool" where
  "isRetryable err = (case err of OpRequest \<Rightarrow> True | OpStatus code \<Rightarrow> code \<in> {429, 500, 502, 503, 504} | _ \<Rightarrow> False)"

definition initialRetryBackoff :: int where "initialRetryBackoff = 500000000"

definition maxRetryBackoff :: int where "maxRetryBackoff = 30000000000"

text \<open>The attempts that are left after this one. The list has the waits between the attempts.\<close>

fun upload_attempts ::
  "'w put \<Rightarrow> string \<Rightarrow> string \<Rightarrow> bytes \<Rightarrow> string \<Rightarrow> string \<Rightarrow> nat \<Rightarrow> int \<Rightarrow> 'w \<Rightarrow> (op_error + UploadResult) \<times> int list \<times> 'w" where
  "upload_attempts put uploadURL filename data mimeType jwt left backoff w =
     (case Upload put uploadURL filename data mimeType jwt w of
        (Inr result, w1) \<Rightarrow> (Inr result, [], w1)
      | (Inl err, w1) \<Rightarrow>
          (if \<not> isRetryable err then (Inl err, [], w1)
           else case left of
             0 \<Rightarrow> (Inl err, [], w1)
           | Suc k \<Rightarrow>
               (case upload_attempts put uploadURL filename data mimeType jwt k (min (backoff * 2) maxRetryBackoff) w1 of
                  (r, waits, w2) \<Rightarrow> (r, backoff # waits, w2))))"

declare upload_attempts.simps [simp del]

definition UploadWithRetry ::
  "'w put \<Rightarrow> string \<Rightarrow> string \<Rightarrow> bytes \<Rightarrow> string \<Rightarrow> string \<Rightarrow> int \<Rightarrow> 'w \<Rightarrow> (op_error + UploadResult) \<times> int list \<times> 'w" where
  "UploadWithRetry put uploadURL filename data mimeType jwt maxRetries w =
     upload_attempts put uploadURL filename data mimeType jwt (nat maxRetries) initialRetryBackoff w"

definition op_Delete :: "(string \<Rightarrow> (string \<Rightarrow> string) \<Rightarrow> 'w \<Rightarrow> http_answer \<times> 'w) \<Rightarrow> string \<Rightarrow> string \<Rightarrow> 'w \<Rightarrow> (op_error + unit) \<times> 'w" where
  "op_Delete delete url jwt w =
     (case delete (ensureHTTPPrefix url) ((\<lambda>_. [])(''Authorization'' := if jwt = [] then [] else ''Bearer '' @ jwt)) w of
        (NoAnswer, w1) \<Rightarrow> (Inl OpRequest, w1)
      | (Answer code body, w1) \<Rightarrow> (if code < 200 \<or> code \<ge> 300 then Inl (OpStatus code) else Inr (), w1))"

section \<open>Looking volumes up\<close>

record op_VolumeLocation =
  loc_Url :: string
  loc_PublicUrl :: string

text \<open>A cached list of locations and the time of its expiry.\<close>

record VolumeLocationCache =
  lc_locations :: "VolumeId \<Rightarrow> (op_VolumeLocation list \<times> int) option"
  lc_ttl :: int

definition NewVolumeLocationCache :: "int \<Rightarrow> VolumeLocationCache" where
  "NewVolumeLocationCache ttl = \<lparr>lc_locations = (\<lambda>_. None), lc_ttl = (if ttl \<le> 0 then 600000000000 else ttl)\<rparr>"

definition lc_Invalidate :: "VolumeId \<Rightarrow> VolumeLocationCache \<Rightarrow> VolumeLocationCache" where
  "lc_Invalidate vid c = c\<lparr>lc_locations := (lc_locations c)(vid := None)\<rparr>"

definition lc_Get :: "int \<Rightarrow> VolumeId \<Rightarrow> VolumeLocationCache \<Rightarrow> op_VolumeLocation list option \<times> VolumeLocationCache" where
  "lc_Get now vid c =
     (case lc_locations c vid of
        None \<Rightarrow> (None, c)
      | Some (servers, expiresAt) \<Rightarrow> if now > expiresAt then (None, lc_Invalidate vid c) else (Some servers, c))"

definition lc_Set :: "int \<Rightarrow> VolumeId \<Rightarrow> op_VolumeLocation list \<Rightarrow> VolumeLocationCache \<Rightarrow> VolumeLocationCache" where
  "lc_Set now vid locs c = c\<lparr>lc_locations := (lc_locations c)(vid \<mapsto> (locs, now + lc_ttl c))\<rparr>"

definition location_of :: "json \<Rightarrow> op_VolumeLocation option" where
  "location_of j =
     (case (json_text ''url'' j, json_text ''publicUrl'' j) of
        (Some url, Some publicUrl) \<Rightarrow> Some \<lparr>loc_Url = url, loc_PublicUrl = publicUrl\<rparr>
      | _ \<Rightarrow> None)"

fun all_some :: "'a option list \<Rightarrow> 'a list option" where
  "all_some [] = Some []"
| "all_some (None # xs) = None"
| "all_some (Some x # xs) = map_option ((#) x) (all_some xs)"

text \<open>The locations and the error of the answer.\<close>

definition LookupResult_of :: "json \<Rightarrow> (op_VolumeLocation list \<times> string) option" where
  "LookupResult_of j =
     (case (json_text ''volumeOrFileId'' j, json_text ''volumeId'' j, json_field ''locations'' j, json_text ''error'' j) of
        (Some _, Some _, Some locs, Some err) \<Rightarrow>
          (case locs of
             JNull \<Rightarrow> Some ([], err)
           | JArr js \<Rightarrow> map_option (\<lambda>ls. (ls, err)) (all_some (map location_of js))
           | _ \<Rightarrow> None)
      | _ \<Rightarrow> None)"

definition ToLower :: "string \<Rightarrow> string" where
  "ToLower s = map (\<lambda>c. if CHR ''A'' \<le> c \<and> c \<le> CHR ''Z'' then char_of (of_char c + 32 :: nat) else c) s"

fun contains_text :: "string \<Rightarrow> string \<Rightarrow> bool" where
  "contains_text p [] \<longleftrightarrow> p = []"
| "contains_text p (c # s) \<longleftrightarrow> HasPrefix (c # s) p \<or> contains_text p s"

definition invalidate_in :: "VolumeId \<Rightarrow> VolumeLocationCache option \<Rightarrow> VolumeLocationCache option" where
  "invalidate_in vid c = map_option (lc_Invalidate vid) c"

text \<open>\<open>now\<close> is the clock when the cache is asked, \<open>later\<close> when the answer is stored.\<close>

definition op_LookupVolumeId ::
  "(string \<Rightarrow> (string \<times> string) list \<Rightarrow> http_answer) \<Rightarrow> int \<Rightarrow> int \<Rightarrow> string \<Rightarrow> VolumeId \<Rightarrow> VolumeLocationCache option \<Rightarrow>
   (op_error + op_VolumeLocation list) \<times> VolumeLocationCache option" where
  "op_LookupVolumeId get now later masterAddr vid cache =
     (let (hit, c) = (case cache of None \<Rightarrow> (None, None) | Some c \<Rightarrow> (case lc_Get now vid c of (h, c1) \<Rightarrow> (h, Some c1))) in
      case hit of
        Some locs \<Rightarrow> (Inr locs, c)
      | None \<Rightarrow>
          (case get (ensureHTTPPrefix masterAddr @ ''/dir/lookup'') [(''volumeId'', format_uint 10 (unat vid))] of
             NoAnswer \<Rightarrow> (Inl OpRequest, c)
           | Answer code body \<Rightarrow>
               if code < 200 \<or> code \<ge> 300 then (Inl (OpStatus code), c)
               else case Option.bind body LookupResult_of of
                 None \<Rightarrow> (Inl OpDecode, c)
               | Some (locs, err) \<Rightarrow>
                   if err \<noteq> [] then
                     (if contains_text ''not found'' (ToLower err) then (Inl OpVolumeNotFound, invalidate_in vid c) else (Inl (OpRemote err), c))
                   else if locs = [] then (Inl OpVolumeNotFound, invalidate_in vid c)
                   else (Inr locs, map_option (lc_Set later vid locs) c)))"

section \<open>The master client\<close>

record VidCache =
  vc_cache :: "VolumeId \<Rightarrow> (op_VolumeLocation list \<times> int) option"
  vc_ttl :: int

definition NewVidCache :: "int \<Rightarrow> VidCache" where
  "NewVidCache ttl = \<lparr>vc_cache = (\<lambda>_. None), vc_ttl = ttl\<rparr>"

definition vc_Get :: "int \<Rightarrow> VolumeId \<Rightarrow> VidCache \<Rightarrow> op_VolumeLocation list option" where
  "vc_Get now vid c = (case vc_cache c vid of None \<Rightarrow> None | Some (locs, expiresAt) \<Rightarrow> if now > expiresAt then None else Some locs)"

definition vc_Set :: "int \<Rightarrow> VolumeId \<Rightarrow> op_VolumeLocation list \<Rightarrow> VidCache \<Rightarrow> VidCache" where
  "vc_Set now vid locs c = c\<lparr>vc_cache := (vc_cache c)(vid \<mapsto> (locs, now + vc_ttl c))\<rparr>"

definition vc_Invalidate :: "VolumeId \<Rightarrow> VidCache \<Rightarrow> VidCache" where
  "vc_Invalidate vid c = c\<lparr>vc_cache := (vc_cache c)(vid := None)\<rparr>"

record MasterClient =
  mc_masterAddresses :: "string list"
  mc_currentMaster :: string
  mc_vidCache :: VidCache

definition NewMasterClient :: "string list \<Rightarrow> MasterClient" where
  "NewMasterClient masterAddresses =
     (let normalized = map ToGrpcAddress masterAddresses in
      \<lparr>mc_masterAddresses = normalized, mc_currentMaster = (case normalized of [] \<Rightarrow> [] | a # _ \<Rightarrow> a), mc_vidCache = NewVidCache 600000000000\<rparr>)"

definition SetCurrentMaster :: "string \<Rightarrow> MasterClient \<Rightarrow> MasterClient" where
  "SetCurrentMaster addr mc = mc\<lparr>mc_currentMaster := ToGrpcAddress addr\<rparr>"

datatype client_error = NoMasterKnown | LookupFailed

text \<open>\<open>lookup\<close> is the call to the master: none when it fails, else the entry under the key, with its error.\<close>

definition mc_LookupVolumeId ::
  "(string \<Rightarrow> string \<Rightarrow> (op_VolumeLocation list \<times> string) option option) \<Rightarrow> int \<Rightarrow> int \<Rightarrow> VolumeId \<Rightarrow> MasterClient \<Rightarrow>
   (client_error + op_VolumeLocation list) \<times> MasterClient" where
  "mc_LookupVolumeId lookup now later vid mc =
     (case vc_Get now vid (mc_vidCache mc) of
        Some locs \<Rightarrow> (Inr locs, mc)
      | None \<Rightarrow>
          if mc_currentMaster mc = [] then (Inl NoMasterKnown, mc)
          else case lookup (ToGrpcAddress (mc_currentMaster mc)) (format_uint 10 (unat vid)) of
            Some (Some (locs, err)) \<Rightarrow>
              if err \<noteq> [] then (Inl LookupFailed, mc) else (Inr locs, mc\<lparr>mc_vidCache := vc_Set later vid locs (mc_vidCache mc)\<rparr>)
          | _ \<Rightarrow> (Inl LookupFailed, mc))"

text \<open>One message of the stream a master keeps with its clients: the leaders it names. The result has the leaders that
  the callback was told.\<close>

definition leader_message :: "string list \<Rightarrow> MasterClient \<Rightarrow> MasterClient \<times> string list" where
  "leader_message leaders mc = fold (\<lambda>l (mc, told). if l = [] then (mc, told) else (SetCurrentMaster l mc, told @ [l])) leaders (mc, [])"

end
