(* ===== verification/ChunkUpload.thy ===== *)
theory ChunkUpload
  imports Operation
begin

text \<open>Uploading a stream in chunks (src/goblob/operation/client.go, \<open>ChunkUpload\<close>): one goroutine cuts the stream into jobs
  and then collects the results, three workers assign a file id for a job and upload it. Jobs and results go through
  channels with room for three. The goroutines are the parts of one state; a step is a channel operation or a call
  over HTTP of one of them. The context is not cancelled.\<close>

section \<open>Jobs\<close>

record chunkJob =
  cj_index :: nat
  cj_offset :: int
  cj_data :: bytes

record ChunkUploadResult =
  cr_FileId :: string
  cr_Offset :: int
  cr_Size :: int
  cr_ModifiedTsNs :: int
  cr_ETag :: string

definition chunk_size :: "int \<Rightarrow> nat" where
  "chunk_size chunkSizeBytes = nat (if chunkSizeBytes \<le> 0 then 8 * 1024 * 1024 else chunkSizeBytes)"

text \<open>What \<open>io.ReadFull\<close> gets from a stream: full chunks, then a shorter one at the end of the stream; of a stream
  that fails only the full ones.\<close>

function chunk_jobs :: "nat \<Rightarrow> nat \<Rightarrow> int \<Rightarrow> reader \<Rightarrow> chunkJob list" where
  "chunk_jobs sz i off (bs, fails) =
     (if sz = 0 \<or> bs = [] then []
      else if length bs < sz then (if fails then [] else [\<lparr>cj_index = i, cj_offset = off, cj_data = bs\<rparr>])
      else \<lparr>cj_index = i, cj_offset = off, cj_data = take sz bs\<rparr> # chunk_jobs sz (Suc i) (off + int sz) (drop sz bs, fails))"
  by pat_completeness auto
termination
  by (relation "measure (\<lambda>(_, _, _, r). length (fst r))") auto

declare chunk_jobs.simps [simp del]

section \<open>Goroutines\<close>

datatype chunk_worker =
    Idle
  | Assigning chunkJob
  | Uploading chunkJob AssignedFileId nat
  | Sending nat "op_error + ChunkUploadResult"
  | Exited

datatype chunk_error = ReadFailed | ChunkFailed op_error

datatype chunk_phase =
    Reading "chunkJob list" bool
  | Collecting "(nat \<times> ChunkUploadResult) list"
  | WaitingForWorkers
  | Returned "chunk_error + ChunkUploadResult list"

record 'w chunk_state =
  ch_phase :: chunk_phase
  ch_jobs :: "chunkJob list"
  ch_closed :: bool
  ch_workers :: "chunk_worker list"
  ch_results :: "(nat \<times> (op_error + ChunkUploadResult)) list"
  ch_world :: 'w

definition chunk_workers :: nat where "chunk_workers = 3"

definition chunk_url :: "AssignedFileId \<Rightarrow> string" where
  "chunk_url a = (let url = ensureHTTPPrefix (af_Url a) in (if HasSuffix url ''/'' then url else url @ ''/'') @ af_Fid a)"

type_synonym 'w post = "string \<Rightarrow> (string \<times> string) list \<Rightarrow> 'w \<Rightarrow> http_answer \<times> 'w"

definition worker_assign :: "'w post \<Rightarrow> string \<Rightarrow> UploadOption \<Rightarrow> chunkJob \<Rightarrow> 'w \<Rightarrow> chunk_worker \<times> 'w" where
  "worker_assign post master opt j w =
     (case Assign post master (Some opt) w of
        (Inl e, w1) \<Rightarrow> (Sending (cj_index j) (Inl e), w1)
      | (Inr a, w1) \<Rightarrow> (Uploading j a 3, w1))"

text \<open>One attempt of \<open>UploadWithRetry\<close>, with the number of retries that are left.\<close>

definition worker_attempt :: "'w put \<Rightarrow> int \<Rightarrow> chunkJob \<Rightarrow> AssignedFileId \<Rightarrow> nat \<Rightarrow> 'w \<Rightarrow> chunk_worker \<times> 'w" where
  "worker_attempt put now j a left w =
     (case Upload put (chunk_url a) [] (cj_data j) octet_stream (af_Auth a) w of
        (Inr r, w1) \<Rightarrow>
          (Sending (cj_index j) (Inr \<lparr>cr_FileId = af_Fid a, cr_Offset = cj_offset j, cr_Size = int (length (cj_data j)), cr_ModifiedTsNs = now,
             cr_ETag = ur_ETag r\<rparr>), w1)
      | (Inl e, w1) \<Rightarrow>
          (if isRetryable e \<and> 0 < left then Uploading j a (left - 1) else Sending (cj_index j) (Inl e), w1))"

inductive chunk_step :: "'w post \<Rightarrow> 'w put \<Rightarrow> string \<Rightarrow> UploadOption \<Rightarrow> 'w chunk_state \<Rightarrow> 'w chunk_state \<Rightarrow> bool"
  for post put master opt where
  produce: "ch_phase st = Reading (j # js) fails \<Longrightarrow> length (ch_jobs st) < chunk_workers \<Longrightarrow>
    chunk_step post put master opt st (st\<lparr>ch_phase := Reading js fails, ch_jobs := ch_jobs st @ [j]\<rparr>)"
| read_end: "ch_phase st = Reading [] False \<Longrightarrow>
    chunk_step post put master opt st (st\<lparr>ch_phase := Collecting [], ch_closed := True\<rparr>)"
| read_fail: "ch_phase st = Reading [] True \<Longrightarrow>
    chunk_step post put master opt st (st\<lparr>ch_phase := WaitingForWorkers, ch_closed := True\<rparr>)"
| take_job: "i < length (ch_workers st) \<Longrightarrow> ch_workers st ! i = Idle \<Longrightarrow> ch_jobs st = j # js \<Longrightarrow>
    chunk_step post put master opt st (st\<lparr>ch_workers := (ch_workers st)[i := Assigning j], ch_jobs := js\<rparr>)"
| leave: "i < length (ch_workers st) \<Longrightarrow> ch_workers st ! i = Idle \<Longrightarrow> ch_jobs st = [] \<Longrightarrow> ch_closed st \<Longrightarrow>
    chunk_step post put master opt st (st\<lparr>ch_workers := (ch_workers st)[i := Exited]\<rparr>)"
| assign: "i < length (ch_workers st) \<Longrightarrow> ch_workers st ! i = Assigning j \<Longrightarrow>
    worker_assign post master opt j (ch_world st) = (x, w) \<Longrightarrow>
    chunk_step post put master opt st (st\<lparr>ch_workers := (ch_workers st)[i := x], ch_world := w\<rparr>)"
| attempt: "i < length (ch_workers st) \<Longrightarrow> ch_workers st ! i = Uploading j a left \<Longrightarrow>
    worker_attempt put now j a left (ch_world st) = (x, w) \<Longrightarrow>
    chunk_step post put master opt st (st\<lparr>ch_workers := (ch_workers st)[i := x], ch_world := w\<rparr>)"
| send: "i < length (ch_workers st) \<Longrightarrow> ch_workers st ! i = Sending k r \<Longrightarrow> length (ch_results st) < chunk_workers \<Longrightarrow>
    chunk_step post put master opt st (st\<lparr>ch_workers := (ch_workers st)[i := Idle], ch_results := ch_results st @ [(k, r)]\<rparr>)"
| collect: "ch_phase st = Collecting c \<Longrightarrow> ch_results st = (k, r) # rs \<Longrightarrow>
    chunk_step post put master opt st (st\<lparr>ch_results := rs,
      ch_phase := (case r of Inl e \<Rightarrow> Returned (Inl (ChunkFailed e)) | Inr x \<Rightarrow> Collecting (c @ [(k, x)]))\<rparr>)"
| finish: "ch_phase st = Collecting c \<Longrightarrow> ch_results st = [] \<Longrightarrow> list_all (\<lambda>x. x = Exited) (ch_workers st) \<Longrightarrow>
    chunk_step post put master opt st (st\<lparr>ch_phase := Returned (Inr (map snd (sort_key fst c)))\<rparr>)"
| waited: "ch_phase st = WaitingForWorkers \<Longrightarrow> list_all (\<lambda>x. x = Exited) (ch_workers st) \<Longrightarrow>
    chunk_step post put master opt st (st\<lparr>ch_phase := Returned (Inl ReadFailed)\<rparr>)"

definition chunk_start :: "int \<Rightarrow> reader \<Rightarrow> 'w \<Rightarrow> 'w chunk_state" where
  "chunk_start chunkSizeBytes r w =
     \<lparr>ch_phase = Reading (chunk_jobs (chunk_size chunkSizeBytes) 0 0 r) (snd r), ch_jobs = [], ch_closed = False,
      ch_workers = replicate chunk_workers Idle, ch_results = [], ch_world = w\<rparr>"

inductive chunk_run :: "'w post \<Rightarrow> 'w put \<Rightarrow> string \<Rightarrow> UploadOption \<Rightarrow> int \<Rightarrow> reader \<Rightarrow> 'w \<Rightarrow> 'w chunk_state \<Rightarrow> bool"
  for post put master opt sz r w where
  start: "chunk_run post put master opt sz r w (chunk_start sz r w)"
| step: "chunk_run post put master opt sz r w st \<Longrightarrow> chunk_step post put master opt st st' \<Longrightarrow> chunk_run post put master opt sz r w st'"

section \<open>How many chunks there are\<close>

lemma chunk_size_pos [simp]: "0 < chunk_size sz"
  by (simp add: chunk_size_def)

lemma length_chunk_jobs:
  assumes "0 < sz"
  shows "length (chunk_jobs sz i off (bs, fails)) \<le> n \<longleftrightarrow> (if fails then length bs < Suc n * sz else length bs \<le> n * sz)"
proof (induction n arbitrary: i off bs)
  case 0
  show ?case using assms by (subst chunk_jobs.simps) (auto simp: not_less)
next
  case (Suc n)
  show ?case
  proof (cases "length bs < sz")
    case True
    then show ?thesis using assms by (subst chunk_jobs.simps) auto
  next
    case False
    then have "bs \<noteq> []" using assms by auto
    then show ?thesis using assms False Suc.IH [of "Suc i" "off + int sz" "drop sz bs"] by (subst chunk_jobs.simps) auto
  qed
qed

lemma jobs_index: "map cj_index (chunk_jobs sz i off r) = [i..<i + length (chunk_jobs sz i off r)]"
proof (induction sz i off r rule: chunk_jobs.induct)
  case (1 sz i off bs fails)
  show ?case using 1 by (subst (1 2) chunk_jobs.simps) (auto simp: upt_conv_Cons simp del: upt_Suc)
qed

section \<open>Every run ends\<close>

fun worker_work :: "chunk_worker \<Rightarrow> nat" where
  "worker_work Idle = 1"
| "worker_work (Assigning j) = 10"
| "worker_work (Uploading j a left) = 5 + left"
| "worker_work (Sending k r) = 4"
| "worker_work Exited = 0"

fun phase_work :: "chunk_phase \<Rightarrow> nat" where
  "phase_work (Reading js fails) = 2 + 11 * length js"
| "phase_work (Collecting c) = 1"
| "phase_work WaitingForWorkers = 1"
| "phase_work (Returned r) = 0"

definition chunk_work :: "'w chunk_state \<Rightarrow> nat" where
  "chunk_work st = phase_work (ch_phase st) + 10 * length (ch_jobs st) + sum_list (map worker_work (ch_workers st)) + 2 * length (ch_results st)"

lemma sum_update:
  "i < length xs \<Longrightarrow> sum_list (map f (xs[i := x])) + f (xs ! i) = sum_list (map f xs) + (f x :: nat)"
  by (induction xs arbitrary: i) (auto split: nat.splits)

lemma worker_assign_work: "worker_assign post master opt j w = (x, w') \<Longrightarrow> worker_work x < 10"
  by (auto simp: worker_assign_def split: prod.splits sum.splits)

lemma worker_attempt_work: "worker_attempt put now j a left w = (x, w') \<Longrightarrow> worker_work x < 5 + left"
  by (auto simp: worker_attempt_def split: prod.splits sum.splits if_splits)

lemma step_works: "chunk_step post put master opt st st' \<Longrightarrow> chunk_work st' < chunk_work st"
proof (induction rule: chunk_step.induct)
  case (take_job i st j js)
  then show ?case using sum_update [of i "ch_workers st" worker_work "Assigning j"] by (simp add: chunk_work_def)
next
  case (leave i st)
  then show ?case using sum_update [of i "ch_workers st" worker_work Exited] by (simp add: chunk_work_def)
next
  case (assign i st j x w)
  then show ?case using sum_update [of i "ch_workers st" worker_work x] worker_assign_work [OF assign(3)] by (simp add: chunk_work_def)
next
  case (attempt i st j a left now x w)
  then show ?case using sum_update [of i "ch_workers st" worker_work x] worker_attempt_work [OF attempt(3)] by (simp add: chunk_work_def)
next
  case (send i st k r)
  then show ?case using sum_update [of i "ch_workers st" worker_work Idle] by (simp add: chunk_work_def)
next
  case (collect st c k r rs)
  then show ?case by (simp add: chunk_work_def split: sum.split)
qed (simp_all add: chunk_work_def)

lemma step_wf: "wf {(st', st). chunk_step post put master opt st st'}"
  by (rule wf_subset [OF wf_measure [of chunk_work]]) (auto dest: step_works)

section \<open>Where a run can end\<close>

definition busy :: "chunk_worker \<Rightarrow> bool" where
  "busy x \<longleftrightarrow> x \<noteq> Idle \<and> x \<noteq> Exited"

definition n_busy :: "'w chunk_state \<Rightarrow> nat" where
  "n_busy st = sum_list (map (\<lambda>x. of_bool (busy x)) (ch_workers st))"

definition in_pipe :: "'w chunk_state \<Rightarrow> nat" where
  "in_pipe st = length (ch_jobs st) + n_busy st + length (ch_results st)"

definition pipe_ok :: "nat \<Rightarrow> bool \<Rightarrow> 'w chunk_state \<Rightarrow> bool" where
  "pipe_ok n fails st \<longleftrightarrow>
     length (ch_workers st) = 3 \<and> length (ch_jobs st) \<le> 3 \<and> length (ch_results st) \<le> 3 \<and>
     (Exited \<in> set (ch_workers st) \<longrightarrow> ch_closed st \<and> ch_jobs st = []) \<and>
     (case ch_phase st of
        Reading js f \<Rightarrow> \<not> ch_closed st \<and> f = fails \<and> length js + in_pipe st = n
      | Collecting c \<Rightarrow> ch_closed st \<and> \<not> fails \<and> n \<le> 9 \<and> length c + in_pipe st = n
      | WaitingForWorkers \<Rightarrow> ch_closed st \<and> fails \<and> in_pipe st = n
      | Returned r \<Rightarrow> ch_closed st \<and> n \<le> (if fails then 3 else 9))"

lemma n_busy_le: "length (ch_workers st) = 3 \<Longrightarrow> n_busy st \<le> 3"
proof -
  have "sum_list (map (\<lambda>x. of_bool (busy x)) xs) \<le> length xs" for xs :: "chunk_worker list" by (induction xs) auto
  then show "length (ch_workers st) = 3 \<Longrightarrow> n_busy st \<le> 3" unfolding n_busy_def by metis
qed

lemma n_busy_update:
  assumes "i < length (ch_workers st)" "ch_workers st' = (ch_workers st)[i := x]"
  shows "n_busy st' + of_bool (busy (ch_workers st ! i)) = n_busy st + of_bool (busy x)"
  using sum_update [OF assms(1), of "\<lambda>x. of_bool (busy x)" x] by (simp add: n_busy_def assms(2))

lemma exited_update: "Exited \<in> set (xs[i := x]) \<Longrightarrow> x \<noteq> Exited \<Longrightarrow> Exited \<in> set xs"
  using set_update_subset_insert [of xs i x] by auto

lemma not_exited:
  "worker_assign post master opt j w = (x, w') \<Longrightarrow> x \<noteq> Exited \<and> busy x"
  "worker_attempt put now j a left w = (x, w') \<Longrightarrow> x \<noteq> Exited \<and> busy x"
  by (auto simp: worker_assign_def worker_attempt_def busy_def split: prod.splits sum.splits if_splits)

lemma all_exited: "list_all (\<lambda>x. x = Exited) (ch_workers st) \<Longrightarrow> n_busy st = 0"
  by (auto simp: n_busy_def list_all_iff busy_def)

lemma worker_changes:
  assumes ok: "pipe_ok n fails st" and i: "i < length (ch_workers st)" and x: "busy (ch_workers st ! i)" "busy x"
    and st': "ch_phase st' = ch_phase st" "ch_jobs st' = ch_jobs st" "ch_closed st' = ch_closed st" "ch_results st' = ch_results st"
      "ch_workers st' = (ch_workers st)[i := x]"
  shows "pipe_ok n fails st'"
proof -
  have "n_busy st' = n_busy st" using n_busy_update [OF i st'(5)] x by simp
  then have "in_pipe st' = in_pipe st" by (simp add: in_pipe_def st')
  moreover have "Exited \<in> set (ch_workers st') \<Longrightarrow> Exited \<in> set (ch_workers st)"
    using exited_update x(2) unfolding st'(5) busy_def by blast
  ultimately show ?thesis using ok by (auto simp: pipe_ok_def st' split: chunk_phase.splits)
qed

lemma pipe_step: "chunk_step post put master opt st st' \<Longrightarrow> pipe_ok n fails st \<Longrightarrow> pipe_ok n fails st'"
proof (induction rule: chunk_step.induct)
  case (produce st j js f)
  then show ?case by (auto simp: pipe_ok_def in_pipe_def n_busy_def chunk_workers_def)
next
  case (read_end st)
  then have "n_busy st \<le> 3" using n_busy_le [of st] by (simp add: pipe_ok_def)
  then show ?case using read_end by (auto simp: pipe_ok_def in_pipe_def n_busy_def)
next
  case (read_fail st)
  then show ?case by (auto simp: pipe_ok_def in_pipe_def n_busy_def)
next
  case (take_job i st j js)
  let ?st = "st\<lparr>ch_workers := (ch_workers st)[i := Assigning j], ch_jobs := js\<rparr>"
  have "n_busy ?st = Suc (n_busy st)" using n_busy_update [of i st ?st "Assigning j"] take_job by (simp add: busy_def)
  moreover have "Exited \<notin> set (ch_workers ?st)" using exited_update [of "ch_workers st" i "Assigning j"] take_job by (auto simp: pipe_ok_def)
  ultimately show ?case using take_job by (auto simp: pipe_ok_def in_pipe_def split: chunk_phase.splits)
next
  case (leave i st)
  let ?st = "st\<lparr>ch_workers := (ch_workers st)[i := Exited]\<rparr>"
  have "n_busy ?st = n_busy st" using n_busy_update [of i st ?st Exited] leave by (simp add: busy_def)
  then show ?case using leave by (auto simp: pipe_ok_def in_pipe_def split: chunk_phase.splits)
next
  case (assign i st j x w)
  show ?case by (rule worker_changes [OF assign(4,1), of x]) (use assign not_exited(1) [OF assign(3)] in \<open>simp_all add: busy_def\<close>)
next
  case (attempt i st j a left now x w)
  show ?case by (rule worker_changes [OF attempt(4,1), of x]) (use attempt not_exited(2) [OF attempt(3)] in \<open>simp_all add: busy_def\<close>)
next
  case (send i st k r)
  let ?st = "st\<lparr>ch_workers := (ch_workers st)[i := Idle], ch_results := ch_results st @ [(k, r)]\<rparr>"
  have "Suc (n_busy ?st) = n_busy st" using n_busy_update [of i st ?st Idle] send by (simp add: busy_def)
  moreover have "Exited \<in> set (ch_workers ?st) \<Longrightarrow> Exited \<in> set (ch_workers st)" using exited_update [of "ch_workers st" i Idle] by simp
  ultimately show ?case using send by (auto simp: pipe_ok_def in_pipe_def chunk_workers_def split: chunk_phase.splits)
next
  case (collect st c k r rs)
  then show ?case by (auto simp: pipe_ok_def in_pipe_def n_busy_def split: sum.splits)
next
  case (finish st c)
  then show ?case by (auto simp: pipe_ok_def)
next
  case (waited st)
  then have "ch_workers st \<noteq> []" by (auto simp: pipe_ok_def)
  then have "Exited \<in> set (ch_workers st)" using waited(2) by (cases "ch_workers st") auto
  then show ?case using waited all_exited [OF waited(2)] by (auto simp: pipe_ok_def in_pipe_def)
qed

lemma pipe_run:
  assumes "chunk_run post put master opt sz r w st"
  shows "pipe_ok (length (chunk_jobs (chunk_size sz) 0 0 r)) (snd r) st"
  using assms
proof induction
  case start
  have "n_busy (chunk_start sz r w) = 0" by (simp add: n_busy_def chunk_start_def busy_def chunk_workers_def)
  then show ?case by (auto simp: pipe_ok_def chunk_start_def in_pipe_def chunk_workers_def)
qed (rule pipe_step)

text \<open>A state without a step.\<close>

definition stuck :: "'w post \<Rightarrow> 'w put \<Rightarrow> string \<Rightarrow> UploadOption \<Rightarrow> 'w chunk_state \<Rightarrow> bool" where
  "stuck post put master opt st \<longleftrightarrow> (\<forall>st'. \<not> chunk_step post put master opt st st')"

lemma stuck_worker:
  assumes "stuck post put master opt st" "x \<in> set (ch_workers st)"
  shows "x = Exited \<or> (x = Idle \<and> ch_jobs st = [] \<and> \<not> ch_closed st) \<or> (\<exists>k r. x = Sending k r) \<and> 3 \<le> length (ch_results st)"
proof -
  obtain i where i: "i < length (ch_workers st)" "ch_workers st ! i = x" using assms(2) by (auto simp: in_set_conv_nth)
  have no: "\<not> chunk_step post put master opt st st'" for st' using assms(1) by (simp add: stuck_def)
  show ?thesis
  proof (cases x)
    case Idle
    then show ?thesis using no take_job [of i st] leave [of i st] i by (cases "ch_jobs st") blast+
  next
    case (Assigning j)
    then show ?thesis using no assign [of i st j] i by (metis prod.exhaust)
  next
    case (Uploading j a left)
    then show ?thesis using no attempt [of i st j a left] i by (metis prod.exhaust)
  next
    case (Sending k r)
    then have "\<not> length (ch_results st) < chunk_workers" using no send i by blast
    then show ?thesis using Sending by (auto simp: chunk_workers_def)
  qed simp
qed

lemma stuck_ends:
  assumes ok: "pipe_ok n fails st" and no: "stuck post put master opt st" and open_: "\<nexists>r. ch_phase st = Returned r"
  shows "(if fails then 3 else 9) < n"
proof (cases "ch_phase st")
  case (Reading js f)
  have nostep: "\<not> chunk_step post put master opt st st'" for st' using no by (simp add: stuck_def)
  have "ch_phase st \<noteq> Reading [] True" "ch_phase st \<noteq> Reading [] False" using nostep read_fail read_end by blast+
  then have "js \<noteq> []" using Reading by (cases f) auto
  then obtain j js' where js: "js = j # js'" by (cases js) auto
  then have "\<not> length (ch_jobs st) < chunk_workers" using nostep produce Reading by blast
  then have jobs: "length (ch_jobs st) = 3" using ok by (simp add: pipe_ok_def chunk_workers_def)
  have "\<not> ch_closed st" using ok Reading by (simp add: pipe_ok_def)
  then have "Exited \<notin> set (ch_workers st)" using ok by (auto simp: pipe_ok_def)
  then have sending: "(\<exists>k r. x = Sending k r) \<and> 3 \<le> length (ch_results st)" if "x \<in> set (ch_workers st)" for x
    using stuck_worker [OF no that] jobs that by fastforce
  have "sum_list (map (\<lambda>x. of_bool (busy x)) xs) = length xs" if "\<And>x. x \<in> set xs \<Longrightarrow> \<exists>k r. x = Sending k r" for xs :: "chunk_worker list"
    using that by (induction xs) (auto simp: busy_def)
  then have "n_busy st = 3" using sending ok unfolding n_busy_def pipe_ok_def by metis
  moreover have "3 \<le> length (ch_results st)" using sending [of "hd (ch_workers st)"] ok by (cases "ch_workers st") (auto simp: pipe_ok_def)
  ultimately show ?thesis using ok Reading js jobs by (auto simp: pipe_ok_def in_pipe_def)
next
  case (Collecting c)
  have nostep: "\<not> chunk_step post put master opt st st'" for st' using no by (simp add: stuck_def)
  have "ch_results st = []" using nostep collect [of st c] Collecting by (cases "ch_results st") (auto, metis)
  moreover have "ch_closed st" using ok Collecting by (simp add: pipe_ok_def)
  ultimately have "x = Exited" if "x \<in> set (ch_workers st)" for x using stuck_worker [OF no that] by auto
  then have "list_all (\<lambda>x. x = Exited) (ch_workers st)" by (simp add: list_all_iff)
  then show ?thesis using nostep finish [of st c] Collecting \<open>ch_results st = []\<close> by blast
next
  case WaitingForWorkers
  have nostep: "\<not> chunk_step post put master opt st st'" for st' using no by (simp add: stuck_def)
  have "ch_closed st" "fails" using ok WaitingForWorkers by (simp_all add: pipe_ok_def)
  have "\<not> list_all (\<lambda>x. x = Exited) (ch_workers st)" using nostep waited [of st] WaitingForWorkers by blast
  then obtain x where x: "x \<in> set (ch_workers st)" "x \<noteq> Exited" by (auto simp: list_all_iff)
  then obtain k r where s: "x = Sending k r" "3 \<le> length (ch_results st)" using stuck_worker [OF no x(1)] \<open>ch_closed st\<close> by auto
  have "of_bool (busy x) \<le> n_busy st" unfolding n_busy_def by (rule member_le_sum_list) (use x(1) in auto)
  then show ?thesis using s ok WaitingForWorkers \<open>fails\<close> by (auto simp: pipe_ok_def in_pipe_def busy_def)
next
  case (Returned r)
  then show ?thesis using open_ by blast
qed


lemma run_ends: "\<exists>st. chunk_run post put master opt sz r w st \<and> stuck post put master opt st"
proof -
  have "\<exists>st'. chunk_run post put master opt sz r w st' \<and> stuck post put master opt st'" if "chunk_run post put master opt sz r w st" for st
    using that
  proof (induction st rule: measure_induct_rule [of chunk_work])
    case (less st)
    show ?case
    proof (cases "stuck post put master opt st")
      case False
      then obtain st' where st': "chunk_step post put master opt st st'" by (auto simp: stuck_def)
      show ?thesis by (rule less.IH [OF step_works [OF st'] chunk_run.step [OF less.prems st']])
    qed (use less.prems in blast)
  qed
  from this [OF chunk_run.start] show ?thesis .
qed

definition no_post :: "unit post" where "no_post = (\<lambda>_ _ w. (NoAnswer, w))"

definition no_put :: "unit put" where "no_put = (\<lambda>_ _ _ w. (NoAnswer, w))"


end
