(* ===== verification/MasterServer.thy ===== *)
theory MasterServer
  imports VolumeGrowth Sequencer MasterFsm Guard FilerStore "HOL-Library.List_Lexorder" "HOL-Library.Char_ord"
begin

text \<open>The master server (src/goblob/server/master_server.go, master_server_handlers.go, master_grpc_server.go) over the
  topology, the Raft sequencer and a consensus engine, and the registry of its clients (src/goblob/cluster/registry.go).
  The state of the engine is the one that the sequencer keeps; its operations are a record. Answers are JSON documents.\<close>

section \<open>Clients of the cluster\<close>

record ClusterNode =
  cn_clientType :: string
  cn_clientAddress :: string
  cn_version :: string
  cn_filerGroup :: string
  cn_dataCenter :: string
  cn_rack :: string
  cn_grpcPort :: string
  cn_lastSeen :: int

type_synonym ClusterRegistry = "string \<Rightarrow> ClusterNode option"

definition expireSeconds :: int where "expireSeconds = 30"

record KeepConnectedRequest =
  kc_ClientType :: string
  kc_ClientAddress :: string
  kc_Version :: string
  kc_FilerGroup :: string
  kc_DataCenter :: string
  kc_Rack :: string
  kc_GrpcPort :: string

definition Register :: "int \<Rightarrow> KeepConnectedRequest \<Rightarrow> ClusterRegistry \<Rightarrow> ClusterRegistry" where
  "Register now req cr =
     (let nodeId = kc_ClientAddress req in
      case cr nodeId of
        Some existing \<Rightarrow>
          cr(nodeId \<mapsto> existing\<lparr>cn_clientType := kc_ClientType req, cn_version := kc_Version req, cn_filerGroup := kc_FilerGroup req,
            cn_dataCenter := kc_DataCenter req, cn_rack := kc_Rack req, cn_grpcPort := kc_GrpcPort req, cn_lastSeen := now\<rparr>)
      | None \<Rightarrow>
          cr(nodeId \<mapsto> \<lparr>cn_clientType = kc_ClientType req, cn_clientAddress = kc_ClientAddress req, cn_version = kc_Version req,
            cn_filerGroup = kc_FilerGroup req, cn_dataCenter = kc_DataCenter req, cn_rack = kc_Rack req, cn_grpcPort = kc_GrpcPort req,
            cn_lastSeen = now\<rparr>))"

definition Unregister :: "string \<Rightarrow> ClusterRegistry \<Rightarrow> ClusterRegistry" where
  "Unregister nodeId cr = cr(nodeId := None)"

definition UpdateLastSeen :: "int \<Rightarrow> string \<Rightarrow> ClusterRegistry \<Rightarrow> ClusterRegistry" where
  "UpdateLastSeen now nodeId cr = (case cr nodeId of None \<Rightarrow> cr | Some node \<Rightarrow> cr(nodeId \<mapsto> node\<lparr>cn_lastSeen := now\<rparr>))"

text \<open>\<open>order\<close> is the order in which the map is iterated.\<close>

definition ListNodes :: "string list \<Rightarrow> string \<Rightarrow> ClusterRegistry \<Rightarrow> ClusterNode list" where
  "ListNodes order clientType cr = filter (\<lambda>node. clientType = [] \<or> cn_clientType node = clientType) (List.map_filter cr order)"

definition ExpireDeadNodes :: "int \<Rightarrow> ClusterRegistry \<Rightarrow> ClusterRegistry" where
  "ExpireDeadNodes now cr =
     (\<lambda>i. case cr i of None \<Rightarrow> None | Some node \<Rightarrow> if cn_lastSeen node < now - expireSeconds * 10 ^ 9 then None else Some node)"

definition cn_IsAlive :: "int \<Rightarrow> ClusterNode \<Rightarrow> bool" where
  "cn_IsAlive now node \<longleftrightarrow> now - cn_lastSeen node < 30 * 10 ^ 9"

section \<open>State\<close>

record MasterOption =
  mo_Host :: string
  mo_Port :: int
  mo_VolumeSizeLimitMB :: u32
  mo_DefaultReplication :: string
  mo_JwtExpireSeconds :: int

record VolumeGrowOption =
  go_Collection :: string
  go_ReplicaPlacement :: ReplicaPlacement
  go_Ttl :: string
  go_DiskType :: string

text \<open>The interface \<open>consensus.Engine\<close>.\<close>

record 'r Engine =
  en_IsLeader :: "'r \<Rightarrow> bool"
  en_LeaderAddress :: "'r \<Rightarrow> string"
  en_Apply :: "'r \<Rightarrow> Command \<Rightarrow> 'r \<times> bool"
  en_AddPeer :: "string \<Rightarrow> 'r \<Rightarrow> 'r \<times> string option"
  en_RemovePeer :: "string \<Rightarrow> 'r \<Rightarrow> 'r \<times> string option"

record 'r MasterServer =
  ms_Topo :: Topology
  ms_Sequencer :: "'r RaftSequencer"
  ms_fs :: fsys
  ms_Cluster :: ClusterRegistry
  ms_Guard :: Guard
  ms_option :: MasterOption
  ms_growthRequests :: "VolumeGrowOption list"
  ms_isLeader :: bool
  ms_topologyId :: string

definition growth_capacity :: nat where "growth_capacity = 100"

definition ms_raft :: "'r MasterServer \<Rightarrow> 'r" where
  "ms_raft ms = rq_raft (ms_Sequencer ms)"

definition set_raft :: "'r \<Rightarrow> 'r MasterServer \<Rightarrow> 'r MasterServer" where
  "set_raft r ms = ms\<lparr>ms_Sequencer := (ms_Sequencer ms)\<lparr>rq_raft := r\<rparr>\<rparr>"

definition SetMax :: "u64 \<Rightarrow> 'r MasterServer \<Rightarrow> 'r MasterServer" where
  "SetMax m ms = (case RaftSequencer_SetMax (ms_fs ms, ms_Sequencer ms) m of (s, q) \<Rightarrow> ms\<lparr>ms_fs := s, ms_Sequencer := q\<rparr>)"

definition NewMasterServer :: "MasterOption \<Rightarrow> string \<Rightarrow> fsys \<Rightarrow> 'r Engine \<Rightarrow> 'r \<Rightarrow> MasterFSM \<Rightarrow> string \<Rightarrow> 'r MasterServer option" where
  "NewMasterServer opt metaDir s eng r fsm signingKey =
     (case NewRaftSequencer s (metaDir @ ''/sequencer'') 10000 r of
        None \<Rightarrow> None
      | Some q \<Rightarrow>
          let ms = \<lparr>ms_Topo = NewTopology, ms_Sequencer = q, ms_fs = s, ms_Cluster = (\<lambda>_. None), ms_Guard = NewGuard [] signingKey [],
                    ms_option = opt, ms_growthRequests = [], ms_isLeader = False, ms_topologyId = []\<rparr>;
              ms = (if maxFileId fsm > 0 then SetMax (maxFileId fsm) ms else ms);
              ms = (if maxVolumeId fsm > 0 then ms\<lparr>ms_Topo := setMaxVolumeId (maxVolumeId fsm) (ms_Topo ms)\<rparr> else ms);
              ms = (if topologyId fsm \<noteq> [] then ms\<lparr>ms_topologyId := topologyId fsm\<rparr> else ms)
          in Some (ms\<lparr>ms_isLeader := en_IsLeader eng r\<rparr>))"

section \<open>Events\<close>

definition handleFSMEvent :: "StateEvent \<Rightarrow> 'r MasterServer \<Rightarrow> 'r MasterServer" where
  "handleFSMEvent evt ms =
     (case evt of
        EventMaxFileId f \<Rightarrow> SetMax f ms
      | EventMaxVolumeId v \<Rightarrow> ms\<lparr>ms_Topo := setMaxVolumeId v (ms_Topo ms)\<rparr>
      | EventTopologyId t \<Rightarrow> if t \<noteq> [] then ms\<lparr>ms_topologyId := t\<rparr> else ms
      | EventRestored f v t \<Rightarrow>
          let ms = (if f > 0 then SetMax f ms else ms);
              ms = (if v > 0 then ms\<lparr>ms_Topo := setMaxVolumeId v (ms_Topo ms)\<rparr> else ms)
          in if t \<noteq> [] then ms\<lparr>ms_topologyId := t\<rparr> else ms)"

text \<open>\<open>freshId\<close> is the random id of \<open>generateTopologyID\<close>.\<close>

definition handleLeaderEvent :: "'r Engine \<Rightarrow> string \<Rightarrow> bool \<Rightarrow> 'r MasterServer \<Rightarrow> 'r MasterServer" where
  "handleLeaderEvent eng freshId isLeader ms =
     (let ms1 = ms\<lparr>ms_isLeader := isLeader\<rparr> in
      if isLeader \<and> ms_topologyId ms1 = []
      then set_raft (fst (en_Apply eng (ms_raft ms1) (TopologyIdCommand freshId))) ms1
      else ms1)"

definition ms_ReloadSecurityConfig :: "string \<Rightarrow> string \<Rightarrow> 'r MasterServer \<Rightarrow> 'r MasterServer" where
  "ms_ReloadSecurityConfig whiteList key ms = ms\<lparr>ms_Guard := SetSigningKey key (SetWhiteList whiteList (ms_Guard ms))\<rparr>"

text \<open>One turn of \<open>processVolumeGrowRequests\<close>. The callback that replicates a volume id changes the engine beside the
  topology; \<open>persist\<close> is its effect on the topology.\<close>

definition growth_turn ::
  "'r Engine \<Rightarrow> string list \<Rightarrow> (string \<Rightarrow> u32 \<Rightarrow> bool) \<Rightarrow> (u32 \<Rightarrow> Topology \<Rightarrow> bool \<times> Topology) \<Rightarrow> int \<Rightarrow> nat list \<Rightarrow> 'r MasterServer \<Rightarrow> 'r MasterServer" where
  "growth_turn eng dts rpc persist now order ms =
     (case ms_growthRequests ms of
        [] \<Rightarrow> ms
      | req # reqs \<Rightarrow>
          let ms1 = ms\<lparr>ms_growthRequests := reqs\<rparr> in
          if \<not> en_IsLeader eng (ms_raft ms1) then ms1
          else ms1\<lparr>ms_Topo := snd (CheckAndGrow dts rpc persist now order (go_Collection req) (go_ReplicaPlacement req) (go_Ttl req)
                 (go_DiskType req) 1 (ms_Topo ms1))\<rparr>)"

section \<open>HTTP handlers\<close>

text \<open>A request is answered or passed on to the leader.\<close>

datatype master_out = MReply nat json | Proxied string

type_synonym query = "(string \<times> string) list"

definition q_Get :: "string \<Rightarrow> query \<Rightarrow> string" where
  "q_Get key q = (case map_of q key of None \<Rightarrow> [] | Some v \<Rightarrow> v)"

text \<open>\<open>strconv.Atoi\<close> for the port of an address.\<close>

definition Atoi :: "string \<Rightarrow> int option" where
  "Atoi s =
     (let digits = (if take 1 s = ''-'' \<or> take 1 s = ''+'' then drop 1 s else s) in
      case parse_uint digits 10 63 of
        None \<Rightarrow> None
      | Some n \<Rightarrow> Some (if take 1 s = ''-'' then - int n else int n))"

definition leaderToHTTPAddress :: "string \<Rightarrow> string" where
  "leaderToHTTPAddress addr =
     (case VolumeGrowth.SplitHostPort addr of
        None \<Rightarrow> addr
      | Some (host, portStr) \<Rightarrow>
          (case Atoi portStr of
             None \<Rightarrow> addr
           | Some port \<Rightarrow>
               if port \<ge> 10000 then JoinHostPort host (format_uint 10 (nat (port - 10000)))
               else if CHR ''.'' \<in> set addr then ToHttpAddress addr
               else addr))"

definition error_json :: "string \<Rightarrow> json" where
  "error_json msg = JObj [(''error'', JStr msg)]"

text \<open>\<open>valid\<close> tells whether the URL library accepts the address.\<close>

definition proxyToLeader :: "(string \<Rightarrow> bool) \<Rightarrow> 'r Engine \<Rightarrow> 'r MasterServer \<Rightarrow> master_out" where
  "proxyToLeader valid eng ms =
     (let leader = en_LeaderAddress eng (ms_raft ms) in
      if leader = [] then MReply 503 (error_json ''no leader available'')
      else let url = ''http://'' @ leaderToHTTPAddress leader in
        if valid url then Proxied url else MReply 503 (error_json ''invalid leader address''))"

definition assign_json :: "string \<Rightarrow> string \<Rightarrow> string \<Rightarrow> u64 \<Rightarrow> string \<Rightarrow> string \<Rightarrow> json" where
  "assign_json fid url publicUrl count auth err =
     JObj ([(''fid'', JStr fid), (''url'', JStr url), (''publicUrl'', JStr publicUrl), (''count'', JNum (uint count)), (''auth'', JStr auth)] @
       (if err = [] then [] else [(''error'', JStr err)]))"

text \<open>The address of the first location and its public form.\<close>

definition first_url :: "Topology \<Rightarrow> VolumeLocation list \<Rightarrow> string \<times> string" where
  "first_url t locations =
     (case Option.bind (case locations of [] \<Rightarrow> None | l # _ \<Rightarrow> vloc_DataNode l) (\<lambda>(a, _). tp_heap t a) of
        None \<Rightarrow> ([], [])
      | Some dn \<Rightarrow> (dn_url dn, if dn_publicUrl dn = [] then dn_url dn else dn_publicUrl dn))"

definition GetOrCreateVolumeLayout :: "string \<Rightarrow> string \<Rightarrow> string \<Rightarrow> string \<Rightarrow> Topology \<Rightarrow> VolumeLayout \<times> Topology" where
  "GetOrCreateVolumeLayout c r t d tp =
     (let vl = GetOrCreateLayout c r t d (tp_layouts tp) in (vl, tp\<lparr>tp_layouts := (tp_layouts tp)(makeKey c r t d \<mapsto> vl)\<rparr>))"

definition request_growth :: "VolumeGrowOption \<Rightarrow> 'r MasterServer \<Rightarrow> bool \<times> 'r MasterServer" where
  "request_growth opt ms =
     (if length (ms_growthRequests ms) < growth_capacity then (True, ms\<lparr>ms_growthRequests := ms_growthRequests ms @ [opt]\<rparr>) else (False, ms))"

definition zero_placement :: ReplicaPlacement where
  "zero_placement = \<lparr>DifferentDataCenterCount = 0, DifferentRackCount = 0, SameRackCount = 0\<rparr>"

text \<open>\<open>evts\<close> are the events that arrive while the sequencer waits for the engine.\<close>

definition next_file_id :: "'r Engine \<Rightarrow> u64 list \<Rightarrow> u64 \<Rightarrow> 'r MasterServer \<Rightarrow> u64 \<times> 'r MasterServer" where
  "next_file_id eng evts count ms =
     (case RaftSequencer_NextFileId (\<lambda>r m. en_Apply eng r (MaxFileIdCommand m)) evts (ms_fs ms, ms_Sequencer ms) count of
        (i, s, q) \<Rightarrow> (i, ms\<lparr>ms_fs := s, ms_Sequencer := q\<rparr>))"

text \<open>What an assignment depends on besides the request and the state: the clock, the order in which the map of
  writable volumes is iterated, the random cookie, the events, and the signer of tokens.\<close>

record assign_env =
  ae_now :: int
  ae_order :: "u32 list"
  ae_cookie :: u32
  ae_evts :: "u64 list"
  ae_sign :: "string \<Rightarrow> int \<Rightarrow> string"

definition assigned_fid :: "u32 \<Rightarrow> u64 \<Rightarrow> u32 \<Rightarrow> string" where
  "assigned_fid vid needleId cookie = FileId_String \<lparr>fid_VolumeId = vid, fid_NeedleId = needleId, fid_Cookie = cookie\<rparr>"

definition ms_auth :: "assign_env \<Rightarrow> 'r MasterServer \<Rightarrow> string" where
  "ms_auth env ms = (if HasJWTSigningKey (ms_Guard ms) then ae_sign env (g_signingKey (ms_Guard ms)) (mo_JwtExpireSeconds (ms_option ms)) else [])"

definition handleAssign :: "(string \<Rightarrow> bool) \<Rightarrow> 'r Engine \<Rightarrow> assign_env \<Rightarrow> query \<Rightarrow> 'r MasterServer \<Rightarrow> master_out \<times> 'r MasterServer" where
  "handleAssign valid eng env q ms =
     (if \<not> en_IsLeader eng (ms_raft ms) then (proxyToLeader valid eng ms, ms)
      else
        let count = (case parse_uint (q_Get ''count'' q) 10 64 of None \<Rightarrow> 1 | Some c \<Rightarrow> of_nat c);
            collection = q_Get ''collection'' q;
            replication = (if q_Get ''replication'' q = [] then mo_DefaultReplication (ms_option ms) else q_Get ''replication'' q);
            ttl = q_Get ''ttl'' q; diskType = q_Get ''diskType'' q;
            (vl, topo) = GetOrCreateVolumeLayout collection replication ttl diskType (ms_Topo ms);
            ms1 = ms\<lparr>ms_Topo := topo\<rparr> in
        case PickForWrite (tp_heap topo) (ae_now env) (q_Get ''dataCenter'' q) (q_Get ''rack'' q) (ae_order env) vl of
          None \<Rightarrow>
            (MReply 503 (assign_json [] [] [] 0 [] ''no writable volumes available''),
             snd (request_growth \<lparr>go_Collection = collection, go_ReplicaPlacement = zero_placement, go_Ttl = ttl, go_DiskType = diskType\<rparr> ms1))
        | Some (vid, locations) \<Rightarrow>
            (case next_file_id eng (ae_evts env) count ms1 of
               (needleId, ms2) \<Rightarrow>
                 (case first_url (ms_Topo ms2) locations of
                    (url, publicUrl) \<Rightarrow>
                      (MReply 200 (assign_json (assigned_fid vid needleId (ae_cookie env)) url publicUrl count (ms_auth env ms2) []), ms2))))"

definition location_json :: "pb_VolumeLocation \<Rightarrow> json" where
  "location_json loc = JObj [(''url'', JStr (pl_Url loc)), (''publicUrl'', JStr (pl_PublicUrl loc))]"

definition lookup_json :: "string \<Rightarrow> json \<Rightarrow> string \<Rightarrow> json" where
  "lookup_json vid locs err =
     JObj ((if vid = [] then [] else [(''volumeId'', JStr vid)]) @ [(''locations'', locs)] @ (if err = [] then [] else [(''error'', JStr err)]))"

text \<open>\<open>order\<close> is the order in which the layouts are iterated.\<close>

definition handleLookup :: "(string \<Rightarrow> bool) \<Rightarrow> 'r Engine \<Rightarrow> string list \<Rightarrow> query \<Rightarrow> 'r MasterServer \<Rightarrow> master_out" where
  "handleLookup valid eng order q ms =
     (if \<not> en_IsLeader eng (ms_raft ms) then proxyToLeader valid eng ms
      else let vidStr = q_Get ''volumeId'' q in
        if vidStr = [] then MReply 400 (lookup_json [] JNull ''missing volumeId parameter'')
        else case parse_uint vidStr 10 32 of
          None \<Rightarrow> MReply 400 (lookup_json [] JNull ''invalid volumeId'')
        | Some vid \<Rightarrow> MReply 200 (lookup_json vidStr (JArr (map location_json (LookupVolumeLocation order (ms_Topo ms) (of_nat vid)))) []))"

definition DefaultDiskType :: string where "DefaultDiskType = []"

fun request_many :: "nat \<Rightarrow> VolumeGrowOption \<Rightarrow> 'r MasterServer \<Rightarrow> bool \<times> 'r MasterServer" where
  "request_many 0 opt ms = (True, ms)"
| "request_many (Suc k) opt ms = (case request_growth opt ms of (True, ms1) \<Rightarrow> request_many k opt ms1 | (False, ms1) \<Rightarrow> (False, ms1))"

definition handleVolGrow :: "(string \<Rightarrow> bool) \<Rightarrow> 'r Engine \<Rightarrow> query \<Rightarrow> 'r MasterServer \<Rightarrow> master_out \<times> 'r MasterServer" where
  "handleVolGrow valid eng q ms =
     (if \<not> en_IsLeader eng (ms_raft ms) then (proxyToLeader valid eng ms, ms)
      else
        let replication = (if q_Get ''replication'' q = [] then mo_DefaultReplication (ms_option ms) else q_Get ''replication'' q);
            count = (case parse_uint (q_Get ''count'' q) 10 64 of None \<Rightarrow> 1 | Some c \<Rightarrow> if c > 0 then c else 1) in
        case request_many count \<lparr>go_Collection = q_Get ''collection'' q, go_ReplicaPlacement = ParseReplicaPlacementString replication,
               go_Ttl = q_Get ''ttl'' q, go_DiskType = DefaultDiskType\<rparr> ms of
          (True, ms1) \<Rightarrow> (MReply 200 (JObj [(''status'', JStr ''ok'')]), ms1)
        | (False, ms1) \<Rightarrow> (MReply 503 (error_json ''volume growth channel full''), ms1))"

definition handleVacuum :: "(string \<Rightarrow> bool) \<Rightarrow> 'r Engine \<Rightarrow> 'r MasterServer \<Rightarrow> master_out" where
  "handleVacuum valid eng ms =
     (if \<not> en_IsLeader eng (ms_raft ms) then proxyToLeader valid eng ms else MReply 200 (JObj [(''status'', JStr ''ok'')]))"

text \<open>The body of a request that changes the peers, decoded; none when it is not JSON.\<close>

definition handlePeer ::
  "(string \<Rightarrow> 'r \<Rightarrow> 'r \<times> string option) \<Rightarrow> (string \<Rightarrow> bool) \<Rightarrow> 'r Engine \<Rightarrow> json option \<Rightarrow> 'r MasterServer \<Rightarrow> master_out \<times> 'r MasterServer" where
  "handlePeer change valid eng body ms =
     (if \<not> en_IsLeader eng (ms_raft ms) then (proxyToLeader valid eng ms, ms)
      else case Option.bind body (\<lambda>j. Option.bind (json_field ''addr'' j) json_string) of
        None \<Rightarrow> (MReply 400 (error_json ''addr required''), ms)
      | Some addr \<Rightarrow>
          if addr = [] then (MReply 400 (error_json ''addr required''), ms)
          else case change addr (ms_raft ms) of
            (r, Some err) \<Rightarrow> (MReply 500 (error_json err), set_raft r ms)
          | (r, None) \<Rightarrow> (MReply 200 (JObj [(''addr'', JStr addr), (''status'', JStr ''ok'')]), set_raft r ms))"

definition handleAddPeer :: "(string \<Rightarrow> bool) \<Rightarrow> 'r Engine \<Rightarrow> json option \<Rightarrow> 'r MasterServer \<Rightarrow> master_out \<times> 'r MasterServer" where
  "handleAddPeer valid eng = handlePeer (en_AddPeer eng) valid eng"

definition handleRemovePeer :: "(string \<Rightarrow> bool) \<Rightarrow> 'r Engine \<Rightarrow> json option \<Rightarrow> 'r MasterServer \<Rightarrow> master_out \<times> 'r MasterServer" where
  "handleRemovePeer valid eng = handlePeer (en_RemovePeer eng) valid eng"

section \<open>The gRPC service\<close>

record HeartbeatResponse =
  hr_VolumeSizeLimit :: u64
  hr_Leader :: string

definition size_limit_bytes :: "'r MasterServer \<Rightarrow> u64" where
  "size_limit_bytes ms = ucast (mo_VolumeSizeLimitMB (ms_option ms)) * 1024 * 1024"

text \<open>One turn of the stream of heartbeats. \<open>known\<close> enumerates the volumes the node had.\<close>

definition SendHeartbeat :: "'r Engine \<Rightarrow> int \<Rightarrow> u32 list \<Rightarrow> Heartbeat \<Rightarrow> 'r MasterServer \<Rightarrow> HeartbeatResponse \<times> 'r MasterServer" where
  "SendHeartbeat eng now known hb ms =
     (let ms1 = ms\<lparr>ms_Topo := ProcessJoinMessage now known hb (ms_Topo ms)\<rparr> in
      (\<lparr>hr_VolumeSizeLimit = size_limit_bytes ms1, hr_Leader = en_LeaderAddress eng (ms_raft ms1)\<rparr>, ms1))"

text \<open>A turn of the stream of a client: the address of the client that the stream knows, and what arrives, nothing
  when the stream ends. The result has the leader named to the client.\<close>

fun KeepConnected :: "'r Engine \<Rightarrow> int \<Rightarrow> string \<Rightarrow> KeepConnectedRequest option \<Rightarrow> 'r MasterServer \<Rightarrow> string \<times> string option \<times> 'r MasterServer" where
  "KeepConnected eng now clientAddr None ms =
     (clientAddr, None, if clientAddr \<noteq> [] then ms\<lparr>ms_Cluster := Unregister clientAddr (ms_Cluster ms)\<rparr> else ms)"
| "KeepConnected eng now clientAddr (Some req) ms =
     (if kc_ClientType req \<noteq> [] \<and> kc_ClientAddress req \<noteq> []
      then (kc_ClientAddress req, Some (en_LeaderAddress eng (ms_raft ms)), ms\<lparr>ms_Cluster := Register now req (ms_Cluster ms)\<rparr>)
      else (clientAddr, Some (en_LeaderAddress eng (ms_raft ms)), ms))"

record AssignRequest =
  ar_Count :: u64
  ar_Replication :: string
  ar_Collection :: string
  ar_Ttl :: string
  ar_DiskType :: string

record AssignResponse =
  as_Fid :: string
  as_Url :: string
  as_PublicUrl :: string
  as_Count :: u64
  as_Auth :: string
  as_Error :: string

datatype master_status = FailedPrecondition

definition grpc_Assign :: "'r Engine \<Rightarrow> assign_env \<Rightarrow> AssignRequest \<Rightarrow> 'r MasterServer \<Rightarrow> (master_status + AssignResponse) \<times> 'r MasterServer" where
  "grpc_Assign eng env req ms =
     (if \<not> en_IsLeader eng (ms_raft ms) then (Inl FailedPrecondition, ms)
      else
        let replication = (if ar_Replication req = [] then mo_DefaultReplication (ms_option ms) else ar_Replication req);
            (vl, topo) = GetOrCreateVolumeLayout (ar_Collection req) replication (ar_Ttl req) (ar_DiskType req) (ms_Topo ms);
            ms1 = ms\<lparr>ms_Topo := topo\<rparr> in
        case PickForWrite (tp_heap topo) (ae_now env) [] [] (ae_order env) vl of
          None \<Rightarrow> (Inr \<lparr>as_Fid = [], as_Url = [], as_PublicUrl = [], as_Count = 0, as_Auth = [], as_Error = ''no writable volumes available''\<rparr>, ms1)
        | Some (vid, locations) \<Rightarrow>
            (case next_file_id eng (ae_evts env) (ar_Count req) ms1 of
               (needleId, ms2) \<Rightarrow>
                 (case first_url (ms_Topo ms2) locations of
                    (url, publicUrl) \<Rightarrow>
                      (Inr \<lparr>as_Fid = assigned_fid vid needleId (ae_cookie env), as_Url = url, as_PublicUrl = publicUrl, as_Count = ar_Count req,
                            as_Auth = ms_auth env ms2, as_Error = []\<rparr>, ms2))))"

datatype vid_error = EmptyVolumeOrFileId | InvalidVolumeId string

definition parseVolumeOrFileID :: "string \<Rightarrow> vid_error + VolumeId" where
  "parseVolumeOrFileID s =
     (if s = [] then Inl EmptyVolumeOrFileId
      else case ParseFileId s of
        Inr fid \<Rightarrow> Inr (fid_VolumeId fid)
      | Inl _ \<Rightarrow> (case parse_uint s 10 32 of None \<Rightarrow> Inl (InvalidVolumeId s) | Some v \<Rightarrow> Inr (of_nat v)))"

datatype volume_id_locations = LocError vid_error | LocNotFound | Locations "(string \<times> string \<times> string) list"

definition lookup_item :: "string list \<Rightarrow> Topology \<Rightarrow> string \<Rightarrow> volume_id_locations" where
  "lookup_item order t item =
     (case parseVolumeOrFileID item of
        Inl e \<Rightarrow> LocError e
      | Inr vid \<Rightarrow>
          let locs = LookupVolumeLocation order t vid in
          if locs = [] then LocNotFound else Locations (map (\<lambda>l. (pl_Url l, pl_PublicUrl l, pl_DataCenter l)) locs))"

definition master_LookupVolume :: "string list \<Rightarrow> string list \<Rightarrow> 'r MasterServer \<Rightarrow> string \<Rightarrow> volume_id_locations option" where
  "master_LookupVolume order items ms = fold (\<lambda>item m. m(item \<mapsto> lookup_item order (ms_Topo ms) item)) items (\<lambda>_. None)"

record MasterConfiguration =
  cf_MetricsAddress :: string
  cf_VolumeSizeLimit :: u64
  cf_DefaultReplication :: string
  cf_Leader :: string

definition GetMasterConfiguration :: "'r Engine \<Rightarrow> 'r MasterServer \<Rightarrow> MasterConfiguration" where
  "GetMasterConfiguration eng ms =
     \<lparr>cf_MetricsAddress = mo_Host (ms_option ms) @ '':'' @ (if mo_Port (ms_option ms) < 0 then ''-'' else []) @ format_uint 10 (nat \<bar>mo_Port (ms_option ms)\<bar>),
      cf_VolumeSizeLimit = size_limit_bytes ms, cf_DefaultReplication = mo_DefaultReplication (ms_option ms),
      cf_Leader = en_LeaderAddress eng (ms_raft ms)\<rparr>"

section \<open>The list of volumes\<close>

record pb_DiskInfo =
  pd_Type :: string
  pd_VolumeInfos :: "VolumeInformation list"
  pd_MaxVolumeCount :: u64
  pd_FreeVolumeCount :: u64

record DataNodeInfo =
  ni_Id :: string
  ni_PublicUrl :: string
  ni_FreeVolumeCount :: u64
  ni_ActiveVolumeCount :: nat
  ni_DiskInfos :: "pb_DiskInfo list"

definition disk_of :: "VolumeInformation \<Rightarrow> string" where
  "disk_of vol = (if vi_DiskType vol = [] then DefaultDiskType else vi_DiskType vol)"

text \<open>The volumes and the disk types of a node are listed in the order of its maps; the disks are then sorted.\<close>

definition node_info :: "u32 list \<Rightarrow> string list \<Rightarrow> DataNode \<Rightarrow> DataNodeInfo" where
  "node_info vids dts dn =
     (let volumes = List.map_filter (dn_volumes dn) vids;
          slots = GetFreeVolumeSlots dn;
          keys = sort (remdups (map disk_of volumes @ filter (\<lambda>dt. slots dt \<noteq> None) dts));
          free = (\<lambda>dt. case slots dt of Some n \<Rightarrow> if n > 0 then of_int n else 0 | None \<Rightarrow> 0) in
      \<lparr>ni_Id = dn_id dn, ni_PublicUrl = dn_publicUrl dn,
       ni_FreeVolumeCount = sum_list (map free dts),
       ni_ActiveVolumeCount = length volumes,
       ni_DiskInfos = map (\<lambda>dt. \<lparr>pd_Type = dt, pd_VolumeInfos = filter (\<lambda>vol. disk_of vol = dt) volumes,
          pd_MaxVolumeCount = (case dn_disks dn dt of None \<Rightarrow> 0 | Some d \<Rightarrow> ucast (di_maxVolumeCount d)),
          pd_FreeVolumeCount = free dt\<rparr>) keys\<rparr>)"

text \<open>The tree as it is answered: ids of data centers, of their racks, and the nodes, each level sorted.\<close>

definition VolumeList ::
  "string list \<Rightarrow> (string \<Rightarrow> string list) \<Rightarrow> (string \<Rightarrow> string \<Rightarrow> string list) \<Rightarrow> (nat \<Rightarrow> u32 list) \<Rightarrow> (nat \<Rightarrow> string list) \<Rightarrow> 'r MasterServer \<Rightarrow>
   (string \<times> (string \<times> DataNodeInfo list) list) list" where
  "VolumeList dcs racks nodes vids dts ms =
     (let t = ms_Topo ms in
      sort_key fst (List.map_filter (\<lambda>d. map_option (\<lambda>dc. (d,
        sort_key fst (List.map_filter (\<lambda>r. map_option (\<lambda>rack. (r,
          sort_key ni_Id (List.map_filter (\<lambda>i. Option.bind (rk_nodes rack i) (\<lambda>a. map_option (node_info (vids a) (dts a)) (tp_heap t a)))
            (nodes d r)))) (dc_racks dc r)) (racks d)))) (tp_dcs t d)) dcs))"

end
