(* ===== verification/MasterProps.thy ===== *)
theory MasterProps
  imports MasterServer SequencerProps Operation
begin

text \<open>What the master promises of the file ids it assigns.\<close>

section \<open>The counter of the sequencer\<close>

definition seq_max :: "'r MasterServer \<Rightarrow> u64" where
  "seq_max ms = raftseq_getMax (ms_fs ms, ms_Sequencer ms)"

lemma next_file_id_seq:
  assumes "next_file_id eng evts n ms = (i, ms')"
  shows "i \<noteq> 0 \<Longrightarrow> seq_max ms < i" "seq_max ms' = i + (batch n - 1)"
proof -
  let ?app = "\<lambda>r m. en_Apply eng r (MaxFileIdCommand m)"
  obtain s q where run: "RaftSequencer_NextFileId ?app evts (ms_fs ms, ms_Sequencer ms) n = (i, s, q)"
    and ms': "ms' = ms\<lparr>ms_fs := s, ms_Sequencer := q\<rparr>"
    using assms by (auto simp: next_file_id_def split: prod.splits)
  show "i \<noteq> 0 \<Longrightarrow> seq_max ms < i" using raftseq.next_first [of ?app "\<lambda>_ _. evts", OF run] by (simp add: seq_max_def)
  show "seq_max ms' = i + (batch n - 1)" using raftseq.next_max [of ?app "\<lambda>_ _. evts", OF run] by (simp add: seq_max_def ms')
qed

lemma seq_max_SetMax [simp]: "seq_max (SetMax m ms) = max (seq_max ms) m"
  using raftseq.set_max [of "(ms_fs ms, ms_Sequencer ms)" m] by (simp add: seq_max_def SetMax_def case_prod_beta)

lemma seq_max_set_raft [simp]: "seq_max (set_raft r ms) = seq_max ms"
  by (simp add: seq_max_def set_raft_def raftseq_getMax_def)

lemma seq_max_same [simp]:
  "seq_max (ms\<lparr>ms_Topo := t\<rparr>) = seq_max ms" "seq_max (ms\<lparr>ms_topologyId := i\<rparr>) = seq_max ms" "seq_max (ms\<lparr>ms_growthRequests := g\<rparr>) = seq_max ms"
  "seq_max (ms\<lparr>ms_isLeader := l\<rparr>) = seq_max ms" "seq_max (ms\<lparr>ms_Guard := gd\<rparr>) = seq_max ms" "seq_max (ms\<lparr>ms_Cluster := c\<rparr>) = seq_max ms"
  by (simp_all add: seq_max_def)

lemma seq_max_event: "seq_max ms \<le> seq_max (handleFSMEvent evt ms)"
  by (cases evt) (simp_all add: handleFSMEvent_def Let_def)

lemma seq_max_request_growth [simp]: "seq_max (snd (request_growth opt ms)) = seq_max ms"
  by (simp add: request_growth_def)

lemma seq_max_request_many [simp]: "seq_max (snd (request_many k opt ms)) = seq_max ms"
proof (induction k arbitrary: ms)
  case (Suc k)
  obtain b ms1 where r: "request_growth opt ms = (b, ms1)" by (metis prod.collapse)
  then have "seq_max ms1 = seq_max ms" using seq_max_request_growth [of opt ms] by simp
  then show ?case using Suc [of ms1] r by (cases b) simp_all
qed simp

section \<open>Runs\<close>

text \<open>What an answer hands out, as the client decodes it: a file id and how many ids from it on belong to the caller.\<close>

fun http_issued :: "master_out \<Rightarrow> (string \<times> u64) list" where
  "http_issued (MReply code j) =
     (case AssignedFileId_UnmarshalJSON j of Some a \<Rightarrow> if code = 200 then [(af_Fid a, af_Count a)] else [] | None \<Rightarrow> [])"
| "http_issued (Proxied _) = []"

fun grpc_issued :: "master_status + AssignResponse \<Rightarrow> (string \<times> u64) list" where
  "grpc_issued (Inr resp) = (if as_Error resp = [] then [(as_Fid resp, as_Count resp)] else [])"
| "grpc_issued (Inl _) = []"

definition ids_of :: "string \<times> u64 \<Rightarrow> nat set" where
  "ids_of g = (case ParseFileId (fst g) of
     Inr f \<Rightarrow> {unat (fid_NeedleId f) ..< unat (fid_NeedleId f) + unat (batch (snd g))} | Inl _ \<Rightarrow> {})"

text \<open>The ids have not run past 64 bits.\<close>

definition fits64 :: "string \<times> u64 \<Rightarrow> bool" where
  "fits64 g \<longleftrightarrow> (case ParseFileId (fst g) of
     Inr f \<Rightarrow> fid_NeedleId f \<noteq> 0 \<and> unat (fid_NeedleId f) + unat (batch (snd g)) \<le> 2 ^ 64 | Inl _ \<Rightarrow> True)"

text \<open>Everything that changes a master, with what it hands out.\<close>

inductive master_step :: "(string \<Rightarrow> bool) \<Rightarrow> 'r Engine \<Rightarrow> 'r MasterServer \<Rightarrow> (string \<times> u64) list \<Rightarrow> 'r MasterServer \<Rightarrow> bool"
  for valid eng where
  assign: "handleAssign valid eng env q ms = (out, ms') \<Longrightarrow> master_step valid eng ms (http_issued out) ms'"
| rpc_assign: "grpc_Assign eng env req ms = (res, ms') \<Longrightarrow> master_step valid eng ms (grpc_issued res) ms'"
| grow: "handleVolGrow valid eng q ms = (out, ms') \<Longrightarrow> master_step valid eng ms [] ms'"
| add_peer: "handleAddPeer valid eng body ms = (out, ms') \<Longrightarrow> master_step valid eng ms [] ms'"
| remove_peer: "handleRemovePeer valid eng body ms = (out, ms') \<Longrightarrow> master_step valid eng ms [] ms'"
| heartbeat: "SendHeartbeat eng now known hb ms = (resp, ms') \<Longrightarrow> master_step valid eng ms [] ms'"
| connected: "KeepConnected eng now addr req ms = (addr', leader, ms') \<Longrightarrow> master_step valid eng ms [] ms'"
| event: "master_step valid eng ms [] (handleFSMEvent evt ms)"
| leader: "master_step valid eng ms [] (handleLeaderEvent eng fresh isLeader ms)"
| growth: "master_step valid eng ms [] (growth_turn eng dts rpc persist now order ms)"
| reload: "master_step valid eng ms [] (ms_ReloadSecurityConfig whiteList key ms)"

inductive master_run :: "(string \<Rightarrow> bool) \<Rightarrow> 'r Engine \<Rightarrow> 'r MasterServer \<Rightarrow> (string \<times> u64) list \<Rightarrow> 'r MasterServer \<Rightarrow> bool"
  for valid eng ms0 where
  start: "master_run valid eng ms0 [] ms0"
| step: "master_run valid eng ms0 gs ms \<Longrightarrow> master_step valid eng ms new ms' \<Longrightarrow> list_all fits64 new \<Longrightarrow>
    master_run valid eng ms0 (gs @ new) ms'"

section \<open>Each step and the counter\<close>

lemma assign_decoded:
  assumes "fid \<noteq> []"
  shows "AssignedFileId_UnmarshalJSON (assign_json fid url pub n auth []) =
    Some \<lparr>af_Fid = fid, af_Url = url, af_PublicUrl = pub, af_Count = n, af_Auth = auth, af_Error = []\<rparr>"
  using assms uint_lt2p [of n]
  by (simp add: AssignedFileId_UnmarshalJSON_def assign_json_def json_text_def json_field_def json_string_def json_uint_def)

lemma ParseFileId_assigned [simp]:
  "ParseFileId (assigned_fid vid i c) = Inr \<lparr>fid_VolumeId = vid, fid_NeedleId = i, fid_Cookie = c\<rparr>"
  unfolding assigned_fid_def by (rule ParseFileId_String)

lemma assigned_fid_nonempty [simp]: "assigned_fid vid i c \<noteq> []"
  by (simp add: assigned_fid_def FileId_String_def)

text \<open>A step hands out nothing and does not lower the counter, or hands out the ids of one allocation.\<close>

definition allocation :: "'r MasterServer \<Rightarrow> (string \<times> u64) list \<Rightarrow> 'r MasterServer \<Rightarrow> bool" where
  "allocation ms new ms' \<longleftrightarrow> (\<exists>vid i c n. new = [(assigned_fid vid i c, n)] \<and> (i \<noteq> 0 \<longrightarrow> seq_max ms < i) \<and> seq_max ms' = i + (batch n - 1))"

definition counted :: "'r MasterServer \<Rightarrow> (string \<times> u64) list \<Rightarrow> 'r MasterServer \<Rightarrow> bool" where
  "counted ms new ms' \<longleftrightarrow> new = [] \<and> seq_max ms \<le> seq_max ms' \<or> allocation ms new ms'"

lemma allocationI:
  assumes "next_file_id eng evts n (ms\<lparr>ms_Topo := topo\<rparr>) = (i, ms')"
  shows "allocation ms [(assigned_fid vid i c, n)] ms'"
  using next_file_id_seq [OF assms] by (auto simp: allocation_def)

lemma http_issued_proxy [simp]: "http_issued (proxyToLeader valid eng ms) = []"
  by (auto simp: proxyToLeader_def Let_def split: option.splits)

lemma handleAssign_counted:
  assumes "handleAssign valid eng env q ms = (out, ms')"
  shows "counted ms (http_issued out) ms'"
proof (cases "en_IsLeader eng (ms_raft ms)")
  case False
  then show ?thesis using assms by (auto simp: handleAssign_def counted_def)
next
  case leader: True
  let ?n = "(case parse_uint (q_Get ''count'' q) 10 64 of None \<Rightarrow> 1 | Some c \<Rightarrow> of_nat c) :: u64"
  let ?r = "if q_Get ''replication'' q = [] then mo_DefaultReplication (ms_option ms) else q_Get ''replication'' q"
  obtain vl topo where l: "GetOrCreateVolumeLayout (q_Get ''collection'' q) ?r (q_Get ''ttl'' q) (q_Get ''diskType'' q) (ms_Topo ms) = (vl, topo)"
    by (metis prod.collapse)
  show ?thesis
  proof (cases "PickForWrite (tp_heap topo) (ae_now env) (q_Get ''dataCenter'' q) (q_Get ''rack'' q) (ae_order env) vl")
    case None
    then have "\<exists>j opt. out = MReply 503 j \<and> ms' = snd (request_growth opt (ms\<lparr>ms_Topo := topo\<rparr>))"
      using assms leader l by (auto simp: handleAssign_def Let_def)
    then show ?thesis by (auto simp: counted_def split: option.splits)
  next
    case (Some p)
    obtain vid locs where p: "p = (vid, locs)" by (cases p)
    obtain i ms2 where nx: "next_file_id eng (ae_evts env) ?n (ms\<lparr>ms_Topo := topo\<rparr>) = (i, ms2)" by (metis prod.collapse)
    obtain url pub where u: "first_url (ms_Topo ms2) locs = (url, pub)" by (metis prod.collapse)
    have "out = MReply 200 (assign_json (assigned_fid vid i (ae_cookie env)) url pub ?n (ms_auth env ms2) []) \<and> ms' = ms2"
      using assms leader l Some p nx u by (auto simp: handleAssign_def Let_def)
    then show ?thesis using allocationI [OF nx] by (simp add: counted_def assign_decoded)
  qed
qed

lemma grpc_Assign_counted:
  assumes "grpc_Assign eng env req ms = (res, ms')"
  shows "counted ms (grpc_issued res) ms'"
proof -
  let ?r = "if ar_Replication req = [] then mo_DefaultReplication (ms_option ms) else ar_Replication req"
  obtain vl topo where l: "GetOrCreateVolumeLayout (ar_Collection req) ?r (ar_Ttl req) (ar_DiskType req) (ms_Topo ms) = (vl, topo)"
    by (metis prod.collapse)
  obtain i ms2 where nx: "next_file_id eng (ae_evts env) (ar_Count req) (ms\<lparr>ms_Topo := topo\<rparr>) = (i, ms2)" by (metis prod.collapse)
  show ?thesis
  proof (cases "en_IsLeader eng (ms_raft ms) \<and> PickForWrite (tp_heap topo) (ae_now env) [] [] (ae_order env) vl \<noteq> None")
    case True
    then obtain vid locs where "PickForWrite (tp_heap topo) (ae_now env) [] [] (ae_order env) vl = Some (vid, locs)" by auto
    then have "grpc_issued res = [(assigned_fid vid i (ae_cookie env), ar_Count req)] \<and> ms' = ms2"
      using assms True l nx by (auto simp: grpc_Assign_def Let_def split: prod.splits)
    then show ?thesis using allocationI [OF nx] by (simp add: counted_def)
  next
    case False
    then have "grpc_issued res = [] \<and> seq_max ms' = seq_max ms"
      using assms l by (auto simp: grpc_Assign_def Let_def split: if_splits option.splits)
    then show ?thesis by (simp add: counted_def)
  qed
qed

lemma handlePeer_seq: "handlePeer change valid eng body ms = (out, ms') \<Longrightarrow> seq_max ms' = seq_max ms"
  by (auto simp: handlePeer_def split: if_splits option.splits prod.splits)

lemma handleVolGrow_seq: "handleVolGrow valid eng q ms = (out, ms') \<Longrightarrow> seq_max ms' = seq_max ms"
  by (auto simp: handleVolGrow_def Let_def split: if_splits prod.splits bool.splits dest!: arg_cong [where f = "\<lambda>r. seq_max (snd r)"])

lemma KeepConnected_seq: "KeepConnected eng now addr req ms = (addr', leader, ms') \<Longrightarrow> seq_max ms' = seq_max ms"
  by (cases req) (auto split: if_splits)

lemma master_step_counted: "master_step valid eng ms new ms' \<Longrightarrow> counted ms new ms'"
proof (induction rule: master_step.induct)
  case (event ms evt)
  then show ?case using seq_max_event by (auto simp: counted_def)
next
  case (growth ms dts rpc persist now order)
  then show ?case by (auto simp: counted_def growth_turn_def Let_def split: list.splits)
qed (auto simp: handleAssign_counted grpc_Assign_counted, auto simp: counted_def handleAddPeer_def handleRemovePeer_def SendHeartbeat_def
       handleLeaderEvent_def ms_ReloadSecurityConfig_def Let_def dest: handlePeer_seq handleVolGrow_seq KeepConnected_seq)

lemma allocation_ids:
  assumes "allocation ms new ms'" "list_all fits64 new"
  obtains g where "new = [g]" "ids_of g \<noteq> {}" "ids_of g \<subseteq> {unat (seq_max ms) <.. unat (seq_max ms')}"
proof -
  obtain vid i c n where new: "new = [(assigned_fid vid i c, n)]" and i: "i \<noteq> 0 \<longrightarrow> seq_max ms < i"
    and m: "seq_max ms' = i + (batch n - 1)" using assms(1) by (auto simp: allocation_def)
  have w: "i \<noteq> 0" "unat i + unat (batch n) \<le> 2 ^ 64" using assms(2) new by (simp_all add: fits64_def)
  have b: "0 < unat (batch n)" by (simp add: batch_def unat_gt_0)
  then have b1: "unat (batch n - 1) = unat (batch n) - 1" by (subst unat_minus_one) (auto simp: batch_def)
  have "unat (seq_max ms') = unat i + unat (batch n) - 1" using m w b b1 by (simp add: unat_word_ariths)
  moreover have "unat (seq_max ms) < unat i" using i w by (simp add: word_less_nat_alt)
  ultimately have "ids_of (assigned_fid vid i c, n) \<subseteq> {unat (seq_max ms) <.. unat (seq_max ms')}" by (auto simp: ids_of_def)
  then show thesis using that new b by (simp add: ids_of_def)
qed

lemma master_run_ids:
  "master_run valid eng ms0 gs ms \<Longrightarrow>
   unat (seq_max ms0) \<le> unat (seq_max ms) \<and>
   (\<forall>g \<in> set gs. ids_of g \<noteq> {} \<and> ids_of g \<subseteq> {unat (seq_max ms0) <.. unat (seq_max ms)}) \<and>
   sorted_wrt (\<lambda>g h. \<forall>a \<in> ids_of g. \<forall>b \<in> ids_of h. a < b) gs"
proof (induction rule: master_run.induct)
  case (step gs ms new ms')
  consider "new = []" "unat (seq_max ms) \<le> unat (seq_max ms')" | "allocation ms new ms'"
    using master_step_counted [OF step(2)] by (auto simp: counted_def word_le_nat_alt)
  then show ?case
  proof cases
    case 1
    then show ?thesis using step.IH by fastforce
  next
    case 2
    obtain g where g: "new = [g]" "ids_of g \<noteq> {}" "ids_of g \<subseteq> {unat (seq_max ms) <.. unat (seq_max ms')}"
      by (rule allocation_ids [OF 2 step(3)])
    then have "unat (seq_max ms) \<le> unat (seq_max ms')" by fastforce
    then show ?thesis using step.IH g by (fastforce simp: sorted_wrt_append)
  qed
qed simp

section \<open>Assigned ids are unique\<close>

text \<open>C15: However assignments over HTTP and over gRPC interleave with heartbeats, replicated events, leader changes,
  growth, peer changes and reloads, every file id a master hands out, as its client decodes it, stands for at least one id,
  all above the ids its sequencer knew at the start, and the ids of a later assignment are above those of every earlier one:
  no id is handed out twice by one master. The ids must not run past 64 bits.\<close>

theorem assigned_ids_unique:
  assumes "master_run valid eng ms0 gs ms"
  shows "(\<forall>g \<in> set gs. ids_of g \<noteq> {} \<and> (\<forall>a \<in> ids_of g. unat (seq_max ms0) < a \<and> a \<le> unat (seq_max ms))) \<and>
    sorted_wrt (\<lambda>g h. \<forall>a \<in> ids_of g. \<forall>b \<in> ids_of h. a < b) gs"
  using master_run_ids [OF assms] by fastforce

definition any_url :: "string \<Rightarrow> bool" where "any_url u = True"

definition sample_engine :: "MasterFSM Engine" where
  "sample_engine = \<lparr>en_IsLeader = (\<lambda>_. True), en_LeaderAddress = (\<lambda>_. ''m:9333''), en_Apply = (\<lambda>r c. (r, True)),
     en_AddPeer = (\<lambda>_ r. (r, None)), en_RemovePeer = (\<lambda>_ r. (r, None))\<rparr>"

definition sample_layout :: VolumeLayout where
  "sample_layout = (NewVolumeLayout [] ''000'' [] [])\<lparr>vl_writable := [7 \<mapsto> [\<lparr>vloc_DataNode = None, vloc_VolumeId = 7, vloc_isReadOnly = False\<rparr>]]\<rparr>"

definition sample_master :: "MasterFSM MasterServer" where
  "sample_master = \<lparr>ms_Topo = NewTopology\<lparr>tp_layouts := [makeKey [] ''000'' [] [] \<mapsto> sample_layout]\<rparr>, ms_Sequencer = sample_rs,
     ms_fs = sample_fs0, ms_Cluster = Map.empty, ms_Guard = NewGuard [] [] [],
     ms_option = \<lparr>mo_Host = ''m'', mo_Port = 9333, mo_VolumeSizeLimitMB = 30000, mo_DefaultReplication = ''000'', mo_JwtExpireSeconds = 10\<rparr>,
     ms_growthRequests = [], ms_isLeader = True, ms_topologyId = []\<rparr>"

definition sample_env :: assign_env where
  "sample_env = \<lparr>ae_now = 0, ae_order = [7], ae_cookie = 5, ae_evts = [], ae_sign = (\<lambda>_ _. [])\<rparr>"

definition sample_request :: AssignRequest where
  "sample_request = \<lparr>ar_Count = 2, ar_Replication = [], ar_Collection = [], ar_Ttl = [], ar_DiskType = []\<rparr>"

definition sample_issued :: "(string \<times> u64) list" where
  "sample_issued = [(assigned_fid 7 6 5, 2), (assigned_fid 7 8 5, 1)]"

lemma sample_pick: "PickForWrite h 0 [] [] [7] sample_layout = Some (7, [\<lparr>vloc_DataNode = None, vloc_VolumeId = 7, vloc_isReadOnly = False\<rparr>])"
  by (simp add: PickForWrite_def sample_layout_def acceptable_def)

lemma next_file_id_first: "fst (next_file_id eng [] n ms) = seq_max ms + 1"
  using RaftSequencer_NextFileId_first [of "\<lambda>r m. en_Apply eng r (MaxFileIdCommand m)" "[]" "ms_fs ms" "ms_Sequencer ms" n]
  by (simp add: next_file_id_def seq_max_def raftseq_getMax_def case_prod_beta)

text \<open>A master with one writable volume and nothing else.\<close>

definition ready :: "MasterFSM MasterServer \<Rightarrow> bool" where
  "ready ms \<longleftrightarrow> GetOrCreateVolumeLayout [] ''000'' [] [] (ms_Topo ms) = (sample_layout, ms_Topo ms) \<and> mo_DefaultReplication (ms_option ms) = ''000''"

lemma next_file_id_keeps: "ms_Topo (snd (next_file_id eng evts n ms)) = ms_Topo ms" "ms_option (snd (next_file_id eng evts n ms)) = ms_option ms"
  by (simp_all add: next_file_id_def case_prod_beta)

lemma ready_master: "ready sample_master" "seq_max sample_master = 5"
  by (simp_all add: ready_def GetOrCreateVolumeLayout_def GetOrCreateLayout_def Let_def sample_master_def
       seq_max_def raftseq_getMax_def sample_rs_def sample_seq_def FileSequencer_GetMax_def)

lemma ready_rpc:
  assumes "ready ms"
  obtains res ms' where "grpc_Assign sample_engine sample_env sample_request ms = (res, ms')" "grpc_issued res = [(assigned_fid 7 (seq_max ms + 1) 5, 2)]"
    "ready ms'" "seq_max ms' = seq_max ms + 2"
proof -
  obtain i ms' where nx: "next_file_id sample_engine [] 2 ms = (i, ms')" by (metis prod.collapse)
  have i: "i = seq_max ms + 1" using next_file_id_first [of sample_engine 2 ms] nx by simp
  have r: "ready ms'" using assms next_file_id_keeps [of sample_engine "[]" 2 ms] nx by (simp add: ready_def)
  obtain res where "grpc_Assign sample_engine sample_env sample_request ms = (res, ms')" "grpc_issued res = [(assigned_fid 7 i 5, 2)]"
    using assms nx by (simp add: ready_def grpc_Assign_def sample_request_def sample_env_def sample_engine_def sample_pick Let_def case_prod_beta)
  then show thesis using that r i next_file_id_seq(2) [OF nx] by (simp add: batch_def)
qed

lemma ready_http:
  assumes "ready ms"
  obtains out ms' where "handleAssign any_url sample_engine sample_env [] ms = (out, ms')" "http_issued out = [(assigned_fid 7 (seq_max ms + 1) 5, 1)]"
proof -
  obtain i ms' where nx: "next_file_id sample_engine [] 1 ms = (i, ms')" by (metis prod.collapse)
  have i: "i = seq_max ms + 1" using next_file_id_first [of sample_engine 1 ms] nx by simp
  have c: "parse_uint [] 10 64 = None" by code_simp
  show thesis
    using assms nx c i that by (simp add: ready_def handleAssign_def q_Get_def sample_env_def sample_engine_def sample_pick Let_def
      case_prod_beta assign_decoded)
qed

theorem assigned_ids_unique_witness:
  "\<exists>ms. master_run any_url sample_engine sample_master sample_issued ms \<and> (\<forall>a \<in> ids_of (assigned_fid 7 6 5, 2). \<forall>b \<in> ids_of (assigned_fid 7 8 5, 1). a < b) \<and>
    (\<forall>g \<in> set sample_issued. ids_of g \<noteq> {})"
proof -
  obtain res ms1 where 1: "grpc_Assign sample_engine sample_env sample_request sample_master = (res, ms1)" "grpc_issued res = [(assigned_fid 7 6 5, 2)]"
    "ready ms1" "seq_max ms1 = 7" using ready_rpc [OF ready_master(1)] ready_master(2) by (metis (no_types) numeral_plus_one add_num_simps numeral_plus_numeral)
  obtain out ms2 where 2: "handleAssign any_url sample_engine sample_env [] ms1 = (out, ms2)" "http_issued out = [(assigned_fid 7 8 5, 1)]"
    by (rule ready_http [OF 1(3)]) (simp add: 1(4))
  have "master_run any_url sample_engine sample_master ([] @ grpc_issued res) ms1"
    by (rule master_run.step [OF master_run.start master_step.rpc_assign [OF 1(1)]]) (simp add: 1(2) fits64_def batch_def)
  then have "master_run any_url sample_engine sample_master (([] @ grpc_issued res) @ http_issued out) ms2"
    by (rule master_run.step [OF _ master_step.assign [OF 2(1)]]) (simp add: 2(2) fits64_def batch_def)
  then have run: "master_run any_url sample_engine sample_master sample_issued ms2" using 1(2) 2(2) by (simp add: sample_issued_def)
  from assigned_ids_unique [OF run] run show ?thesis by (auto simp: sample_issued_def)
qed

end
