(* ===== verification/Filer.thy ===== *)
theory Filer
  imports FilerStore
begin

text \<open>
  The filer (src/goblob/filer/filer.go) over any store, and its path rules
  (src/goblob/filer/filer_conf.go). The store is an option, \<open>None\<close> when it is not configured. Creating
  directories, listings page by page, and the shape of the namespace.
\<close>

section \<open>Operations\<close>

datatype filer_error = FErrStoreNotConfigured | FErrParentNotFound | FErrNoMasterConfigured | FErrStore store_error

definition lift_store :: "(store_error + 'a) \<times> 's \<Rightarrow> (filer_error + 'a) \<times> 's" where
  "lift_store r = (case r of (Inl e, s) \<Rightarrow> (Inl (FErrStore e), s) | (Inr x, s) \<Rightarrow> (Inr x, s))"

definition trim_slashes :: "string \<Rightarrow> string" where
  "trim_slashes s = rev (dropWhile (\<lambda>c. c = CHR ''/'') (rev (dropWhile (\<lambda>c. c = CHR ''/'') s)))"

definition child_path :: "FullPath \<Rightarrow> string \<Rightarrow> FullPath" where
  "child_path cur part = (if cur = ''/'' then ''/'' @ part else cur @ ''/'' @ part)"

text \<open>Times are Unix nanoseconds; the zero value of Go's \<open>time.Time\<close> is the first second of year 1.\<close>

definition zero_time :: int where "zero_time = - 62135596800 * 10 ^ 9"

definition zero_attr :: Attr where
  "zero_attr = \<lparr>at_Mode = 0, at_Uid = 0, at_Gid = 0, at_Mtime = zero_time, at_Crtime = zero_time, at_Mime = [], at_Replication = [], at_Collection = [],
     at_TtlSec = 0, at_DiskType = [], at_FileSize = 0, at_INode = 0, at_SymlinkTarget = []\<rparr>"

definition dir_entry :: "int \<Rightarrow> FullPath \<Rightarrow> Entry" where
  "dir_entry now p = \<lparr>e_FullPath = p, e_Attr = zero_attr\<lparr>at_Mode := or ModeDir 0x1ED, at_Mtime := now\<rparr>, e_Chunks = [], e_Content = [],
     e_Extended = (\<lambda>_. None), e_HardLinkId = [], e_HardLinkCounter = 0, e_Remote = None\<rparr>"

fun mkdir_parts :: "'s FilerStore \<Rightarrow> int \<Rightarrow> string list \<Rightarrow> FullPath \<Rightarrow> 's \<Rightarrow> (filer_error + unit) \<times> 's" where
  "mkdir_parts ops now [] cur s = (Inr (), s)"
| "mkdir_parts ops now (part # parts) cur s =
     (if part = [] then mkdir_parts ops now parts cur s
      else let child = child_path cur part in
        case FindEntry ops s child of
          Inr _ \<Rightarrow> mkdir_parts ops now parts child s
        | Inl (ErrStore m) \<Rightarrow> (Inl (FErrStore (ErrStore m)), s)
        | Inl ErrNotFound \<Rightarrow>
            (case InsertEntry ops s (dir_entry now child) of
               (Inl e, s1) \<Rightarrow> (Inl (FErrStore e), s1)
             | (Inr _, s1) \<Rightarrow> mkdir_parts ops now parts child s1))"

definition MkdirAll :: "'s FilerStore option \<Rightarrow> int \<Rightarrow> FullPath \<Rightarrow> 's \<Rightarrow> (filer_error + unit) \<times> 's" where
  "MkdirAll store now dirPath s =
     (case store of
        None \<Rightarrow> (Inl FErrStoreNotConfigured, s)
      | Some ops \<Rightarrow>
          if dirPath = ''/'' \<or> dirPath = [] then (Inr (), s)
          else mkdir_parts ops now (str_split (CHR ''/'') (trim_slashes dirPath)) ''/'' s)"

definition Filer_CreateEntry :: "'s FilerStore option \<Rightarrow> Entry \<Rightarrow> 's \<Rightarrow> (filer_error + unit) \<times> 's" where
  "Filer_CreateEntry store e s =
     (case store of
        None \<Rightarrow> (Inl FErrStoreNotConfigured, s)
      | Some ops \<Rightarrow>
          let dir = fst (DirAndName (e_FullPath e)) in
          if dir \<noteq> ''/'' \<and> (case FindEntry ops s dir of Inl _ \<Rightarrow> True | Inr _ \<Rightarrow> False) then (Inl FErrParentNotFound, s)
          else lift_store (InsertEntry ops s e))"

definition Filer_UpdateEntry :: "'s FilerStore option \<Rightarrow> Entry \<Rightarrow> 's \<Rightarrow> (filer_error + unit) \<times> 's" where
  "Filer_UpdateEntry store e s =
     (case store of None \<Rightarrow> (Inl FErrStoreNotConfigured, s) | Some ops \<Rightarrow> lift_store (UpdateEntry ops s e))"

definition Filer_FindEntry :: "'s FilerStore option \<Rightarrow> FullPath \<Rightarrow> 's \<Rightarrow> filer_error + Entry" where
  "Filer_FindEntry store fp s =
     (case store of None \<Rightarrow> Inl FErrStoreNotConfigured
      | Some ops \<Rightarrow> (case FindEntry ops s fp of Inl e \<Rightarrow> Inl (FErrStore e) | Inr x \<Rightarrow> Inr x))"

definition Filer_DeleteEntry :: "'s FilerStore option \<Rightarrow> FullPath \<Rightarrow> 's \<Rightarrow> (filer_error + unit) \<times> 's" where
  "Filer_DeleteEntry store fp s =
     (case store of None \<Rightarrow> (Inl FErrStoreNotConfigured, s) | Some ops \<Rightarrow> lift_store (DeleteEntry ops s fp))"

text \<open>The callback that collects every entry.\<close>

definition collect :: "Entry \<Rightarrow> Entry list \<Rightarrow> bool \<times> Entry list" where
  "collect e acc = (True, acc @ [e])"

definition Filer_ListDirectoryEntries ::
  "'s FilerStore option \<Rightarrow> FullPath \<Rightarrow> string \<Rightarrow> int \<Rightarrow> 's \<Rightarrow> Entry list \<times> string \<times> filer_error option" where
  "Filer_ListDirectoryEntries store dirPath start limit s =
     (case store of
        None \<Rightarrow> ([], [], Some FErrStoreNotConfigured)
      | Some ops \<Rightarrow>
          (case ListEntries ops s dirPath start False limit [] collect [] of
             (Inl e, es) \<Rightarrow> (es, [], Some (FErrStore e))
           | (Inr _, es) \<Rightarrow> (es, if es = [] then [] else snd (DirAndName (e_FullPath (last es))), None)))"

section \<open>Path rules\<close>

record FilerConfRule =
  fr_PathPrefix :: string
  fr_Collection :: string
  fr_Replication :: string
  fr_Ttl :: string
  fr_DiskType :: string
  fr_MaxMB :: int

type_synonym FilerConf = "string \<Rightarrow> FilerConfRule option"

definition default_rule :: FilerConfRule where
  "default_rule = \<lparr>fr_PathPrefix = ''/'', fr_Collection = [], fr_Replication = ''000'', fr_Ttl = [], fr_DiskType = [], fr_MaxMB = 0\<rparr>"

text \<open>\<open>order\<close> enumerates the keys of the rules.\<close>

definition MatchRule :: "string list \<Rightarrow> FilerConf \<Rightarrow> FullPath \<Rightarrow> FilerConfRule" where
  "MatchRule order rules path =
     (case sort_key (\<lambda>r. - int (length (fr_PathPrefix r))) (filter (\<lambda>r. HasPrefix path (fr_PathPrefix r)) (List.map_filter rules order)) of
        [] \<Rightarrow> default_rule
      | r # _ \<Rightarrow> r)"

definition AddRule :: "FilerConfRule \<Rightarrow> FilerConf \<Rightarrow> FilerConf" where
  "AddRule r rules = rules(fr_PathPrefix r \<mapsto> r)"

definition RemoveRule :: "string \<Rightarrow> FilerConf \<Rightarrow> FilerConf" where
  "RemoveRule p rules = rules(p := None)"

section \<open>Volumes\<close>

record AssignOption =
  ao_Collection :: string
  ao_Replication :: string
  ao_Ttl :: string
  ao_Count :: u64
  ao_DataCenter :: string
  ao_Rack :: string

text \<open>The masters are asked in turn; \<open>assign\<close> is the answer of a master.\<close>

definition Filer_AssignVolume ::
  "(string \<Rightarrow> AssignOption \<Rightarrow> string + 'f) \<Rightarrow> string list \<Rightarrow> string \<Rightarrow> string \<Rightarrow> string \<Rightarrow> string \<Rightarrow> string \<Rightarrow> u64 \<Rightarrow>
   (filer_error + string + 'f) \<times> u64" where
  "Filer_AssignVolume assign masters collection replication ttl dataCenter rack masterIdx =
     (if masters = [] then (Inl FErrNoMasterConfigured, masterIdx)
      else let idx = masterIdx + 1; addr = masters ! (unat idx mod length masters) in
        (Inr (assign addr \<lparr>ao_Collection = collection, ao_Replication = replication, ao_Ttl = ttl, ao_Count = 1,
                ao_DataCenter = dataCenter, ao_Rack = rack\<rparr>), idx))"

end
