(* ===== verification/LogBuffer.thy ===== *)
theory LogBuffer
  imports GoPrelude
begin

text \<open>
  The ring buffer of metadata events (src/goblob/log_buffer/log_buffer.go): segments of length-prefixed
  frames, overwritten in turn, read by subscribers from a time on and handed to a flush function before
  they are overwritten. Times are Unix nanoseconds. What an operation hands to the flush function is part
  of its result; the outcome of a flush is an argument.
\<close>

section \<open>The buffer\<close>

record LogSegment =
  sg_buf :: bytes
  sg_startTsNs :: int
  sg_stopTsNs :: int
  sg_isFlushed :: bool

definition empty_segment :: LogSegment where
  "empty_segment = \<lparr>sg_buf = [], sg_startTsNs = 0, sg_stopTsNs = 0, sg_isFlushed = False\<rparr>"

type_synonym flush_call = "int \<times> int \<times> bytes"

text \<open>\<open>lb_flushes\<close> tells whether there is a flush function.\<close>

record LogBuffer =
  lb_segments :: "LogSegment list"
  lb_lastSegmentIdx :: nat
  lb_maxSegmentCount :: nat
  lb_maxSegmentBytes :: nat
  lb_flushes :: bool

definition NewLogBuffer :: "int \<Rightarrow> int \<Rightarrow> bool \<Rightarrow> LogBuffer" where
  "NewLogBuffer maxSegmentCount maxSegmentBytes flushes =
     (let n = (if maxSegmentCount \<le> 0 then 3 else nat maxSegmentCount);
          b = (if maxSegmentBytes \<le> 0 then 2 * 1024 * 1024 else nat maxSegmentBytes) in
      \<lparr>lb_segments = replicate n empty_segment, lb_lastSegmentIdx = 0, lb_maxSegmentCount = n, lb_maxSegmentBytes = b,
       lb_flushes = flushes\<rparr>)"

definition flush_call :: "LogSegment \<Rightarrow> flush_call" where
  "flush_call seg = (sg_startTsNs seg, sg_stopTsNs seg, sg_buf seg)"

definition lb_rotate :: "LogBuffer \<Rightarrow> LogBuffer \<times> flush_call list" where
  "lb_rotate lb =
     (let idx = (lb_lastSegmentIdx lb + 1) mod lb_maxSegmentCount lb;
          old = lb_segments lb ! idx;
          calls = (if \<not> sg_isFlushed old \<and> lb_flushes lb \<and> sg_buf old \<noteq> [] then [flush_call old] else []) in
      (lb\<lparr>lb_lastSegmentIdx := idx, lb_segments := (lb_segments lb)[idx := empty_segment]\<rparr>, calls))"

definition frame :: "bytes \<Rightarrow> bytes" where
  "frame data = put_u32 (of_nat (length data)) @ data"

definition append_segment :: "int \<Rightarrow> bytes \<Rightarrow> LogSegment \<Rightarrow> LogSegment" where
  "append_segment now fr seg =
     seg\<lparr>sg_buf := sg_buf seg @ fr, sg_startTsNs := (if sg_startTsNs seg = 0 then now else sg_startTsNs seg), sg_stopTsNs := now\<rparr>"

definition AppendEntry :: "int \<Rightarrow> bytes \<Rightarrow> LogBuffer \<Rightarrow> LogBuffer \<times> flush_call list" where
  "AppendEntry now data lb =
     (let fr = frame data;
          seg = lb_segments lb ! lb_lastSegmentIdx lb;
          (lb1, calls) = (if length (sg_buf seg) + length fr > lb_maxSegmentBytes lb then lb_rotate lb else (lb, []));
          i = lb_lastSegmentIdx lb1 in
      (lb1\<lparr>lb_segments := (lb_segments lb1)[i := append_segment now fr (lb_segments lb1 ! i)]\<rparr>, calls))"

text \<open>The frames of a buffer, until one is cut short.\<close>

function parse_frames :: "bytes \<Rightarrow> bytes list" where
  "parse_frames buf =
     (if length buf < 4 then []
      else let size = unat (get_u32 (take 4 buf)) in
        if size > length buf - 4 then []
        else take size (drop 4 buf) # parse_frames (drop (4 + size) buf))"
  by auto

termination parse_frames
  by (relation "measure length") (auto simp: not_less)

declare parse_frames.simps [simp del]

text \<open>The segments from the oldest to the current one.\<close>

definition oldest_first :: "LogBuffer \<Rightarrow> LogSegment list" where
  "oldest_first lb =
     map (\<lambda>i. lb_segments lb ! ((lb_lastSegmentIdx lb + 1 + i) mod lb_maxSegmentCount lb)) [0..<lb_maxSegmentCount lb]"

fun read_segments :: "int \<Rightarrow> LogSegment list \<Rightarrow> bytes list \<Rightarrow> int \<Rightarrow> bytes list \<times> int" where
  "read_segments sinceNs [] events nextTs = (events, nextTs)"
| "read_segments sinceNs (seg # segs) events nextTs =
     (if sg_buf seg = [] then read_segments sinceNs segs events nextTs
      else if sg_stopTsNs seg \<le> sinceNs then read_segments sinceNs segs events nextTs
      else read_segments sinceNs segs (events @ parse_frames (sg_buf seg)) (sg_stopTsNs seg + 1))"

definition ReadFromBuffer :: "int \<Rightarrow> LogBuffer \<Rightarrow> bytes list \<times> int" where
  "ReadFromBuffer sinceNs lb = read_segments sinceNs (oldest_first lb) [] 0"

definition IsInBuffer :: "int \<Rightarrow> LogBuffer \<Rightarrow> bool" where
  "IsInBuffer sinceNs lb =
     (case filter (\<lambda>seg. sg_buf seg \<noteq> []) (oldest_first lb) of [] \<Rightarrow> False | seg # _ \<Rightarrow> sinceNs \<ge> sg_startTsNs seg)"

text \<open>The periodic flush. The segments to flush are collected and marked in one step, and then flushed one by
  one; \<open>ok\<close> tells which flushes succeed, and a segment whose flush fails is unmarked. No append happens in
  between.\<close>

definition to_flush :: "LogBuffer \<Rightarrow> nat list" where
  "to_flush lb =
     (if \<not> lb_flushes lb then []
      else [i \<leftarrow> [0..<lb_maxSegmentCount lb].
        i \<noteq> lb_lastSegmentIdx lb \<and> \<not> sg_isFlushed (lb_segments lb ! i) \<and> sg_buf (lb_segments lb ! i) \<noteq> []])"

definition mark :: "bool \<Rightarrow> nat \<Rightarrow> LogBuffer \<Rightarrow> LogBuffer" where
  "mark b i lb = lb\<lparr>lb_segments := (lb_segments lb)[i := (lb_segments lb ! i)\<lparr>sg_isFlushed := b\<rparr>]\<rparr>"

definition flushOldSegments :: "(flush_call \<Rightarrow> bool) \<Rightarrow> LogBuffer \<Rightarrow> LogBuffer \<times> flush_call list" where
  "flushOldSegments ok lb =
     (let is = to_flush lb;
          calls = map (\<lambda>i. flush_call (lb_segments lb ! i)) is;
          marked = fold (mark True) is lb in
      (fold (mark False) (filter (\<lambda>i. \<not> ok (flush_call (lb_segments lb ! i))) is) marked, calls))"

section \<open>The ring as a queue of segments\<close>

lemma frame_not_Nil [simp]: "frame d \<noteq> []"
  using length_put(2) [of "of_nat (length d)"] unfolding frame_def by (cases "put_u32 (of_nat (length d))") simp_all

lemma parse_frames_frame:
  assumes "length d < 2 ^ 32"
  shows "parse_frames (frame d @ rest) = d # parse_frames rest"
  using assms unat_of_nat_u32 [of "length d"]
  by (subst parse_frames.simps) (simp add: frame_def Let_def)

lemma parse_frames_concat:
  "\<forall>d \<in> set ds. length d < 2 ^ 32 \<Longrightarrow> parse_frames (concat (map frame ds)) = ds"
  by (induction ds) (simp_all add: parse_frames_frame, simp add: parse_frames.simps)

definition lb_wf :: "LogBuffer \<Rightarrow> bool" where
  "lb_wf lb \<longleftrightarrow> length (lb_segments lb) = lb_maxSegmentCount lb \<and> lb_lastSegmentIdx lb < lb_maxSegmentCount lb"

lemma oldest_first_update:
  assumes "lb_wf lb"
  shows "oldest_first (lb\<lparr>lb_segments := (lb_segments lb)[lb_lastSegmentIdx lb := x]\<rparr>) = butlast (oldest_first lb) @ [x]"
proof (rule nth_equalityI)
  let ?n = "lb_maxSegmentCount lb"
  fix i assume "i < length (oldest_first (lb\<lparr>lb_segments := (lb_segments lb)[lb_lastSegmentIdx lb := x]\<rparr>))"
  then have i: "i < ?n" by (simp add: oldest_first_def)
  have "(lb_lastSegmentIdx lb + 1 + i) mod ?n = lb_lastSegmentIdx lb \<longleftrightarrow> i = ?n - 1"
    using assms i by (auto simp: lb_wf_def mod_if)
  then show "oldest_first (lb\<lparr>lb_segments := (lb_segments lb)[lb_lastSegmentIdx lb := x]\<rparr>) ! i = (butlast (oldest_first lb) @ [x]) ! i"
    using assms i by (auto simp: oldest_first_def lb_wf_def nth_append nth_butlast)
qed (use assms in \<open>auto simp: oldest_first_def lb_wf_def\<close>)

lemma oldest_first_rotate:
  assumes "lb_wf lb" "lb_rotate lb = (lb', calls)"
  shows "oldest_first lb' = tl (oldest_first lb) @ [empty_segment]" "lb_wf lb'"
    and "lb_maxSegmentBytes lb' = lb_maxSegmentBytes lb" "lb_flushes lb' = lb_flushes lb"
    and "calls = (let old = hd (oldest_first lb) in
      if \<not> sg_isFlushed old \<and> lb_flushes lb \<and> sg_buf old \<noteq> [] then [flush_call old] else [])"
proof -
  let ?n = "lb_maxSegmentCount lb" and ?i = "(lb_lastSegmentIdx lb + 1) mod lb_maxSegmentCount lb"
  have n: "0 < ?n" using assms(1) by (auto simp: lb_wf_def)
  have lb': "lb' = lb\<lparr>lb_lastSegmentIdx := ?i, lb_segments := (lb_segments lb)[?i := empty_segment]\<rparr>"
    using assms(2) by (auto simp: lb_rotate_def Let_def)
  show "lb_wf lb'" "lb_maxSegmentBytes lb' = lb_maxSegmentBytes lb" "lb_flushes lb' = lb_flushes lb"
    using assms(1) n by (auto simp: lb' lb_wf_def)
  have hd: "hd (oldest_first lb) = lb_segments lb ! ?i" using n by (simp add: oldest_first_def hd_map)
  show "calls = (let old = hd (oldest_first lb) in
      if \<not> sg_isFlushed old \<and> lb_flushes lb \<and> sg_buf old \<noteq> [] then [flush_call old] else [])"
    using assms(2) unfolding hd by (auto simp: lb_rotate_def Let_def)
  show "oldest_first lb' = tl (oldest_first lb) @ [empty_segment]"
  proof (rule nth_equalityI)
    fix j assume "j < length (oldest_first lb')"
    then have j: "j < ?n" by (simp add: oldest_first_def lb')
    have eq: "(?i + 1 + j) mod ?n = (lb_lastSegmentIdx lb + 1 + Suc j) mod ?n"
      using mod_add_left_eq [of "lb_lastSegmentIdx lb + 1" ?n "1 + j"] by (simp add: ac_simps)
    have "(lb_lastSegmentIdx lb + 1 + Suc j) mod ?n = ?i \<longleftrightarrow> j = ?n - 1"
      using assms(1) j by (auto simp: lb_wf_def mod_if)
    then show "oldest_first lb' ! j = (tl (oldest_first lb) @ [empty_segment]) ! j"
      using assms(1) j eq n
      by (cases "j = ?n - 1") (auto simp: oldest_first_def lb' lb_wf_def nth_append nth_tl)
  qed (use n in \<open>auto simp: oldest_first_def lb'\<close>)
qed

lemma segments_mark:
  "\<forall>i \<in> set is. i < length (lb_segments lb) \<Longrightarrow> lb_segments (fold (mark b) is lb) =
     map (\<lambda>i. if i \<in> set is then (lb_segments lb ! i)\<lparr>sg_isFlushed := b\<rparr> else lb_segments lb ! i) [0..<length (lb_segments lb)]"
proof (induction "is" arbitrary: lb)
  case Nil
  then show ?case by (simp add: map_nth)
next
  case (Cons i "is")
  then show ?case by (auto simp: mark_def nth_list_update intro!: nth_equalityI)
qed

lemma mark_other:
  "lb_lastSegmentIdx (fold (mark b) is lb) = lb_lastSegmentIdx lb" "lb_maxSegmentCount (fold (mark b) is lb) = lb_maxSegmentCount lb"
  "lb_maxSegmentBytes (fold (mark b) is lb) = lb_maxSegmentBytes lb" "lb_flushes (fold (mark b) is lb) = lb_flushes lb"
  by (induction "is" arbitrary: lb) (simp_all add: mark_def)

definition flush_result :: "(flush_call \<Rightarrow> bool) \<Rightarrow> LogBuffer \<Rightarrow> nat \<Rightarrow> LogSegment" where
  "flush_result ok lb i =
     (let seg = lb_segments lb ! i in if i \<in> set (to_flush lb) then seg\<lparr>sg_isFlushed := ok (flush_call seg)\<rparr> else seg)"

lemma flushOldSegments_effect:
  assumes "lb_wf lb" "flushOldSegments ok lb = (lb', calls)"
  shows "lb_segments lb' = map (flush_result ok lb) [0..<lb_maxSegmentCount lb]" "lb_wf lb'"
    and "lb_lastSegmentIdx lb' = lb_lastSegmentIdx lb" "lb_maxSegmentCount lb' = lb_maxSegmentCount lb"
    and "lb_flushes lb' = lb_flushes lb" "calls = map (\<lambda>i. flush_call (lb_segments lb ! i)) (to_flush lb)"
proof -
  have i: "\<forall>i \<in> set (to_flush lb). i < lb_maxSegmentCount lb" by (auto simp: to_flush_def)
  show segs: "lb_segments lb' = map (flush_result ok lb) [0..<lb_maxSegmentCount lb]"
    using assms i by (auto simp: flushOldSegments_def Let_def segments_mark lb_wf_def flush_result_def intro!: nth_equalityI)
  show "lb_lastSegmentIdx lb' = lb_lastSegmentIdx lb" "lb_maxSegmentCount lb' = lb_maxSegmentCount lb" "lb_flushes lb' = lb_flushes lb"
    "calls = map (\<lambda>i. flush_call (lb_segments lb ! i)) (to_flush lb)"
    using assms(2) by (auto simp: flushOldSegments_def Let_def mark_other)
  then show "lb_wf lb'" using assms(1) segs by (simp add: lb_wf_def)
qed

section \<open>Histories\<close>

text \<open>Appends and periodic flushes in any order, with the events appended and the buffers given to a flush
  that did not report an error.\<close>

type_synonym event = "int \<times> bytes"

inductive lb_run :: "event list \<Rightarrow> flush_call list \<Rightarrow> LogBuffer \<Rightarrow> bool" where
  start: "lb_run [] [] (NewLogBuffer n b True)"
| append: "\<lbrakk>lb_run hist handed lb; 0 < now; \<forall>ev \<in> set hist. fst ev \<le> now; length data < 2 ^ 32; AppendEntry now data lb = (lb', calls)\<rbrakk>
    \<Longrightarrow> lb_run (hist @ [(now, data)]) (handed @ calls) lb'"
| flush: "\<lbrakk>lb_run hist handed lb; flushOldSegments ok lb = (lb', calls)\<rbrakk> \<Longrightarrow> lb_run hist (handed @ filter ok calls) lb'"

definition frames_of :: "event list \<Rightarrow> bytes" where
  "frames_of g = concat (map (\<lambda>ev. frame (snd ev)) g)"

definition seg_holds :: "flush_call list \<Rightarrow> LogSegment \<Rightarrow> event list \<Rightarrow> bool" where
  "seg_holds handed seg g \<longleftrightarrow> sg_buf seg = frames_of g \<and> (g \<noteq> [] \<longrightarrow> sg_stopTsNs seg = fst (last g)) \<and>
     (sg_isFlushed seg \<longrightarrow> flush_call seg \<in> set handed)"

definition lb_inv :: "event list \<Rightarrow> flush_call list \<Rightarrow> LogBuffer \<Rightarrow> bool" where
  "lb_inv hist handed lb \<longleftrightarrow> lb_wf lb \<and> lb_flushes lb \<and> \<not> sg_isFlushed (last (oldest_first lb)) \<and>
     (\<exists>past gs. hist = concat past @ concat gs \<and> list_all2 (seg_holds handed) (oldest_first lb) gs \<and>
        (\<forall>g \<in> set past. g = [] \<or> (\<exists>c \<in> set handed. snd (snd c) = frames_of g)))"

lemma frames_of_eq_Nil [simp]: "frames_of g = [] \<longleftrightarrow> g = []" "frames_of [] = []"
  by (cases g) (simp_all add: frames_of_def)

lemma frames_of_append: "frames_of (g @ h) = frames_of g @ frames_of h"
  by (simp add: frames_of_def)

lemma parse_frames_of: "\<forall>ev \<in> set g. length (snd ev) < 2 ^ 32 \<Longrightarrow> parse_frames (frames_of g) = map snd g"
  using parse_frames_concat [of "map snd g"] by (simp add: frames_of_def comp_def)

lemma seg_holds_mono: "seg_holds handed seg g \<Longrightarrow> set handed \<subseteq> set handed' \<Longrightarrow> seg_holds handed' seg g"
  by (auto simp: seg_holds_def)

lemma seg_holds_append:
  assumes "seg_holds handed seg g" "\<not> sg_isFlushed seg"
  shows "seg_holds handed (append_segment now (frame data) seg) (g @ [(now, data)])"
  using assms by (simp add: seg_holds_def append_segment_def frames_of_append) (simp add: frames_of_def)

lemma oldest_first_not_Nil [simp]: "lb_wf lb \<Longrightarrow> oldest_first lb \<noteq> []"
  by (auto simp: lb_wf_def oldest_first_def)

lemma last_oldest_first: "lb_wf lb \<Longrightarrow> last (oldest_first lb) = lb_segments lb ! lb_lastSegmentIdx lb"
  by (subst last_conv_nth) (auto simp: oldest_first_def lb_wf_def)

lemma inv_rotate:
  assumes "lb_inv hist handed lb" "lb_rotate lb = (lb', calls)"
  shows "lb_inv hist (handed @ calls) lb'"
proof -
  obtain past gs where inv: "lb_wf lb" "lb_flushes lb" "hist = concat past @ concat gs" "list_all2 (seg_holds handed) (oldest_first lb) gs"
      "\<forall>g \<in> set past. g = [] \<or> (\<exists>c \<in> set handed. snd (snd c) = frames_of g)"
    using assms(1) by (auto simp: lb_inv_def)
  note rot = oldest_first_rotate [OF inv(1) assms(2)]
  obtain seg segs g gs' where split: "oldest_first lb = seg # segs" "gs = g # gs'" "seg_holds handed seg g" "list_all2 (seg_holds handed) segs gs'"
    using inv(1,4) by (metis list_all2_Cons1 neq_Nil_conv oldest_first_not_Nil)
  have old: "g = [] \<or> (\<exists>c \<in> set (handed @ calls). snd (snd c) = frames_of g)"
  proof (cases "sg_isFlushed seg \<or> g = []")
    case True
    then show ?thesis using split(3) by (auto simp: seg_holds_def flush_call_def intro!: bexI [of _ "flush_call seg"])
  next
    case False
    then have "calls = [flush_call seg]" using rot(5) inv(2) split(3) by (simp add: split(1) seg_holds_def)
    then show ?thesis using split(3) by (simp add: seg_holds_def flush_call_def)
  qed
  have empty: "seg_holds (handed @ calls) empty_segment []" by (simp add: seg_holds_def empty_segment_def)
  have "list_all2 (seg_holds (handed @ calls)) segs gs'"
    using split(4) by (rule list_all2_mono) (auto elim: seg_holds_mono)
  then have ring: "list_all2 (seg_holds (handed @ calls)) (oldest_first lb') (gs' @ [[]])"
    using empty rot(1) split(1) by (auto intro: list_all2_appendI)
  have "\<not> sg_isFlushed (last (oldest_first lb'))" by (simp add: rot(1) empty_segment_def)
  moreover have "hist = concat (past @ [g]) @ concat (gs' @ [[]])" using inv(3) split(2) by simp
  moreover have "\<forall>h \<in> set (past @ [g]). h = [] \<or> (\<exists>c \<in> set (handed @ calls). snd (snd c) = frames_of h)"
    using inv(5) old by auto
  ultimately show ?thesis using rot(2,4) inv(2) ring unfolding lb_inv_def by blast
qed

lemma inv_append_current:
  assumes "lb_inv hist handed lb"
  shows "lb_inv (hist @ [(now, data)]) handed
     (lb\<lparr>lb_segments := (lb_segments lb)[lb_lastSegmentIdx lb := append_segment now (frame data) (lb_segments lb ! lb_lastSegmentIdx lb)]\<rparr>)"
    (is "lb_inv _ _ ?lb'")
proof -
  obtain past gs where inv: "lb_wf lb" "lb_flushes lb" "hist = concat past @ concat gs" "list_all2 (seg_holds handed) (oldest_first lb) gs"
      "\<forall>g \<in> set past. g = [] \<or> (\<exists>c \<in> set handed. snd (snd c) = frames_of g)" "\<not> sg_isFlushed (last (oldest_first lb))"
    using assms by (auto simp: lb_inv_def)
  let ?seg = "last (oldest_first lb)"
  have gs: "gs \<noteq> []" using inv(1,4) by (metis list_all2_Nil2 oldest_first_not_Nil)
  have "list_all2 (seg_holds handed) (butlast (oldest_first lb) @ [?seg]) (butlast gs @ [last gs])" using inv(1,4) gs by simp
  then have split: "list_all2 (seg_holds handed) (butlast (oldest_first lb)) (butlast gs)" "seg_holds handed ?seg (last gs)"
    using list_all2_lengthD [OF inv(4)] by (auto simp: list_all2_append)
  have ring: "oldest_first ?lb' = butlast (oldest_first lb) @ [append_segment now (frame data) ?seg]"
    using oldest_first_update [OF inv(1)] last_oldest_first [OF inv(1)] by simp
  have "list_all2 (seg_holds handed) (oldest_first ?lb') (butlast gs @ [last gs @ [(now, data)]])"
    unfolding ring using split seg_holds_append [OF split(2) inv(6)] by (auto intro: list_all2_appendI)
  moreover have "concat gs = concat (butlast gs) @ last gs"
    using gs by (metis append_butlast_last_id concat.simps concat_append self_append_conv)
  moreover have "lb_wf ?lb'" "\<not> sg_isFlushed (last (oldest_first ?lb'))"
    using inv(1,6) unfolding ring by (simp_all add: lb_wf_def append_segment_def)
  ultimately show ?thesis using inv(2,3,5) unfolding lb_inv_def
    by (intro conjI exI [of _ past] exI [of _ "butlast gs @ [last gs @ [(now, data)]]"]) simp_all
qed

lemma inv_append:
  assumes "lb_inv hist handed lb" "AppendEntry now data lb = (lb', calls)"
  shows "lb_inv (hist @ [(now, data)]) (handed @ calls) lb'"
proof (cases "length (sg_buf (lb_segments lb ! lb_lastSegmentIdx lb)) + length (frame data) > lb_maxSegmentBytes lb")
  case True
  obtain lb1 calls1 where rot: "lb_rotate lb = (lb1, calls1)" by force
  from inv_append_current [OF inv_rotate [OF assms(1) this]] show ?thesis
    using True assms(2) rot by (auto simp: AppendEntry_def Let_def)
next
  case False
  then show ?thesis using inv_append_current [OF assms(1)] assms(2) by (auto simp: AppendEntry_def Let_def)
qed

lemma seg_holds_flush_result:
  assumes "seg_holds handed (lb_segments lb ! i) g" "i < lb_maxSegmentCount lb"
  shows "seg_holds (handed @ filter ok (map (\<lambda>i. flush_call (lb_segments lb ! i)) (to_flush lb))) (flush_result ok lb i) g"
  using assms by (auto simp: seg_holds_def flush_result_def Let_def flush_call_def)

lemma inv_flush:
  assumes "lb_inv hist handed lb" "flushOldSegments ok lb = (lb', calls)"
  shows "lb_inv hist (handed @ filter ok calls) lb'"
proof -
  obtain past gs where inv: "lb_wf lb" "lb_flushes lb" "hist = concat past @ concat gs" "list_all2 (seg_holds handed) (oldest_first lb) gs"
      "\<forall>g \<in> set past. g = [] \<or> (\<exists>c \<in> set handed. snd (snd c) = frames_of g)" "\<not> sg_isFlushed (last (oldest_first lb))"
    using assms(1) by (auto simp: lb_inv_def)
  note eff = flushOldSegments_effect [OF inv(1) assms(2)]
  let ?n = "lb_maxSegmentCount lb"
  have n: "0 < ?n" using inv(1) by (auto simp: lb_wf_def)
  have ring: "oldest_first lb' = map (\<lambda>i. flush_result ok lb ((lb_lastSegmentIdx lb + 1 + i) mod ?n)) [0..<?n]"
    using n by (simp add: oldest_first_def eff)
  have "list_all2 (seg_holds (handed @ filter ok calls)) (oldest_first lb') gs"
    using inv(4) n seg_holds_flush_result [of handed lb _ _ ok]
    unfolding ring eff(6) by (auto simp: list_all2_conv_all_nth oldest_first_def)
  moreover have "flush_result ok lb (lb_lastSegmentIdx lb) = lb_segments lb ! lb_lastSegmentIdx lb"
    by (simp add: flush_result_def to_flush_def)
  then have "\<not> sg_isFlushed (last (oldest_first lb'))"
    using inv(1,6) last_oldest_first [OF inv(1)] last_oldest_first [OF eff(2)] by (simp add: eff lb_wf_def)
  moreover have "\<forall>g \<in> set past. g = [] \<or> (\<exists>c \<in> set (handed @ filter ok calls). snd (snd c) = frames_of g)"
    using inv(5) by auto
  ultimately show ?thesis using eff(2,5) inv(2,3) unfolding lb_inv_def by blast
qed

lemma run_inv: "lb_run hist handed lb \<Longrightarrow> lb_inv hist handed lb"
proof (induction rule: lb_run.induct)
  case (start n b)
  let ?lb = "NewLogBuffer n b True"
  have segs: "oldest_first ?lb = replicate (lb_maxSegmentCount ?lb) empty_segment" "lb_wf ?lb" "lb_flushes ?lb"
    by (auto simp: NewLogBuffer_def oldest_first_def lb_wf_def Let_def intro!: nth_equalityI)
  moreover have "list_all2 (seg_holds []) (oldest_first ?lb) (replicate (lb_maxSegmentCount ?lb) [])"
    by (auto simp: segs list_all2_conv_all_nth seg_holds_def empty_segment_def)
  moreover have "\<not> sg_isFlushed (last (oldest_first ?lb))" using segs by (simp add: empty_segment_def lb_wf_def)
  ultimately show ?case unfolding lb_inv_def
    by (intro conjI exI [of _ "[]"] exI [of _ "replicate (lb_maxSegmentCount ?lb) []"]) simp_all
qed (auto intro: inv_append inv_flush)

section \<open>Reading\<close>

lemma run_hist:
  "lb_run hist handed lb \<Longrightarrow> sorted (map fst hist) \<and> (\<forall>ev \<in> set hist. length (snd ev) < 2 ^ 32)"
  by (induction rule: lb_run.induct) (auto simp: sorted_append)

definition recent :: "int \<Rightarrow> event list \<Rightarrow> bool" where
  "recent since g \<longleftrightarrow> g \<noteq> [] \<and> fst (last g) > since"

lemma read_segments_groups:
  assumes "list_all2 (seg_holds handed) segs gs" "\<forall>ev \<in> set (concat gs). length (snd ev) < 2 ^ 32"
  shows "fst (read_segments since segs evs nextTs) = evs @ map snd (concat (filter (recent since) gs))"
  using assms
proof (induction arbitrary: evs nextTs rule: list_all2_induct)
  case (Cons seg segs g gs)
  have "parse_frames (sg_buf seg) = map snd g"
    using Cons.hyps(1) Cons.prems parse_frames_of [of g] by (simp add: seg_holds_def)
  moreover have "\<forall>ev \<in> set (concat gs). length (snd ev) < 2 ^ 32" using Cons.prems by simp
  note Cons.IH [OF this]
  ultimately show ?case using Cons.hyps(1) by (auto simp: recent_def seg_holds_def)
qed simp

lemma recent_suffix:
  assumes "sorted (map fst (concat gs))"
  shows "\<exists>old. concat gs = old @ concat (filter (recent since) gs) \<and> (\<forall>ev \<in> set old. fst ev \<le> since)"
  using assms
proof (induction gs)
  case (Cons g gs)
  have s: "sorted (map fst (concat gs))" "\<forall>x \<in> set g. \<forall>y \<in> set (concat gs). fst x \<le> fst y" "sorted (map fst g)"
    using Cons.prems by (auto simp: sorted_append)
  show ?case
  proof (cases "recent since g")
    case True
    then have "since < fst y" if "y \<in> set (concat gs)" for y
      using s(2) that unfolding recent_def by (meson last_in_set less_le_trans)
    moreover have "last h \<in> set (concat gs)" if "h \<in> set gs" "h \<noteq> []" for h
      using that(1) last_in_set [OF that(2)] unfolding set_concat by blast
    ultimately have "h = [] \<or> recent since h" if "h \<in> set gs" for h
      using that unfolding recent_def by blast
    then have "concat (filter (recent since) gs) = concat gs" by (induction gs) auto
    then show ?thesis using True by (intro exI [of _ "[]"]) simp
  next
    case False
    have le: "fst x \<le> since" if "x \<in> set g" for x
    proof -
      have "fst x \<le> fst (last g)"
        using s(3) that by (induction g rule: rev_induct) (auto simp: sorted_append)
      then show ?thesis using False that unfolding recent_def by (cases "g = []") auto
    qed
    obtain old where "concat gs = old @ concat (filter (recent since) gs)" "\<forall>ev \<in> set old. fst ev \<le> since"
      using Cons.IH s(1) by blast
    then show ?thesis using False le by (intro exI [of _ "g @ old"]) auto
  qed
qed simp



text \<open>The event just appended is the last one read, from any earlier time on.\<close>

lemma read_segments_append:
  "read_segments since (xs @ ys) evs nextTs = (case read_segments since xs evs nextTs of (e, n) \<Rightarrow> read_segments since ys e n)"
  by (induction xs arbitrary: evs nextTs) simp_all

lemma append_visible:
  assumes "lb_run hist handed lb" "0 < now" "\<forall>ev \<in> set hist. fst ev \<le> now" "length data < 2 ^ 32"
    and "AppendEntry now data lb = (lb', calls)" "sinceNs < now"
  shows "\<exists>evs. ReadFromBuffer sinceNs lb' = (evs @ [data], now + 1)"
proof -
  have run: "lb_run (hist @ [(now, data)]) (handed @ calls) lb'" using lb_run.append [OF assms(1-5)] .
  obtain past gs where inv: "lb_wf lb'" "hist @ [(now, data)] = concat past @ concat gs"
      "list_all2 (seg_holds (handed @ calls)) (oldest_first lb') gs"
    using run_inv [OF run] by (auto simp: lb_inv_def)
  let ?seg = "last (oldest_first lb')"
  have wf: "lb_wf lb" using run_inv [OF assms(1)] by (simp add: lb_inv_def)
  have "\<exists>seg. ?seg = append_segment now (frame data) seg"
  proof -
    obtain lb1 where lb1: "lb_wf lb1" "lb' = lb1\<lparr>lb_segments := (lb_segments lb1)[lb_lastSegmentIdx lb1 :=
        append_segment now (frame data) (lb_segments lb1 ! lb_lastSegmentIdx lb1)]\<rparr>"
      using assms(5) wf oldest_first_rotate(2) [OF wf] by (auto simp: AppendEntry_def Let_def split: prod.splits if_splits)
    show ?thesis unfolding lb1(2) oldest_first_update [OF lb1(1)] by auto
  qed
  then have buf: "sg_buf ?seg \<noteq> []" by (auto simp: append_segment_def)
  have gs: "gs \<noteq> []" using inv(1,3) by (metis list_all2_Nil2 oldest_first_not_Nil)
  have ring: "oldest_first lb' = butlast (oldest_first lb') @ [?seg]" using inv(1) by simp
  have "list_all2 (seg_holds (handed @ calls)) (butlast (oldest_first lb') @ [?seg]) (butlast gs @ [last gs])" using inv(1,3) gs by simp
  then have seg: "seg_holds (handed @ calls) ?seg (last gs)" using list_all2_lengthD [OF inv(3)] by (auto simp: list_all2_append)
  have g: "last gs \<noteq> []" using seg buf by (auto simp: seg_holds_def)
  have "concat gs = concat (butlast gs) @ last gs"
    using gs by (metis append_butlast_last_id concat.simps concat_append self_append_conv)
  then have hist: "hist @ [(now, data)] = (concat past @ concat (butlast gs)) @ last gs" using inv(2) by simp
  have "last (hist @ [(now, data)]) = last (last gs)" unfolding hist using g by (simp add: last_append)
  then have last: "last (last gs) = (now, data)" by simp
  then obtain h where h: "last gs = h @ [(now, data)]" using g by (cases "last gs" rule: rev_cases) auto
  have "\<forall>ev \<in> set (last gs). ev \<in> set (hist @ [(now, data)])" unfolding hist by (simp add: set_append del: set_concat)
  then have "parse_frames (frames_of (last gs)) = map snd (last gs)" using run_hist [OF run] by (intro parse_frames_of) blast
  then have "parse_frames (sg_buf ?seg) = map snd h @ [data]" "sg_stopTsNs ?seg = now"
    using seg g unfolding seg_holds_def h by simp_all
  moreover obtain e n where "read_segments sinceNs (butlast (oldest_first lb')) [] 0 = (e, n)" by force
  ultimately have "read_segments sinceNs (butlast (oldest_first lb') @ [?seg]) [] 0 = (e @ map snd h @ [data], now + 1)"
    using buf assms(6) unfolding read_segments_append by simp
  then show ?thesis using ring unfolding ReadFromBuffer_def by (metis append_assoc)
qed

text \<open>A subscriber that goes on from the time a read returns: the events it already had come again with the
  next event of their segment, and an event at that very time does not come until another one follows.\<close>

lemma parse_one: "length d < 2 ^ 32 \<Longrightarrow> parse_frames (frame d) = [d]"
  using parse_frames_frame [of d "[]"] by (simp add: parse_frames.simps [of "[]"])

lemma parse_two: "length d < 2 ^ 32 \<Longrightarrow> length e < 2 ^ 32 \<Longrightarrow> parse_frames (frame d @ frame e) = [d, e]"
  by (simp add: parse_frames_frame parse_one)

lemma length_frame [simp]: "length (frame d) = 4 + length d"
  by (simp add: frame_def)

lemma read_again:
  "let lb1 = fst (AppendEntry 10 [1] (NewLogBuffer 1 100 True)); lb2 = fst (AppendEntry 20 [2] lb1) in
   ReadFromBuffer 0 lb1 = ([[1]], 11) \<and> ReadFromBuffer 11 lb2 = ([[1], [2]], 21)"
  by (simp add: Let_def AppendEntry_def NewLogBuffer_def ReadFromBuffer_def oldest_first_def append_segment_def empty_segment_def
      parse_one parse_two)

lemma read_misses:
  "let lb1 = fst (AppendEntry 10 [1] (NewLogBuffer 1 100 True)); lb2 = fst (AppendEntry 11 [2] lb1) in
   ReadFromBuffer 0 lb1 = ([[1]], 11) \<and> ReadFromBuffer 11 lb2 = ([], 0)"
  by (simp add: Let_def AppendEntry_def NewLogBuffer_def ReadFromBuffer_def oldest_first_def append_segment_def empty_segment_def
      parse_one parse_two)

end
