(* ===== verification/LockManager.thy ===== *)
theory LockManager
  imports FilerStore
begin

text \<open>
  Named locks that expire, kept in the key-value part of a filer store
  (src/goblob/filer/lock_manager.go). The time and the random token of a call are arguments; the token is
  \<open>None\<close> when there is none to be had. A call is one step, as under the mutex of the manager.
\<close>

section \<open>Lock entries\<close>

record lockEntry =
  lk_Owner :: string
  lk_ExpireAtNs :: int
  lk_RenewToken :: string

record LockResult =
  lr_Acquired :: bool
  lr_RenewToken :: string
  lr_CurrentOwner :: string

datatype lock_error =
    LErrKvGet store_error | LErrKvPut store_error | LErrKvDelete store_error | LErrUnmarshal | LErrToken
  | LErrNotLockOwner | LErrLockNotFound

definition lockKey :: "string \<Rightarrow> string" where
  "lockKey name = ''__lock__:'' @ name"

definition json_int :: "json \<Rightarrow> int option" where
  "json_int j = (case j of JNull \<Rightarrow> Some 0 | JNum i \<Rightarrow> if - (2 ^ 63) \<le> i \<and> i < 2 ^ 63 then Some i else None | _ \<Rightarrow> None)"

definition lock_marshal :: "lockEntry \<Rightarrow> kv_value" where
  "lock_marshal e = KvJson (JObj [(''owner'', JStr (lk_Owner e)), (''expireAtNs'', JNum (lk_ExpireAtNs e)), (''renewToken'', JStr (lk_RenewToken e))])"

definition lock_unmarshal :: "kv_value \<Rightarrow> lockEntry option" where
  "lock_unmarshal v =
     (case v of
        KvBytes _ \<Rightarrow> None
      | KvJson j \<Rightarrow>
          (case (Option.bind (json_field ''owner'' j) json_string, Option.bind (json_field ''expireAtNs'' j) json_int,
                 Option.bind (json_field ''renewToken'' j) json_string) of
             (Some owner, Some expire, Some token) \<Rightarrow> Some \<lparr>lk_Owner = owner, lk_ExpireAtNs = expire, lk_RenewToken = token\<rparr>
           | _ \<Rightarrow> None))"

text \<open>What a lookup finds: no data when the key is missing or the value is empty.\<close>

definition lock_data :: "'s FilerStore \<Rightarrow> string \<Rightarrow> 's \<Rightarrow> store_error + kv_value option" where
  "lock_data ops name s =
     (case KvGet ops s (lockKey name) of
        Inl ErrNotFound \<Rightarrow> Inr None
      | Inl (ErrStore m) \<Rightarrow> Inl (ErrStore m)
      | Inr v \<Rightarrow> Inr (if v = KvBytes [] then None else Some v))"

section \<open>Operations\<close>

text \<open>A call of \<open>TryLock\<close> reads and decides, and then writes. \<open>Inr None\<close> is the decision to take the lock.\<close>

definition TryLock_decide ::
  "'s FilerStore \<Rightarrow> int \<Rightarrow> string \<Rightarrow> string \<Rightarrow> string \<Rightarrow> 's \<Rightarrow> lock_error + LockResult option" where
  "TryLock_decide ops now name owner renewToken s =
     (case lock_data ops name s of
        Inl e \<Rightarrow> Inl (LErrKvGet e)
      | Inr None \<Rightarrow> Inr None
      | Inr (Some v) \<Rightarrow>
          (case lock_unmarshal v of
             None \<Rightarrow> Inl LErrUnmarshal
           | Some entry \<Rightarrow>
               if lk_ExpireAtNs entry > now then
                 if lk_Owner entry \<noteq> owner \<and> lk_RenewToken entry \<noteq> renewToken
                 then Inr (Some \<lparr>lr_Acquired = False, lr_RenewToken = [], lr_CurrentOwner = lk_Owner entry\<rparr>)
                 else if renewToken \<noteq> [] \<and> lk_RenewToken entry \<noteq> renewToken then Inl LErrNotLockOwner
                 else Inr None
               else Inr None))"

definition TryLock_write ::
  "'s FilerStore \<Rightarrow> int \<Rightarrow> string option \<Rightarrow> string \<Rightarrow> string \<Rightarrow> int \<Rightarrow> 's \<Rightarrow> (lock_error + LockResult) \<times> 's" where
  "TryLock_write ops now token name owner expireNs s =
     (case token of
        None \<Rightarrow> (Inl LErrToken, s)
      | Some newToken \<Rightarrow>
          (case KvPut ops s (lockKey name) (lock_marshal \<lparr>lk_Owner = owner, lk_ExpireAtNs = wrap64 (now + expireNs), lk_RenewToken = newToken\<rparr>) of
             (Inl e, s1) \<Rightarrow> (Inl (LErrKvPut e), s1)
           | (Inr _, s1) \<Rightarrow> (Inr \<lparr>lr_Acquired = True, lr_RenewToken = newToken, lr_CurrentOwner = []\<rparr>, s1)))"

definition TryLock ::
  "'s FilerStore \<Rightarrow> int \<Rightarrow> string option \<Rightarrow> string \<Rightarrow> string \<Rightarrow> int \<Rightarrow> string \<Rightarrow> 's \<Rightarrow> (lock_error + LockResult) \<times> 's" where
  "TryLock ops now token name owner expireNs renewToken s =
     (case TryLock_decide ops now name owner renewToken s of
        Inl e \<Rightarrow> (Inl e, s)
      | Inr (Some r) \<Rightarrow> (Inr r, s)
      | Inr None \<Rightarrow> TryLock_write ops now token name owner expireNs s)"

definition Unlock :: "'s FilerStore \<Rightarrow> string \<Rightarrow> string \<Rightarrow> 's \<Rightarrow> (lock_error + unit) \<times> 's" where
  "Unlock ops name renewToken s =
     (case lock_data ops name s of
        Inl e \<Rightarrow> (Inl (LErrKvGet e), s)
      | Inr None \<Rightarrow> (Inl LErrLockNotFound, s)
      | Inr (Some v) \<Rightarrow>
          (case lock_unmarshal v of
             None \<Rightarrow> (Inl LErrUnmarshal, s)
           | Some entry \<Rightarrow>
               if lk_RenewToken entry \<noteq> renewToken then (Inl LErrNotLockOwner, s)
               else (case KvDelete ops s (lockKey name) of
                       (Inl e, s1) \<Rightarrow> (Inl (LErrKvDelete e), s1)
                     | (Inr _, s1) \<Rightarrow> (Inr (), s1))))"

definition IsLocked :: "'s FilerStore \<Rightarrow> int \<Rightarrow> string \<Rightarrow> 's \<Rightarrow> lock_error + bool \<times> string" where
  "IsLocked ops now name s =
     (case lock_data ops name s of
        Inl e \<Rightarrow> Inl (LErrKvGet e)
      | Inr None \<Rightarrow> Inr (False, [])
      | Inr (Some v) \<Rightarrow>
          (case lock_unmarshal v of
             None \<Rightarrow> Inl LErrUnmarshal
           | Some entry \<Rightarrow> if lk_ExpireAtNs entry < now then Inr (False, []) else Inr (True, lk_Owner entry)))"

section \<open>Mutual exclusion\<close>

lemma lock_codec:
  "- (2 ^ 63) \<le> lk_ExpireAtNs e \<Longrightarrow> lk_ExpireAtNs e < 2 ^ 63 \<Longrightarrow> lock_unmarshal (lock_marshal e) = Some e"
  by (simp add: lock_unmarshal_def lock_marshal_def json_field_def json_string_def json_int_def)

lemma lockKey_inj [simp]: "lockKey a = lockKey b \<longleftrightarrow> a = b"
  by (simp add: lockKey_def)

text \<open>The lock calls that others make while \<open>owner\<close> holds \<open>name\<close> with \<open>token\<close>: any call on another lock, and on
  this one the calls before \<open>expire\<close> of who neither is the owner nor has the token.\<close>

inductive others :: "'s FilerStore \<Rightarrow> string \<Rightarrow> string \<Rightarrow> string \<Rightarrow> int \<Rightarrow> 's \<Rightarrow> 's \<Rightarrow> bool"
  for ops name owner token expire where
  none: "others ops name owner token expire s s"
| attempt: "\<lbrakk>others ops name owner token expire s s1; n \<noteq> name \<or> o' \<noteq> owner \<and> t' \<noteq> token \<and> now < expire;
     TryLock ops now tok n o' d t' s1 = (r, s2)\<rbrakk> \<Longrightarrow> others ops name owner token expire s s2"
| unlock: "\<lbrakk>others ops name owner token expire s s1; n \<noteq> name \<or> t' \<noteq> token; Unlock ops n t' s1 = (r, s2)\<rbrakk>
    \<Longrightarrow> others ops name owner token expire s s2"

definition held :: "('s \<Rightarrow> string \<Rightarrow> kv_value option) \<Rightarrow> string \<Rightarrow> string \<Rightarrow> string \<Rightarrow> int \<Rightarrow> 's \<Rightarrow> bool" where
  "held kv name owner token expire s \<longleftrightarrow>
     kv s (lockKey name) = Some (lock_marshal \<lparr>lk_Owner = owner, lk_ExpireAtNs = expire, lk_RenewToken = token\<rparr>)"

context kv_store
begin

lemma data_held:
  assumes "held kv name owner token expire s"
  shows "(\<exists>m. lock_data ops name s = Inl (ErrStore m)) \<or>
    lock_data ops name s = Inr (Some (lock_marshal \<lparr>lk_Owner = owner, lk_ExpireAtNs = expire, lk_RenewToken = token\<rparr>))"
proof (cases "KvGet ops s (lockKey name)")
  case (Inl e)
  then show ?thesis using assms get_missing by (cases e) (auto simp: lock_data_def held_def)
next
  case (Inr v)
  then show ?thesis using assms get_Inr [OF Inr] by (auto simp: lock_data_def held_def lock_marshal_def)
qed

lemma write_other:
  assumes "TryLock_write ops now token n owner d s = (r, s')" "k \<noteq> lockKey n"
  shows "kv s' k = kv s k"
  using assms put_ok put_err
  by (auto simp: TryLock_write_def split: option.splits prod.splits sum.splits)

lemma try_other: "TryLock ops now token n owner d t s = (r, s') \<Longrightarrow> k \<noteq> lockKey n \<Longrightarrow> kv s' k = kv s k"
  using write_other by (auto simp: TryLock_def split: sum.splits option.splits)

lemma unlock_other: "Unlock ops n t s = (r, s') \<Longrightarrow> k \<noteq> lockKey n \<Longrightarrow> kv s' k = kv s k"
  using del_ok del_err by (auto simp: Unlock_def split: sum.splits option.splits prod.splits if_splits)

lemma try_held:
  assumes "held kv name owner token expire s" "- (2 ^ 63) \<le> expire" "expire < 2 ^ 63"
    and "o' \<noteq> owner" "t' \<noteq> token" "now < expire" "TryLock ops now tok name o' d t' s = (r, s')"
  shows "s' = s" "(\<exists>m. r = Inl (LErrKvGet m)) \<or> r = Inr \<lparr>lr_Acquired = False, lr_RenewToken = [], lr_CurrentOwner = owner\<rparr>"
  using data_held [OF assms(1)] assms(2-7) by (auto simp: TryLock_def TryLock_decide_def lock_codec)

lemma unlock_held:
  assumes "held kv name owner token expire s" "- (2 ^ 63) \<le> expire" "expire < 2 ^ 63"
    and "t' \<noteq> token" "Unlock ops name t' s = (r, s')"
  shows "s' = s"
  using data_held [OF assms(1)] assms(2-5) by (auto simp: Unlock_def lock_codec)

lemma others_held:
  assumes "others ops name owner token expire s s'" "held kv name owner token expire s" "- (2 ^ 63) \<le> expire" "expire < 2 ^ 63"
  shows "held kv name owner token expire s'"
  using assms(1,2)
proof (induction rule: others.induct)
  case (attempt s s1 n o' t' now tok d r s2)
  then have h: "held kv name owner token expire s1" by simp
  show ?case
  proof (cases "n = name")
    case True
    then show ?thesis using try_held(1) [OF h assms(3,4)] attempt.hyps(2,3) h by blast
  next
    case False
    then show ?thesis using h try_other [OF attempt.hyps(3), of "lockKey name"] by (simp add: held_def)
  qed
next
  case (unlock s s1 n t' r s2)
  then have h: "held kv name owner token expire s1" by simp
  show ?case
  proof (cases "n = name")
    case True
    then show ?thesis using unlock_held [OF h assms(3,4)] unlock.hyps(2,3) h by blast
  next
    case False
    then show ?thesis using h unlock_other [OF unlock.hyps(3), of "lockKey name"] by (simp add: held_def)
  qed
qed

lemma acquired_held:
  assumes "TryLock ops now (Some tok) name owner d t s = (Inr r, s')" "lr_Acquired r"
  shows "held kv name owner tok (wrap64 (now + d)) s'"
  using assms data_held put_ok
  by (auto simp: TryLock_def TryLock_decide_def TryLock_write_def held_def split: sum.splits option.splits prod.splits if_splits)

lemma exclusion:
  assumes "TryLock ops now (Some tok) name owner d t s = (Inr r, s1)" "lr_Acquired r"
    and "others ops name owner tok (wrap64 (now + d)) s1 s2"
    and "o' \<noteq> owner" "t' \<noteq> tok" "now' < wrap64 (now + d)" "TryLock ops now' tok' name o' d' t' s2 = (r', s3)"
  shows "(\<exists>m. r' = Inl (LErrKvGet m)) \<or> r' = Inr \<lparr>lr_Acquired = False, lr_RenewToken = [], lr_CurrentOwner = owner\<rparr>"
proof -
  have "held kv name owner tok (wrap64 (now + d)) s2"
    using others_held [OF assms(3) acquired_held [OF assms(1,2)]] wrap64_range by simp
  from try_held(2) [OF this _ _ assms(4-7)] show ?thesis using wrap64_range by simp
qed

end

lemma mem_KvGet_no_error: "mem_KvGet s k \<noteq> Inl (ErrStore m)"
  by (simp add: mem_KvGet_def split: option.split)

lemma mem_try_no_get_error: "TryLock (mem_ops order) now tok name owner d t s \<noteq> (Inl (LErrKvGet e), s')"
  using mem_KvGet_no_error
  by (auto simp: TryLock_def TryLock_decide_def TryLock_write_def lock_data_def split: sum.splits option.splits store_error.splits prod.splits if_splits)

text \<open>C23: mutual exclusion. Once a lock is acquired, whatever lock calls others make who are not the owner and
  do not have its token, before the lock expires no such call acquires it: it is told who the owner is.\<close>

theorem lock_exclusive:
  assumes "TryLock (mem_ops order) now (Some tok) name owner d t s = (Inr r, s1)" "lr_Acquired r"
    and "others (mem_ops order) name owner tok (wrap64 (now + d)) s1 s2"
    and "o' \<noteq> owner" "t' \<noteq> tok" "now' < wrap64 (now + d)"
  shows "TryLock (mem_ops order) now' tok' name o' d' t' s2 =
    (Inr \<lparr>lr_Acquired = False, lr_RenewToken = [], lr_CurrentOwner = owner\<rparr>, s2)"
proof -
  obtain r' s3 where run: "TryLock (mem_ops order) now' tok' name o' d' t' s2 = (r', s3)" by force
  have "held ms_kv name owner tok (wrap64 (now + d)) s2"
    using mem_kv.others_held [OF assms(3) mem_kv.acquired_held [OF assms(1,2)]] wrap64_range by simp
  from mem_kv.try_held [OF this _ _ assms(4-6) run] show ?thesis
    using run mem_try_no_get_error wrap64_range by auto
qed

lemma mem_try_free:
  assumes "ms_kv s (lockKey name) = None"
  shows "TryLock (mem_ops order) now (Some tok) name owner d t s =
    (Inr \<lparr>lr_Acquired = True, lr_RenewToken = tok, lr_CurrentOwner = []\<rparr>,
     s\<lparr>ms_kv := (ms_kv s)(lockKey name \<mapsto> lock_marshal \<lparr>lk_Owner = owner, lk_ExpireAtNs = wrap64 (now + d), lk_RenewToken = tok\<rparr>)\<rparr>)"
  using assms by (simp add: TryLock_def TryLock_decide_def lock_data_def mem_KvGet_def TryLock_write_def mem_KvPut_def)

lemma lock_exclusive_witness:
  "let s = snd (TryLock (mem_ops (\<lambda>_. [])) 10 (Some ''x'') ''job'' ''a'' 100 [] (mem_New [])) in
    TryLock (mem_ops (\<lambda>_. [])) 20 (Some ''y'') ''job'' ''b'' 5 [] s =
    (Inr \<lparr>lr_Acquired = False, lr_RenewToken = [], lr_CurrentOwner = ''a''\<rparr>, s)"
proof -
  have "ms_kv (mem_New []) (lockKey ''job'') = None" by (simp add: mem_New_def)
  note run = mem_try_free [OF this, of "\<lambda>_. []" 10 "''x''" "''a''" 100 "[]"]
  have "(20 :: int) < wrap64 (10 + 100)" by simp
  then show ?thesis using lock_exclusive [OF run _ others.none, of "''b''" "[]" 20 "Some ''y''" 5] by (simp add: run)
qed

text \<open>A lock that was released with its token, or has expired, is there for anyone.\<close>

lemma lock_released:
  assumes "TryLock (mem_ops order) now (Some tok) name owner d t s = (Inr r, s1)" "lr_Acquired r"
    and "others (mem_ops order) name owner tok (wrap64 (now + d)) s1 s2"
  shows "\<exists>s3. Unlock (mem_ops order) name tok s2 = (Inr (), s3) \<and>
      (\<exists>r3 s4. TryLock (mem_ops order) now' (Some tok') name o' d' t' s3 = (Inr r3, s4) \<and> lr_Acquired r3)"
    and "wrap64 (now + d) \<le> now' \<Longrightarrow>
      \<exists>r3 s3. TryLock (mem_ops order) now' (Some tok') name o' d' t' s2 = (Inr r3, s3) \<and> lr_Acquired r3"
proof -
  let ?e = "\<lparr>lk_Owner = owner, lk_ExpireAtNs = wrap64 (now + d), lk_RenewToken = tok\<rparr>"
  have "held ms_kv name owner tok (wrap64 (now + d)) s2"
    using mem_kv.others_held [OF assms(3) mem_kv.acquired_held [OF assms(1,2)]] wrap64_range by simp
  then have kv: "ms_kv s2 (lockKey name) = Some (lock_marshal ?e)" by (simp add: held_def)
  then have data: "lock_data (mem_ops order) name s2 = Inr (Some (lock_marshal ?e))"
    by (simp add: lock_data_def mem_KvGet_def lock_marshal_def)
  have codec: "lock_unmarshal (lock_marshal ?e) = Some ?e" using lock_codec [of ?e] wrap64_range by simp
  have un: "Unlock (mem_ops order) name tok s2 = (Inr (), s2\<lparr>ms_kv := (ms_kv s2)(lockKey name := None)\<rparr>)"
    by (simp add: Unlock_def data codec mem_KvDelete_def)
  show "\<exists>s3. Unlock (mem_ops order) name tok s2 = (Inr (), s3) \<and>
      (\<exists>r3 s4. TryLock (mem_ops order) now' (Some tok') name o' d' t' s3 = (Inr r3, s4) \<and> lr_Acquired r3)"
    unfolding un using mem_try_free [of "s2\<lparr>ms_kv := (ms_kv s2)(lockKey name := None)\<rparr>" name order now' tok' o' d' t'] by auto
  show "\<exists>r3 s3. TryLock (mem_ops order) now' (Some tok') name o' d' t' s2 = (Inr r3, s3) \<and> lr_Acquired r3"
    if "wrap64 (now + d) \<le> now'"
    using that by (simp add: TryLock_def TryLock_decide_def data codec TryLock_write_def mem_KvPut_def)
qed

text \<open>At the very nanosecond of expiry the lock reads as held, and can be taken; a duration that overflows gives a
  lock that has already expired.\<close>

lemma lock_at_expiry:
  assumes "ms_kv s (lockKey name) = Some (lock_marshal \<lparr>lk_Owner = ''a'', lk_ExpireAtNs = 100, lk_RenewToken = ''x''\<rparr>)"
  shows "IsLocked (mem_ops order) 100 name s = Inr (True, ''a'')"
    and "\<exists>r s'. TryLock (mem_ops order) 100 (Some ''y'') name ''b'' 5 [] s = (Inr r, s') \<and> lr_Acquired r"
  using assms
  by (simp_all add: IsLocked_def TryLock_def TryLock_decide_def lock_data_def mem_KvGet_def lock_codec TryLock_write_def mem_KvPut_def)
    (simp_all add: lock_marshal_def)

lemma lock_overflow: "wrap64 (1700000000000000000 + 2 ^ 63 - 1) < 1700000000000000000"
  by (simp add: wrap64_def)

text \<open>Two managers on one store are not kept apart by their mutexes: both decide before either writes, and
  both acquire the lock.\<close>

lemma two_managers:
  assumes "ms_kv s (lockKey name) = None"
  shows "TryLock_decide (mem_ops order) now name ''a'' [] s = Inr None" "TryLock_decide (mem_ops order) now name ''b'' [] s = Inr None"
    and "let (r1, s1) = TryLock_write (mem_ops order) now (Some ''x'') name ''a'' d s;
             (r2, s2) = TryLock_write (mem_ops order) now (Some ''y'') name ''b'' d s1 in
         r1 = Inr \<lparr>lr_Acquired = True, lr_RenewToken = ''x'', lr_CurrentOwner = []\<rparr> \<and>
         r2 = Inr \<lparr>lr_Acquired = True, lr_RenewToken = ''y'', lr_CurrentOwner = []\<rparr>"
  using assms by (simp_all add: TryLock_decide_def lock_data_def mem_KvGet_def TryLock_write_def mem_KvPut_def)

end
