(* ===== verification/FilerGrpc.thy ===== *)
theory FilerGrpc
  imports Filer LogBuffer LockManager
begin

text \<open>
  The gRPC service of the filer (src/goblob/server/filer_grpc_server.go): entries and their wire form,
  the handlers over the filer and the log buffer, and the events a subscriber receives. The messages of
  the service are records with the fields of the wire form that the handlers use. The clock and the
  answers of the master are arguments.
\<close>

section \<open>Entries on the wire\<close>

record PbChunk =
  pc_FileId :: string
  pc_Offset :: int
  pc_Size :: u64
  pc_ModifiedTsNs :: int
  pc_ETag :: string
  pc_IsCompressed :: bool
  pc_Fid :: string

record PbRemote =
  pr_StorageName :: string
  pr_RemotePath :: string
  pr_RemoteETag :: string

record FuseAttributes =
  fa_FileSize :: u64
  fa_Mtime :: int
  fa_FileMode :: u32
  fa_Uid :: u32
  fa_Gid :: u32
  fa_Crtime :: int
  fa_Mime :: string
  fa_Replication :: string
  fa_Collection :: string
  fa_TtlSec :: int
  fa_SymlinkTarget :: string
  fa_DiskType :: string
  fa_Inode :: u64

record PbEntry =
  pe_Name :: string
  pe_IsDirectory :: bool
  pe_Chunks :: "PbChunk option list"
  pe_Attributes :: "FuseAttributes option"
  pe_Extended :: "string \<Rightarrow> bytes option"
  pe_Content :: bytes
  pe_HardLinkId :: bytes
  pe_HardLinkCounter :: int
  pe_Remote :: "PbRemote option"

text \<open>\<open>Unix\<close> rounds down to seconds.\<close>

definition entryAttrToProto :: "Attr \<Rightarrow> FuseAttributes" where
  "entryAttrToProto a =
     \<lparr>fa_FileSize = at_FileSize a, fa_Mtime = at_Mtime a div 10 ^ 9, fa_FileMode = at_Mode a, fa_Uid = at_Uid a, fa_Gid = at_Gid a,
      fa_Crtime = at_Crtime a div 10 ^ 9, fa_Mime = at_Mime a, fa_Replication = at_Replication a, fa_Collection = at_Collection a,
      fa_TtlSec = at_TtlSec a, fa_SymlinkTarget = at_SymlinkTarget a, fa_DiskType = at_DiskType a, fa_Inode = at_INode a\<rparr>"

definition protoAttrToEntry :: "FuseAttributes option \<Rightarrow> bool \<Rightarrow> Attr" where
  "protoAttrToEntry pbAttr isDir =
     (let attr = (case pbAttr of
        None \<Rightarrow> zero_attr\<lparr>at_Mode := 0x1A4\<rparr>
      | Some p \<Rightarrow>
          \<lparr>at_Mode = fa_FileMode p, at_Uid = fa_Uid p, at_Gid = fa_Gid p, at_Mtime = fa_Mtime p * 10 ^ 9, at_Crtime = fa_Crtime p * 10 ^ 9,
           at_Mime = fa_Mime p, at_Replication = fa_Replication p, at_Collection = fa_Collection p, at_TtlSec = fa_TtlSec p,
           at_DiskType = fa_DiskType p, at_FileSize = fa_FileSize p, at_INode = fa_Inode p, at_SymlinkTarget = fa_SymlinkTarget p\<rparr>) in
      if isDir then attr\<lparr>at_Mode := or (at_Mode attr) ModeDir\<rparr> else attr)"

definition chunkToProto :: "FileChunk \<Rightarrow> PbChunk" where
  "chunkToProto c =
     \<lparr>pc_FileId = ck_FileId c, pc_Offset = ck_Offset c, pc_Size = word_of_int (if ck_Size c < 0 then 0 else ck_Size c),
      pc_ModifiedTsNs = ck_ModifiedTsNs c, pc_ETag = ck_ETag c, pc_IsCompressed = ck_IsCompressed c, pc_Fid = ck_FileId c\<rparr>"

definition protoToChunk :: "PbChunk \<Rightarrow> FileChunk" where
  "protoToChunk c =
     \<lparr>ck_FileId = pc_FileId c, ck_Offset = pc_Offset c, ck_Size = sint (pc_Size c), ck_ModifiedTsNs = pc_ModifiedTsNs c,
      ck_ETag = pc_ETag c, ck_IsCompressed = pc_IsCompressed c\<rparr>"

definition entryToProto :: "Entry \<Rightarrow> PbEntry" where
  "entryToProto e =
     \<lparr>pe_Name = snd (DirAndName (e_FullPath e)), pe_IsDirectory = IsDirectory e,
      pe_Chunks = map (\<lambda>c. Some (chunkToProto c)) (List.map_filter id (e_Chunks e)),
      pe_Attributes = Some (entryAttrToProto (e_Attr e)), pe_Extended = e_Extended e, pe_Content = e_Content e,
      pe_HardLinkId = e_HardLinkId e, pe_HardLinkCounter = e_HardLinkCounter e,
      pe_Remote = map_option (\<lambda>r. \<lparr>pr_StorageName = re_StorageName r, pr_RemotePath = re_Key r, pr_RemoteETag = re_ETag r\<rparr>) (e_Remote e)\<rparr>"

definition joinDirectoryAndName :: "string \<Rightarrow> string \<Rightarrow> FullPath" where
  "joinDirectoryAndName directory name =
     (let dir0 = (if directory = [] then ''/'' else directory);
          dir = (if hd dir0 \<noteq> CHR ''/'' then ''/'' @ dir0 else dir0) in
      if name = [] then path_Clean dir
      else if dir = ''/'' then path_Clean (''/'' @ name)
      else path_Clean (dir @ ''/'' @ name))"

definition protoToEntry :: "string \<Rightarrow> PbEntry option \<Rightarrow> Entry option" where
  "protoToEntry directory pbEntry =
     (case pbEntry of
        None \<Rightarrow> None
      | Some p \<Rightarrow>
          Some \<lparr>e_FullPath = joinDirectoryAndName directory (pe_Name p), e_Attr = protoAttrToEntry (pe_Attributes p) (pe_IsDirectory p),
            e_Chunks = map (\<lambda>c. Some (protoToChunk c)) (List.map_filter id (pe_Chunks p)), e_Content = pe_Content p,
            e_Extended = pe_Extended p, e_HardLinkId = pe_HardLinkId p, e_HardLinkCounter = pe_HardLinkCounter p,
            e_Remote = map_option (\<lambda>r. \<lparr>re_StorageName = pr_StorageName r, re_Key = pr_RemotePath r, re_ETag = pr_RemoteETag r, re_StoredName = []\<rparr>)
              (pe_Remote p)\<rparr>)"

section \<open>Handlers\<close>

datatype grpc_error = GUnavailable | GNotFound | GInvalidArgument | GFailedPrecondition | GInternal filer_error

text \<open>The server: the operations and the state of the store, none when the filer is not initialized, and the
  log buffer with what it has handed to its flush function.\<close>

record 's FilerServer =
  fs_ops :: "'s FilerStore option"
  fs_store :: 's
  fs_log :: LogBuffer
  fs_flushed :: "flush_call list"

definition log_event :: "int \<Rightarrow> string \<Rightarrow> 's FilerServer \<Rightarrow> 's FilerServer" where
  "log_event now msg fs =
     (case AppendEntry now (to_bytes msg) (fs_log fs) of
        (lb, calls) \<Rightarrow> fs\<lparr>fs_log := lb, fs_flushed := fs_flushed fs @ calls\<rparr>)"

definition lookup_error :: "filer_error \<Rightarrow> grpc_error" where
  "lookup_error e = (if e = FErrStore ErrNotFound then GNotFound else GInternal e)"

definition LookupDirectoryEntry :: "string \<Rightarrow> string \<Rightarrow> 's FilerServer \<Rightarrow> grpc_error + PbEntry" where
  "LookupDirectoryEntry directory name fs =
     (if fs_ops fs = None then Inl GUnavailable
      else case Filer_FindEntry (fs_ops fs) (joinDirectoryAndName directory name) (fs_store fs) of
        Inl e \<Rightarrow> Inl (lookup_error e)
      | Inr entry \<Rightarrow> Inr (entryToProto entry))"

definition grpc_CreateEntry :: "int \<Rightarrow> string \<Rightarrow> PbEntry option \<Rightarrow> 's FilerServer \<Rightarrow> (grpc_error + unit) \<times> 's FilerServer" where
  "grpc_CreateEntry now directory pb fs =
     (if fs_ops fs = None then (Inl GUnavailable, fs)
      else case protoToEntry directory pb of
        None \<Rightarrow> (Inl GInvalidArgument, fs)
      | Some entry \<Rightarrow>
          (case Filer_CreateEntry (fs_ops fs) entry (fs_store fs) of
             (Inl e, s) \<Rightarrow> (Inl (GInternal e), fs\<lparr>fs_store := s\<rparr>)
           | (Inr _, s) \<Rightarrow> (Inr (), log_event now (''create:'' @ e_FullPath entry) (fs\<lparr>fs_store := s\<rparr>))))"

definition grpc_UpdateEntry :: "string \<Rightarrow> PbEntry option \<Rightarrow> 's FilerServer \<Rightarrow> (grpc_error + unit) \<times> 's FilerServer" where
  "grpc_UpdateEntry directory pb fs =
     (if fs_ops fs = None then (Inl GUnavailable, fs)
      else case protoToEntry directory pb of
        None \<Rightarrow> (Inl GInvalidArgument, fs)
      | Some entry \<Rightarrow>
          (case Filer_UpdateEntry (fs_ops fs) entry (fs_store fs) of
             (Inl e, s) \<Rightarrow> (Inl (GInternal e), fs\<lparr>fs_store := s\<rparr>)
           | (Inr _, s) \<Rightarrow> (Inr (), fs\<lparr>fs_store := s\<rparr>)))"

definition grpc_DeleteEntry :: "int \<Rightarrow> string \<Rightarrow> string \<Rightarrow> 's FilerServer \<Rightarrow> (grpc_error + unit) \<times> 's FilerServer" where
  "grpc_DeleteEntry now directory name fs =
     (if fs_ops fs = None then (Inl GUnavailable, fs)
      else let fullPath = joinDirectoryAndName directory name in
        case Filer_DeleteEntry (fs_ops fs) fullPath (fs_store fs) of
          (Inl e, s) \<Rightarrow> (Inl (lookup_error e), fs\<lparr>fs_store := s\<rparr>)
        | (Inr _, s) \<Rightarrow> (Inr (), log_event now (''delete:'' @ fullPath) (fs\<lparr>fs_store := s\<rparr>)))"

definition AppendToEntry :: "string \<Rightarrow> string \<Rightarrow> PbChunk option list \<Rightarrow> 's FilerServer \<Rightarrow> (grpc_error + unit) \<times> 's FilerServer" where
  "AppendToEntry directory name chunks fs =
     (if fs_ops fs = None then (Inl GUnavailable, fs)
      else case Filer_FindEntry (fs_ops fs) (joinDirectoryAndName directory name) (fs_store fs) of
        Inl e \<Rightarrow> (Inl (lookup_error e), fs)
      | Inr entry \<Rightarrow>
          (case Filer_UpdateEntry (fs_ops fs)
                  (entry\<lparr>e_Chunks := e_Chunks entry @ map (\<lambda>c. Some (protoToChunk c)) (List.map_filter id chunks)\<rparr>) (fs_store fs) of
             (Inl e, s) \<Rightarrow> (Inl (GInternal e), fs\<lparr>fs_store := s\<rparr>)
           | (Inr _, s) \<Rightarrow> (Inr (), fs\<lparr>fs_store := s\<rparr>)))"

definition AtomicRenameEntry ::
  "int \<Rightarrow> string \<Rightarrow> string \<Rightarrow> string \<Rightarrow> string \<Rightarrow> 's FilerServer \<Rightarrow> (grpc_error + unit) \<times> 's FilerServer" where
  "AtomicRenameEntry now oldDir oldName newDir newName fs =
     (if fs_ops fs = None then (Inl GUnavailable, fs)
      else let oldPath = joinDirectoryAndName oldDir oldName; newPath = joinDirectoryAndName newDir newName in
        case Filer_FindEntry (fs_ops fs) oldPath (fs_store fs) of
          Inl e \<Rightarrow> (Inl (lookup_error e), fs)
        | Inr entry \<Rightarrow>
            (case Filer_UpdateEntry (fs_ops fs) (entry\<lparr>e_FullPath := newPath\<rparr>) (fs_store fs) of
               (Inl e, s) \<Rightarrow> (Inl (GInternal e), fs\<lparr>fs_store := s\<rparr>)
             | (Inr _, s) \<Rightarrow>
                 (case Filer_DeleteEntry (fs_ops fs) oldPath s of
                    (Inl e, s) \<Rightarrow> (Inl (GInternal e), fs\<lparr>fs_store := s\<rparr>)
                  | (Inr _, s) \<Rightarrow> (Inr (), log_event now (''rename:'' @ oldPath @ ''->'' @ newPath) (fs\<lparr>fs_store := s\<rparr>)))))"

text \<open>The message that is streamed: the entry, \<open>"rename"\<close> and the new directory.\<close>

definition StreamRenameEntry ::
  "int \<Rightarrow> string \<Rightarrow> string \<Rightarrow> string \<Rightarrow> string \<Rightarrow> 's FilerServer \<Rightarrow> (grpc_error + PbEntry \<times> string \<times> string) \<times> 's FilerServer" where
  "StreamRenameEntry now oldDir oldName newDir newName fs =
     (case AtomicRenameEntry now oldDir oldName newDir newName fs of
        (Inl e, fs1) \<Rightarrow> (Inl e, fs1)
      | (Inr _, fs1) \<Rightarrow>
          (case Filer_FindEntry (fs_ops fs1) (joinDirectoryAndName newDir newName) (fs_store fs1) of
             Inl e \<Rightarrow> (Inl (GInternal e), fs1)
           | Inr entry \<Rightarrow> (Inr (entryToProto entry, ''rename'', newDir), fs1)))"

text \<open>The stream accepts \<open>accepts\<close> messages, none after that. The state of the callback is the list of the
  entries that were sent, with the one whose sending failed.\<close>

definition send_entry :: "nat \<Rightarrow> Entry \<Rightarrow> Entry list \<Rightarrow> bool \<times> Entry list" where
  "send_entry accepts e acc =
     (if accepts < length acc then (False, acc) else (length acc < accepts, acc @ [e]))"

datatype list_error = LErrSend | LErrList grpc_error

definition grpc_ListEntries ::
  "nat \<Rightarrow> string \<Rightarrow> string \<Rightarrow> string \<Rightarrow> bool \<Rightarrow> u32 \<Rightarrow> 's FilerServer \<Rightarrow> PbEntry list \<times> list_error option" where
  "grpc_ListEntries accepts directory prefix start incl reqLimit fs =
     (case fs_ops fs of
        None \<Rightarrow> ([], Some (LErrList GUnavailable))
      | Some ops \<Rightarrow>
          let dir = joinDirectoryAndName directory []; limit = (if reqLimit = 0 then 10000 else uint reqLimit) in
          case ListEntries ops (fs_store fs) dir start incl limit prefix (send_entry accepts) [] of
            (r, acc) \<Rightarrow>
              (map entryToProto (take accepts acc),
               if accepts < length acc then Some LErrSend
               else case r of Inl e \<Rightarrow> Some (LErrList (GInternal (FErrStore e))) | Inr _ \<Rightarrow> None))"

section \<open>Volumes, keys and locks\<close>

datatype token_error = TErrEmpty | TErrInvalid string | TErrLookup string

definition parseLookupVolumeToken :: "string \<Rightarrow> token_error + VolumeId" where
  "parseLookupVolumeToken v =
     (if v = [] then Inl TErrEmpty
      else case ParseFileId v of
        Inr fid \<Rightarrow> Inr (fid_VolumeId fid)
      | Inl _ \<Rightarrow> (case parse_uint v 10 32 of None \<Rightarrow> Inl (TErrInvalid v) | Some n \<Rightarrow> Inr (of_nat n)))"

text \<open>The locations the master has of a volume are the argument \<open>lookup\<close>; the answer maps each requested token to its
  locations or to an error.\<close>

definition LookupVolume ::
  "(VolumeId \<Rightarrow> string + (string \<times> string) list) \<Rightarrow> string list \<Rightarrow> string list \<Rightarrow> 's FilerServer \<Rightarrow>
   grpc_error + (string \<Rightarrow> (token_error + (string \<times> string) list) option)" where
  "LookupVolume lookup masters tokens fs =
     (if fs_ops fs = None then Inl GUnavailable
      else if masters = [] then Inl GFailedPrecondition
      else Inr (fold (\<lambda>token m. m(token \<mapsto>
             (case parseLookupVolumeToken token of
                Inl e \<Rightarrow> Inl e
              | Inr vid \<Rightarrow> (case lookup vid of Inl m \<Rightarrow> Inl (TErrLookup m) | Inr locs \<Rightarrow> Inr locs)))) tokens Map.empty))"

definition grpc_KvGet :: "string \<Rightarrow> 's FilerServer \<Rightarrow> grpc_error + store_error + kv_value" where
  "grpc_KvGet key fs = (case fs_ops fs of None \<Rightarrow> Inl GUnavailable | Some ops \<Rightarrow> Inr (KvGet ops (fs_store fs) key))"

definition grpc_KvPut :: "string \<Rightarrow> kv_value \<Rightarrow> 's FilerServer \<Rightarrow> (grpc_error + store_error option) \<times> 's FilerServer" where
  "grpc_KvPut key v fs =
     (case fs_ops fs of
        None \<Rightarrow> (Inl GUnavailable, fs)
      | Some ops \<Rightarrow>
          (case KvPut ops (fs_store fs) key v of
             (Inl e, s) \<Rightarrow> (Inr (Some e), fs\<lparr>fs_store := s\<rparr>)
           | (Inr _, s) \<Rightarrow> (Inr None, fs\<lparr>fs_store := s\<rparr>)))"

definition grpc_KvDelete :: "string \<Rightarrow> 's FilerServer \<Rightarrow> (grpc_error + store_error option) \<times> 's FilerServer" where
  "grpc_KvDelete key fs =
     (case fs_ops fs of
        None \<Rightarrow> (Inl GUnavailable, fs)
      | Some ops \<Rightarrow>
          (case KvDelete ops (fs_store fs) key of
             (Inl e, s) \<Rightarrow> (Inr (Some e), fs\<lparr>fs_store := s\<rparr>)
           | (Inr _, s) \<Rightarrow> (Inr None, fs\<lparr>fs_store := s\<rparr>)))"

datatype lock_answer = LockErr lock_error | LockHeldBy string | LockToken string

definition DistributedLock ::
  "int \<Rightarrow> string option \<Rightarrow> string \<Rightarrow> string \<Rightarrow> int \<Rightarrow> string \<Rightarrow> 's FilerServer \<Rightarrow> (grpc_error + lock_answer) \<times> 's FilerServer" where
  "DistributedLock now token name owner expireNs renewToken fs =
     (case fs_ops fs of
        None \<Rightarrow> (Inl GUnavailable, fs)
      | Some ops \<Rightarrow>
          (case TryLock ops now token name owner expireNs renewToken (fs_store fs) of
             (Inl e, s) \<Rightarrow> (Inr (LockErr e), fs\<lparr>fs_store := s\<rparr>)
           | (Inr r, s) \<Rightarrow>
               (Inr (if lr_Acquired r then LockToken (lr_RenewToken r) else LockHeldBy (lr_CurrentOwner r)), fs\<lparr>fs_store := s\<rparr>)))"

definition DistributedUnlock :: "string \<Rightarrow> string \<Rightarrow> 's FilerServer \<Rightarrow> (grpc_error + lock_error option) \<times> 's FilerServer" where
  "DistributedUnlock name renewToken fs =
     (case fs_ops fs of
        None \<Rightarrow> (Inl GUnavailable, fs)
      | Some ops \<Rightarrow>
          (case Unlock ops name renewToken (fs_store fs) of
             (Inl e, s) \<Rightarrow> (Inr (Some e), fs\<lparr>fs_store := s\<rparr>)
           | (Inr _, s) \<Rightarrow> (Inr None, fs\<lparr>fs_store := s\<rparr>)))"

section \<open>Subscriptions\<close>

record SubscribeResponse =
  sr_Directory :: string
  sr_TsNs :: int
  sr_OldEntry :: "string option"
  sr_NewEntry :: "string option"
  sr_NewParentPath :: string

text \<open>\<open>strings.Cut\<close> at a colon, and \<open>strings.SplitN\<close> in two at an arrow.\<close>

definition cut_colon :: "string \<Rightarrow> (string \<times> string) option" where
  "cut_colon s = map_option (\<lambda>i. (take i s, drop (i + 1) s)) (str_index (CHR '':'') s)"

fun split_arrow :: "string \<Rightarrow> (string \<times> string) option" where
  "split_arrow (a # b # s) =
     (if a = CHR ''-'' \<and> b = CHR ''>'' then Some ([], s) else map_option (\<lambda>(x, y). (a # x, y)) (split_arrow (b # s)))"
| "split_arrow _ = None"

definition eventBytesToSubscribeResponse :: "int \<Rightarrow> bytes \<Rightarrow> SubscribeResponse option" where
  "eventBytesToSubscribeResponse now evt =
     (case cut_colon (of_bytes evt) of
        None \<Rightarrow> None
      | Some (op, target) \<Rightarrow>
          if target = [] then None
          else let (dir, name) = DirAndName target;
                   resp = \<lparr>sr_Directory = dir, sr_TsNs = now, sr_OldEntry = None, sr_NewEntry = None, sr_NewParentPath = []\<rparr> in
            if op = ''create'' then Some (resp\<lparr>sr_NewEntry := Some name\<rparr>)
            else if op = ''delete'' then Some (resp\<lparr>sr_OldEntry := Some name\<rparr>)
            else if op = ''rename'' then
              (case split_arrow target of
                 None \<Rightarrow> Some resp
               | Some (old, new) \<Rightarrow>
                   let (oldDir, oldName) = DirAndName old; (newDir, newName) = DirAndName new in
                   Some (resp\<lparr>sr_Directory := oldDir, sr_OldEntry := Some oldName, sr_NewEntry := Some newName, sr_NewParentPath := newDir\<rparr>))
            else None)"

text \<open>One turn of the loop of a subscription: the messages sent and the time to go on from. When there is nothing to
  read the subscription waits. A message that cannot be sent ends the subscription, which \<open>accepts\<close> bounds.\<close>

definition wanted :: "int \<Rightarrow> string \<Rightarrow> bytes list \<Rightarrow> SubscribeResponse list" where
  "wanted now pathPrefix evts =
     filter (\<lambda>r. pathPrefix = [] \<or> HasPrefix (sr_Directory r) pathPrefix) (List.map_filter (eventBytesToSubscribeResponse now) evts)"

datatype subscription = Waits | Sent "SubscribeResponse list" int | SendFailed "SubscribeResponse list"

definition SubscribeMetadata_turn :: "nat \<Rightarrow> int \<Rightarrow> string \<Rightarrow> int \<Rightarrow> 's FilerServer \<Rightarrow> subscription" where
  "SubscribeMetadata_turn accepts now pathPrefix sinceNs fs =
     (case ReadFromBuffer sinceNs (fs_log fs) of
        (events, nextTs) \<Rightarrow>
          if events = [] then Waits
          else let msgs = wanted now pathPrefix events in
            if accepts < length msgs then SendFailed (take accepts msgs)
            else Sent msgs (if nextTs > sinceNs then nextTs else sinceNs))"

end
