(* ===== verification/FilerProps.thy ===== *)
theory FilerProps
  imports Filer
begin

text \<open>
  The namespace of the filer. Creating directories adds exactly the missing ancestors, on any store; the
  tree stays closed under parents; following the cursor of a listing yields every child once and in
  order; a path gets its longest rule.
\<close>

section \<open>Directories\<close>

text \<open>Every entry has its directory: at the root, or an entry itself.\<close>

definition closed :: "(FullPath \<Rightarrow> Entry option) \<Rightarrow> bool" where
  "closed A \<longleftrightarrow> (\<forall>p \<in> dom A. fst (DirAndName p) = ''/'' \<or> fst (DirAndName p) \<in> dom A)"

definition plain :: "string \<Rightarrow> bool" where
  "plain s \<longleftrightarrow> s \<noteq> [] \<and> CHR ''/'' \<notin> set s"

lemma path_of_plain: "\<forall>s \<in> set segs. plain s \<Longrightarrow> path_of segs = ''/'' \<longleftrightarrow> segs = []"
  by (cases segs rule: rev_cases) (simp_all add: path_of_snoc plain_def append_eq_Cons_conv)

lemma child_path_of: "\<forall>s \<in> set segs. plain s \<Longrightarrow> child_path (path_of segs) part = path_of (segs @ [part])"
  by (simp add: child_path_def path_of_snoc path_of_plain)

text \<open>The paths visited below \<open>pre\<close>.\<close>

definition prefixes :: "string list \<Rightarrow> string list \<Rightarrow> FullPath set" where
  "prefixes pre parts = {path_of (pre @ take k parts) |k. 0 < k \<and> k \<le> length parts}"

lemma prefixes_Nil [simp]: "prefixes pre [] = {}"
  by (auto simp: prefixes_def)

lemma prefixes_Cons: "prefixes pre (x # xs) = insert (path_of (pre @ [x])) (prefixes (pre @ [x]) xs)"
proof -
  have "(\<exists>k. p = path_of (pre @ take k (x # xs)) \<and> 0 < k \<and> k \<le> length (x # xs)) \<longleftrightarrow>
      p = path_of (pre @ [x]) \<or> (\<exists>k. p = path_of ((pre @ [x]) @ take k xs) \<and> 0 < k \<and> k \<le> length xs)" (is "?L \<longleftrightarrow> ?R") for p
  proof
    assume ?L
    then obtain j where j: "p = path_of (pre @ take (Suc j) (x # xs))" "j \<le> length xs" by (metis Suc_le_mono length_Cons gr0_implies_Suc)
    then show ?R by (cases "j = 0") (simp, intro disjI2 exI [of _ j], simp)
  next
    assume ?R
    then show ?L
    proof
      assume "p = path_of (pre @ [x])"
      then show ?L by (intro exI [of _ 1]) simp
    next
      assume "\<exists>k. p = path_of ((pre @ [x]) @ take k xs) \<and> 0 < k \<and> k \<le> length xs"
      then obtain k where "p = path_of ((pre @ [x]) @ take k xs)" "0 < k" "k \<le> length xs" by blast
      then show ?L by (intro exI [of _ "Suc k"]) simp
    qed
  qed
  then show ?thesis unfolding prefixes_def by auto
qed

context entry_store
begin

text \<open>What happens to the entries on the way, whether or not it ends in an error.\<close>

definition adds_dirs :: "int \<Rightarrow> FullPath set \<Rightarrow> 's \<Rightarrow> 's \<Rightarrow> bool" where
  "adds_dirs now P s s' \<longleftrightarrow>
     entries s \<subseteq>\<^sub>m entries s' \<and> dom (entries s') \<subseteq> dom (entries s) \<union> P \<and>
     (\<forall>p. p \<notin> dom (entries s) \<longrightarrow> p \<in> dom (entries s') \<longrightarrow> entries s' p = Some (dir_entry now p))"

lemma adds_dirs_refl: "entries s' = entries s \<Longrightarrow> adds_dirs now P s s'"
  by (auto simp: adds_dirs_def)

lemma adds_dirs_trans:
  assumes "adds_dirs now P s s1" "adds_dirs now Q s1 s2" "P \<subseteq> R" "Q \<subseteq> R"
  shows "adds_dirs now R s s2"
proof -
  have "entries s2 p = Some (dir_entry now p)" if p: "p \<notin> dom (entries s)" "p \<in> dom (entries s2)" for p
  proof (cases "p \<in> dom (entries s1)")
    case True
    then show ?thesis using assms(1,2) p(1) unfolding adds_dirs_def map_le_def by metis
  next
    case False
    then show ?thesis using assms(2) p(2) unfolding adds_dirs_def by blast
  qed
  then show ?thesis using assms unfolding adds_dirs_def by (blast intro: map_le_trans)
qed

lemma mkdir_parts_effect:
  assumes "mkdir_parts ops now parts (path_of pre) s = (r, s')" "\<forall>x \<in> set parts. CHR ''/'' \<notin> set x" "\<forall>x \<in> set pre. plain x"
    and "closed (entries s)" "pre = [] \<or> path_of pre \<in> dom (entries s)"
  shows "adds_dirs now (prefixes pre (filter (\<lambda>x. x \<noteq> []) parts)) s s' \<and> closed (entries s') \<and>
    (r = Inr () \<longrightarrow> prefixes pre (filter (\<lambda>x. x \<noteq> []) parts) \<subseteq> dom (entries s'))"
  using assms
proof (induction parts arbitrary: pre s)
  case Nil
  then show ?case by (simp add: adds_dirs_refl)
next
  case (Cons part parts)
  show ?case
  proof (cases "part = []")
    case True
    then show ?thesis using Cons.IH [of pre s] Cons.prems by simp
  next
    case False
    let ?Q = "prefixes (pre @ [part]) (filter (\<lambda>x. x \<noteq> []) parts)" and ?c = "path_of (pre @ [part])"
    have part: "CHR ''/'' \<notin> set part" "plain part" "\<forall>x \<in> set (pre @ [part]). plain x"
      using Cons.prems(2,3) False by (auto simp: plain_def)
    have c: "child_path (path_of pre) part = ?c" using Cons.prems(3) by (rule child_path_of)
    have P: "prefixes pre (filter (\<lambda>x. x \<noteq> []) (part # parts)) = insert ?c ?Q" using False by (simp add: prefixes_Cons)
    have go: ?thesis if run: "mkdir_parts ops now parts ?c s1 = (r, s')" and s1: "adds_dirs now {?c} s s1" "closed (entries s1)" "?c \<in> dom (entries s1)" for s1
    proof -
      have IH: "adds_dirs now ?Q s1 s' \<and> closed (entries s') \<and> (r = Inr () \<longrightarrow> ?Q \<subseteq> dom (entries s'))"
        using Cons.IH [OF run _ part(3) s1(2)] Cons.prems(2) s1(3) by simp
      then have "entries s1 \<subseteq>\<^sub>m entries s'" by (simp add: adds_dirs_def)
      then have "?c \<in> dom (entries s')" using s1(3) map_le_implies_dom_le by blast
      then show ?thesis using IH adds_dirs_trans [OF s1(1), of ?Q s' "insert ?c ?Q"] unfolding P by auto
    qed
    have "FindEntry ops s ?c = Inl ErrNotFound \<or> (\<exists>m. FindEntry ops s ?c = Inl (ErrStore m)) \<or> (\<exists>e. FindEntry ops s ?c = Inr e)"
      by (metis store_error.exhaust sum.exhaust)
    then consider (missing) "FindEntry ops s ?c = Inl ErrNotFound" | (err) m where "FindEntry ops s ?c = Inl (ErrStore m)"
      | (there) e where "FindEntry ops s ?c = Inr e" by blast
    then show ?thesis
    proof cases
      case missing
      obtain ir s1 where i: "InsertEntry ops s (dir_entry now ?c) = (ir, s1)" by fastforce
      show ?thesis
      proof (cases ir)
        case (Inl e)
        then have "s' = s1" "r \<noteq> Inr ()" using Cons.prems(1) False c missing i by auto
        then show ?thesis using insert_err [OF i [unfolded Inl]] Cons.prems(4) by (simp add: adds_dirs_refl)
      next
        case (Inr u)
        have e1: "entries s1 = (entries s)(?c \<mapsto> dir_entry now ?c)"
          using insert_ok [of s "dir_entry now ?c" s1] i Inr by (simp add: dir_entry_def)
        have cl: "closed (entries s1)" using Cons.prems(4,5) part(1) unfolding e1 closed_def by auto
        have add: "adds_dirs now {?c} s s1" using find_missing [OF missing] by (auto simp: adds_dirs_def e1 map_le_def)
        have run: "mkdir_parts ops now parts ?c s1 = (r, s')" using Cons.prems(1) False c missing i Inr by simp
        have "?c \<in> dom (entries s1)" by (simp add: e1)
        then show ?thesis by (rule go [OF run add cl])
      qed
    next
      case err
      then show ?thesis using Cons.prems(1,4) False c by (auto simp: adds_dirs_refl)
    next
      case there
      then have "mkdir_parts ops now parts ?c s = (r, s')" using Cons.prems(1) False c by simp
      then show ?thesis using Cons.prems(4) find_Inr [OF there] by (intro go [of s]) (auto simp: adds_dirs_refl)
    qed
  qed
qed

end

lemma trim_join: "\<forall>s \<in> set segs. seg_ok s \<Longrightarrow> trim_slashes (path_of segs) = join_segs segs"
proof (cases "segs = []")
  case False
  assume ok: "\<forall>s \<in> set segs. seg_ok s"
  have ne: "s \<noteq> [] \<and> CHR ''/'' \<notin> set s" if "s \<in> set segs" for s using ok that unfolding seg_ok_def by blast
  obtain us u where u: "segs = us @ [u]" using False by (cases segs rule: rev_cases) simp_all
  obtain v vs where v: "segs = v # vs" using False by (cases segs) simp_all
  have "hd v \<noteq> CHR ''/''" "v \<noteq> []" using ne [of v] v hd_in_set [of v] by (auto simp del: hd_in_set)
  then have "dropWhile (\<lambda>c. c = CHR ''/'') (path_of segs) = join_segs segs"
    by (cases v; cases vs) (simp_all add: path_of_def v join_segs_Cons)
  moreover have "last u \<noteq> CHR ''/''" "u \<noteq> []" using ne [of u] u last_in_set [of u] by (auto simp del: last_in_set)
  then have "dropWhile (\<lambda>c. c = CHR ''/'') (rev (join_segs segs)) = rev (join_segs segs)"
    by (cases u rule: rev_cases) (simp_all add: u join_segs_snoc)
  ultimately show ?thesis by (simp add: trim_slashes_def)
qed (simp add: trim_slashes_def)

lemma parts_of_path:
  assumes "\<forall>s \<in> set segs. seg_ok s" "segs \<noteq> []"
  shows "str_split (CHR ''/'') (trim_slashes (path_of segs)) = segs" "filter (\<lambda>x. x \<noteq> []) segs = segs"
proof -
  have "\<forall>s \<in> set segs. CHR ''/'' \<notin> set s" using assms(1) unfolding seg_ok_def by blast
  then show "str_split (CHR ''/'') (trim_slashes (path_of segs)) = segs" using assms by (simp add: trim_join split_join)
  show "filter (\<lambda>x. x \<noteq> []) segs = segs" using assms(1) unfolding filter_id_conv seg_ok_def by blast
qed

lemma mem_mkdir_total: "\<exists>s'. mkdir_parts (mem_ops order) now parts cur s = (Inr (), s')"
  by (induction parts arbitrary: cur s)
    (auto simp: Let_def mem_FindEntry_def mem_upsert_def split: option.splits)

lemma MkdirAll_mem:
  assumes "\<forall>x \<in> set segs. seg_ok x" "closed (ms_entries s)"
  shows "\<exists>s'. MkdirAll (Some (mem_ops order)) now (path_of segs) s = (Inr (), s') \<and> closed (ms_entries s') \<and>
    ms_entries s \<subseteq>\<^sub>m ms_entries s' \<and> dom (ms_entries s') = dom (ms_entries s) \<union> prefixes [] segs \<and>
    (\<forall>p \<in> dom (ms_entries s') - dom (ms_entries s). ms_entries s' p = Some (dir_entry now p))"
proof (cases "segs = []")
  case True
  then show ?thesis using assms(2) by (simp add: MkdirAll_def)
next
  case False
  obtain s' where run: "mkdir_parts (mem_ops order) now segs (path_of []) s = (Inr (), s')" using mem_mkdir_total by blast
  have "\<forall>x \<in> set segs. CHR ''/'' \<notin> set x" using assms(1) unfolding seg_ok_def by blast
  from mem.mkdir_parts_effect [OF run this _ assms(2)]
  have E: "mem.adds_dirs now (prefixes [] segs) s s'" "closed (ms_entries s')" "prefixes [] segs \<subseteq> dom (ms_entries s')"
    using parts_of_path(2) [OF assms(1) False] by simp_all
  have "path_of segs \<noteq> ''/''" using path_of_root [OF assms(1)] False by simp
  then have "MkdirAll (Some (mem_ops order)) now (path_of segs) s = (Inr (), s')"
    using run parts_of_path(1) [OF assms(1) False] by (simp add: MkdirAll_def)
  moreover have "dom (ms_entries s) \<subseteq> dom (ms_entries s')" using E(1) unfolding mem.adds_dirs_def by (simp add: map_le_implies_dom_le)
  ultimately show ?thesis using E unfolding mem.adds_dirs_def by blast
qed

section \<open>The namespace stays a tree\<close>

lemma DirAndName_split:
  assumes "DirAndName p = (d, n)" "d \<noteq> ''/''"
  shows "p = d @ ''/'' @ n"
proof -
  obtain i where i: "str_last_index (CHR ''/'') p = Some i" "i \<noteq> 0" "d = take i p" "n = drop (i + 1) p"
    using assms by (auto simp: DirAndName_def split: option.splits if_splits)
  have "p = take i p @ p ! i # drop (Suc i) p" using str_last_indexD [OF i(1)] id_take_nth_drop by blast
  then show ?thesis using str_last_indexD [OF i(1)] i(3,4) by simp
qed

lemma HasPrefix_append: "HasPrefix d p \<Longrightarrow> HasPrefix (d @ t) p"
  by (simp add: HasPrefix_def)

lemma closed_create:
  assumes "closed (ms_entries s)" "Filer_CreateEntry (Some (mem_ops order)) e s = (r, s')"
  shows "closed (ms_entries s')"
  using assms unfolding closed_def
  by (auto simp: Filer_CreateEntry_def lift_store_def mem_upsert_def mem_FindEntry_def Let_def split: if_splits option.splits)

lemma closed_mkdir:
  assumes "closed (ms_entries s)" "MkdirAll (Some (mem_ops order)) now p s = (r, s')"
  shows "closed (ms_entries s')"
proof (cases "p = ''/'' \<or> p = []")
  case True
  then show ?thesis using assms by (simp add: MkdirAll_def)
next
  case False
  then have "mkdir_parts (mem_ops order) now (str_split (CHR ''/'') (trim_slashes p)) (path_of []) s = (r, s')"
    using assms(2) by (simp add: MkdirAll_def)
  from mem.mkdir_parts_effect [OF this] show ?thesis using assms(1) str_split_no_sep by auto
qed

lemma closed_delete_tree:
  assumes "closed (ms_entries s)"
  shows "closed (ms_entries (snd (mem_DeleteFolderChildren s fp)))"
proof -
  define pre where "pre = (if HasSuffix fp ''/'' then fp else fp @ ''/'')"
  have "fst (DirAndName p) = ''/'' \<or> \<not> HasPrefix (fst (DirAndName p)) pre" if "\<not> HasPrefix p pre" for p
    using that DirAndName_split [of p "fst (DirAndName p)" "snd (DirAndName p)"] HasPrefix_append
    by (metis prod.collapse)
  then show ?thesis using assms unfolding closed_def mem_DeleteFolderChildren_def Let_def pre_def [symmetric]
    by (auto simp: dom_def split: if_splits)
qed

text \<open>Histories: directories and entries are created, entries that exist are updated, entries without
  children are deleted, and subtrees are deleted.\<close>

inductive namespace_run :: "(Store \<Rightarrow> string list) \<Rightarrow> Store \<Rightarrow> bool" for order where
  start: "namespace_run order (mem_New n)"
| mkdir: "\<lbrakk>namespace_run order s; MkdirAll (Some (mem_ops order)) now p s = (r, s')\<rbrakk> \<Longrightarrow> namespace_run order s'"
| create: "\<lbrakk>namespace_run order s; Filer_CreateEntry (Some (mem_ops order)) e s = (r, s')\<rbrakk> \<Longrightarrow> namespace_run order s'"
| update: "\<lbrakk>namespace_run order s; mem_FindEntry s (e_FullPath e) = Inr e0; Filer_UpdateEntry (Some (mem_ops order)) e s = (r, s')\<rbrakk>
    \<Longrightarrow> namespace_run order s'"
| delete: "\<lbrakk>namespace_run order s; \<forall>q e. mem_FindEntry s q = Inr e \<longrightarrow> q = fp \<or> fst (DirAndName q) \<noteq> fp;
     Filer_DeleteEntry (Some (mem_ops order)) fp s = (r, s')\<rbrakk> \<Longrightarrow> namespace_run order s'"
| delete_tree: "\<lbrakk>namespace_run order s; mem_DeleteFolderChildren s fp = (r, s')\<rbrakk> \<Longrightarrow> namespace_run order s'"

lemma namespace_run_closed: "namespace_run order s \<Longrightarrow> closed (ms_entries s)"
proof (induction rule: namespace_run.induct)
  case (start n)
  then show ?case by (simp add: mem_New_def closed_def)
next
  case (mkdir s now p r s')
  then show ?case using closed_mkdir by blast
next
  case (create s e r s')
  then show ?case using closed_create by blast
next
  case (update s e e0 r s')
  then have "ms_entries s' = (ms_entries s)(e_FullPath e \<mapsto> e)" "e_FullPath e \<in> dom (ms_entries s)"
    by (auto simp: Filer_UpdateEntry_def lift_store_def mem_upsert_def mem_FindEntry_def split: option.splits)
  then show ?case using update.IH unfolding closed_def by (simp add: insert_absorb)
next
  case (delete s fp r s')
  have "ms_entries s' = (ms_entries s)(fp := None)"
    using delete.hyps(3) by (auto simp: Filer_DeleteEntry_def lift_store_def mem_DeleteEntry_def)
  moreover have "fst (DirAndName q) \<noteq> fp" if "q \<noteq> fp" "q \<in> dom (ms_entries s)" for q
  proof -
    have "\<exists>e. mem_FindEntry s q = Inr e" using that(2) by (auto simp: mem_FindEntry_def)
    then show ?thesis using delete.hyps(2) that(1) by blast
  qed
  ultimately show ?case using delete.IH unfolding closed_def dom_fun_upd by auto
next
  case (delete_tree s fp r s')
  then show ?case using closed_delete_tree [of s fp] by simp
qed



text \<open>Deleting a directory that has children leaves them without one.\<close>

lemma delete_orphans:
  "let s = snd (MkdirAll (Some (mem_ops order)) 0 ''/a/b'' (mem_New [])); s' = snd (Filer_DeleteEntry (Some (mem_ops order)) ''/a'' s)
   in (\<exists>e. mem_FindEntry s' ''/a/b'' = Inr e) \<and> mem_FindEntry s' (fst (DirAndName ''/a/b'')) = Inl ErrNotFound"
  by (simp add: MkdirAll_def trim_slashes_def child_path_def mem_New_def mem_FindEntry_def mem_upsert_def Filer_DeleteEntry_def
      lift_store_def mem_DeleteEntry_def DirAndName_def dir_entry_def Let_def)

section \<open>Listing\<close>

definition children :: "(Store \<Rightarrow> string list) \<Rightarrow> Store \<Rightarrow> FullPath \<Rightarrow> (string \<times> Entry) list" where
  "children order s dir = sort_key fst (named_children (List.map_filter (ms_entries s) (order s)) dir [])"

definition after :: "string \<Rightarrow> (string \<times> 'a) list \<Rightarrow> (string \<times> 'a) list" where
  "after start xs = [(n, e) \<leftarrow> xs. start = [] \<or> start < n]"

lemma list_loop_collect:
  assumes "limit > 0" "0 \<le> count" "count < limit"
  shows "snd (list_loop start False limit collect xs cur count acc) = acc @ map snd (take (nat (limit - count)) (after start xs))"
  using assms(2,3)
proof (induction xs arbitrary: cur count acc)
  case Nil
  then show ?case by (simp add: after_def)
next
  case (Cons x xs)
  obtain n e where x: "x = (n, e)" by force
  show ?case
  proof (cases "start = [] \<or> start < n")
    case True
    then have "after start (x # xs) = (n, e) # after start xs" "\<not> (start \<noteq> [] \<and> n \<le> start)" by (auto simp: x after_def)
    moreover have "nat (limit - count) = Suc (nat (limit - (count + 1)))" using Cons.prems by simp
    moreover have "count + 1 \<ge> limit \<Longrightarrow> nat (limit - (count + 1)) = 0" by simp
    ultimately show ?thesis using Cons.IH [of "count + 1" n "acc @ [e]"] Cons.prems assms(1)
      by (cases "count + 1 \<ge> limit"; cases "start = []") (simp_all add: x collect_def)
  next
    case False
    then have "after start (x # xs) = after start xs" "start \<noteq> [] \<and> n \<le> start" by (auto simp: x after_def)
    then show ?thesis using Cons.IH [of count cur acc] Cons.prems by (simp add: x)
  qed
qed

lemma list_page:
  assumes "limit > 0"
  shows "Filer_ListDirectoryEntries (Some (mem_ops order)) dir start limit s =
    (let es = map snd (take (nat limit) (after start (children order s dir))) in
     (es, if es = [] then [] else snd (DirAndName (e_FullPath (last es))), None))"
  using list_loop_collect [OF assms, of 0 start "children order s dir" "[]" "[]"] assms
  unfolding Filer_ListDirectoryEntries_def children_def [symmetric] option.case mem_ops_sel mem_listEntries_def Let_def
  by (cases "list_loop start False limit collect (children order s dir) [] 0 []") (simp del: map_is_Nil_conv)

text \<open>A client that follows the cursor, page by page, until a page is empty; \<open>n\<close> bounds the number of requests.\<close>

fun follow :: "nat \<Rightarrow> (Store \<Rightarrow> string list) \<Rightarrow> FullPath \<Rightarrow> string \<Rightarrow> int \<Rightarrow> Store \<Rightarrow> Entry list option" where
  "follow 0 order dir start limit s = None"
| "follow (Suc n) order dir start limit s =
     (case Filer_ListDirectoryEntries (Some (mem_ops order)) dir start limit s of
        (es, cur, _) \<Rightarrow> if es = [] then Some [] else map_option ((@) es) (follow n order dir cur limit s))"

lemma map_filter_in: "x \<in> set (List.map_filter f xs) \<longleftrightarrow> (\<exists>y \<in> set xs. f y = Some x)"
  by (induction xs) (auto simp: List.map_filter_def)

lemma length_map_filter: "length (List.map_filter f xs) \<le> length xs"
  by (simp add: List.map_filter_def)

lemma named_children_set:
  "snd ` set (named_children es dir []) = {e \<in> set es. fst (DirAndName (e_FullPath e)) = dir}"
  by (induction es) (auto simp: named_children_def List.map_filter_def split_beta)

lemma find_Inr_iff: "mem_FindEntry s p = Inr e \<longleftrightarrow> ms_entries s p = Some e"
  by (simp add: mem_FindEntry_def split: option.split)

lemma children_in: "x \<in> set (children order s dir) \<Longrightarrow> DirAndName (e_FullPath (snd x)) = (dir, fst x)"
  by (auto simp: children_def named_children_def map_filter_in split_beta split: if_splits)

lemma after_sorted:
  assumes "sorted (map fst xs)" "distinct (map fst xs)" "k < length xs" "fst (xs ! k) \<noteq> []"
  shows "after (fst (xs ! k)) xs = drop (Suc k) xs"
proof -
  let ?P = "\<lambda>(n, e). fst (xs ! k) = [] \<or> fst (xs ! k) < n"
  have mono: "i \<le> j \<Longrightarrow> j < length xs \<Longrightarrow> fst (xs ! i) \<le> fst (xs ! j)" for i j
    using sorted_nth_mono [OF assms(1), of i j] by simp
  have diff: "i \<noteq> j \<Longrightarrow> i < length xs \<Longrightarrow> j < length xs \<Longrightarrow> fst (xs ! i) \<noteq> fst (xs ! j)" for i j
    using nth_eq_iff_index_eq [OF assms(2), of i j] by simp
  have "fst (take (Suc k) xs ! j) \<le> fst (xs ! k)" if "j < length (take (Suc k) xs)" for j
    using mono [of j k] that assms(3) by simp
  then have "\<forall>y \<in> set (take (Suc k) xs). fst y \<le> fst (xs ! k)" by (metis in_set_conv_nth)
  then have "filter ?P (take (Suc k) xs) = []" using assms(4) by (auto simp: filter_empty_conv)
  moreover have "fst (xs ! k) < fst (drop (Suc k) xs ! j)" if "j < length (drop (Suc k) xs)" for j
    using mono [of k "Suc k + j"] diff [of k "Suc k + j"] that assms(3) by (intro le_neq_trans) simp_all
  then have "\<forall>y \<in> set (drop (Suc k) xs). fst (xs ! k) < fst y" by (metis in_set_conv_nth)
  then have "filter ?P (drop (Suc k) xs) = drop (Suc k) xs" by (intro filter_True) (auto split: prod.split)
  ultimately show ?thesis unfolding after_def by (metis append_Nil append_take_drop_id filter_append)
qed

lemma follow_drop:
  assumes "limit > 0" "xs = children order s dir" "distinct (map fst xs)" "[] \<notin> fst ` set xs"
    and "k \<le> length xs" "length xs - k < n" "start = (if k = 0 then [] else fst (xs ! (k - 1)))"
  shows "follow n order dir start limit s = Some (map snd (drop k xs))"
  using assms(5-7)
proof (induction n arbitrary: k start)
  case (Suc n)
  have sorted: "sorted (map fst xs)" by (simp add: assms(2) children_def)
  have ne: "fst (xs ! (k - 1)) \<noteq> []" if "k \<noteq> 0"
  proof -
    have "xs ! (k - 1) \<in> set xs" using that Suc.prems(1) by simp
    then show ?thesis using assms(4) by (metis imageI)
  qed
  have rest: "after start xs = drop k xs"
    using after_sorted [OF sorted assms(3), of "k - 1"] ne Suc.prems(1,3) by (cases k) (auto simp: after_def)
  let ?es = "map snd (take (nat limit) (drop k xs))"
  show ?case
  proof (cases "k = length xs")
    case True
    then show ?thesis using rest by (simp add: list_page [OF assms(1)] Let_def assms(2) [symmetric])
  next
    case False
    define k' where "k' = min (length xs) (k + nat limit)"
    have k': "k < k'" "k' \<le> length xs" using False Suc.prems(1) assms(1) by (auto simp: k'_def)
    have take: "take (nat limit) (drop k xs) = take (k' - k) (drop k xs)"
      by (rule nth_equalityI) (auto simp: k'_def)
    have es: "?es \<noteq> []" using k' by (auto simp: take)
    have "last (take (k' - k) (drop k xs)) = xs ! (k' - 1)"
      using k' by (subst last_conv_nth) auto
    then have last: "last ?es = snd (xs ! (k' - 1))" using es by (simp add: take last_map)
    have "xs ! (k' - 1) \<in> set xs" using k' by simp
    then have cur: "snd (DirAndName (e_FullPath (last ?es))) = fst (xs ! (k' - 1))"
      using children_in [of "xs ! (k' - 1)" order s dir] unfolding last by (simp add: assms(2))
    have "follow n order dir (fst (xs ! (k' - 1))) limit s = Some (map snd (drop k' xs))"
      using Suc.IH [of k'] k' Suc.prems(2) by simp
    then have "follow (Suc n) order dir start limit s = Some (?es @ map snd (drop k' xs))"
      using rest es cur by (simp add: list_page [OF assms(1)] Let_def assms(2) [symmetric] del: map_is_Nil_conv)
    moreover have "drop k' xs = drop (k' - k) (drop k xs)" using k' by simp
    ultimately show ?thesis unfolding take by (metis append_take_drop_id map_append)
  qed
qed simp

text \<open>Stores whose entries are kept under their own, canonical paths, with none at the root itself.\<close>

definition keyed :: "Store \<Rightarrow> bool" where
  "keyed s = (\<forall>p e. ms_entries s p = Some e \<longrightarrow> e_FullPath e = p \<and> canonical p \<and> snd (DirAndName p) \<noteq> [])"

lemma named_children_names:
  assumes "distinct (map e_FullPath es)" "\<forall>e \<in> set es. canonical (e_FullPath e)"
  shows "distinct (map fst (named_children es dir []))"
  using assms
proof (induction es)
  case Nil
  then show ?case by (simp add: named_children_def List.map_filter_def)
next
  case (Cons e es)
  have step: "named_children (e # es) dir [] =
      (if fst (DirAndName (e_FullPath e)) = dir then [(snd (DirAndName (e_FullPath e)), e)] else []) @ named_children es dir []"
    by (simp add: named_children_def List.map_filter_def split_beta)
  have "snd (DirAndName (e_FullPath e)) \<notin> fst ` set (named_children es dir [])" if "fst (DirAndName (e_FullPath e)) = dir"
  proof
    assume "snd (DirAndName (e_FullPath e)) \<in> fst ` set (named_children es dir [])"
    then obtain e' where e': "e' \<in> set es" "DirAndName (e_FullPath e') = (dir, snd (DirAndName (e_FullPath e)))"
      by (auto simp: named_children_def map_filter_in split_beta split: if_splits)
    then have "DirAndName (e_FullPath e') = DirAndName (e_FullPath e)" using that by (simp add: prod_eq_iff)
    then have "e_FullPath e' = e_FullPath e" using DirAndName_canonical_inj Cons.prems(2) e'(1) by simp
    then have "e_FullPath e \<in> e_FullPath ` set es" using e'(1) by (metis imageI)
    then show False using Cons.prems(1) by simp
  qed
  then show ?case using Cons by (simp add: step)
qed

lemma stored_paths:
  assumes "keyed s" "set ks \<subseteq> dom (ms_entries s)"
  shows "map e_FullPath (List.map_filter (ms_entries s) ks) = ks"
  using assms(2) assms(1) by (induction ks) (auto simp: keyed_def List.map_filter_def)

lemma children_facts:
  assumes "keyed s" "distinct (order s)" "set (order s) = dom (ms_entries s)"
  shows "distinct (map fst (children order s dir))" "[] \<notin> fst ` set (children order s dir)"
    and "set (map snd (children order s dir)) = {e. \<exists>p. mem_FindEntry s p = Inr e \<and> fst (DirAndName p) = dir}"
    and "length (children order s dir) \<le> card (dom (ms_entries s))"
proof -
  let ?es = "List.map_filter (ms_entries s) (order s)"
  have mem: "e \<in> set ?es \<longleftrightarrow> (\<exists>p. ms_entries s p = Some e)" for e using assms(3) by (auto simp: map_filter_in dom_def)
  have paths: "map e_FullPath ?es = order s" using stored_paths assms(1,3) by simp
  have canon: "\<forall>e \<in> set ?es. canonical (e_FullPath e)" using mem assms(1) by (auto simp: keyed_def)
  have "distinct (map fst (named_children ?es dir []))" using named_children_names paths assms(2) canon by simp
  then show "distinct (map fst (children order s dir))" by (simp add: children_def distinct_map)
  show "[] \<notin> fst ` set (children order s dir)"
    using mem assms(1) by (auto simp: keyed_def children_def named_children_def map_filter_in split_beta split: if_splits)
  show "set (map snd (children order s dir)) = {e. \<exists>p. mem_FindEntry s p = Inr e \<and> fst (DirAndName p) = dir}"
    using mem assms(1) by (auto simp: keyed_def children_def named_children_set find_Inr_iff)
  have "length (named_children ?es dir []) \<le> length ?es"
    unfolding named_children_def by (rule length_map_filter)
  also have "\<dots> = card (dom (ms_entries s))" using paths assms(2,3) by (metis distinct_card length_map)
  finally show "length (children order s dir) \<le> card (dom (ms_entries s))" by (simp add: children_def)
qed

text \<open>C18: following the cursor lists a directory. With any page size, the client that asks page after page until
  one is empty stops within one request more than there are entries, and has then received exactly the entries
  of the directory, each once, in the order of their names.\<close>

theorem follow_lists_directory:
  assumes "keyed s" "distinct (order s)" "set (order s) = dom (ms_entries s)" "limit > 0" "card (dom (ms_entries s)) < n"
  shows "\<exists>es. follow n order dir [] limit s = Some es \<and>
    set es = {e. \<exists>p. mem_FindEntry s p = Inr e \<and> fst (DirAndName p) = dir} \<and>
    distinct es \<and> sorted (map (\<lambda>e. snd (DirAndName (e_FullPath e))) es)"
proof -
  let ?xs = "children order s dir"
  note facts = children_facts [of s order dir, OF assms(1-3)]
  have run: "follow n order dir [] limit s = Some (map snd ?xs)"
    using follow_drop [OF assms(4) refl facts(1,2), of 0 n "[]"] facts(4) assms(5) by simp
  have names: "map (\<lambda>e. snd (DirAndName (e_FullPath e))) (map snd ?xs) = map fst ?xs"
    by (simp add: children_in cong: map_cong)
  have "sorted (map fst ?xs)" by (simp add: children_def)
  moreover have "distinct (map snd ?xs)" using facts(1) unfolding names [symmetric] by (rule distinct_map [THEN iffD1, THEN conjunct1])
  ultimately show ?thesis using run facts(3) by (intro exI [of _ "map snd ?xs"] conjI) (simp_all only: names)
qed

definition two_dirs :: Store where
  "two_dirs = \<lparr>ms_name = [], ms_entries = [''/a'' \<mapsto> dir_entry 0 ''/a'', ''/b'' \<mapsto> dir_entry 0 ''/b''], ms_kv = Map.empty\<rparr>"

lemma follow_lists_directory_witness:
  "\<exists>es. follow 3 (\<lambda>_. [''/b'', ''/a'']) ''/'' [] 2 two_dirs = Some es \<and>
    set es = {e. \<exists>p. mem_FindEntry two_dirs p = Inr e \<and> fst (DirAndName p) = ''/''} \<and>
    distinct es \<and> sorted (map (\<lambda>e. snd (DirAndName (e_FullPath e))) es)"
proof (rule follow_lists_directory)
  have "seg_ok ''a''" "seg_ok ''b''" by (simp_all add: seg_ok_def)
  moreover have "path_of [''a''] = ''/a''" "path_of [''b''] = ''/b''" by (simp_all add: path_of_def)
  ultimately have "canonical ''/a''" "canonical ''/b''"
    using canonical_def by (metis empty_iff empty_set set_ConsD)+
  then show "keyed two_dirs" by (auto simp: keyed_def two_dirs_def dir_entry_def DirAndName_def split: if_splits)
  show "card (dom (ms_entries two_dirs)) < 3" by (simp add: two_dirs_def card_insert_if)
qed (auto simp: two_dirs_def)

section \<open>Path rules\<close>

text \<open>The rules are kept under their prefixes.\<close>

definition rules_keyed :: "FilerConf \<Rightarrow> bool" where
  "rules_keyed rules \<longleftrightarrow> (\<forall>p r. rules p = Some r \<longrightarrow> fr_PathPrefix r = p)"

lemma rules_keyed_edit: "rules_keyed rules \<Longrightarrow> rules_keyed (AddRule r rules)" "rules_keyed rules \<Longrightarrow> rules_keyed (RemoveRule p rules)"
  by (auto simp: rules_keyed_def AddRule_def RemoveRule_def)

text \<open>The longest prefix decides, whatever the order in which the rules are visited.\<close>

lemma MatchRule_longest:
  assumes "rules_keyed rules" "set order = dom rules"
  shows "(\<forall>p \<in> dom rules. \<not> HasPrefix path p) \<Longrightarrow> MatchRule order rules path = default_rule"
    and "p \<in> dom rules \<Longrightarrow> HasPrefix path p \<Longrightarrow>
      rules (fr_PathPrefix (MatchRule order rules path)) = Some (MatchRule order rules path) \<and>
      HasPrefix path (fr_PathPrefix (MatchRule order rules path)) \<and> length p \<le> length (fr_PathPrefix (MatchRule order rules path))"
proof -
  let ?f = "\<lambda>r. - int (length (fr_PathPrefix r))" and ?m = "filter (\<lambda>r. HasPrefix path (fr_PathPrefix r)) (List.map_filter rules order)"
  have mem: "r \<in> set ?m \<longleftrightarrow> rules (fr_PathPrefix r) = Some r \<and> HasPrefix path (fr_PathPrefix r)" for r
  proof -
    have "(\<exists>q \<in> set order. rules q = Some r) \<longleftrightarrow> rules (fr_PathPrefix r) = Some r"
    proof
      assume "\<exists>q \<in> set order. rules q = Some r"
      then show "rules (fr_PathPrefix r) = Some r" using assms(1) unfolding rules_keyed_def by blast
    next
      assume "rules (fr_PathPrefix r) = Some r"
      then show "\<exists>q \<in> set order. rules q = Some r" using assms(2) by (intro bexI [of _ "fr_PathPrefix r"]) auto
    qed
    then show ?thesis by (simp add: map_filter_in conj_commute)
  qed
  show "MatchRule order rules path = default_rule" if "\<forall>p \<in> dom rules. \<not> HasPrefix path p"
  proof -
    have "r \<notin> set ?m" for r using that mem [of r] by blast
    then have "?m = []" by (metis list.set_intros(1) neq_Nil_conv)
    then show ?thesis by (simp add: MatchRule_def)
  qed
  assume p: "p \<in> dom rules" "HasPrefix path p"
  then obtain r where "rules p = Some r" by blast
  moreover then have "fr_PathPrefix r = p" using assms(1) unfolding rules_keyed_def by blast
  ultimately have r: "r \<in> set ?m" "fr_PathPrefix r = p" using p(2) mem [of r] by auto
  define ys where "ys = sort_key ?f ?m"
  have ys: "set ys = set ?m" "sorted (map ?f ys)" unfolding ys_def by simp_all
  then obtain x xs where srt: "ys = x # xs" using r(1) by (cases ys) simp_all
  have "?f x \<le> ?f r" using ys(2) r(1) unfolding ys(1) [symmetric] srt by auto
  then have "length p \<le> length (fr_PathPrefix x)" "x \<in> set ?m" unfolding ys(1) [symmetric] using r(2) srt by simp_all
  moreover have "MatchRule order rules path = x" using srt unfolding ys_def by (simp add: MatchRule_def)
  ultimately show "rules (fr_PathPrefix (MatchRule order rules path)) = Some (MatchRule order rules path) \<and>
      HasPrefix path (fr_PathPrefix (MatchRule order rules path)) \<and> length p \<le> length (fr_PathPrefix (MatchRule order rules path))"
    using mem [of x] by simp
qed

text \<open>Any entry will do as a parent: an entry is created below a file.\<close>

lemma create_below_file:
  assumes "mem_FindEntry s ''/f'' = Inr f" "\<not> IsDirectory f" "e_FullPath e = ''/f/x''"
  shows "fst (Filer_CreateEntry (Some (mem_ops order)) e s) = Inr ()"
  using assms by (simp add: Filer_CreateEntry_def DirAndName_def mem_upsert_def lift_store_def)

end
