(* ===== verification/FilerGrpcProps.thy ===== *)
theory FilerGrpcProps
  imports FilerGrpc FilerProps
begin

text \<open>
  What the gRPC service of the filer guarantees: the paths it uses are canonical, an entry that was
  created is found as it was sent, a rename moves one entry, and what a subscriber is told of it.
\<close>

section \<open>Paths\<close>

lemma join_canonical: "canonical (joinDirectoryAndName d n)"
proof -
  let ?dir0 = "if d = [] then ''/'' else d"
  let ?dir = "if hd ?dir0 \<noteq> CHR ''/'' then ''/'' @ ?dir0 else ?dir0"
  have "?dir \<noteq> []" "hd ?dir = CHR ''/''" by (auto split: if_splits)
  then have "canonical (path_Clean ?dir)" "canonical (path_Clean (?dir @ ''/'' @ n))" "canonical (path_Clean (''/'' @ n))"
    using Clean_canonical by (auto simp del: hd_append2 simp add: hd_append)
  then show ?thesis unfolding joinDirectoryAndName_def Let_def by simp
qed

lemma join_child:
  assumes "\<forall>s \<in> set segs. seg_ok s" "seg_ok n"
  shows "joinDirectoryAndName (path_of segs) n = path_of (segs @ [n])"
proof -
  have n: "n \<noteq> []" using assms(2) unfolding seg_ok_def by blast
  show ?thesis
  proof (cases "segs = []")
    case True
    then show ?thesis using Clean_path_of [of "[n]"] assms(2) n by (simp add: joinDirectoryAndName_def path_of_def)
  next
    case False
    then have "path_of segs \<noteq> ''/''" using path_of_root [OF assms(1)] by simp
    then show ?thesis using n Clean_child [OF assms] by (simp add: joinDirectoryAndName_def Let_def)
  qed
qed

section \<open>Wire form\<close>

definition chunk_ok :: "PbChunk \<Rightarrow> bool" where
  "chunk_ok c \<longleftrightarrow> 0 \<le> sint (pc_Size c) \<and> pc_Fid c = pc_FileId c"

definition wire_ok :: "PbEntry \<Rightarrow> bool" where
  "wire_ok p \<longleftrightarrow> seg_ok (pe_Name p) \<and> (\<forall>c \<in> set (pe_Chunks p). c \<noteq> None \<and> chunk_ok (the c)) \<and>
     (case pe_Attributes p of None \<Rightarrow> False | Some a \<Rightarrow> pe_IsDirectory p \<longleftrightarrow> and (fa_FileMode a) ModeDir \<noteq> 0)"

lemma chunk_roundtrip: "chunk_ok c \<Longrightarrow> chunkToProto (protoToChunk c) = c"
  by (cases c) (simp add: chunk_ok_def chunkToProto_def protoToChunk_def)

lemma chunks_roundtrip:
  "\<forall>c \<in> set cs. c \<noteq> None \<and> chunk_ok (the c) \<Longrightarrow>
   map (\<lambda>c. Some (chunkToProto c)) (List.map_filter id (map (\<lambda>c. Some (protoToChunk c)) (List.map_filter id cs))) = cs"
  by (induction cs) (auto simp: List.map_filter_def chunk_roundtrip)

lemma ModeDir_bit: "bit (ModeDir :: u32) n \<longleftrightarrow> n = 31"
  unfolding ModeDir_def bit_push_bit_iff by (auto simp: bit_1_iff)

lemma and_ModeDir: "and m ModeDir \<noteq> 0 \<longleftrightarrow> bit m 31"
proof -
  have "bit (and m ModeDir) n \<longleftrightarrow> n = 31 \<and> bit m 31" for n unfolding bit_and_iff ModeDir_bit by blast
  then show ?thesis by (metis bit_0_eq bot_apply bit_eq_iff bot_bool_def)
qed

lemma or_ModeDir: "bit m 31 \<Longrightarrow> or m ModeDir = m"
  by (rule bit_eqI) (auto simp only: ModeDir_bit bit_or_iff)

lemma attr_roundtrip:
  assumes "d \<longleftrightarrow> and (fa_FileMode a) ModeDir \<noteq> 0"
  shows "entryAttrToProto (protoAttrToEntry (Some a) d) = a" "and (at_Mode (protoAttrToEntry (Some a) d)) ModeDir \<noteq> 0 \<longleftrightarrow> d"
proof -
  have "d \<Longrightarrow> or (fa_FileMode a) ModeDir = fa_FileMode a" using assms or_ModeDir unfolding and_ModeDir by blast
  then have mode: "at_Mode (protoAttrToEntry (Some a) d) = fa_FileMode a" by (simp add: protoAttrToEntry_def Let_def)
  then show "and (at_Mode (protoAttrToEntry (Some a) d)) ModeDir \<noteq> 0 \<longleftrightarrow> d" using assms by simp
  show "entryAttrToProto (protoAttrToEntry (Some a) d) = a"
    unfolding entryAttrToProto_def mode by (intro FuseAttributes.equality) (simp_all add: protoAttrToEntry_def Let_def)
qed

lemma remote_roundtrip:
  "map_option (\<lambda>r. \<lparr>pr_StorageName = re_StorageName r, pr_RemotePath = re_Key r, pr_RemoteETag = re_ETag r\<rparr>)
    (map_option (\<lambda>r. \<lparr>re_StorageName = pr_StorageName r, re_Key = pr_RemotePath r, re_ETag = pr_RemoteETag r, re_StoredName = []\<rparr>) x) = x"
  by (cases x) simp_all

lemma entry_roundtrip:
  assumes "wire_ok p" "\<forall>s \<in> set segs. seg_ok s" "protoToEntry (path_of segs) (Some p) = Some e"
  shows "entryToProto e = p" and "e_FullPath e = path_of (segs @ [pe_Name p])"
proof -
  obtain a where a: "pe_Attributes p = Some a" "pe_IsDirectory p \<longleftrightarrow> and (fa_FileMode a) ModeDir \<noteq> 0"
    using assms(1) by (auto simp: wire_ok_def split: option.splits)
  have ok: "seg_ok (pe_Name p)" "\<forall>c \<in> set (pe_Chunks p). c \<noteq> None \<and> chunk_ok (the c)" using assms(1) unfolding wire_ok_def by blast+
  have name: "CHR ''/'' \<notin> set (pe_Name p)" using ok(1) unfolding seg_ok_def by blast
  show path: "e_FullPath e = path_of (segs @ [pe_Name p])"
    using assms(3) join_child [OF assms(2) ok(1)] by (auto simp: protoToEntry_def)
  have e: "e = \<lparr>e_FullPath = path_of (segs @ [pe_Name p]), e_Attr = protoAttrToEntry (Some a) (pe_IsDirectory p),
      e_Chunks = map (\<lambda>c. Some (protoToChunk c)) (List.map_filter id (pe_Chunks p)), e_Content = pe_Content p,
      e_Extended = pe_Extended p, e_HardLinkId = pe_HardLinkId p, e_HardLinkCounter = pe_HardLinkCounter p,
      e_Remote = map_option (\<lambda>r. \<lparr>re_StorageName = pr_StorageName r, re_Key = pr_RemotePath r, re_ETag = pr_RemoteETag r, re_StoredName = []\<rparr>)
        (pe_Remote p)\<rparr>"
    using assms(3) a(1) join_child [OF assms(2) ok(1)] by (simp add: protoToEntry_def)
  show "entryToProto e = p"
    unfolding entryToProto_def IsDirectory_def
    using name attr_roundtrip [OF a(2)] chunks_roundtrip [OF ok(2)] a(1)
    by (intro PbEntry.equality) (simp_all add: e remote_roundtrip)
qed

section \<open>Handlers\<close>

lemma log_event_sel [simp]:
  "fs_ops (log_event now msg fs) = fs_ops fs" "fs_store (log_event now msg fs) = fs_store fs"
  by (simp_all add: log_event_def split: prod.split)

lemma log_event_log: "AppendEntry now (to_bytes msg) (fs_log fs) = (lb, calls) \<Longrightarrow> fs_log (log_event now msg fs) = lb"
  by (simp add: log_event_def)

lemma mem_lookup:
  "fs_ops fs = Some (mem_ops order) \<Longrightarrow> LookupDirectoryEntry d n fs =
    (case ms_entries (fs_store fs) (joinDirectoryAndName d n) of None \<Rightarrow> Inl GNotFound | Some e \<Rightarrow> Inr (entryToProto e))"
  by (simp add: LookupDirectoryEntry_def Filer_FindEntry_def mem_FindEntry_def lookup_error_def split: option.split)

lemma mem_create:
  assumes "grpc_CreateEntry now dir (Some p) fs = (Inr (), fs')" "fs_ops fs = Some (mem_ops order)" "protoToEntry dir (Some p) = Some e"
  shows "fs_ops fs' = Some (mem_ops order)" "ms_entries (fs_store fs') = (ms_entries (fs_store fs))(e_FullPath e \<mapsto> e)"
    and "fs' = log_event now (''create:'' @ e_FullPath e) (fs\<lparr>fs_store := fs_store fs'\<rparr>)"
  using assms
  by (auto simp: grpc_CreateEntry_def Filer_CreateEntry_def lift_store_def mem_upsert_def Let_def split: sum.splits prod.splits if_splits)


text \<open>A file sent to a new server.\<close>

definition wire_file :: PbEntry where
  "wire_file = \<lparr>pe_Name = ''f'', pe_IsDirectory = False, pe_Chunks = [],
     pe_Attributes = Some \<lparr>fa_FileSize = 0, fa_Mtime = 7, fa_FileMode = 0, fa_Uid = 0, fa_Gid = 0, fa_Crtime = 7, fa_Mime = [], fa_Replication = [],
       fa_Collection = [], fa_TtlSec = 0, fa_SymlinkTarget = [], fa_DiskType = [], fa_Inode = 0\<rparr>,
     pe_Extended = Map.empty, pe_Content = [], pe_HardLinkId = [], pe_HardLinkCounter = 0, pe_Remote = None\<rparr>"

definition new_server :: "(Store \<Rightarrow> string list) \<Rightarrow> Store FilerServer" where
  "new_server order = \<lparr>fs_ops = Some (mem_ops order), fs_store = mem_New [], fs_log = NewLogBuffer 0 0 True, fs_flushed = []\<rparr>"

lemma wire_file_ok: "wire_ok wire_file"
  by (simp add: wire_ok_def wire_file_def seg_ok_def)

lemma wire_file_paths: "joinDirectoryAndName ''/'' ''f'' = ''/f''" "joinDirectoryAndName ''/'' ''g'' = ''/g''"
proof -
  have "seg_ok ''f''" "seg_ok ''g''" by (simp_all add: seg_ok_def)
  then show "joinDirectoryAndName ''/'' ''f'' = ''/f''" "joinDirectoryAndName ''/'' ''g'' = ''/g''"
    using join_child [of "[]" "''f''"] join_child [of "[]" "''g''"] by (simp_all add: path_of_def)
qed

lemma wire_file_created: "fst (grpc_CreateEntry now ''/'' (Some wire_file) (new_server order)) = Inr ()"
  by (simp add: grpc_CreateEntry_def new_server_def protoToEntry_def wire_file_def Filer_CreateEntry_def DirAndName_def lift_store_def
      mem_upsert_def Let_def wire_file_paths)


section \<open>Renames\<close>

lemma mem_rename:
  assumes "fs_ops fs = Some (mem_ops order)" "joinDirectoryAndName d n = old" "joinDirectoryAndName d' n' = new"
    and "ms_entries (fs_store fs) old = Some e" "AtomicRenameEntry now d n d' n' fs = (r, fs')"
  shows "r = Inr ()" "ms_entries (fs_store fs') = (ms_entries (fs_store fs))(new \<mapsto> e\<lparr>e_FullPath := new\<rparr>, old := None)"
    and "fs_ops fs' = Some (mem_ops order)" "fs' = log_event now (''rename:'' @ old @ ''->'' @ new) (fs\<lparr>fs_store := fs_store fs'\<rparr>)"
  using assms
  by (auto simp: AtomicRenameEntry_def Filer_FindEntry_def mem_FindEntry_def Filer_UpdateEntry_def Filer_DeleteEntry_def
      lift_store_def mem_upsert_def mem_DeleteEntry_def Let_def split: sum.splits prod.splits option.splits)

text \<open>C20: a rename to another path moves the entry. It succeeds when the source exists, the entry is then found
  under the new path with everything but its name as before, no entry is found under the old one, and
  lookups of other paths return what they did.\<close>

theorem rename_moves:
  assumes "fs_ops fs = Some (mem_ops order)" "LookupDirectoryEntry d n fs = Inr p"
    and "joinDirectoryAndName d n \<noteq> joinDirectoryAndName d' n'" "AtomicRenameEntry now d n d' n' fs = (r, fs')"
  shows "r = Inr () \<and> LookupDirectoryEntry d' n' fs' = Inr (p\<lparr>pe_Name := snd (DirAndName (joinDirectoryAndName d' n'))\<rparr>) \<and>
    LookupDirectoryEntry d n fs' = Inl GNotFound \<and>
    (joinDirectoryAndName d2 n2 \<notin> {joinDirectoryAndName d n, joinDirectoryAndName d' n'} \<longrightarrow>
      LookupDirectoryEntry d2 n2 fs' = LookupDirectoryEntry d2 n2 fs)"
proof -
  obtain e where e: "ms_entries (fs_store fs) (joinDirectoryAndName d n) = Some e" "p = entryToProto e"
    using assms(2) by (auto simp: mem_lookup [OF assms(1)] split: option.splits)
  note mv = mem_rename [OF assms(1) refl refl e(1) assms(4)]
  have "entryToProto (e\<lparr>e_FullPath := x\<rparr>) = p\<lparr>pe_Name := snd (DirAndName x)\<rparr>" for x
    by (simp add: e(2) entryToProto_def IsDirectory_def)
  then show ?thesis using mv(1) assms(3) unfolding mem_lookup [OF mv(3)] mem_lookup [OF assms(1)] mv(2) by auto
qed

definition one_file :: "(Store \<Rightarrow> string list) \<Rightarrow> Store FilerServer" where
  "one_file order = (new_server order)\<lparr>fs_store :=
     \<lparr>ms_name = [], ms_entries = [''/f'' \<mapsto> the (protoToEntry ''/'' (Some wire_file))], ms_kv = Map.empty\<rparr>\<rparr>"

lemma one_file_lookup: "LookupDirectoryEntry ''/'' ''f'' (one_file order) = Inr wire_file"
proof -
  obtain e where "protoToEntry ''/'' (Some wire_file) = Some e" by (simp add: protoToEntry_def)
  then show ?thesis using entry_roundtrip(1) [OF wire_file_ok, of "[]" e]
    by (simp add: mem_lookup [of _ order] one_file_def new_server_def wire_file_paths)
qed

lemma rename_moves_witness:
  "let fs = snd (AtomicRenameEntry 9 ''/'' ''f'' ''/'' ''g'' (one_file (\<lambda>_. []))) in
   LookupDirectoryEntry ''/'' ''g'' fs = Inr (wire_file\<lparr>pe_Name := ''g''\<rparr>) \<and> LookupDirectoryEntry ''/'' ''f'' fs = Inl GNotFound"
proof -
  have "fs_ops (one_file (\<lambda>_. [])) = Some (mem_ops (\<lambda>_. []))" by (simp add: one_file_def new_server_def)
  from rename_moves [OF this one_file_lookup, of "''/''" "''g''" 9] show ?thesis
    by (cases "AtomicRenameEntry 9 ''/'' ''f'' ''/'' ''g'' (one_file (\<lambda>_. []))") (simp add: wire_file_paths DirAndName_def)
qed

text \<open>A rename onto the same path deletes the entry, and one of a directory leaves its children behind.\<close>

lemma rename_onto_itself:
  assumes "fs_ops fs = Some (mem_ops order)" "LookupDirectoryEntry d n fs = Inr p" "AtomicRenameEntry now d n d n fs = (r, fs')"
  shows "r = Inr ()" "LookupDirectoryEntry d n fs' = Inl GNotFound"
proof -
  obtain e where e: "ms_entries (fs_store fs) (joinDirectoryAndName d n) = Some e"
    using assms(2) by (auto simp: mem_lookup [OF assms(1)] split: option.splits)
  note mv = mem_rename [OF assms(1) refl refl e assms(3)]
  show "r = Inr ()" by (rule mv(1))
  show "LookupDirectoryEntry d n fs' = Inl GNotFound" unfolding mem_lookup [OF mv(3)] mv(2) by simp
qed

lemma rename_leaves_children:
  assumes "fs_ops fs = Some (mem_ops order)" "LookupDirectoryEntry d n fs = Inr p" "AtomicRenameEntry now d n d' n' fs = (r, fs')"
    and "LookupDirectoryEntry (joinDirectoryAndName d n) c fs = Inr q"
    and "joinDirectoryAndName (joinDirectoryAndName d n) c \<notin> {joinDirectoryAndName d n, joinDirectoryAndName d' n'}"
  shows "LookupDirectoryEntry (joinDirectoryAndName d n) c fs' = Inr q"
proof -
  obtain e where e: "ms_entries (fs_store fs) (joinDirectoryAndName d n) = Some e"
    using assms(2) by (auto simp: mem_lookup [OF assms(1)] split: option.splits)
  note mv = mem_rename [OF assms(1) refl refl e assms(3)]
  show ?thesis using assms(4,5) unfolding mem_lookup [OF mv(3)] mem_lookup [OF assms(1)] mv(2) by auto
qed

text \<open>An entry named \<open>".."\<close> below the root is stored at the root itself, and is listed with an empty name.\<close>

lemma create_at_root: "joinDirectoryAndName ''/'' ''..'' = ''/''" "DirAndName ''/'' = (''/'', [])"
  by (simp_all add: joinDirectoryAndName_def path_Clean_def DirAndName_def)

section \<open>Events\<close>

lemma cut_colon_app: "CHR '':'' \<notin> set op \<Longrightarrow> cut_colon (op @ CHR '':'' # target) = Some (op, target)"
  by (simp add: cut_colon_def)

lemma split_arrow_app: "split_arrow old = None \<Longrightarrow> split_arrow (old @ CHR ''-'' # CHR ''>'' # new) = Some (old, new)"
  by (induction old rule: split_arrow.induct) (auto split: if_splits)

definition response :: "int \<Rightarrow> FullPath \<Rightarrow> SubscribeResponse" where
  "response now p = \<lparr>sr_Directory = fst (DirAndName p), sr_TsNs = now, sr_OldEntry = None, sr_NewEntry = None, sr_NewParentPath = []\<rparr>"

lemma event_create:
  "p \<noteq> [] \<Longrightarrow> eventBytesToSubscribeResponse now (to_bytes (''create:'' @ p)) =
    Some ((response now p)\<lparr>sr_NewEntry := Some (snd (DirAndName p))\<rparr>)"
  using cut_colon_app [of "''create''" p] by (simp add: eventBytesToSubscribeResponse_def response_def Let_def split_beta)

lemma event_delete:
  "p \<noteq> [] \<Longrightarrow> eventBytesToSubscribeResponse now (to_bytes (''delete:'' @ p)) =
    Some ((response now p)\<lparr>sr_OldEntry := Some (snd (DirAndName p))\<rparr>)"
  using cut_colon_app [of "''delete''" p] by (simp add: eventBytesToSubscribeResponse_def response_def Let_def split_beta)

lemma event_rename:
  assumes "split_arrow old = None"
  shows "eventBytesToSubscribeResponse now (to_bytes (''rename:'' @ old @ ''->'' @ new)) =
    Some ((response now old)\<lparr>sr_OldEntry := Some (snd (DirAndName old)), sr_NewEntry := Some (snd (DirAndName new)),
      sr_NewParentPath := fst (DirAndName new)\<rparr>)"
  using cut_colon_app [of "''rename''" "old @ ''->'' @ new"] split_arrow_app [OF assms, of new]
  by (simp add: eventBytesToSubscribeResponse_def response_def Let_def split_beta)

text \<open>A subscription to everything from \<open>sinceNs\<close> on tells \<open>r\<close> last, unless the stream ends before.\<close>

definition announces :: "int \<Rightarrow> int \<Rightarrow> 's FilerServer \<Rightarrow> SubscribeResponse \<Rightarrow> bool" where
  "announces now sinceNs fs r \<longleftrightarrow> (\<exists>msgs nextTs. \<forall>accepts. SubscribeMetadata_turn accepts now [] sinceNs fs =
     (if accepts < length (msgs @ [r]) then SendFailed (take accepts (msgs @ [r])) else Sent (msgs @ [r]) nextTs))"

lemma logged_announced:
  assumes "lb_run hist handed (fs_log fs)" "0 < now" "\<forall>ev \<in> set hist. fst ev \<le> now" "sinceNs < now" "length msg < 2 ^ 32"
    and "eventBytesToSubscribeResponse now' (to_bytes msg) = Some r"
  shows "announces now' sinceNs (log_event now msg fs) r"
proof -
  obtain lb calls where app: "AppendEntry now (to_bytes msg) (fs_log fs) = (lb, calls)" by force
  obtain evs where read: "ReadFromBuffer sinceNs lb = (evs @ [to_bytes msg], now + 1)"
    using append_visible [OF assms(1-3) _ app assms(4)] assms(5) by auto
  have "wanted now' [] (evs @ [to_bytes msg]) = wanted now' [] evs @ [r]"
    using assms(6) by (simp add: wanted_def List.map_filter_def)
  then show ?thesis unfolding announces_def SubscribeMetadata_turn_def log_event_log [OF app] read using assms(4)
    by (intro exI [of _ "wanted now' [] evs"] exI [of _ "now + 1"]) simp
qed

lemma create_logs:
  "grpc_CreateEntry now d (Some p) fs = (Inr (), fs') \<Longrightarrow>
   \<exists>s. fs' = log_event now (''create:'' @ joinDirectoryAndName d (pe_Name p)) (fs\<lparr>fs_store := s\<rparr>)"
  by (auto simp: grpc_CreateEntry_def protoToEntry_def split: if_splits option.splits sum.splits prod.splits)

lemma delete_logs:
  "grpc_DeleteEntry now d n fs = (Inr (), fs') \<Longrightarrow> \<exists>s. fs' = log_event now (''delete:'' @ joinDirectoryAndName d n) (fs\<lparr>fs_store := s\<rparr>)"
  by (auto simp: grpc_DeleteEntry_def Let_def split: if_splits sum.splits prod.splits)

lemma rename_logs:
  "AtomicRenameEntry now d n d' n' fs = (Inr (), fs') \<Longrightarrow>
   \<exists>s. fs' = log_event now (''rename:'' @ joinDirectoryAndName d n @ ''->'' @ joinDirectoryAndName d' n') (fs\<lparr>fs_store := s\<rparr>)"
  by (auto simp: AtomicRenameEntry_def Let_def split: if_splits sum.splits prod.splits)

lemma join_not_Nil: "joinDirectoryAndName d n \<noteq> []"
  using join_canonical [of d n] hd_path_of(2) unfolding canonical_def by metis

text \<open>C21: changes are announced. Over any store, after a create, a delete or a rename that succeeded, the next turn
  of a subscription from an earlier time ends with the message that names the directory and the entry; for a
  rename the old and the new ones, provided the old path has no arrow in it.\<close>

theorem changes_announced:
  assumes "lb_run hist handed (fs_log fs)" "0 < now" "\<forall>ev \<in> set hist. fst ev \<le> now" "sinceNs < now"
    and "length (joinDirectoryAndName d n) < 2 ^ 30" "length (joinDirectoryAndName d' n') < 2 ^ 30"
  shows "(pe_Name p = n \<and> grpc_CreateEntry now d (Some p) fs = (Inr (), fs') \<longrightarrow>
      announces now' sinceNs fs' ((response now' (joinDirectoryAndName d n))\<lparr>sr_NewEntry := Some (snd (DirAndName (joinDirectoryAndName d n)))\<rparr>)) \<and>
    (grpc_DeleteEntry now d n fs = (Inr (), fs') \<longrightarrow>
      announces now' sinceNs fs' ((response now' (joinDirectoryAndName d n))\<lparr>sr_OldEntry := Some (snd (DirAndName (joinDirectoryAndName d n)))\<rparr>)) \<and>
    (AtomicRenameEntry now d n d' n' fs = (Inr (), fs') \<and> split_arrow (joinDirectoryAndName d n) = None \<longrightarrow>
      announces now' sinceNs fs' ((response now' (joinDirectoryAndName d n))\<lparr>sr_OldEntry := Some (snd (DirAndName (joinDirectoryAndName d n))),
        sr_NewEntry := Some (snd (DirAndName (joinDirectoryAndName d' n'))), sr_NewParentPath := fst (DirAndName (joinDirectoryAndName d' n'))\<rparr>))"
proof -
  have log: "announces now' sinceNs (log_event now msg (fs\<lparr>fs_store := s\<rparr>)) r"
    if "length msg < 2 ^ 32" "eventBytesToSubscribeResponse now' (to_bytes msg) = Some r" for msg r s
    using logged_announced [of hist handed "fs\<lparr>fs_store := s\<rparr>" now sinceNs msg now' r] assms(1-4) that by simp
  let ?p = "joinDirectoryAndName d n" and ?q = "joinDirectoryAndName d' n'"
  have "length (''create:'' @ ?p) < 2 ^ 32" "length (''delete:'' @ ?p) < 2 ^ 32" "length (''rename:'' @ ?p @ ''->'' @ ?q) < 2 ^ 32"
    using assms(5,6) by simp_all
  note create = log [OF this(1) event_create [OF join_not_Nil]] and delete = log [OF this(2) event_delete [OF join_not_Nil]]
    and rename = log [OF this(3) event_rename]
  show ?thesis using create delete rename create_logs [of now d p fs fs'] delete_logs [of now d n fs fs'] rename_logs [of now d n d' n' fs fs']
    by metis
qed

lemma changes_announced_witness:
  "announces 20 0 (snd (grpc_CreateEntry 9 ''/'' (Some wire_file) (new_server (\<lambda>_. []))))
     ((response 20 ''/f'')\<lparr>sr_NewEntry := Some ''f''\<rparr>)"
proof -
  let ?r = "grpc_CreateEntry 9 ''/'' (Some wire_file) (new_server (\<lambda>_. []))"
  have run: "lb_run [] [] (fs_log (new_server (\<lambda>_. [])))" by (simp add: new_server_def lb_run.start)
  have "?r = (Inr (), snd ?r)" "pe_Name wire_file = ''f''" using wire_file_created by (simp_all add: prod_eq_iff wire_file_def)
  with changes_announced [OF run, of 9 0 "''/''" "''f''" "''/''" "''g''" wire_file "snd ?r" 20]
  show ?thesis by (simp add: wire_file_paths DirAndName_def)
qed

text \<open>Updates and appended chunks are not announced, and the text of a rename does not determine its paths.\<close>

lemma updates_silent:
  "fs_log (snd (grpc_UpdateEntry d pb fs)) = fs_log fs" "fs_log (snd (AppendToEntry d n cs fs)) = fs_log fs"
  by (auto simp: grpc_UpdateEntry_def AppendToEntry_def split: option.split sum.split prod.split)

lemma rename_ambiguous:
  "eventBytesToSubscribeResponse now (to_bytes (''rename:'' @ ''/a->b'' @ ''->'' @ ''/c'')) =
   Some ((response now ''/a'')\<lparr>sr_OldEntry := Some ''a'', sr_NewEntry := Some ''c'', sr_NewParentPath := ''b->''\<rparr>)"
  using event_rename [of "''/a''" now "''b->/c''"] by (simp add: DirAndName_def)

end
