(* ===== verification/Spec2Isabelle.thy ===== *)
theory Spec2Isabelle
  imports CompactProps IndexRebuild SnowflakeProps SequencerProps RaftLog NativeStore TopologyProps VolumeGrowthProps
    VolumeStoreProps LruCache GuardProps VolumeServerProps VolumeCopyProps ChunkUpload MasterProps FilerGrpcProps
begin

text \<open>
  A verification of GoBlob, a distributed blob store written in Go (src/goblob).

  \<^bold>\<open>The program.\<close> Volume servers keep blobs, called needles, in volumes: an append-only data file
  with a superblock, and an index file that maps needle ids to records. A master knows the servers by
  their heartbeats, decides where a new blob goes, creates volumes with the replicas their placement
  asks for, and issues volume ids and file ids. Masters form a Raft cluster that replicates the highest
  ids. A filer keeps a tree of entries whose contents are chunks on volume servers, announces its
  changes in a log, and manages locks. Clients assign file ids, upload blobs and look volumes up. S3
  gateway, WebDAV and shell are clients of these.

  \<^bold>\<open>Theories and code, from the bottom.\<close>
  \<^item> \<open>GoPrelude\<close>: bytes, words, big-endian coding, decimal and hexadecimal printing and parsing, the
    result type, and the lemmas on them that the components share. \<open>GoPath\<close>: paths
    (util/full_path.go). \<open>NetAddr\<close>: the addresses of Go's net library.
  \<^item> \<open>CoreTypes\<close> (core/types/types.go): file ids, replica placement, TTL, offsets, server addresses,
    with their round trips.
  \<^item> \<open>Needle\<close>, \<open>NeedleCodec\<close>, \<open>NeedleProps\<close> (storage/needle): the record format. The writer that fills
    a buffer in place equals a reference layout; a record is read back wherever it stands in a file; a
    changed data byte is detected; the reader panics on exactly the headers that wrap.
  \<^item> \<open>OsFile\<close>: files as byte lists with positions, a device that holds a number of further bytes
    and then fails, also in the middle of a write, and rename, remove, truncate.
  \<^item> \<open>NeedleMap\<close>, \<open>NeedleMapProps\<close> (storage/volume/needle_map.go, superblock.go): the index, its file and
    the superblock.
  \<^item> \<open>Volume\<close>, \<open>VolumeProps\<close>, \<open>VolumeTraces\<close> (storage/volume/volume.go): opening, writing, reading and
    deleting. The invariant \<open>vol_ok\<close> relates a volume and its files to a map from ids to needles; every
    operation keeps it, and every history of operations and restarts refines the map.
  \<^item> \<open>Compact\<close>, \<open>CompactProps\<close>, \<open>IndexRebuild\<close> (storage/volume/compact.go and the rebuild in
    needle_map.go): compaction keeps the live needles; a rebuilt index finds the last records.
  \<^item> \<open>VolumeStore\<close>, \<open>VolumeStoreProps\<close> (storage/store.go, storage/volume/disk_location.go): the volumes of
    several directories. The invariant \<open>store_ok\<close> relates a store to a map from volume ids to maps of
    needles.
  \<^item> \<open>LruCache\<close> (cache): the cache of blobs. Its operations return, keep within the capacity and give
    back the last value put.
  \<^item> \<open>Guard\<close>, \<open>GuardProps\<close> (security/guard.go, middleware.go, rate_limit.go, validation.go): white lists,
    tokens, rate limits, validation.
  \<^item> \<open>VolumeServer\<close>, \<open>VolumeGrpc\<close>, \<open>VolumeServerProps\<close>, \<open>VolumeCopyProps\<close> (server/volume_server.go,
    volume_grpc_server.go, replication/replicator.go, replica_locations.go): the handlers over HTTP and
    gRPC, the heartbeat, the requests to replicas. What is written is read back; a copied volume reads
    the same; a master that processed the heartbeat knows the volumes of the server.
  \<^item> \<open>Sequencer\<close>, \<open>SequencerProps\<close>, \<open>SnowflakeProps\<close> (sequence): the three sources of file ids.
  \<^item> \<open>MasterFsm\<close> (raft/fsm.go, raft/events.go): commands, the replicated state machine, snapshots, and
    JSON values.
  \<^item> \<open>NativeRaft\<close>, \<open>RaftVoting\<close>, \<open>RaftElection\<close>, \<open>RaftLog\<close>, \<open>NativeStore\<close> (consensus/native): the Raft
    engine. A method that releases its mutex is cut into its locked segments; a cluster is a step
    relation over the segments of all engines and a network that delays, repeats, reorders and drops
    messages. \<open>RaftVoting\<close> is the abstract voting protocol that the cluster refines; \<open>RaftLog\<close> has the
    log, the commit rule, application and restart; \<open>NativeStore\<close> the file the state is saved in.
  \<^item> \<open>TopologyNodes\<close>, \<open>TopologyNodesProps\<close>, \<open>Topology\<close>, \<open>TopologyProps\<close> (topology): servers, layouts, the
    tree, heartbeats, lookup and volume ids. Data nodes are in a heap, because layouts keep pointers to
    nodes that left the tree.
  \<^item> \<open>VolumeGrowth\<close>, \<open>VolumeGrowthProps\<close> (topology/volume_growth.go): the choice of servers for a new
    volume, reservations, allocation and rollback.
  \<^item> \<open>MasterServer\<close> (server/master_server.go, master_server_handlers.go, master_grpc_server.go,
    cluster/registry.go): the handlers of the master over topology, sequencer and consensus engine.
    \<open>MasterProps\<close> has every change of a master as a step relation; whatever the interleaving, the answers
    that clients decode never carry an id twice.
  \<^item> \<open>FilerStore\<close>, \<open>Filer\<close>, \<open>FilerProps\<close> (filer): the store interface with the memory store, the
    operations on entries, path rules; the entries form a tree and are listed completely.
    \<open>LogBuffer\<close> (log_buffer), \<open>LockManager\<close> (filer/lock_manager.go). \<open>FilerGrpc\<close>, \<open>FilerGrpcProps\<close>
    (server/filer_grpc_server.go): the gRPC service over all three.
  \<^item> \<open>Operation\<close>, \<open>ChunkUpload\<close> (operation, wdclient): what clients do. \<open>ChunkUpload\<close> has the goroutines
    and channels of a chunked upload as a step relation; every run ends, and the theorem says in which
    cases it ends with an answer.

  \<^bold>\<open>Interfaces.\<close> Contracts between components are locales: \<open>NeedleMap_contract\<close> of an index,
  \<open>Sequencer_contract\<close> of a sequencer and \<open>raft_applier\<close> of what the Raft sequencer relies on,
  \<open>entry_store\<close> and \<open>kv_store\<close> of a filer store, \<open>Cache_contract\<close> of a cache. Each is interpreted on the
  definitions that model the code, and the theorems about clients go through the interpretation.

  \<^bold>\<open>How code is represented.\<close> A struct is a record, a method a function that returns the changed
  record; integers keep their width where the code can wrap. Errors are values of a sum type, a Go
  panic included. A Go map is a function to option; where its iteration order can be seen, the order
  is an argument. Clock readings, answers of other servers, directory listings, random numbers, the
  verification of tokens and digests are arguments as well; what a theorem needs of them is a
  hypothesis. Floating-point numbers are rationals.

  \<^bold>\<open>Bounds.\<close> Loops over data are structural or have termination proofs. The scan of a data file that
  can stand still on a malformed header ends when the device is full. Eviction of the cache is a
  partial function that is shown to return. Polling loops of the Raft engine take the number of rounds
  as an argument; waiting for the clock takes the list of its readings, and an exhausted list is the
  value \<open>None\<close>. A volume is assumed to stay below 32 GiB where the width of an offset matters.

  \<^bold>\<open>Not modelled.\<close> The S3 gateway and its signatures, WebDAV, the HTTP handlers of the filer, TLS, the
  database stores of the filer, generated protocol buffers, commands, configuration and metrics are
  input and output around third-party libraries; asynchronous replication, quotas, erasure coding,
  deduplication, tiering and the shell are loops over remote calls. The conversion of JSON values to
  text is taken to be that of Go's library. Inside a locked section other goroutines do not run; races
  outside locks are modelled for the Raft engine and the chunked upload only, so the limits of
  concurrent requests of the servers, which wait on condition variables, are left out.

  \<^bold>\<open>Differences found.\<close> Lemmas without a number show where the code departs from its comments or from
  what it means to do; they stand at the end of the theories concerned.
\<close>

end
